(* ===== verification/Go_Prelude.thy ===== *)
theory Go_Prelude
  imports Main "HOL-Library.Word"
begin

text \<open>
  Prelude of the development.  It fixes the machine types of the program (a Go \<open>uint\<close> and a
  \<open>CK_ULONG\<close> on LP64 are 64 bits wide, a byte is 8 bits), Go's error values, and the way a Go
  function is read as a state transformer: it returns, it panics, the process is aborted (a
  \<open>Crash\<close>: cgo's \<open>C.malloc\<close> never returns \<open>nil\<close>, it ends the process when memory runs out), or
  it does something the language and C leave undefined or never finish (a \<open>Fault\<close>: a read or
  write outside a live C block, a double free, a self-deadlock).  The combinators below are the control structures the code uses:
  sequencing, \<open>if err != nil { return err }\<close> (\<open>go_try\<close>) and \<open>defer\<close> (\<open>go_defer\<close>).
\<close>

section \<open>Machine types and collections\<close>

type_synonym byte = "8 word"
type_synonym uint = "64 word"

named_theorems ck_consts \<open>values of the generated PKCS \#11 constants\<close>
named_theorems go_run \<open>running the control structures on a state\<close>

section \<open>Errors and outcomes\<close>

text \<open>
  \<open>Error rv\<close> is the Go type \<open>cryptoki.Error\<close>, \<open>ErrClosed\<close> is \<open>errClosed\<close>, and
  \<open>Errf f args\<close> is an error made by \<open>fmt.Errorf\<close> from the format string \<open>f\<close> with its
  numeric arguments.
\<close>

datatype goerror =
    Error uint
  | ErrClosed
  | Errf string "nat list"

datatype 'a outcome = Ret 'a | Panic string | Crash string | Fault string

type_synonym ('s, 'a) go = "'s \<Rightarrow> 'a outcome \<times> 's"

definition go_ret :: "'a \<Rightarrow> ('s, 'a) go" where
  "go_ret x = (\<lambda>s. (Ret x, s))"

definition go_panic :: "string \<Rightarrow> ('s, 'a) go" where
  "go_panic e = (\<lambda>s. (Panic e, s))"

definition go_crash :: "string \<Rightarrow> ('s, 'a) go" where
  "go_crash e = (\<lambda>s. (Crash e, s))"

definition go_fault :: "string \<Rightarrow> ('s, 'a) go" where
  "go_fault e = (\<lambda>s. (Fault e, s))"

definition go_bind :: "('s, 'a) go \<Rightarrow> ('a \<Rightarrow> ('s, 'b) go) \<Rightarrow> ('s, 'b) go" where
  "go_bind m k = (\<lambda>s. case m s of
      (Ret x, s') \<Rightarrow> k x s'
    | (Panic e, s') \<Rightarrow> (Panic e, s')
    | (Crash e, s') \<Rightarrow> (Crash e, s')
    | (Fault e, s') \<Rightarrow> (Fault e, s'))"

text \<open>\<open>x, err := m; if err != nil { return err }; k x\<close>\<close>

definition go_try :: "('s, 'e + 'a) go \<Rightarrow> ('a \<Rightarrow> ('s, 'e + 'b) go) \<Rightarrow> ('s, 'e + 'b) go" where
  "go_try m k = go_bind m (\<lambda>r. case r of Inl e \<Rightarrow> go_ret (Inl e) | Inr x \<Rightarrow> k x)"

text \<open>
  \<open>defer c; m\<close>: the deferred call runs after a return and after a panic, and the outcome of
  the body survives it.  Nothing runs after a crash or a fault.
\<close>

definition go_defer :: "('s, unit) go \<Rightarrow> ('s, 'a) go \<Rightarrow> ('s, 'a) go" where
  "go_defer c m = (\<lambda>s. case m s of
      (Fault e, s') \<Rightarrow> (Fault e, s')
    | (Crash e, s') \<Rightarrow> (Crash e, s')
    | (r, s') \<Rightarrow> (case c s' of
          (Ret _, s'') \<Rightarrow> (r, s'')
        | (Panic e, s'') \<Rightarrow> (Panic e, s'')
        | (Crash e, s'') \<Rightarrow> (Crash e, s'')
        | (Fault e, s'') \<Rightarrow> (Fault e, s'')))"

text \<open>
  The code's idiom for a resource: \<open>x := acquire; defer release(x); body\<close>, and the same where
  acquiring can fail with an error that is returned.
\<close>

definition go_scoped ::
  "('s, 'x) go \<Rightarrow> ('x \<Rightarrow> ('s, unit) go) \<Rightarrow> ('x \<Rightarrow> ('s, 'a) go) \<Rightarrow> ('s, 'a) go" where
  "go_scoped acquire release body = go_bind acquire (\<lambda>x. go_defer (release x) (body x))"

definition go_try_scoped ::
  "('s, 'e + 'x) go \<Rightarrow> ('x \<Rightarrow> ('s, unit) go) \<Rightarrow> ('x \<Rightarrow> ('s, 'e + 'a) go) \<Rightarrow> ('s, 'e + 'a) go" where
  "go_try_scoped acquire release body = go_try acquire (\<lambda>x. go_defer (release x) (body x))"

definition go_gets :: "('s \<Rightarrow> 'a) \<Rightarrow> ('s, 'a) go" where
  "go_gets f = (\<lambda>s. (Ret (f s), s))"

definition go_modify :: "('s \<Rightarrow> 's) \<Rightarrow> ('s, unit) go" where
  "go_modify f = (\<lambda>s. (Ret (), f s))"

lemma go_ret_run [go_run]: "go_ret x s = (Ret x, s)"
  by (simp add: go_ret_def)

lemma go_panic_run [go_run]: "go_panic e s = (Panic e, s)"
  by (simp add: go_panic_def)

lemma go_fault_run [go_run]: "go_fault e s = (Fault e, s)"
  by (simp add: go_fault_def)

lemma go_crash_run [go_run]: "go_crash e s = (Crash e, s)"
  by (simp add: go_crash_def)

lemma go_gets_run [go_run]: "go_gets f s = (Ret (f s), s)"
  by (simp add: go_gets_def)

lemma go_modify_run [go_run]: "go_modify f s = (Ret (), f s)"
  by (simp add: go_modify_def)

lemma go_bind_run [go_run]:
  "go_bind m k s = (case m s of (Ret x, s') \<Rightarrow> k x s' | (Panic e, s') \<Rightarrow> (Panic e, s')
     | (Crash e, s') \<Rightarrow> (Crash e, s') | (Fault e, s') \<Rightarrow> (Fault e, s'))"
  by (simp add: go_bind_def)

lemma go_try_run [go_run]:
  "go_try m k s = (case m s of (Ret (Inr x), s') \<Rightarrow> k x s' | (Ret (Inl e), s') \<Rightarrow> (Ret (Inl e), s')
     | (Panic e, s') \<Rightarrow> (Panic e, s') | (Crash e, s') \<Rightarrow> (Crash e, s')
     | (Fault e, s') \<Rightarrow> (Fault e, s'))"
  by (simp add: go_try_def go_bind_def go_ret_def split: outcome.splits sum.splits prod.splits)

lemma go_defer_run [go_run]:
  "go_defer c m s = (case m s of (Fault e, s') \<Rightarrow> (Fault e, s') | (Crash e, s') \<Rightarrow> (Crash e, s')
     | (r, s') \<Rightarrow> (case c s' of (Ret _, s'') \<Rightarrow> (r, s'') | (Panic e, s'') \<Rightarrow> (Panic e, s'')
         | (Crash e, s'') \<Rightarrow> (Crash e, s'') | (Fault e, s'') \<Rightarrow> (Fault e, s'')))"
  by (simp add: go_defer_def)

lemma go_scoped_run [go_run]:
  "go_scoped a r b s = go_bind a (\<lambda>x. go_defer (r x) (b x)) s"
  by (simp add: go_scoped_def)

lemma go_try_scoped_run [go_run]:
  "go_try_scoped a r b s = go_try a (\<lambda>x. go_defer (r x) (b x)) s"
  by (simp add: go_try_scoped_def)

lemma go_bind_ret [simp]: "go_bind (go_ret x) k = k x"
  by (simp add: go_bind_def go_ret_def)

lemma go_bind_assoc: "go_bind (go_bind m k) l = go_bind m (\<lambda>x. go_bind (k x) l)"
  by (rule ext) (simp add: go_bind_def split: outcome.splits prod.splits)

lemma go_try_ret [simp]:
  "go_try (go_ret (Inr x)) k = k x" "go_try (go_ret (Inl e)) k = go_ret (Inl e)"
  by (simp_all add: go_try_def)

section \<open>Generic lemmas\<close>

lemma unat_of_nat_small [simp]: "n < 2 ^ 64 \<Longrightarrow> unat (of_nat n :: uint) = n"
  by (simp add: unat_of_nat)

lemma map_le_fresh: "a \<notin> dom f \<Longrightarrow> f \<subseteq>\<^sub>m f(a \<mapsto> b)"
  by (auto simp: map_le_def)

lemma map_upd_delete_fresh [simp]: "a \<notin> dom f \<Longrightarrow> (f(a \<mapsto> b))(a := None) = f"
  by (auto simp: fun_eq_iff domIff)

lemma take_append_drop_length: "length xs \<le> length ys \<Longrightarrow> length (xs @ drop (length xs) ys) = length ys"
  by simp

end
