(* ===== verification/Constants.thy ===== *)
theory Constants
  imports Go_Prelude
begin

unbundle bit_operations_syntax

text \<open>
  The PKCS \#11 constants of the generated file \<^verbatim>\<open>cryptoki/zconst.go\<close>, in its order.  The untyped numbers of Go are
  values of type \<open>uint\<close> here, the type they take wherever the code uses them.  The collection \<open>ck_consts\<close> unfolds them.
\<close>

section \<open>CK\_ constants\<close>

definition CK_TRUE :: bool where [ck_consts]: "CK_TRUE = True"
definition CK_FALSE :: bool where [ck_consts]: "CK_FALSE = False"
definition CK_UNAVAILABLE_INFORMATION :: uint where [ck_consts]: "CK_UNAVAILABLE_INFORMATION = - 1"
definition CK_EFFECTIVELY_INFINITE :: uint where [ck_consts]: "CK_EFFECTIVELY_INFINITE = 0"
definition CK_INVALID_HANDLE :: uint where [ck_consts]: "CK_INVALID_HANDLE = 0"

section \<open>CKN\_ constants\<close>

definition CKN_SURRENDER :: uint where [ck_consts]: "CKN_SURRENDER = 0"
definition CKN_OTP_CHANGED :: uint where [ck_consts]: "CKN_OTP_CHANGED = 1"

section \<open>CKF\_ constants\<close>

definition CKF_TOKEN_PRESENT :: uint where [ck_consts]: "CKF_TOKEN_PRESENT = 1"
definition CKF_REMOVABLE_DEVICE :: uint where [ck_consts]: "CKF_REMOVABLE_DEVICE = 0x00000002"
definition CKF_HW_SLOT :: uint where [ck_consts]: "CKF_HW_SLOT = 0x00000004"
definition CKF_RNG :: uint where [ck_consts]: "CKF_RNG = 1"
definition CKF_WRITE_PROTECTED :: uint where [ck_consts]: "CKF_WRITE_PROTECTED = 0x00000002"
definition CKF_LOGIN_REQUIRED :: uint where [ck_consts]: "CKF_LOGIN_REQUIRED = 0x00000004"
definition CKF_USER_PIN_INITIALIZED :: uint where [ck_consts]: "CKF_USER_PIN_INITIALIZED = 0x00000008"
definition CKF_RESTORE_KEY_NOT_NEEDED :: uint where [ck_consts]: "CKF_RESTORE_KEY_NOT_NEEDED = 0x00000020"
definition CKF_CLOCK_ON_TOKEN :: uint where [ck_consts]: "CKF_CLOCK_ON_TOKEN = 0x00000040"
definition CKF_PROTECTED_AUTHENTICATION_PATH :: uint where [ck_consts]: "CKF_PROTECTED_AUTHENTICATION_PATH = 0x00000100"
definition CKF_DUAL_CRYPTO_OPERATIONS :: uint where [ck_consts]: "CKF_DUAL_CRYPTO_OPERATIONS = 0x00000200"
definition CKF_TOKEN_INITIALIZED :: uint where [ck_consts]: "CKF_TOKEN_INITIALIZED = 0x00000400"
definition CKF_SECONDARY_AUTHENTICATION :: uint where [ck_consts]: "CKF_SECONDARY_AUTHENTICATION = 0x00000800"
definition CKF_USER_PIN_COUNT_LOW :: uint where [ck_consts]: "CKF_USER_PIN_COUNT_LOW = 0x00010000"
definition CKF_USER_PIN_FINAL_TRY :: uint where [ck_consts]: "CKF_USER_PIN_FINAL_TRY = 0x00020000"
definition CKF_USER_PIN_LOCKED :: uint where [ck_consts]: "CKF_USER_PIN_LOCKED = 0x00040000"
definition CKF_USER_PIN_TO_BE_CHANGED :: uint where [ck_consts]: "CKF_USER_PIN_TO_BE_CHANGED = 0x00080000"
definition CKF_SO_PIN_COUNT_LOW :: uint where [ck_consts]: "CKF_SO_PIN_COUNT_LOW = 0x00100000"
definition CKF_SO_PIN_FINAL_TRY :: uint where [ck_consts]: "CKF_SO_PIN_FINAL_TRY = 0x00200000"
definition CKF_SO_PIN_LOCKED :: uint where [ck_consts]: "CKF_SO_PIN_LOCKED = 0x00400000"
definition CKF_SO_PIN_TO_BE_CHANGED :: uint where [ck_consts]: "CKF_SO_PIN_TO_BE_CHANGED = 0x00800000"
definition CKF_ERROR_STATE :: uint where [ck_consts]: "CKF_ERROR_STATE = 0x01000000"
definition CKF_SEED_RANDOM_REQUIRED :: uint where [ck_consts]: "CKF_SEED_RANDOM_REQUIRED = 0x02000000"
definition CKF_ASYNC_SESSION_SUPPORTED :: uint where [ck_consts]: "CKF_ASYNC_SESSION_SUPPORTED = 0x04000000"

section \<open>CKU\_ constants\<close>

definition CKU_SO :: uint where [ck_consts]: "CKU_SO = 0"
definition CKU_USER :: uint where [ck_consts]: "CKU_USER = 1"
definition CKU_CONTEXT_SPECIFIC :: uint where [ck_consts]: "CKU_CONTEXT_SPECIFIC = 2"

section \<open>CKS\_ constants\<close>

definition CKS_RO_PUBLIC_SESSION :: uint where [ck_consts]: "CKS_RO_PUBLIC_SESSION = 0"
definition CKS_RO_USER_FUNCTIONS :: uint where [ck_consts]: "CKS_RO_USER_FUNCTIONS = 1"
definition CKS_RW_PUBLIC_SESSION :: uint where [ck_consts]: "CKS_RW_PUBLIC_SESSION = 2"
definition CKS_RW_USER_FUNCTIONS :: uint where [ck_consts]: "CKS_RW_USER_FUNCTIONS = 3"
definition CKS_RW_SO_FUNCTIONS :: uint where [ck_consts]: "CKS_RW_SO_FUNCTIONS = 4"

section \<open>CKF\_ constants\<close>

definition CKF_RW_SESSION :: uint where [ck_consts]: "CKF_RW_SESSION = 0x00000002"
definition CKF_SERIAL_SESSION :: uint where [ck_consts]: "CKF_SERIAL_SESSION = 0x00000004"
definition CKF_ASYNC_SESSION :: uint where [ck_consts]: "CKF_ASYNC_SESSION = 0x00000008"

section \<open>CKO\_ constants\<close>

definition CKO_DATA :: uint where [ck_consts]: "CKO_DATA = 0"
definition CKO_CERTIFICATE :: uint where [ck_consts]: "CKO_CERTIFICATE = 1"
definition CKO_PUBLIC_KEY :: uint where [ck_consts]: "CKO_PUBLIC_KEY = 0x00000002"
definition CKO_PRIVATE_KEY :: uint where [ck_consts]: "CKO_PRIVATE_KEY = 0x00000003"
definition CKO_SECRET_KEY :: uint where [ck_consts]: "CKO_SECRET_KEY = 0x00000004"
definition CKO_HW_FEATURE :: uint where [ck_consts]: "CKO_HW_FEATURE = 0x00000005"
definition CKO_DOMAIN_PARAMETERS :: uint where [ck_consts]: "CKO_DOMAIN_PARAMETERS = 0x00000006"
definition CKO_MECHANISM :: uint where [ck_consts]: "CKO_MECHANISM = 0x00000007"
definition CKO_OTP_KEY :: uint where [ck_consts]: "CKO_OTP_KEY = 0x00000008"
definition CKO_PROFILE :: uint where [ck_consts]: "CKO_PROFILE = 0x00000009"
definition CKO_VALIDATION :: uint where [ck_consts]: "CKO_VALIDATION = 0x0000000a"
definition CKO_TRUST :: uint where [ck_consts]: "CKO_TRUST = 0x0000000b"
definition CKO_VENDOR_DEFINED :: uint where [ck_consts]: "CKO_VENDOR_DEFINED = 0x80000000"

section \<open>CKP\_ constants\<close>

definition CKP_INVALID_ID :: uint where [ck_consts]: "CKP_INVALID_ID = 0"
definition CKP_BASELINE_PROVIDER :: uint where [ck_consts]: "CKP_BASELINE_PROVIDER = 1"
definition CKP_EXTENDED_PROVIDER :: uint where [ck_consts]: "CKP_EXTENDED_PROVIDER = 0x00000002"
definition CKP_AUTHENTICATION_TOKEN :: uint where [ck_consts]: "CKP_AUTHENTICATION_TOKEN = 0x00000003"
definition CKP_PUBLIC_CERTIFICATES_TOKEN :: uint where [ck_consts]: "CKP_PUBLIC_CERTIFICATES_TOKEN = 0x00000004"
definition CKP_COMPLETE_PROVIDER :: uint where [ck_consts]: "CKP_COMPLETE_PROVIDER = 0x00000005"
definition CKP_HKDF_TLS_TOKEN :: uint where [ck_consts]: "CKP_HKDF_TLS_TOKEN = 0x00000006"
definition CKP_VENDOR_DEFINED :: uint where [ck_consts]: "CKP_VENDOR_DEFINED = 0x80000000"

section \<open>CKH\_ constants\<close>

definition CKH_MONOTONIC_COUNTER :: uint where [ck_consts]: "CKH_MONOTONIC_COUNTER = 1"
definition CKH_CLOCK :: uint where [ck_consts]: "CKH_CLOCK = 0x00000002"
definition CKH_USER_INTERFACE :: uint where [ck_consts]: "CKH_USER_INTERFACE = 0x00000003"
definition CKH_VENDOR_DEFINED :: uint where [ck_consts]: "CKH_VENDOR_DEFINED = 0x80000000"

section \<open>CKK\_ constants\<close>

definition CKK_RSA :: uint where [ck_consts]: "CKK_RSA = 0"
definition CKK_DSA :: uint where [ck_consts]: "CKK_DSA = 1"
definition CKK_DH :: uint where [ck_consts]: "CKK_DH = 0x00000002"
definition CKK_ECDSA :: uint where [ck_consts]: "CKK_ECDSA = 0x00000003"
definition CKK_EC :: uint where [ck_consts]: "CKK_EC = 0x00000003"
definition CKK_X9_42_DH :: uint where [ck_consts]: "CKK_X9_42_DH = 0x00000004"
definition CKK_KEA :: uint where [ck_consts]: "CKK_KEA = 0x00000005"
definition CKK_GENERIC_SECRET :: uint where [ck_consts]: "CKK_GENERIC_SECRET = 0x00000010"
definition CKK_RC2 :: uint where [ck_consts]: "CKK_RC2 = 0x00000011"
definition CKK_RC4 :: uint where [ck_consts]: "CKK_RC4 = 0x00000012"
definition CKK_DES :: uint where [ck_consts]: "CKK_DES = 0x00000013"
definition CKK_DES2 :: uint where [ck_consts]: "CKK_DES2 = 0x00000014"
definition CKK_DES3 :: uint where [ck_consts]: "CKK_DES3 = 0x00000015"
definition CKK_CAST :: uint where [ck_consts]: "CKK_CAST = 0x00000016"
definition CKK_CAST3 :: uint where [ck_consts]: "CKK_CAST3 = 0x00000017"
definition CKK_CAST5 :: uint where [ck_consts]: "CKK_CAST5 = 0x00000018"
definition CKK_CAST128 :: uint where [ck_consts]: "CKK_CAST128 = 0x00000018"
definition CKK_RC5 :: uint where [ck_consts]: "CKK_RC5 = 0x00000019"
definition CKK_IDEA :: uint where [ck_consts]: "CKK_IDEA = 0x0000001a"
definition CKK_SKIPJACK :: uint where [ck_consts]: "CKK_SKIPJACK = 0x0000001b"
definition CKK_BATON :: uint where [ck_consts]: "CKK_BATON = 0x0000001c"
definition CKK_JUNIPER :: uint where [ck_consts]: "CKK_JUNIPER = 0x0000001d"
definition CKK_CDMF :: uint where [ck_consts]: "CKK_CDMF = 0x0000001e"
definition CKK_AES :: uint where [ck_consts]: "CKK_AES = 0x0000001f"
definition CKK_BLOWFISH :: uint where [ck_consts]: "CKK_BLOWFISH = 0x00000020"
definition CKK_TWOFISH :: uint where [ck_consts]: "CKK_TWOFISH = 0x00000021"
definition CKK_SECURID :: uint where [ck_consts]: "CKK_SECURID = 0x00000022"
definition CKK_HOTP :: uint where [ck_consts]: "CKK_HOTP = 0x00000023"
definition CKK_ACTI :: uint where [ck_consts]: "CKK_ACTI = 0x00000024"
definition CKK_CAMELLIA :: uint where [ck_consts]: "CKK_CAMELLIA = 0x00000025"
definition CKK_ARIA :: uint where [ck_consts]: "CKK_ARIA = 0x00000026"
definition CKK_MD5_HMAC :: uint where [ck_consts]: "CKK_MD5_HMAC = 0x00000027"
definition CKK_SHA_1_HMAC :: uint where [ck_consts]: "CKK_SHA_1_HMAC = 0x00000028"
definition CKK_RIPEMD128_HMAC :: uint where [ck_consts]: "CKK_RIPEMD128_HMAC = 0x00000029"
definition CKK_RIPEMD160_HMAC :: uint where [ck_consts]: "CKK_RIPEMD160_HMAC = 0x0000002a"
definition CKK_SHA256_HMAC :: uint where [ck_consts]: "CKK_SHA256_HMAC = 0x0000002b"
definition CKK_SHA384_HMAC :: uint where [ck_consts]: "CKK_SHA384_HMAC = 0x0000002c"
definition CKK_SHA512_HMAC :: uint where [ck_consts]: "CKK_SHA512_HMAC = 0x0000002d"
definition CKK_SHA224_HMAC :: uint where [ck_consts]: "CKK_SHA224_HMAC = 0x0000002e"
definition CKK_SEED :: uint where [ck_consts]: "CKK_SEED = 0x0000002f"
definition CKK_GOSTR3410 :: uint where [ck_consts]: "CKK_GOSTR3410 = 0x00000030"
definition CKK_GOSTR3411 :: uint where [ck_consts]: "CKK_GOSTR3411 = 0x00000031"
definition CKK_GOST28147 :: uint where [ck_consts]: "CKK_GOST28147 = 0x00000032"
definition CKK_CHACHA20 :: uint where [ck_consts]: "CKK_CHACHA20 = 0x00000033"
definition CKK_POLY1305 :: uint where [ck_consts]: "CKK_POLY1305 = 0x00000034"
definition CKK_AES_XTS :: uint where [ck_consts]: "CKK_AES_XTS = 0x00000035"
definition CKK_SHA3_224_HMAC :: uint where [ck_consts]: "CKK_SHA3_224_HMAC = 0x00000036"
definition CKK_SHA3_256_HMAC :: uint where [ck_consts]: "CKK_SHA3_256_HMAC = 0x00000037"
definition CKK_SHA3_384_HMAC :: uint where [ck_consts]: "CKK_SHA3_384_HMAC = 0x00000038"
definition CKK_SHA3_512_HMAC :: uint where [ck_consts]: "CKK_SHA3_512_HMAC = 0x00000039"
definition CKK_BLAKE2B_160_HMAC :: uint where [ck_consts]: "CKK_BLAKE2B_160_HMAC = 0x0000003a"
definition CKK_BLAKE2B_256_HMAC :: uint where [ck_consts]: "CKK_BLAKE2B_256_HMAC = 0x0000003b"
definition CKK_BLAKE2B_384_HMAC :: uint where [ck_consts]: "CKK_BLAKE2B_384_HMAC = 0x0000003c"
definition CKK_BLAKE2B_512_HMAC :: uint where [ck_consts]: "CKK_BLAKE2B_512_HMAC = 0x0000003d"
definition CKK_SALSA20 :: uint where [ck_consts]: "CKK_SALSA20 = 0x0000003e"
definition CKK_X2RATCHET :: uint where [ck_consts]: "CKK_X2RATCHET = 0x0000003f"
definition CKK_EC_EDWARDS :: uint where [ck_consts]: "CKK_EC_EDWARDS = 0x00000040"
definition CKK_EC_MONTGOMERY :: uint where [ck_consts]: "CKK_EC_MONTGOMERY = 0x00000041"
definition CKK_HKDF :: uint where [ck_consts]: "CKK_HKDF = 0x00000042"
definition CKK_SHA512_224_HMAC :: uint where [ck_consts]: "CKK_SHA512_224_HMAC = 0x00000043"
definition CKK_SHA512_256_HMAC :: uint where [ck_consts]: "CKK_SHA512_256_HMAC = 0x00000044"
definition CKK_SHA512_T_HMAC :: uint where [ck_consts]: "CKK_SHA512_T_HMAC = 0x00000045"
definition CKK_HSS :: uint where [ck_consts]: "CKK_HSS = 0x00000046"
definition CKK_XMSS :: uint where [ck_consts]: "CKK_XMSS = 0x00000047"
definition CKK_XMSSMT :: uint where [ck_consts]: "CKK_XMSSMT = 0x00000048"
definition CKK_ML_KEM :: uint where [ck_consts]: "CKK_ML_KEM = 0x00000049"
definition CKK_ML_DSA :: uint where [ck_consts]: "CKK_ML_DSA = 0x0000004a"
definition CKK_SLH_DSA :: uint where [ck_consts]: "CKK_SLH_DSA = 0x0000004b"
definition CKK_VENDOR_DEFINED :: uint where [ck_consts]: "CKK_VENDOR_DEFINED = 0x80000000"

section \<open>CK\_ constants\<close>

definition CK_CERTIFICATE_CATEGORY_UNSPECIFIED :: uint where [ck_consts]: "CK_CERTIFICATE_CATEGORY_UNSPECIFIED = 0"
definition CK_CERTIFICATE_CATEGORY_TOKEN_USER :: uint where [ck_consts]: "CK_CERTIFICATE_CATEGORY_TOKEN_USER = 1"
definition CK_CERTIFICATE_CATEGORY_AUTHORITY :: uint where [ck_consts]: "CK_CERTIFICATE_CATEGORY_AUTHORITY = 2"
definition CK_CERTIFICATE_CATEGORY_OTHER_ENTITY :: uint where [ck_consts]: "CK_CERTIFICATE_CATEGORY_OTHER_ENTITY = 3"
definition CK_SECURITY_DOMAIN_UNSPECIFIED :: uint where [ck_consts]: "CK_SECURITY_DOMAIN_UNSPECIFIED = 0"
definition CK_SECURITY_DOMAIN_MANUFACTURER :: uint where [ck_consts]: "CK_SECURITY_DOMAIN_MANUFACTURER = 1"
definition CK_SECURITY_DOMAIN_OPERATOR :: uint where [ck_consts]: "CK_SECURITY_DOMAIN_OPERATOR = 2"
definition CK_SECURITY_DOMAIN_THIRD_PARTY :: uint where [ck_consts]: "CK_SECURITY_DOMAIN_THIRD_PARTY = 3"

section \<open>CKC\_ constants\<close>

definition CKC_X_509 :: uint where [ck_consts]: "CKC_X_509 = 0"
definition CKC_X_509_ATTR_CERT :: uint where [ck_consts]: "CKC_X_509_ATTR_CERT = 1"
definition CKC_WTLS :: uint where [ck_consts]: "CKC_WTLS = 0x00000002"
definition CKC_VENDOR_DEFINED :: uint where [ck_consts]: "CKC_VENDOR_DEFINED = 0x80000000"

section \<open>CKF\_ constants\<close>

definition CKF_ARRAY_ATTRIBUTE :: uint where [ck_consts]: "CKF_ARRAY_ATTRIBUTE = 0x40000000"

section \<open>CK\_ constants\<close>

definition CK_OTP_FORMAT_DECIMAL :: uint where [ck_consts]: "CK_OTP_FORMAT_DECIMAL = 0"
definition CK_OTP_FORMAT_HEXADECIMAL :: uint where [ck_consts]: "CK_OTP_FORMAT_HEXADECIMAL = 1"
definition CK_OTP_FORMAT_ALPHANUMERIC :: uint where [ck_consts]: "CK_OTP_FORMAT_ALPHANUMERIC = 2"
definition CK_OTP_FORMAT_BINARY :: uint where [ck_consts]: "CK_OTP_FORMAT_BINARY = 3"
definition CK_OTP_PARAM_IGNORED :: uint where [ck_consts]: "CK_OTP_PARAM_IGNORED = 0"
definition CK_OTP_PARAM_OPTIONAL :: uint where [ck_consts]: "CK_OTP_PARAM_OPTIONAL = 1"
definition CK_OTP_PARAM_MANDATORY :: uint where [ck_consts]: "CK_OTP_PARAM_MANDATORY = 2"

section \<open>CKA\_ constants\<close>

definition CKA_CLASS :: uint where [ck_consts]: "CKA_CLASS = 0"
definition CKA_TOKEN :: uint where [ck_consts]: "CKA_TOKEN = 1"
definition CKA_PRIVATE :: uint where [ck_consts]: "CKA_PRIVATE = 0x00000002"
definition CKA_LABEL :: uint where [ck_consts]: "CKA_LABEL = 0x00000003"
definition CKA_UNIQUE_ID :: uint where [ck_consts]: "CKA_UNIQUE_ID = 0x00000004"
definition CKA_APPLICATION :: uint where [ck_consts]: "CKA_APPLICATION = 0x00000010"
definition CKA_VALUE :: uint where [ck_consts]: "CKA_VALUE = 0x00000011"
definition CKA_OBJECT_ID :: uint where [ck_consts]: "CKA_OBJECT_ID = 0x00000012"
definition CKA_CERTIFICATE_TYPE :: uint where [ck_consts]: "CKA_CERTIFICATE_TYPE = 0x00000080"
definition CKA_ISSUER :: uint where [ck_consts]: "CKA_ISSUER = 0x00000081"
definition CKA_SERIAL_NUMBER :: uint where [ck_consts]: "CKA_SERIAL_NUMBER = 0x00000082"
definition CKA_AC_ISSUER :: uint where [ck_consts]: "CKA_AC_ISSUER = 0x00000083"
definition CKA_OWNER :: uint where [ck_consts]: "CKA_OWNER = 0x00000084"
definition CKA_ATTR_TYPES :: uint where [ck_consts]: "CKA_ATTR_TYPES = 0x00000085"
definition CKA_TRUSTED :: uint where [ck_consts]: "CKA_TRUSTED = 0x00000086"
definition CKA_CERTIFICATE_CATEGORY :: uint where [ck_consts]: "CKA_CERTIFICATE_CATEGORY = 0x00000087"
definition CKA_JAVA_MIDP_SECURITY_DOMAIN :: uint where [ck_consts]: "CKA_JAVA_MIDP_SECURITY_DOMAIN = 0x00000088"
definition CKA_URL :: uint where [ck_consts]: "CKA_URL = 0x00000089"
definition CKA_HASH_OF_SUBJECT_PUBLIC_KEY :: uint where [ck_consts]: "CKA_HASH_OF_SUBJECT_PUBLIC_KEY = 0x0000008a"
definition CKA_HASH_OF_ISSUER_PUBLIC_KEY :: uint where [ck_consts]: "CKA_HASH_OF_ISSUER_PUBLIC_KEY = 0x0000008b"
definition CKA_NAME_HASH_ALGORITHM :: uint where [ck_consts]: "CKA_NAME_HASH_ALGORITHM = 0x0000008c"
definition CKA_CHECK_VALUE :: uint where [ck_consts]: "CKA_CHECK_VALUE = 0x00000090"
definition CKA_KEY_TYPE :: uint where [ck_consts]: "CKA_KEY_TYPE = 0x00000100"
definition CKA_SUBJECT :: uint where [ck_consts]: "CKA_SUBJECT = 0x00000101"
definition CKA_ID :: uint where [ck_consts]: "CKA_ID = 0x00000102"
definition CKA_SENSITIVE :: uint where [ck_consts]: "CKA_SENSITIVE = 0x00000103"
definition CKA_ENCRYPT :: uint where [ck_consts]: "CKA_ENCRYPT = 0x00000104"
definition CKA_DECRYPT :: uint where [ck_consts]: "CKA_DECRYPT = 0x00000105"
definition CKA_WRAP :: uint where [ck_consts]: "CKA_WRAP = 0x00000106"
definition CKA_UNWRAP :: uint where [ck_consts]: "CKA_UNWRAP = 0x00000107"
definition CKA_SIGN :: uint where [ck_consts]: "CKA_SIGN = 0x00000108"
definition CKA_SIGN_RECOVER :: uint where [ck_consts]: "CKA_SIGN_RECOVER = 0x00000109"
definition CKA_VERIFY :: uint where [ck_consts]: "CKA_VERIFY = 0x0000010a"
definition CKA_VERIFY_RECOVER :: uint where [ck_consts]: "CKA_VERIFY_RECOVER = 0x0000010b"
definition CKA_DERIVE :: uint where [ck_consts]: "CKA_DERIVE = 0x0000010c"
definition CKA_START_DATE :: uint where [ck_consts]: "CKA_START_DATE = 0x00000110"
definition CKA_END_DATE :: uint where [ck_consts]: "CKA_END_DATE = 0x00000111"
definition CKA_MODULUS :: uint where [ck_consts]: "CKA_MODULUS = 0x00000120"
definition CKA_MODULUS_BITS :: uint where [ck_consts]: "CKA_MODULUS_BITS = 0x00000121"
definition CKA_PUBLIC_EXPONENT :: uint where [ck_consts]: "CKA_PUBLIC_EXPONENT = 0x00000122"
definition CKA_PRIVATE_EXPONENT :: uint where [ck_consts]: "CKA_PRIVATE_EXPONENT = 0x00000123"
definition CKA_PRIME_1 :: uint where [ck_consts]: "CKA_PRIME_1 = 0x00000124"
definition CKA_PRIME_2 :: uint where [ck_consts]: "CKA_PRIME_2 = 0x00000125"
definition CKA_EXPONENT_1 :: uint where [ck_consts]: "CKA_EXPONENT_1 = 0x00000126"
definition CKA_EXPONENT_2 :: uint where [ck_consts]: "CKA_EXPONENT_2 = 0x00000127"
definition CKA_COEFFICIENT :: uint where [ck_consts]: "CKA_COEFFICIENT = 0x00000128"
definition CKA_PUBLIC_KEY_INFO :: uint where [ck_consts]: "CKA_PUBLIC_KEY_INFO = 0x00000129"
definition CKA_PRIME :: uint where [ck_consts]: "CKA_PRIME = 0x00000130"
definition CKA_SUBPRIME :: uint where [ck_consts]: "CKA_SUBPRIME = 0x00000131"
definition CKA_BASE :: uint where [ck_consts]: "CKA_BASE = 0x00000132"
definition CKA_PRIME_BITS :: uint where [ck_consts]: "CKA_PRIME_BITS = 0x00000133"
definition CKA_SUBPRIME_BITS :: uint where [ck_consts]: "CKA_SUBPRIME_BITS = 0x00000134"
definition CKA_SUB_PRIME_BITS :: uint where [ck_consts]: "CKA_SUB_PRIME_BITS = CKA_SUBPRIME_BITS"
definition CKA_VALUE_BITS :: uint where [ck_consts]: "CKA_VALUE_BITS = 0x00000160"
definition CKA_VALUE_LEN :: uint where [ck_consts]: "CKA_VALUE_LEN = 0x00000161"
definition CKA_EXTRACTABLE :: uint where [ck_consts]: "CKA_EXTRACTABLE = 0x00000162"
definition CKA_LOCAL :: uint where [ck_consts]: "CKA_LOCAL = 0x00000163"
definition CKA_NEVER_EXTRACTABLE :: uint where [ck_consts]: "CKA_NEVER_EXTRACTABLE = 0x00000164"
definition CKA_ALWAYS_SENSITIVE :: uint where [ck_consts]: "CKA_ALWAYS_SENSITIVE = 0x00000165"
definition CKA_KEY_GEN_MECHANISM :: uint where [ck_consts]: "CKA_KEY_GEN_MECHANISM = 0x00000166"
definition CKA_MODIFIABLE :: uint where [ck_consts]: "CKA_MODIFIABLE = 0x00000170"
definition CKA_COPYABLE :: uint where [ck_consts]: "CKA_COPYABLE = 0x00000171"
definition CKA_DESTROYABLE :: uint where [ck_consts]: "CKA_DESTROYABLE = 0x00000172"
definition CKA_ECDSA_PARAMS :: uint where [ck_consts]: "CKA_ECDSA_PARAMS = 0x00000180"
definition CKA_EC_PARAMS :: uint where [ck_consts]: "CKA_EC_PARAMS = 0x00000180"
definition CKA_EC_POINT :: uint where [ck_consts]: "CKA_EC_POINT = 0x00000181"
definition CKA_SECONDARY_AUTH :: uint where [ck_consts]: "CKA_SECONDARY_AUTH = 0x00000200"
definition CKA_AUTH_PIN_FLAGS :: uint where [ck_consts]: "CKA_AUTH_PIN_FLAGS = 0x00000201"
definition CKA_ALWAYS_AUTHENTICATE :: uint where [ck_consts]: "CKA_ALWAYS_AUTHENTICATE = 0x00000202"
definition CKA_WRAP_WITH_TRUSTED :: uint where [ck_consts]: "CKA_WRAP_WITH_TRUSTED = 0x00000210"
definition CKA_WRAP_TEMPLATE :: uint where [ck_consts]: "CKA_WRAP_TEMPLATE = CKF_ARRAY_ATTRIBUTE OR 0x00000211"
definition CKA_UNWRAP_TEMPLATE :: uint where [ck_consts]: "CKA_UNWRAP_TEMPLATE = CKF_ARRAY_ATTRIBUTE OR 0x00000212"
definition CKA_DERIVE_TEMPLATE :: uint where [ck_consts]: "CKA_DERIVE_TEMPLATE = CKF_ARRAY_ATTRIBUTE OR 0x00000213"
definition CKA_OTP_FORMAT :: uint where [ck_consts]: "CKA_OTP_FORMAT = 0x00000220"
definition CKA_OTP_LENGTH :: uint where [ck_consts]: "CKA_OTP_LENGTH = 0x00000221"
definition CKA_OTP_TIME_INTERVAL :: uint where [ck_consts]: "CKA_OTP_TIME_INTERVAL = 0x00000222"
definition CKA_OTP_USER_FRIENDLY_MODE :: uint where [ck_consts]: "CKA_OTP_USER_FRIENDLY_MODE = 0x00000223"
definition CKA_OTP_CHALLENGE_REQUIREMENT :: uint where [ck_consts]: "CKA_OTP_CHALLENGE_REQUIREMENT = 0x00000224"
definition CKA_OTP_TIME_REQUIREMENT :: uint where [ck_consts]: "CKA_OTP_TIME_REQUIREMENT = 0x00000225"
definition CKA_OTP_COUNTER_REQUIREMENT :: uint where [ck_consts]: "CKA_OTP_COUNTER_REQUIREMENT = 0x00000226"
definition CKA_OTP_PIN_REQUIREMENT :: uint where [ck_consts]: "CKA_OTP_PIN_REQUIREMENT = 0x00000227"
definition CKA_OTP_COUNTER :: uint where [ck_consts]: "CKA_OTP_COUNTER = 0x0000022e"
definition CKA_OTP_TIME :: uint where [ck_consts]: "CKA_OTP_TIME = 0x0000022f"
definition CKA_OTP_USER_IDENTIFIER :: uint where [ck_consts]: "CKA_OTP_USER_IDENTIFIER = 0x0000022a"
definition CKA_OTP_SERVICE_IDENTIFIER :: uint where [ck_consts]: "CKA_OTP_SERVICE_IDENTIFIER = 0x0000022b"
definition CKA_OTP_SERVICE_LOGO :: uint where [ck_consts]: "CKA_OTP_SERVICE_LOGO = 0x0000022c"
definition CKA_OTP_SERVICE_LOGO_TYPE :: uint where [ck_consts]: "CKA_OTP_SERVICE_LOGO_TYPE = 0x0000022d"
definition CKA_GOSTR3410_PARAMS :: uint where [ck_consts]: "CKA_GOSTR3410_PARAMS = 0x00000250"
definition CKA_GOSTR3411_PARAMS :: uint where [ck_consts]: "CKA_GOSTR3411_PARAMS = 0x00000251"
definition CKA_GOST28147_PARAMS :: uint where [ck_consts]: "CKA_GOST28147_PARAMS = 0x00000252"
definition CKA_HW_FEATURE_TYPE :: uint where [ck_consts]: "CKA_HW_FEATURE_TYPE = 0x00000300"
definition CKA_RESET_ON_INIT :: uint where [ck_consts]: "CKA_RESET_ON_INIT = 0x00000301"
definition CKA_HAS_RESET :: uint where [ck_consts]: "CKA_HAS_RESET = 0x00000302"
definition CKA_PIXEL_X :: uint where [ck_consts]: "CKA_PIXEL_X = 0x00000400"
definition CKA_PIXEL_Y :: uint where [ck_consts]: "CKA_PIXEL_Y = 0x00000401"
definition CKA_RESOLUTION :: uint where [ck_consts]: "CKA_RESOLUTION = 0x00000402"
definition CKA_CHAR_ROWS :: uint where [ck_consts]: "CKA_CHAR_ROWS = 0x00000403"
definition CKA_CHAR_COLUMNS :: uint where [ck_consts]: "CKA_CHAR_COLUMNS = 0x00000404"
definition CKA_COLOR :: uint where [ck_consts]: "CKA_COLOR = 0x00000405"
definition CKA_BITS_PER_PIXEL :: uint where [ck_consts]: "CKA_BITS_PER_PIXEL = 0x00000406"
definition CKA_CHAR_SETS :: uint where [ck_consts]: "CKA_CHAR_SETS = 0x00000480"
definition CKA_ENCODING_METHODS :: uint where [ck_consts]: "CKA_ENCODING_METHODS = 0x00000481"
definition CKA_MIME_TYPES :: uint where [ck_consts]: "CKA_MIME_TYPES = 0x00000482"
definition CKA_MECHANISM_TYPE :: uint where [ck_consts]: "CKA_MECHANISM_TYPE = 0x00000500"
definition CKA_REQUIRED_CMS_ATTRIBUTES :: uint where [ck_consts]: "CKA_REQUIRED_CMS_ATTRIBUTES = 0x00000501"
definition CKA_DEFAULT_CMS_ATTRIBUTES :: uint where [ck_consts]: "CKA_DEFAULT_CMS_ATTRIBUTES = 0x00000502"
definition CKA_SUPPORTED_CMS_ATTRIBUTES :: uint where [ck_consts]: "CKA_SUPPORTED_CMS_ATTRIBUTES = 0x00000503"
definition CKA_ALLOWED_MECHANISMS :: uint where [ck_consts]: "CKA_ALLOWED_MECHANISMS = CKF_ARRAY_ATTRIBUTE OR 0x00000600"
definition CKA_PROFILE_ID :: uint where [ck_consts]: "CKA_PROFILE_ID = 0x00000601"
definition CKA_X2RATCHET_BAG :: uint where [ck_consts]: "CKA_X2RATCHET_BAG = 0x00000602"
definition CKA_X2RATCHET_BAGSIZE :: uint where [ck_consts]: "CKA_X2RATCHET_BAGSIZE = 0x00000603"
definition CKA_X2RATCHET_BOBS1STMSG :: uint where [ck_consts]: "CKA_X2RATCHET_BOBS1STMSG = 0x00000604"
definition CKA_X2RATCHET_CKR :: uint where [ck_consts]: "CKA_X2RATCHET_CKR = 0x00000605"
definition CKA_X2RATCHET_CKS :: uint where [ck_consts]: "CKA_X2RATCHET_CKS = 0x00000606"
definition CKA_X2RATCHET_DHP :: uint where [ck_consts]: "CKA_X2RATCHET_DHP = 0x00000607"
definition CKA_X2RATCHET_DHR :: uint where [ck_consts]: "CKA_X2RATCHET_DHR = 0x00000608"
definition CKA_X2RATCHET_DHS :: uint where [ck_consts]: "CKA_X2RATCHET_DHS = 0x00000609"
definition CKA_X2RATCHET_HKR :: uint where [ck_consts]: "CKA_X2RATCHET_HKR = 0x0000060a"
definition CKA_X2RATCHET_HKS :: uint where [ck_consts]: "CKA_X2RATCHET_HKS = 0x0000060b"
definition CKA_X2RATCHET_ISALICE :: uint where [ck_consts]: "CKA_X2RATCHET_ISALICE = 0x0000060c"
definition CKA_X2RATCHET_NHKR :: uint where [ck_consts]: "CKA_X2RATCHET_NHKR = 0x0000060d"
definition CKA_X2RATCHET_NHKS :: uint where [ck_consts]: "CKA_X2RATCHET_NHKS = 0x0000060e"
definition CKA_X2RATCHET_NR :: uint where [ck_consts]: "CKA_X2RATCHET_NR = 0x0000060f"
definition CKA_X2RATCHET_NS :: uint where [ck_consts]: "CKA_X2RATCHET_NS = 0x00000610"
definition CKA_X2RATCHET_PNS :: uint where [ck_consts]: "CKA_X2RATCHET_PNS = 0x00000611"
definition CKA_X2RATCHET_RK :: uint where [ck_consts]: "CKA_X2RATCHET_RK = 0x00000612"
definition CKA_HSS_LEVELS :: uint where [ck_consts]: "CKA_HSS_LEVELS = 0x00000617"
definition CKA_HSS_LMS_TYPE :: uint where [ck_consts]: "CKA_HSS_LMS_TYPE = 0x00000618"
definition CKA_HSS_LMOTS_TYPE :: uint where [ck_consts]: "CKA_HSS_LMOTS_TYPE = 0x00000619"
definition CKA_HSS_LMS_TYPES :: uint where [ck_consts]: "CKA_HSS_LMS_TYPES = 0x0000061a"
definition CKA_HSS_LMOTS_TYPES :: uint where [ck_consts]: "CKA_HSS_LMOTS_TYPES = 0x0000061b"
definition CKA_HSS_KEYS_REMAINING :: uint where [ck_consts]: "CKA_HSS_KEYS_REMAINING = 0x0000061c"
definition CKA_PARAMETER_SET :: uint where [ck_consts]: "CKA_PARAMETER_SET = 0x0000061d"
definition CKA_OBJECT_VALIDATION_FLAGS :: uint where [ck_consts]: "CKA_OBJECT_VALIDATION_FLAGS = 0x0000061e"
definition CKA_VALIDATION_TYPE :: uint where [ck_consts]: "CKA_VALIDATION_TYPE = 0x0000061f"
definition CKA_VALIDATION_VERSION :: uint where [ck_consts]: "CKA_VALIDATION_VERSION = 0x00000620"
definition CKA_VALIDATION_LEVEL :: uint where [ck_consts]: "CKA_VALIDATION_LEVEL = 0x00000621"
definition CKA_VALIDATION_MODULE_ID :: uint where [ck_consts]: "CKA_VALIDATION_MODULE_ID = 0x00000622"
definition CKA_VALIDATION_FLAG :: uint where [ck_consts]: "CKA_VALIDATION_FLAG = 0x00000623"
definition CKA_VALIDATION_AUTHORITY_TYPE :: uint where [ck_consts]: "CKA_VALIDATION_AUTHORITY_TYPE = 0x00000624"
definition CKA_VALIDATION_COUNTRY :: uint where [ck_consts]: "CKA_VALIDATION_COUNTRY = 0x00000625"
definition CKA_VALIDATION_CERTIFICATE_IDENTIFIER :: uint where [ck_consts]: "CKA_VALIDATION_CERTIFICATE_IDENTIFIER = 0x00000626"
definition CKA_VALIDATION_CERTIFICATE_URI :: uint where [ck_consts]: "CKA_VALIDATION_CERTIFICATE_URI = 0x00000627"
definition CKA_VALIDATION_VENDOR_URI :: uint where [ck_consts]: "CKA_VALIDATION_VENDOR_URI = 0x00000628"
definition CKA_VALIDATION_PROFILE :: uint where [ck_consts]: "CKA_VALIDATION_PROFILE = 0x00000629"
definition CKA_ENCAPSULATE_TEMPLATE :: uint where [ck_consts]: "CKA_ENCAPSULATE_TEMPLATE = 0x0000062a"
definition CKA_DECAPSULATE_TEMPLATE :: uint where [ck_consts]: "CKA_DECAPSULATE_TEMPLATE = 0x0000062b"
definition CKA_TRUST_SERVER_AUTH :: uint where [ck_consts]: "CKA_TRUST_SERVER_AUTH = 0x0000062c"
definition CKA_TRUST_CLIENT_AUTH :: uint where [ck_consts]: "CKA_TRUST_CLIENT_AUTH = 0x0000062d"
definition CKA_TRUST_CODE_SIGNING :: uint where [ck_consts]: "CKA_TRUST_CODE_SIGNING = 0x0000062e"
definition CKA_TRUST_EMAIL_PROTECTION :: uint where [ck_consts]: "CKA_TRUST_EMAIL_PROTECTION = 0x0000062f"
definition CKA_TRUST_IPSEC_IKE :: uint where [ck_consts]: "CKA_TRUST_IPSEC_IKE = 0x00000630"
definition CKA_TRUST_TIME_STAMPING :: uint where [ck_consts]: "CKA_TRUST_TIME_STAMPING = 0x00000631"
definition CKA_TRUST_OCSP_SIGNING :: uint where [ck_consts]: "CKA_TRUST_OCSP_SIGNING = 0x00000632"
definition CKA_ENCAPSULATE :: uint where [ck_consts]: "CKA_ENCAPSULATE = 0x00000633"
definition CKA_DECAPSULATE :: uint where [ck_consts]: "CKA_DECAPSULATE = 0x00000634"
definition CKA_HASH_OF_CERTIFICATE :: uint where [ck_consts]: "CKA_HASH_OF_CERTIFICATE = 0x00000635"
definition CKA_PUBLIC_CRC64_VALUE :: uint where [ck_consts]: "CKA_PUBLIC_CRC64_VALUE = 0x00000636"
definition CKA_SEED :: uint where [ck_consts]: "CKA_SEED = 0x00000637"
definition CKA_VENDOR_DEFINED :: uint where [ck_consts]: "CKA_VENDOR_DEFINED = 0x80000000"

section \<open>CKM\_ constants\<close>

definition CKM_RSA_PKCS_KEY_PAIR_GEN :: uint where [ck_consts]: "CKM_RSA_PKCS_KEY_PAIR_GEN = 0"
definition CKM_RSA_PKCS :: uint where [ck_consts]: "CKM_RSA_PKCS = 1"
definition CKM_RSA_9796 :: uint where [ck_consts]: "CKM_RSA_9796 = 0x00000002"
definition CKM_RSA_X_509 :: uint where [ck_consts]: "CKM_RSA_X_509 = 0x00000003"
definition CKM_MD2_RSA_PKCS :: uint where [ck_consts]: "CKM_MD2_RSA_PKCS = 0x00000004"
definition CKM_MD5_RSA_PKCS :: uint where [ck_consts]: "CKM_MD5_RSA_PKCS = 0x00000005"
definition CKM_SHA1_RSA_PKCS :: uint where [ck_consts]: "CKM_SHA1_RSA_PKCS = 0x00000006"
definition CKM_RIPEMD128_RSA_PKCS :: uint where [ck_consts]: "CKM_RIPEMD128_RSA_PKCS = 0x00000007"
definition CKM_RIPEMD160_RSA_PKCS :: uint where [ck_consts]: "CKM_RIPEMD160_RSA_PKCS = 0x00000008"
definition CKM_RSA_PKCS_OAEP :: uint where [ck_consts]: "CKM_RSA_PKCS_OAEP = 0x00000009"
definition CKM_RSA_X9_31_KEY_PAIR_GEN :: uint where [ck_consts]: "CKM_RSA_X9_31_KEY_PAIR_GEN = 0x0000000a"
definition CKM_RSA_X9_31 :: uint where [ck_consts]: "CKM_RSA_X9_31 = 0x0000000b"
definition CKM_SHA1_RSA_X9_31 :: uint where [ck_consts]: "CKM_SHA1_RSA_X9_31 = 0x0000000c"
definition CKM_RSA_PKCS_PSS :: uint where [ck_consts]: "CKM_RSA_PKCS_PSS = 0x0000000d"
definition CKM_SHA1_RSA_PKCS_PSS :: uint where [ck_consts]: "CKM_SHA1_RSA_PKCS_PSS = 0x0000000e"
definition CKM_DSA_KEY_PAIR_GEN :: uint where [ck_consts]: "CKM_DSA_KEY_PAIR_GEN = 0x00000010"
definition CKM_DSA :: uint where [ck_consts]: "CKM_DSA = 0x00000011"
definition CKM_DSA_SHA1 :: uint where [ck_consts]: "CKM_DSA_SHA1 = 0x00000012"
definition CKM_DSA_SHA224 :: uint where [ck_consts]: "CKM_DSA_SHA224 = 0x00000013"
definition CKM_DSA_SHA256 :: uint where [ck_consts]: "CKM_DSA_SHA256 = 0x00000014"
definition CKM_DSA_SHA384 :: uint where [ck_consts]: "CKM_DSA_SHA384 = 0x00000015"
definition CKM_DSA_SHA512 :: uint where [ck_consts]: "CKM_DSA_SHA512 = 0x00000016"
definition CKM_DSA_SHA3_224 :: uint where [ck_consts]: "CKM_DSA_SHA3_224 = 0x00000018"
definition CKM_DSA_SHA3_256 :: uint where [ck_consts]: "CKM_DSA_SHA3_256 = 0x00000019"
definition CKM_DSA_SHA3_384 :: uint where [ck_consts]: "CKM_DSA_SHA3_384 = 0x0000001a"
definition CKM_DSA_SHA3_512 :: uint where [ck_consts]: "CKM_DSA_SHA3_512 = 0x0000001b"
definition CKM_DH_PKCS_KEY_PAIR_GEN :: uint where [ck_consts]: "CKM_DH_PKCS_KEY_PAIR_GEN = 0x00000020"
definition CKM_DH_PKCS_DERIVE :: uint where [ck_consts]: "CKM_DH_PKCS_DERIVE = 0x00000021"
definition CKM_X9_42_DH_KEY_PAIR_GEN :: uint where [ck_consts]: "CKM_X9_42_DH_KEY_PAIR_GEN = 0x00000030"
definition CKM_X9_42_DH_DERIVE :: uint where [ck_consts]: "CKM_X9_42_DH_DERIVE = 0x00000031"
definition CKM_X9_42_DH_HYBRID_DERIVE :: uint where [ck_consts]: "CKM_X9_42_DH_HYBRID_DERIVE = 0x00000032"
definition CKM_X9_42_MQV_DERIVE :: uint where [ck_consts]: "CKM_X9_42_MQV_DERIVE = 0x00000033"
definition CKM_SHA256_RSA_PKCS :: uint where [ck_consts]: "CKM_SHA256_RSA_PKCS = 0x00000040"
definition CKM_SHA384_RSA_PKCS :: uint where [ck_consts]: "CKM_SHA384_RSA_PKCS = 0x00000041"
definition CKM_SHA512_RSA_PKCS :: uint where [ck_consts]: "CKM_SHA512_RSA_PKCS = 0x00000042"
definition CKM_SHA256_RSA_PKCS_PSS :: uint where [ck_consts]: "CKM_SHA256_RSA_PKCS_PSS = 0x00000043"
definition CKM_SHA384_RSA_PKCS_PSS :: uint where [ck_consts]: "CKM_SHA384_RSA_PKCS_PSS = 0x00000044"
definition CKM_SHA512_RSA_PKCS_PSS :: uint where [ck_consts]: "CKM_SHA512_RSA_PKCS_PSS = 0x00000045"
definition CKM_SHA224_RSA_PKCS :: uint where [ck_consts]: "CKM_SHA224_RSA_PKCS = 0x00000046"
definition CKM_SHA224_RSA_PKCS_PSS :: uint where [ck_consts]: "CKM_SHA224_RSA_PKCS_PSS = 0x00000047"
definition CKM_SHA512_224 :: uint where [ck_consts]: "CKM_SHA512_224 = 0x00000048"
definition CKM_SHA512_224_HMAC :: uint where [ck_consts]: "CKM_SHA512_224_HMAC = 0x00000049"
definition CKM_SHA512_224_HMAC_GENERAL :: uint where [ck_consts]: "CKM_SHA512_224_HMAC_GENERAL = 0x0000004a"
definition CKM_SHA512_224_KEY_DERIVATION :: uint where [ck_consts]: "CKM_SHA512_224_KEY_DERIVATION = 0x0000004b"
definition CKM_SHA512_256 :: uint where [ck_consts]: "CKM_SHA512_256 = 0x0000004c"
definition CKM_SHA512_256_HMAC :: uint where [ck_consts]: "CKM_SHA512_256_HMAC = 0x0000004d"
definition CKM_SHA512_256_HMAC_GENERAL :: uint where [ck_consts]: "CKM_SHA512_256_HMAC_GENERAL = 0x0000004e"
definition CKM_SHA512_256_KEY_DERIVATION :: uint where [ck_consts]: "CKM_SHA512_256_KEY_DERIVATION = 0x0000004f"
definition CKM_SHA512_T :: uint where [ck_consts]: "CKM_SHA512_T = 0x00000050"
definition CKM_SHA512_T_HMAC :: uint where [ck_consts]: "CKM_SHA512_T_HMAC = 0x00000051"
definition CKM_SHA512_T_HMAC_GENERAL :: uint where [ck_consts]: "CKM_SHA512_T_HMAC_GENERAL = 0x00000052"
definition CKM_SHA512_T_KEY_DERIVATION :: uint where [ck_consts]: "CKM_SHA512_T_KEY_DERIVATION = 0x00000053"
definition CKM_SHA3_256_RSA_PKCS :: uint where [ck_consts]: "CKM_SHA3_256_RSA_PKCS = 0x00000060"
definition CKM_SHA3_384_RSA_PKCS :: uint where [ck_consts]: "CKM_SHA3_384_RSA_PKCS = 0x00000061"
definition CKM_SHA3_512_RSA_PKCS :: uint where [ck_consts]: "CKM_SHA3_512_RSA_PKCS = 0x00000062"
definition CKM_SHA3_256_RSA_PKCS_PSS :: uint where [ck_consts]: "CKM_SHA3_256_RSA_PKCS_PSS = 0x00000063"
definition CKM_SHA3_384_RSA_PKCS_PSS :: uint where [ck_consts]: "CKM_SHA3_384_RSA_PKCS_PSS = 0x00000064"
definition CKM_SHA3_512_RSA_PKCS_PSS :: uint where [ck_consts]: "CKM_SHA3_512_RSA_PKCS_PSS = 0x00000065"
definition CKM_SHA3_224_RSA_PKCS :: uint where [ck_consts]: "CKM_SHA3_224_RSA_PKCS = 0x00000066"
definition CKM_SHA3_224_RSA_PKCS_PSS :: uint where [ck_consts]: "CKM_SHA3_224_RSA_PKCS_PSS = 0x00000067"
definition CKM_RC2_KEY_GEN :: uint where [ck_consts]: "CKM_RC2_KEY_GEN = 0x00000100"
definition CKM_RC2_ECB :: uint where [ck_consts]: "CKM_RC2_ECB = 0x00000101"
definition CKM_RC2_CBC :: uint where [ck_consts]: "CKM_RC2_CBC = 0x00000102"
definition CKM_RC2_MAC :: uint where [ck_consts]: "CKM_RC2_MAC = 0x00000103"
definition CKM_RC2_MAC_GENERAL :: uint where [ck_consts]: "CKM_RC2_MAC_GENERAL = 0x00000104"
definition CKM_RC2_CBC_PAD :: uint where [ck_consts]: "CKM_RC2_CBC_PAD = 0x00000105"
definition CKM_RC4_KEY_GEN :: uint where [ck_consts]: "CKM_RC4_KEY_GEN = 0x00000110"
definition CKM_RC4 :: uint where [ck_consts]: "CKM_RC4 = 0x00000111"
definition CKM_DES_KEY_GEN :: uint where [ck_consts]: "CKM_DES_KEY_GEN = 0x00000120"
definition CKM_DES_ECB :: uint where [ck_consts]: "CKM_DES_ECB = 0x00000121"
definition CKM_DES_CBC :: uint where [ck_consts]: "CKM_DES_CBC = 0x00000122"
definition CKM_DES_MAC :: uint where [ck_consts]: "CKM_DES_MAC = 0x00000123"
definition CKM_DES_MAC_GENERAL :: uint where [ck_consts]: "CKM_DES_MAC_GENERAL = 0x00000124"
definition CKM_DES_CBC_PAD :: uint where [ck_consts]: "CKM_DES_CBC_PAD = 0x00000125"
definition CKM_DES2_KEY_GEN :: uint where [ck_consts]: "CKM_DES2_KEY_GEN = 0x00000130"
definition CKM_DES3_KEY_GEN :: uint where [ck_consts]: "CKM_DES3_KEY_GEN = 0x00000131"
definition CKM_DES3_ECB :: uint where [ck_consts]: "CKM_DES3_ECB = 0x00000132"
definition CKM_DES3_CBC :: uint where [ck_consts]: "CKM_DES3_CBC = 0x00000133"
definition CKM_DES3_MAC :: uint where [ck_consts]: "CKM_DES3_MAC = 0x00000134"
definition CKM_DES3_MAC_GENERAL :: uint where [ck_consts]: "CKM_DES3_MAC_GENERAL = 0x00000135"
definition CKM_DES3_CBC_PAD :: uint where [ck_consts]: "CKM_DES3_CBC_PAD = 0x00000136"
definition CKM_DES3_CMAC_GENERAL :: uint where [ck_consts]: "CKM_DES3_CMAC_GENERAL = 0x00000137"
definition CKM_DES3_CMAC :: uint where [ck_consts]: "CKM_DES3_CMAC = 0x00000138"
definition CKM_CDMF_KEY_GEN :: uint where [ck_consts]: "CKM_CDMF_KEY_GEN = 0x00000140"
definition CKM_CDMF_ECB :: uint where [ck_consts]: "CKM_CDMF_ECB = 0x00000141"
definition CKM_CDMF_CBC :: uint where [ck_consts]: "CKM_CDMF_CBC = 0x00000142"
definition CKM_CDMF_MAC :: uint where [ck_consts]: "CKM_CDMF_MAC = 0x00000143"
definition CKM_CDMF_MAC_GENERAL :: uint where [ck_consts]: "CKM_CDMF_MAC_GENERAL = 0x00000144"
definition CKM_CDMF_CBC_PAD :: uint where [ck_consts]: "CKM_CDMF_CBC_PAD = 0x00000145"
definition CKM_DES_OFB64 :: uint where [ck_consts]: "CKM_DES_OFB64 = 0x00000150"
definition CKM_DES_OFB8 :: uint where [ck_consts]: "CKM_DES_OFB8 = 0x00000151"
definition CKM_DES_CFB64 :: uint where [ck_consts]: "CKM_DES_CFB64 = 0x00000152"
definition CKM_DES_CFB8 :: uint where [ck_consts]: "CKM_DES_CFB8 = 0x00000153"
definition CKM_MD2 :: uint where [ck_consts]: "CKM_MD2 = 0x00000200"
definition CKM_MD2_HMAC :: uint where [ck_consts]: "CKM_MD2_HMAC = 0x00000201"
definition CKM_MD2_HMAC_GENERAL :: uint where [ck_consts]: "CKM_MD2_HMAC_GENERAL = 0x00000202"
definition CKM_MD5 :: uint where [ck_consts]: "CKM_MD5 = 0x00000210"
definition CKM_MD5_HMAC :: uint where [ck_consts]: "CKM_MD5_HMAC = 0x00000211"
definition CKM_MD5_HMAC_GENERAL :: uint where [ck_consts]: "CKM_MD5_HMAC_GENERAL = 0x00000212"
definition CKM_SHA_1 :: uint where [ck_consts]: "CKM_SHA_1 = 0x00000220"
definition CKM_SHA_1_HMAC :: uint where [ck_consts]: "CKM_SHA_1_HMAC = 0x00000221"
definition CKM_SHA_1_HMAC_GENERAL :: uint where [ck_consts]: "CKM_SHA_1_HMAC_GENERAL = 0x00000222"
definition CKM_RIPEMD128 :: uint where [ck_consts]: "CKM_RIPEMD128 = 0x00000230"
definition CKM_RIPEMD128_HMAC :: uint where [ck_consts]: "CKM_RIPEMD128_HMAC = 0x00000231"
definition CKM_RIPEMD128_HMAC_GENERAL :: uint where [ck_consts]: "CKM_RIPEMD128_HMAC_GENERAL = 0x00000232"
definition CKM_RIPEMD160 :: uint where [ck_consts]: "CKM_RIPEMD160 = 0x00000240"
definition CKM_RIPEMD160_HMAC :: uint where [ck_consts]: "CKM_RIPEMD160_HMAC = 0x00000241"
definition CKM_RIPEMD160_HMAC_GENERAL :: uint where [ck_consts]: "CKM_RIPEMD160_HMAC_GENERAL = 0x00000242"
definition CKM_SHA256 :: uint where [ck_consts]: "CKM_SHA256 = 0x00000250"
definition CKM_SHA256_HMAC :: uint where [ck_consts]: "CKM_SHA256_HMAC = 0x00000251"
definition CKM_SHA256_HMAC_GENERAL :: uint where [ck_consts]: "CKM_SHA256_HMAC_GENERAL = 0x00000252"
definition CKM_SHA224 :: uint where [ck_consts]: "CKM_SHA224 = 0x00000255"
definition CKM_SHA224_HMAC :: uint where [ck_consts]: "CKM_SHA224_HMAC = 0x00000256"
definition CKM_SHA224_HMAC_GENERAL :: uint where [ck_consts]: "CKM_SHA224_HMAC_GENERAL = 0x00000257"
definition CKM_SHA384 :: uint where [ck_consts]: "CKM_SHA384 = 0x00000260"
definition CKM_SHA384_HMAC :: uint where [ck_consts]: "CKM_SHA384_HMAC = 0x00000261"
definition CKM_SHA384_HMAC_GENERAL :: uint where [ck_consts]: "CKM_SHA384_HMAC_GENERAL = 0x00000262"
definition CKM_SHA512 :: uint where [ck_consts]: "CKM_SHA512 = 0x00000270"
definition CKM_SHA512_HMAC :: uint where [ck_consts]: "CKM_SHA512_HMAC = 0x00000271"
definition CKM_SHA512_HMAC_GENERAL :: uint where [ck_consts]: "CKM_SHA512_HMAC_GENERAL = 0x00000272"
definition CKM_SECURID_KEY_GEN :: uint where [ck_consts]: "CKM_SECURID_KEY_GEN = 0x00000280"
definition CKM_SECURID :: uint where [ck_consts]: "CKM_SECURID = 0x00000282"
definition CKM_HOTP_KEY_GEN :: uint where [ck_consts]: "CKM_HOTP_KEY_GEN = 0x00000290"
definition CKM_HOTP :: uint where [ck_consts]: "CKM_HOTP = 0x00000291"
definition CKM_ACTI :: uint where [ck_consts]: "CKM_ACTI = 0x000002a0"
definition CKM_ACTI_KEY_GEN :: uint where [ck_consts]: "CKM_ACTI_KEY_GEN = 0x000002a1"
definition CKM_SHA3_256 :: uint where [ck_consts]: "CKM_SHA3_256 = 0x000002b0"
definition CKM_SHA3_256_HMAC :: uint where [ck_consts]: "CKM_SHA3_256_HMAC = 0x000002b1"
definition CKM_SHA3_256_HMAC_GENERAL :: uint where [ck_consts]: "CKM_SHA3_256_HMAC_GENERAL = 0x000002b2"
definition CKM_SHA3_256_KEY_GEN :: uint where [ck_consts]: "CKM_SHA3_256_KEY_GEN = 0x000002b3"
definition CKM_SHA3_224 :: uint where [ck_consts]: "CKM_SHA3_224 = 0x000002b5"
definition CKM_SHA3_224_HMAC :: uint where [ck_consts]: "CKM_SHA3_224_HMAC = 0x000002b6"
definition CKM_SHA3_224_HMAC_GENERAL :: uint where [ck_consts]: "CKM_SHA3_224_HMAC_GENERAL = 0x000002b7"
definition CKM_SHA3_224_KEY_GEN :: uint where [ck_consts]: "CKM_SHA3_224_KEY_GEN = 0x000002b8"
definition CKM_SHA3_384 :: uint where [ck_consts]: "CKM_SHA3_384 = 0x000002c0"
definition CKM_SHA3_384_HMAC :: uint where [ck_consts]: "CKM_SHA3_384_HMAC = 0x000002c1"
definition CKM_SHA3_384_HMAC_GENERAL :: uint where [ck_consts]: "CKM_SHA3_384_HMAC_GENERAL = 0x000002c2"
definition CKM_SHA3_384_KEY_GEN :: uint where [ck_consts]: "CKM_SHA3_384_KEY_GEN = 0x000002c3"
definition CKM_SHA3_512 :: uint where [ck_consts]: "CKM_SHA3_512 = 0x000002d0"
definition CKM_SHA3_512_HMAC :: uint where [ck_consts]: "CKM_SHA3_512_HMAC = 0x000002d1"
definition CKM_SHA3_512_HMAC_GENERAL :: uint where [ck_consts]: "CKM_SHA3_512_HMAC_GENERAL = 0x000002d2"
definition CKM_SHA3_512_KEY_GEN :: uint where [ck_consts]: "CKM_SHA3_512_KEY_GEN = 0x000002d3"
definition CKM_CAST_KEY_GEN :: uint where [ck_consts]: "CKM_CAST_KEY_GEN = 0x00000300"
definition CKM_CAST_ECB :: uint where [ck_consts]: "CKM_CAST_ECB = 0x00000301"
definition CKM_CAST_CBC :: uint where [ck_consts]: "CKM_CAST_CBC = 0x00000302"
definition CKM_CAST_MAC :: uint where [ck_consts]: "CKM_CAST_MAC = 0x00000303"
definition CKM_CAST_MAC_GENERAL :: uint where [ck_consts]: "CKM_CAST_MAC_GENERAL = 0x00000304"
definition CKM_CAST_CBC_PAD :: uint where [ck_consts]: "CKM_CAST_CBC_PAD = 0x00000305"
definition CKM_CAST3_KEY_GEN :: uint where [ck_consts]: "CKM_CAST3_KEY_GEN = 0x00000310"
definition CKM_CAST3_ECB :: uint where [ck_consts]: "CKM_CAST3_ECB = 0x00000311"
definition CKM_CAST3_CBC :: uint where [ck_consts]: "CKM_CAST3_CBC = 0x00000312"
definition CKM_CAST3_MAC :: uint where [ck_consts]: "CKM_CAST3_MAC = 0x00000313"
definition CKM_CAST3_MAC_GENERAL :: uint where [ck_consts]: "CKM_CAST3_MAC_GENERAL = 0x00000314"
definition CKM_CAST3_CBC_PAD :: uint where [ck_consts]: "CKM_CAST3_CBC_PAD = 0x00000315"
definition CKM_CAST5_KEY_GEN :: uint where [ck_consts]: "CKM_CAST5_KEY_GEN = 0x00000320"
definition CKM_CAST128_KEY_GEN :: uint where [ck_consts]: "CKM_CAST128_KEY_GEN = 0x00000320"
definition CKM_CAST5_ECB :: uint where [ck_consts]: "CKM_CAST5_ECB = 0x00000321"
definition CKM_CAST128_ECB :: uint where [ck_consts]: "CKM_CAST128_ECB = 0x00000321"
definition CKM_CAST5_CBC :: uint where [ck_consts]: "CKM_CAST5_CBC = 0x00000322"
definition CKM_CAST128_CBC :: uint where [ck_consts]: "CKM_CAST128_CBC = 0x00000322"
definition CKM_CAST5_MAC :: uint where [ck_consts]: "CKM_CAST5_MAC = 0x00000323"
definition CKM_CAST128_MAC :: uint where [ck_consts]: "CKM_CAST128_MAC = 0x00000323"
definition CKM_CAST5_MAC_GENERAL :: uint where [ck_consts]: "CKM_CAST5_MAC_GENERAL = 0x00000324"
definition CKM_CAST128_MAC_GENERAL :: uint where [ck_consts]: "CKM_CAST128_MAC_GENERAL = 0x00000324"
definition CKM_CAST5_CBC_PAD :: uint where [ck_consts]: "CKM_CAST5_CBC_PAD = 0x00000325"
definition CKM_CAST128_CBC_PAD :: uint where [ck_consts]: "CKM_CAST128_CBC_PAD = 0x00000325"
definition CKM_RC5_KEY_GEN :: uint where [ck_consts]: "CKM_RC5_KEY_GEN = 0x00000330"
definition CKM_RC5_ECB :: uint where [ck_consts]: "CKM_RC5_ECB = 0x00000331"
definition CKM_RC5_CBC :: uint where [ck_consts]: "CKM_RC5_CBC = 0x00000332"
definition CKM_RC5_MAC :: uint where [ck_consts]: "CKM_RC5_MAC = 0x00000333"
definition CKM_RC5_MAC_GENERAL :: uint where [ck_consts]: "CKM_RC5_MAC_GENERAL = 0x00000334"
definition CKM_RC5_CBC_PAD :: uint where [ck_consts]: "CKM_RC5_CBC_PAD = 0x00000335"
definition CKM_IDEA_KEY_GEN :: uint where [ck_consts]: "CKM_IDEA_KEY_GEN = 0x00000340"
definition CKM_IDEA_ECB :: uint where [ck_consts]: "CKM_IDEA_ECB = 0x00000341"
definition CKM_IDEA_CBC :: uint where [ck_consts]: "CKM_IDEA_CBC = 0x00000342"
definition CKM_IDEA_MAC :: uint where [ck_consts]: "CKM_IDEA_MAC = 0x00000343"
definition CKM_IDEA_MAC_GENERAL :: uint where [ck_consts]: "CKM_IDEA_MAC_GENERAL = 0x00000344"
definition CKM_IDEA_CBC_PAD :: uint where [ck_consts]: "CKM_IDEA_CBC_PAD = 0x00000345"
definition CKM_GENERIC_SECRET_KEY_GEN :: uint where [ck_consts]: "CKM_GENERIC_SECRET_KEY_GEN = 0x00000350"
definition CKM_CONCATENATE_BASE_AND_KEY :: uint where [ck_consts]: "CKM_CONCATENATE_BASE_AND_KEY = 0x00000360"
definition CKM_CONCATENATE_BASE_AND_DATA :: uint where [ck_consts]: "CKM_CONCATENATE_BASE_AND_DATA = 0x00000362"
definition CKM_CONCATENATE_DATA_AND_BASE :: uint where [ck_consts]: "CKM_CONCATENATE_DATA_AND_BASE = 0x00000363"
definition CKM_XOR_BASE_AND_DATA :: uint where [ck_consts]: "CKM_XOR_BASE_AND_DATA = 0x00000364"
definition CKM_EXTRACT_KEY_FROM_KEY :: uint where [ck_consts]: "CKM_EXTRACT_KEY_FROM_KEY = 0x00000365"
definition CKM_SSL3_PRE_MASTER_KEY_GEN :: uint where [ck_consts]: "CKM_SSL3_PRE_MASTER_KEY_GEN = 0x00000370"
definition CKM_SSL3_MASTER_KEY_DERIVE :: uint where [ck_consts]: "CKM_SSL3_MASTER_KEY_DERIVE = 0x00000371"
definition CKM_SSL3_KEY_AND_MAC_DERIVE :: uint where [ck_consts]: "CKM_SSL3_KEY_AND_MAC_DERIVE = 0x00000372"
definition CKM_SSL3_MASTER_KEY_DERIVE_DH :: uint where [ck_consts]: "CKM_SSL3_MASTER_KEY_DERIVE_DH = 0x00000373"
definition CKM_TLS_PRE_MASTER_KEY_GEN :: uint where [ck_consts]: "CKM_TLS_PRE_MASTER_KEY_GEN = 0x00000374"
definition CKM_TLS_MASTER_KEY_DERIVE :: uint where [ck_consts]: "CKM_TLS_MASTER_KEY_DERIVE = 0x00000375"
definition CKM_TLS_KEY_AND_MAC_DERIVE :: uint where [ck_consts]: "CKM_TLS_KEY_AND_MAC_DERIVE = 0x00000376"
definition CKM_TLS_MASTER_KEY_DERIVE_DH :: uint where [ck_consts]: "CKM_TLS_MASTER_KEY_DERIVE_DH = 0x00000377"
definition CKM_TLS_PRF :: uint where [ck_consts]: "CKM_TLS_PRF = 0x00000378"
definition CKM_SSL3_MD5_MAC :: uint where [ck_consts]: "CKM_SSL3_MD5_MAC = 0x00000380"
definition CKM_SSL3_SHA1_MAC :: uint where [ck_consts]: "CKM_SSL3_SHA1_MAC = 0x00000381"
definition CKM_MD5_KEY_DERIVATION :: uint where [ck_consts]: "CKM_MD5_KEY_DERIVATION = 0x00000390"
definition CKM_MD2_KEY_DERIVATION :: uint where [ck_consts]: "CKM_MD2_KEY_DERIVATION = 0x00000391"
definition CKM_SHA1_KEY_DERIVATION :: uint where [ck_consts]: "CKM_SHA1_KEY_DERIVATION = 0x00000392"
definition CKM_SHA256_KEY_DERIVATION :: uint where [ck_consts]: "CKM_SHA256_KEY_DERIVATION = 0x00000393"
definition CKM_SHA384_KEY_DERIVATION :: uint where [ck_consts]: "CKM_SHA384_KEY_DERIVATION = 0x00000394"
definition CKM_SHA512_KEY_DERIVATION :: uint where [ck_consts]: "CKM_SHA512_KEY_DERIVATION = 0x00000395"
definition CKM_SHA224_KEY_DERIVATION :: uint where [ck_consts]: "CKM_SHA224_KEY_DERIVATION = 0x00000396"
definition CKM_SHA3_256_KEY_DERIVATION :: uint where [ck_consts]: "CKM_SHA3_256_KEY_DERIVATION = 0x00000397"
definition CKM_SHA3_224_KEY_DERIVATION :: uint where [ck_consts]: "CKM_SHA3_224_KEY_DERIVATION = 0x00000398"
definition CKM_SHA3_384_KEY_DERIVATION :: uint where [ck_consts]: "CKM_SHA3_384_KEY_DERIVATION = 0x00000399"
definition CKM_SHA3_512_KEY_DERIVATION :: uint where [ck_consts]: "CKM_SHA3_512_KEY_DERIVATION = 0x0000039a"
definition CKM_SHAKE_128_KEY_DERIVATION :: uint where [ck_consts]: "CKM_SHAKE_128_KEY_DERIVATION = 0x0000039b"
definition CKM_SHAKE_256_KEY_DERIVATION :: uint where [ck_consts]: "CKM_SHAKE_256_KEY_DERIVATION = 0x0000039c"
definition CKM_SHA3_256_KEY_DERIVE :: uint where [ck_consts]: "CKM_SHA3_256_KEY_DERIVE = CKM_SHA3_256_KEY_DERIVATION"
definition CKM_SHA3_224_KEY_DERIVE :: uint where [ck_consts]: "CKM_SHA3_224_KEY_DERIVE = CKM_SHA3_224_KEY_DERIVATION"
definition CKM_SHA3_384_KEY_DERIVE :: uint where [ck_consts]: "CKM_SHA3_384_KEY_DERIVE = CKM_SHA3_384_KEY_DERIVATION"
definition CKM_SHA3_512_KEY_DERIVE :: uint where [ck_consts]: "CKM_SHA3_512_KEY_DERIVE = CKM_SHA3_512_KEY_DERIVATION"
definition CKM_SHAKE_128_KEY_DERIVE :: uint where [ck_consts]: "CKM_SHAKE_128_KEY_DERIVE = CKM_SHAKE_128_KEY_DERIVATION"
definition CKM_SHAKE_256_KEY_DERIVE :: uint where [ck_consts]: "CKM_SHAKE_256_KEY_DERIVE = CKM_SHAKE_256_KEY_DERIVATION"
definition CKM_PBE_MD2_DES_CBC :: uint where [ck_consts]: "CKM_PBE_MD2_DES_CBC = 0x000003a0"
definition CKM_PBE_MD5_DES_CBC :: uint where [ck_consts]: "CKM_PBE_MD5_DES_CBC = 0x000003a1"
definition CKM_PBE_MD5_CAST_CBC :: uint where [ck_consts]: "CKM_PBE_MD5_CAST_CBC = 0x000003a2"
definition CKM_PBE_MD5_CAST3_CBC :: uint where [ck_consts]: "CKM_PBE_MD5_CAST3_CBC = 0x000003a3"
definition CKM_PBE_MD5_CAST5_CBC :: uint where [ck_consts]: "CKM_PBE_MD5_CAST5_CBC = 0x000003a4"
definition CKM_PBE_MD5_CAST128_CBC :: uint where [ck_consts]: "CKM_PBE_MD5_CAST128_CBC = 0x000003a4"
definition CKM_PBE_SHA1_CAST5_CBC :: uint where [ck_consts]: "CKM_PBE_SHA1_CAST5_CBC = 0x000003a5"
definition CKM_PBE_SHA1_CAST128_CBC :: uint where [ck_consts]: "CKM_PBE_SHA1_CAST128_CBC = 0x000003a5"
definition CKM_PBE_SHA1_RC4_128 :: uint where [ck_consts]: "CKM_PBE_SHA1_RC4_128 = 0x000003a6"
definition CKM_PBE_SHA1_RC4_40 :: uint where [ck_consts]: "CKM_PBE_SHA1_RC4_40 = 0x000003a7"
definition CKM_PBE_SHA1_DES3_EDE_CBC :: uint where [ck_consts]: "CKM_PBE_SHA1_DES3_EDE_CBC = 0x000003a8"
definition CKM_PBE_SHA1_DES2_EDE_CBC :: uint where [ck_consts]: "CKM_PBE_SHA1_DES2_EDE_CBC = 0x000003a9"
definition CKM_PBE_SHA1_RC2_128_CBC :: uint where [ck_consts]: "CKM_PBE_SHA1_RC2_128_CBC = 0x000003aa"
definition CKM_PBE_SHA1_RC2_40_CBC :: uint where [ck_consts]: "CKM_PBE_SHA1_RC2_40_CBC = 0x000003ab"
definition CKM_PKCS5_PBKD2 :: uint where [ck_consts]: "CKM_PKCS5_PBKD2 = 0x000003b0"
definition CKM_PBA_SHA1_WITH_SHA1_HMAC :: uint where [ck_consts]: "CKM_PBA_SHA1_WITH_SHA1_HMAC = 0x000003c0"
definition CKM_WTLS_PRE_MASTER_KEY_GEN :: uint where [ck_consts]: "CKM_WTLS_PRE_MASTER_KEY_GEN = 0x000003d0"
definition CKM_WTLS_MASTER_KEY_DERIVE :: uint where [ck_consts]: "CKM_WTLS_MASTER_KEY_DERIVE = 0x000003d1"
definition CKM_WTLS_MASTER_KEY_DERIVE_DH_ECC :: uint where [ck_consts]: "CKM_WTLS_MASTER_KEY_DERIVE_DH_ECC = 0x000003d2"
definition CKM_WTLS_PRF :: uint where [ck_consts]: "CKM_WTLS_PRF = 0x000003d3"
definition CKM_WTLS_SERVER_KEY_AND_MAC_DERIVE :: uint where [ck_consts]: "CKM_WTLS_SERVER_KEY_AND_MAC_DERIVE = 0x000003d4"
definition CKM_WTLS_CLIENT_KEY_AND_MAC_DERIVE :: uint where [ck_consts]: "CKM_WTLS_CLIENT_KEY_AND_MAC_DERIVE = 0x000003d5"
definition CKM_TLS10_MAC_SERVER :: uint where [ck_consts]: "CKM_TLS10_MAC_SERVER = 0x000003d6"
definition CKM_TLS10_MAC_CLIENT :: uint where [ck_consts]: "CKM_TLS10_MAC_CLIENT = 0x000003d7"
definition CKM_TLS12_MAC :: uint where [ck_consts]: "CKM_TLS12_MAC = 0x000003d8"
definition CKM_TLS12_KDF :: uint where [ck_consts]: "CKM_TLS12_KDF = 0x000003d9"
definition CKM_TLS12_MASTER_KEY_DERIVE :: uint where [ck_consts]: "CKM_TLS12_MASTER_KEY_DERIVE = 0x000003e0"
definition CKM_TLS12_KEY_AND_MAC_DERIVE :: uint where [ck_consts]: "CKM_TLS12_KEY_AND_MAC_DERIVE = 0x000003e1"
definition CKM_TLS12_MASTER_KEY_DERIVE_DH :: uint where [ck_consts]: "CKM_TLS12_MASTER_KEY_DERIVE_DH = 0x000003e2"
definition CKM_TLS12_KEY_SAFE_DERIVE :: uint where [ck_consts]: "CKM_TLS12_KEY_SAFE_DERIVE = 0x000003e3"
definition CKM_TLS_MAC :: uint where [ck_consts]: "CKM_TLS_MAC = 0x000003e4"
definition CKM_TLS_KDF :: uint where [ck_consts]: "CKM_TLS_KDF = 0x000003e5"
definition CKM_KEY_WRAP_LYNKS :: uint where [ck_consts]: "CKM_KEY_WRAP_LYNKS = 0x00000400"
definition CKM_KEY_WRAP_SET_OAEP :: uint where [ck_consts]: "CKM_KEY_WRAP_SET_OAEP = 0x00000401"
definition CKM_CMS_SIG :: uint where [ck_consts]: "CKM_CMS_SIG = 0x00000500"
definition CKM_KIP_DERIVE :: uint where [ck_consts]: "CKM_KIP_DERIVE = 0x00000510"
definition CKM_KIP_WRAP :: uint where [ck_consts]: "CKM_KIP_WRAP = 0x00000511"
definition CKM_KIP_MAC :: uint where [ck_consts]: "CKM_KIP_MAC = 0x00000512"
definition CKM_CAMELLIA_KEY_GEN :: uint where [ck_consts]: "CKM_CAMELLIA_KEY_GEN = 0x00000550"
definition CKM_CAMELLIA_ECB :: uint where [ck_consts]: "CKM_CAMELLIA_ECB = 0x00000551"
definition CKM_CAMELLIA_CBC :: uint where [ck_consts]: "CKM_CAMELLIA_CBC = 0x00000552"
definition CKM_CAMELLIA_MAC :: uint where [ck_consts]: "CKM_CAMELLIA_MAC = 0x00000553"
definition CKM_CAMELLIA_MAC_GENERAL :: uint where [ck_consts]: "CKM_CAMELLIA_MAC_GENERAL = 0x00000554"
definition CKM_CAMELLIA_CBC_PAD :: uint where [ck_consts]: "CKM_CAMELLIA_CBC_PAD = 0x00000555"
definition CKM_CAMELLIA_ECB_ENCRYPT_DATA :: uint where [ck_consts]: "CKM_CAMELLIA_ECB_ENCRYPT_DATA = 0x00000556"
definition CKM_CAMELLIA_CBC_ENCRYPT_DATA :: uint where [ck_consts]: "CKM_CAMELLIA_CBC_ENCRYPT_DATA = 0x00000557"
definition CKM_CAMELLIA_CTR :: uint where [ck_consts]: "CKM_CAMELLIA_CTR = 0x00000558"
definition CKM_ARIA_KEY_GEN :: uint where [ck_consts]: "CKM_ARIA_KEY_GEN = 0x00000560"
definition CKM_ARIA_ECB :: uint where [ck_consts]: "CKM_ARIA_ECB = 0x00000561"
definition CKM_ARIA_CBC :: uint where [ck_consts]: "CKM_ARIA_CBC = 0x00000562"
definition CKM_ARIA_MAC :: uint where [ck_consts]: "CKM_ARIA_MAC = 0x00000563"
definition CKM_ARIA_MAC_GENERAL :: uint where [ck_consts]: "CKM_ARIA_MAC_GENERAL = 0x00000564"
definition CKM_ARIA_CBC_PAD :: uint where [ck_consts]: "CKM_ARIA_CBC_PAD = 0x00000565"
definition CKM_ARIA_ECB_ENCRYPT_DATA :: uint where [ck_consts]: "CKM_ARIA_ECB_ENCRYPT_DATA = 0x00000566"
definition CKM_ARIA_CBC_ENCRYPT_DATA :: uint where [ck_consts]: "CKM_ARIA_CBC_ENCRYPT_DATA = 0x00000567"
definition CKM_SEED_KEY_GEN :: uint where [ck_consts]: "CKM_SEED_KEY_GEN = 0x00000650"
definition CKM_SEED_ECB :: uint where [ck_consts]: "CKM_SEED_ECB = 0x00000651"
definition CKM_SEED_CBC :: uint where [ck_consts]: "CKM_SEED_CBC = 0x00000652"
definition CKM_SEED_MAC :: uint where [ck_consts]: "CKM_SEED_MAC = 0x00000653"
definition CKM_SEED_MAC_GENERAL :: uint where [ck_consts]: "CKM_SEED_MAC_GENERAL = 0x00000654"
definition CKM_SEED_CBC_PAD :: uint where [ck_consts]: "CKM_SEED_CBC_PAD = 0x00000655"
definition CKM_SEED_ECB_ENCRYPT_DATA :: uint where [ck_consts]: "CKM_SEED_ECB_ENCRYPT_DATA = 0x00000656"
definition CKM_SEED_CBC_ENCRYPT_DATA :: uint where [ck_consts]: "CKM_SEED_CBC_ENCRYPT_DATA = 0x00000657"
definition CKM_SKIPJACK_KEY_GEN :: uint where [ck_consts]: "CKM_SKIPJACK_KEY_GEN = 0x00001000"
definition CKM_SKIPJACK_ECB64 :: uint where [ck_consts]: "CKM_SKIPJACK_ECB64 = 0x00001001"
definition CKM_SKIPJACK_CBC64 :: uint where [ck_consts]: "CKM_SKIPJACK_CBC64 = 0x00001002"
definition CKM_SKIPJACK_OFB64 :: uint where [ck_consts]: "CKM_SKIPJACK_OFB64 = 0x00001003"
definition CKM_SKIPJACK_CFB64 :: uint where [ck_consts]: "CKM_SKIPJACK_CFB64 = 0x00001004"
definition CKM_SKIPJACK_CFB32 :: uint where [ck_consts]: "CKM_SKIPJACK_CFB32 = 0x00001005"
definition CKM_SKIPJACK_CFB16 :: uint where [ck_consts]: "CKM_SKIPJACK_CFB16 = 0x00001006"
definition CKM_SKIPJACK_CFB8 :: uint where [ck_consts]: "CKM_SKIPJACK_CFB8 = 0x00001007"
definition CKM_SKIPJACK_WRAP :: uint where [ck_consts]: "CKM_SKIPJACK_WRAP = 0x00001008"
definition CKM_SKIPJACK_PRIVATE_WRAP :: uint where [ck_consts]: "CKM_SKIPJACK_PRIVATE_WRAP = 0x00001009"
definition CKM_SKIPJACK_RELAYX :: uint where [ck_consts]: "CKM_SKIPJACK_RELAYX = 0x0000100a"
definition CKM_KEA_KEY_PAIR_GEN :: uint where [ck_consts]: "CKM_KEA_KEY_PAIR_GEN = 0x00001010"
definition CKM_KEA_KEY_DERIVE :: uint where [ck_consts]: "CKM_KEA_KEY_DERIVE = 0x00001011"
definition CKM_KEA_DERIVE :: uint where [ck_consts]: "CKM_KEA_DERIVE = 0x00001012"
definition CKM_FORTEZZA_TIMESTAMP :: uint where [ck_consts]: "CKM_FORTEZZA_TIMESTAMP = 0x00001020"
definition CKM_BATON_KEY_GEN :: uint where [ck_consts]: "CKM_BATON_KEY_GEN = 0x00001030"
definition CKM_BATON_ECB128 :: uint where [ck_consts]: "CKM_BATON_ECB128 = 0x00001031"
definition CKM_BATON_ECB96 :: uint where [ck_consts]: "CKM_BATON_ECB96 = 0x00001032"
definition CKM_BATON_CBC128 :: uint where [ck_consts]: "CKM_BATON_CBC128 = 0x00001033"
definition CKM_BATON_COUNTER :: uint where [ck_consts]: "CKM_BATON_COUNTER = 0x00001034"
definition CKM_BATON_SHUFFLE :: uint where [ck_consts]: "CKM_BATON_SHUFFLE = 0x00001035"
definition CKM_BATON_WRAP :: uint where [ck_consts]: "CKM_BATON_WRAP = 0x00001036"
definition CKM_ECDSA_KEY_PAIR_GEN :: uint where [ck_consts]: "CKM_ECDSA_KEY_PAIR_GEN = 0x00001040"
definition CKM_EC_KEY_PAIR_GEN :: uint where [ck_consts]: "CKM_EC_KEY_PAIR_GEN = 0x00001040"
definition CKM_ECDSA :: uint where [ck_consts]: "CKM_ECDSA = 0x00001041"
definition CKM_ECDSA_SHA1 :: uint where [ck_consts]: "CKM_ECDSA_SHA1 = 0x00001042"
definition CKM_ECDSA_SHA224 :: uint where [ck_consts]: "CKM_ECDSA_SHA224 = 0x00001043"
definition CKM_ECDSA_SHA256 :: uint where [ck_consts]: "CKM_ECDSA_SHA256 = 0x00001044"
definition CKM_ECDSA_SHA384 :: uint where [ck_consts]: "CKM_ECDSA_SHA384 = 0x00001045"
definition CKM_ECDSA_SHA512 :: uint where [ck_consts]: "CKM_ECDSA_SHA512 = 0x00001046"
definition CKM_EC_KEY_PAIR_GEN_W_EXTRA_BITS :: uint where [ck_consts]: "CKM_EC_KEY_PAIR_GEN_W_EXTRA_BITS = 0x0000140b"
definition CKM_ECDH1_DERIVE :: uint where [ck_consts]: "CKM_ECDH1_DERIVE = 0x00001050"
definition CKM_ECDH1_COFACTOR_DERIVE :: uint where [ck_consts]: "CKM_ECDH1_COFACTOR_DERIVE = 0x00001051"
definition CKM_ECMQV_DERIVE :: uint where [ck_consts]: "CKM_ECMQV_DERIVE = 0x00001052"
definition CKM_ECDH_AES_KEY_WRAP :: uint where [ck_consts]: "CKM_ECDH_AES_KEY_WRAP = 0x00001053"
definition CKM_RSA_AES_KEY_WRAP :: uint where [ck_consts]: "CKM_RSA_AES_KEY_WRAP = 0x00001054"
definition CKM_JUNIPER_KEY_GEN :: uint where [ck_consts]: "CKM_JUNIPER_KEY_GEN = 0x00001060"
definition CKM_JUNIPER_ECB128 :: uint where [ck_consts]: "CKM_JUNIPER_ECB128 = 0x00001061"
definition CKM_JUNIPER_CBC128 :: uint where [ck_consts]: "CKM_JUNIPER_CBC128 = 0x00001062"
definition CKM_JUNIPER_COUNTER :: uint where [ck_consts]: "CKM_JUNIPER_COUNTER = 0x00001063"
definition CKM_JUNIPER_SHUFFLE :: uint where [ck_consts]: "CKM_JUNIPER_SHUFFLE = 0x00001064"
definition CKM_JUNIPER_WRAP :: uint where [ck_consts]: "CKM_JUNIPER_WRAP = 0x00001065"
definition CKM_FASTHASH :: uint where [ck_consts]: "CKM_FASTHASH = 0x00001070"
definition CKM_AES_XTS :: uint where [ck_consts]: "CKM_AES_XTS = 0x00001071"
definition CKM_AES_XTS_KEY_GEN :: uint where [ck_consts]: "CKM_AES_XTS_KEY_GEN = 0x00001072"
definition CKM_AES_KEY_GEN :: uint where [ck_consts]: "CKM_AES_KEY_GEN = 0x00001080"
definition CKM_AES_ECB :: uint where [ck_consts]: "CKM_AES_ECB = 0x00001081"
definition CKM_AES_CBC :: uint where [ck_consts]: "CKM_AES_CBC = 0x00001082"
definition CKM_AES_MAC :: uint where [ck_consts]: "CKM_AES_MAC = 0x00001083"
definition CKM_AES_MAC_GENERAL :: uint where [ck_consts]: "CKM_AES_MAC_GENERAL = 0x00001084"
definition CKM_AES_CBC_PAD :: uint where [ck_consts]: "CKM_AES_CBC_PAD = 0x00001085"
definition CKM_AES_CTR :: uint where [ck_consts]: "CKM_AES_CTR = 0x00001086"
definition CKM_AES_GCM :: uint where [ck_consts]: "CKM_AES_GCM = 0x00001087"
definition CKM_AES_CCM :: uint where [ck_consts]: "CKM_AES_CCM = 0x00001088"
definition CKM_AES_CTS :: uint where [ck_consts]: "CKM_AES_CTS = 0x00001089"
definition CKM_AES_CMAC :: uint where [ck_consts]: "CKM_AES_CMAC = 0x0000108a"
definition CKM_AES_CMAC_GENERAL :: uint where [ck_consts]: "CKM_AES_CMAC_GENERAL = 0x0000108b"
definition CKM_AES_XCBC_MAC :: uint where [ck_consts]: "CKM_AES_XCBC_MAC = 0x0000108c"
definition CKM_AES_XCBC_MAC_96 :: uint where [ck_consts]: "CKM_AES_XCBC_MAC_96 = 0x0000108d"
definition CKM_AES_GMAC :: uint where [ck_consts]: "CKM_AES_GMAC = 0x0000108e"
definition CKM_BLOWFISH_KEY_GEN :: uint where [ck_consts]: "CKM_BLOWFISH_KEY_GEN = 0x00001090"
definition CKM_BLOWFISH_CBC :: uint where [ck_consts]: "CKM_BLOWFISH_CBC = 0x00001091"
definition CKM_TWOFISH_KEY_GEN :: uint where [ck_consts]: "CKM_TWOFISH_KEY_GEN = 0x00001092"
definition CKM_TWOFISH_CBC :: uint where [ck_consts]: "CKM_TWOFISH_CBC = 0x00001093"
definition CKM_BLOWFISH_CBC_PAD :: uint where [ck_consts]: "CKM_BLOWFISH_CBC_PAD = 0x00001094"
definition CKM_TWOFISH_CBC_PAD :: uint where [ck_consts]: "CKM_TWOFISH_CBC_PAD = 0x00001095"
definition CKM_DES_ECB_ENCRYPT_DATA :: uint where [ck_consts]: "CKM_DES_ECB_ENCRYPT_DATA = 0x00001100"
definition CKM_DES_CBC_ENCRYPT_DATA :: uint where [ck_consts]: "CKM_DES_CBC_ENCRYPT_DATA = 0x00001101"
definition CKM_DES3_ECB_ENCRYPT_DATA :: uint where [ck_consts]: "CKM_DES3_ECB_ENCRYPT_DATA = 0x00001102"
definition CKM_DES3_CBC_ENCRYPT_DATA :: uint where [ck_consts]: "CKM_DES3_CBC_ENCRYPT_DATA = 0x00001103"
definition CKM_AES_ECB_ENCRYPT_DATA :: uint where [ck_consts]: "CKM_AES_ECB_ENCRYPT_DATA = 0x00001104"
definition CKM_AES_CBC_ENCRYPT_DATA :: uint where [ck_consts]: "CKM_AES_CBC_ENCRYPT_DATA = 0x00001105"
definition CKM_GOSTR3410_KEY_PAIR_GEN :: uint where [ck_consts]: "CKM_GOSTR3410_KEY_PAIR_GEN = 0x00001200"
definition CKM_GOSTR3410 :: uint where [ck_consts]: "CKM_GOSTR3410 = 0x00001201"
definition CKM_GOSTR3410_WITH_GOSTR3411 :: uint where [ck_consts]: "CKM_GOSTR3410_WITH_GOSTR3411 = 0x00001202"
definition CKM_GOSTR3410_KEY_WRAP :: uint where [ck_consts]: "CKM_GOSTR3410_KEY_WRAP = 0x00001203"
definition CKM_GOSTR3410_DERIVE :: uint where [ck_consts]: "CKM_GOSTR3410_DERIVE = 0x00001204"
definition CKM_GOSTR3411 :: uint where [ck_consts]: "CKM_GOSTR3411 = 0x00001210"
definition CKM_GOSTR3411_HMAC :: uint where [ck_consts]: "CKM_GOSTR3411_HMAC = 0x00001211"
definition CKM_GOST28147_KEY_GEN :: uint where [ck_consts]: "CKM_GOST28147_KEY_GEN = 0x00001220"
definition CKM_GOST28147_ECB :: uint where [ck_consts]: "CKM_GOST28147_ECB = 0x00001221"
definition CKM_GOST28147 :: uint where [ck_consts]: "CKM_GOST28147 = 0x00001222"
definition CKM_GOST28147_MAC :: uint where [ck_consts]: "CKM_GOST28147_MAC = 0x00001223"
definition CKM_GOST28147_KEY_WRAP :: uint where [ck_consts]: "CKM_GOST28147_KEY_WRAP = 0x00001224"
definition CKM_CHACHA20_KEY_GEN :: uint where [ck_consts]: "CKM_CHACHA20_KEY_GEN = 0x00001225"
definition CKM_CHACHA20 :: uint where [ck_consts]: "CKM_CHACHA20 = 0x00001226"
definition CKM_POLY1305_KEY_GEN :: uint where [ck_consts]: "CKM_POLY1305_KEY_GEN = 0x00001227"
definition CKM_POLY1305 :: uint where [ck_consts]: "CKM_POLY1305 = 0x00001228"
definition CKM_DSA_PARAMETER_GEN :: uint where [ck_consts]: "CKM_DSA_PARAMETER_GEN = 0x00002000"
definition CKM_DH_PKCS_PARAMETER_GEN :: uint where [ck_consts]: "CKM_DH_PKCS_PARAMETER_GEN = 0x00002001"
definition CKM_X9_42_DH_PARAMETER_GEN :: uint where [ck_consts]: "CKM_X9_42_DH_PARAMETER_GEN = 0x00002002"
definition CKM_DSA_PROBABILISTIC_PARAMETER_GEN :: uint where [ck_consts]: "CKM_DSA_PROBABILISTIC_PARAMETER_GEN = 0x00002003"
definition CKM_DSA_PROBABLISTIC_PARAMETER_GEN :: uint where [ck_consts]: "CKM_DSA_PROBABLISTIC_PARAMETER_GEN = CKM_DSA_PROBABILISTIC_PARAMETER_GEN"
definition CKM_DSA_SHAWE_TAYLOR_PARAMETER_GEN :: uint where [ck_consts]: "CKM_DSA_SHAWE_TAYLOR_PARAMETER_GEN = 0x00002004"
definition CKM_DSA_FIPS_G_GEN :: uint where [ck_consts]: "CKM_DSA_FIPS_G_GEN = 0x00002005"
definition CKM_AES_OFB :: uint where [ck_consts]: "CKM_AES_OFB = 0x00002104"
definition CKM_AES_CFB64 :: uint where [ck_consts]: "CKM_AES_CFB64 = 0x00002105"
definition CKM_AES_CFB8 :: uint where [ck_consts]: "CKM_AES_CFB8 = 0x00002106"
definition CKM_AES_CFB128 :: uint where [ck_consts]: "CKM_AES_CFB128 = 0x00002107"
definition CKM_AES_CFB1 :: uint where [ck_consts]: "CKM_AES_CFB1 = 0x00002108"
definition CKM_AES_KEY_WRAP :: uint where [ck_consts]: "CKM_AES_KEY_WRAP = 0x00002109"
definition CKM_AES_KEY_WRAP_PAD :: uint where [ck_consts]: "CKM_AES_KEY_WRAP_PAD = 0x0000210a"
definition CKM_AES_KEY_WRAP_KWP :: uint where [ck_consts]: "CKM_AES_KEY_WRAP_KWP = 0x0000210b"
definition CKM_AES_KEY_WRAP_PKCS7 :: uint where [ck_consts]: "CKM_AES_KEY_WRAP_PKCS7 = 0x0000210c"
definition CKM_RSA_PKCS_TPM_1_1 :: uint where [ck_consts]: "CKM_RSA_PKCS_TPM_1_1 = 0x00004001"
definition CKM_RSA_PKCS_OAEP_TPM_1_1 :: uint where [ck_consts]: "CKM_RSA_PKCS_OAEP_TPM_1_1 = 0x00004002"
definition CKM_SHA_1_KEY_GEN :: uint where [ck_consts]: "CKM_SHA_1_KEY_GEN = 0x00004003"
definition CKM_SHA224_KEY_GEN :: uint where [ck_consts]: "CKM_SHA224_KEY_GEN = 0x00004004"
definition CKM_SHA256_KEY_GEN :: uint where [ck_consts]: "CKM_SHA256_KEY_GEN = 0x00004005"
definition CKM_SHA384_KEY_GEN :: uint where [ck_consts]: "CKM_SHA384_KEY_GEN = 0x00004006"
definition CKM_SHA512_KEY_GEN :: uint where [ck_consts]: "CKM_SHA512_KEY_GEN = 0x00004007"
definition CKM_SHA512_224_KEY_GEN :: uint where [ck_consts]: "CKM_SHA512_224_KEY_GEN = 0x00004008"
definition CKM_SHA512_256_KEY_GEN :: uint where [ck_consts]: "CKM_SHA512_256_KEY_GEN = 0x00004009"
definition CKM_SHA512_T_KEY_GEN :: uint where [ck_consts]: "CKM_SHA512_T_KEY_GEN = 0x0000400a"
definition CKM_NULL :: uint where [ck_consts]: "CKM_NULL = 0x0000400b"
definition CKM_BLAKE2B_160 :: uint where [ck_consts]: "CKM_BLAKE2B_160 = 0x0000400c"
definition CKM_BLAKE2B_160_HMAC :: uint where [ck_consts]: "CKM_BLAKE2B_160_HMAC = 0x0000400d"
definition CKM_BLAKE2B_160_HMAC_GENERAL :: uint where [ck_consts]: "CKM_BLAKE2B_160_HMAC_GENERAL = 0x0000400e"
definition CKM_BLAKE2B_160_KEY_DERIVE :: uint where [ck_consts]: "CKM_BLAKE2B_160_KEY_DERIVE = 0x0000400f"
definition CKM_BLAKE2B_160_KEY_GEN :: uint where [ck_consts]: "CKM_BLAKE2B_160_KEY_GEN = 0x00004010"
definition CKM_BLAKE2B_256 :: uint where [ck_consts]: "CKM_BLAKE2B_256 = 0x00004011"
definition CKM_BLAKE2B_256_HMAC :: uint where [ck_consts]: "CKM_BLAKE2B_256_HMAC = 0x00004012"
definition CKM_BLAKE2B_256_HMAC_GENERAL :: uint where [ck_consts]: "CKM_BLAKE2B_256_HMAC_GENERAL = 0x00004013"
definition CKM_BLAKE2B_256_KEY_DERIVE :: uint where [ck_consts]: "CKM_BLAKE2B_256_KEY_DERIVE = 0x00004014"
definition CKM_BLAKE2B_256_KEY_GEN :: uint where [ck_consts]: "CKM_BLAKE2B_256_KEY_GEN = 0x00004015"
definition CKM_BLAKE2B_384 :: uint where [ck_consts]: "CKM_BLAKE2B_384 = 0x00004016"
definition CKM_BLAKE2B_384_HMAC :: uint where [ck_consts]: "CKM_BLAKE2B_384_HMAC = 0x00004017"
definition CKM_BLAKE2B_384_HMAC_GENERAL :: uint where [ck_consts]: "CKM_BLAKE2B_384_HMAC_GENERAL = 0x00004018"
definition CKM_BLAKE2B_384_KEY_DERIVE :: uint where [ck_consts]: "CKM_BLAKE2B_384_KEY_DERIVE = 0x00004019"
definition CKM_BLAKE2B_384_KEY_GEN :: uint where [ck_consts]: "CKM_BLAKE2B_384_KEY_GEN = 0x0000401a"
definition CKM_BLAKE2B_512 :: uint where [ck_consts]: "CKM_BLAKE2B_512 = 0x0000401b"
definition CKM_BLAKE2B_512_HMAC :: uint where [ck_consts]: "CKM_BLAKE2B_512_HMAC = 0x0000401c"
definition CKM_BLAKE2B_512_HMAC_GENERAL :: uint where [ck_consts]: "CKM_BLAKE2B_512_HMAC_GENERAL = 0x0000401d"
definition CKM_BLAKE2B_512_KEY_DERIVE :: uint where [ck_consts]: "CKM_BLAKE2B_512_KEY_DERIVE = 0x0000401e"
definition CKM_BLAKE2B_512_KEY_GEN :: uint where [ck_consts]: "CKM_BLAKE2B_512_KEY_GEN = 0x0000401f"
definition CKM_SALSA20 :: uint where [ck_consts]: "CKM_SALSA20 = 0x00004020"
definition CKM_CHACHA20_POLY1305 :: uint where [ck_consts]: "CKM_CHACHA20_POLY1305 = 0x00004021"
definition CKM_SALSA20_POLY1305 :: uint where [ck_consts]: "CKM_SALSA20_POLY1305 = 0x00004022"
definition CKM_X3DH_INITIALIZE :: uint where [ck_consts]: "CKM_X3DH_INITIALIZE = 0x00004023"
definition CKM_X3DH_RESPOND :: uint where [ck_consts]: "CKM_X3DH_RESPOND = 0x00004024"
definition CKM_X2RATCHET_INITIALIZE :: uint where [ck_consts]: "CKM_X2RATCHET_INITIALIZE = 0x00004025"
definition CKM_X2RATCHET_RESPOND :: uint where [ck_consts]: "CKM_X2RATCHET_RESPOND = 0x00004026"
definition CKM_X2RATCHET_ENCRYPT :: uint where [ck_consts]: "CKM_X2RATCHET_ENCRYPT = 0x00004027"
definition CKM_X2RATCHET_DECRYPT :: uint where [ck_consts]: "CKM_X2RATCHET_DECRYPT = 0x00004028"
definition CKM_XEDDSA :: uint where [ck_consts]: "CKM_XEDDSA = 0x00004029"
definition CKM_HKDF_DERIVE :: uint where [ck_consts]: "CKM_HKDF_DERIVE = 0x0000402a"
definition CKM_HKDF_DATA :: uint where [ck_consts]: "CKM_HKDF_DATA = 0x0000402b"
definition CKM_HKDF_KEY_GEN :: uint where [ck_consts]: "CKM_HKDF_KEY_GEN = 0x0000402c"
definition CKM_SALSA20_KEY_GEN :: uint where [ck_consts]: "CKM_SALSA20_KEY_GEN = 0x0000402d"
definition CKM_ECDSA_SHA3_224 :: uint where [ck_consts]: "CKM_ECDSA_SHA3_224 = 0x00001047"
definition CKM_ECDSA_SHA3_256 :: uint where [ck_consts]: "CKM_ECDSA_SHA3_256 = 0x00001048"
definition CKM_ECDSA_SHA3_384 :: uint where [ck_consts]: "CKM_ECDSA_SHA3_384 = 0x00001049"
definition CKM_ECDSA_SHA3_512 :: uint where [ck_consts]: "CKM_ECDSA_SHA3_512 = 0x0000104a"
definition CKM_EC_EDWARDS_KEY_PAIR_GEN :: uint where [ck_consts]: "CKM_EC_EDWARDS_KEY_PAIR_GEN = 0x00001055"
definition CKM_EC_MONTGOMERY_KEY_PAIR_GEN :: uint where [ck_consts]: "CKM_EC_MONTGOMERY_KEY_PAIR_GEN = 0x00001056"
definition CKM_EDDSA :: uint where [ck_consts]: "CKM_EDDSA = 0x00001057"
definition CKM_SP800_108_COUNTER_KDF :: uint where [ck_consts]: "CKM_SP800_108_COUNTER_KDF = 0x000003ac"
definition CKM_SP800_108_FEEDBACK_KDF :: uint where [ck_consts]: "CKM_SP800_108_FEEDBACK_KDF = 0x000003ad"
definition CKM_SP800_108_DOUBLE_PIPELINE_KDF :: uint where [ck_consts]: "CKM_SP800_108_DOUBLE_PIPELINE_KDF = 0x000003ae"
definition CKM_IKE2_PRF_PLUS_DERIVE :: uint where [ck_consts]: "CKM_IKE2_PRF_PLUS_DERIVE = 0x0000402e"
definition CKM_IKE_PRF_DERIVE :: uint where [ck_consts]: "CKM_IKE_PRF_DERIVE = 0x0000402f"
definition CKM_IKE1_PRF_DERIVE :: uint where [ck_consts]: "CKM_IKE1_PRF_DERIVE = 0x00004030"
definition CKM_IKE1_EXTENDED_DERIVE :: uint where [ck_consts]: "CKM_IKE1_EXTENDED_DERIVE = 0x00004031"
definition CKM_HSS_KEY_PAIR_GEN :: uint where [ck_consts]: "CKM_HSS_KEY_PAIR_GEN = 0x00004032"
definition CKM_HSS :: uint where [ck_consts]: "CKM_HSS = 0x00004033"
definition CKM_XMSS_KEY_PAIR_GEN :: uint where [ck_consts]: "CKM_XMSS_KEY_PAIR_GEN = 0x00004034"
definition CKM_XMSSMT_KEY_PAIR_GEN :: uint where [ck_consts]: "CKM_XMSSMT_KEY_PAIR_GEN = 0x00004035"
definition CKM_XMSS :: uint where [ck_consts]: "CKM_XMSS = 0x00004036"
definition CKM_XMSSMT :: uint where [ck_consts]: "CKM_XMSSMT = 0x00004037"
definition CKM_ECDH_X_AES_KEY_WRAP :: uint where [ck_consts]: "CKM_ECDH_X_AES_KEY_WRAP = 0x00004038"
definition CKM_ECDH_COF_AES_KEY_WRAP :: uint where [ck_consts]: "CKM_ECDH_COF_AES_KEY_WRAP = 0x00004039"
definition CKM_PUB_KEY_FROM_PRIV_KEY :: uint where [ck_consts]: "CKM_PUB_KEY_FROM_PRIV_KEY = 0x0000403a"
definition CKM_ML_KEM_KEY_PAIR_GEN :: uint where [ck_consts]: "CKM_ML_KEM_KEY_PAIR_GEN = 0x0000000f"
definition CKM_ML_KEM :: uint where [ck_consts]: "CKM_ML_KEM = 0x00000017"
definition CKM_ML_DSA_KEY_PAIR_GEN :: uint where [ck_consts]: "CKM_ML_DSA_KEY_PAIR_GEN = 0x0000001c"
definition CKM_ML_DSA :: uint where [ck_consts]: "CKM_ML_DSA = 0x0000001d"
definition CKM_HASH_ML_DSA :: uint where [ck_consts]: "CKM_HASH_ML_DSA = 0x0000001f"
definition CKM_HASH_ML_DSA_SHA224 :: uint where [ck_consts]: "CKM_HASH_ML_DSA_SHA224 = 0x00000023"
definition CKM_HASH_ML_DSA_SHA256 :: uint where [ck_consts]: "CKM_HASH_ML_DSA_SHA256 = 0x00000024"
definition CKM_HASH_ML_DSA_SHA384 :: uint where [ck_consts]: "CKM_HASH_ML_DSA_SHA384 = 0x00000025"
definition CKM_HASH_ML_DSA_SHA512 :: uint where [ck_consts]: "CKM_HASH_ML_DSA_SHA512 = 0x00000026"
definition CKM_HASH_ML_DSA_SHA3_224 :: uint where [ck_consts]: "CKM_HASH_ML_DSA_SHA3_224 = 0x00000027"
definition CKM_HASH_ML_DSA_SHA3_256 :: uint where [ck_consts]: "CKM_HASH_ML_DSA_SHA3_256 = 0x00000028"
definition CKM_HASH_ML_DSA_SHA3_384 :: uint where [ck_consts]: "CKM_HASH_ML_DSA_SHA3_384 = 0x00000029"
definition CKM_HASH_ML_DSA_SHA3_512 :: uint where [ck_consts]: "CKM_HASH_ML_DSA_SHA3_512 = 0x0000002a"
definition CKM_HASH_ML_DSA_SHAKE128 :: uint where [ck_consts]: "CKM_HASH_ML_DSA_SHAKE128 = 0x0000002b"
definition CKM_HASH_ML_DSA_SHAKE256 :: uint where [ck_consts]: "CKM_HASH_ML_DSA_SHAKE256 = 0x0000002c"
definition CKM_SLH_DSA_KEY_PAIR_GEN :: uint where [ck_consts]: "CKM_SLH_DSA_KEY_PAIR_GEN = 0x0000002d"
definition CKM_SLH_DSA :: uint where [ck_consts]: "CKM_SLH_DSA = 0x0000002e"
definition CKM_HASH_SLH_DSA :: uint where [ck_consts]: "CKM_HASH_SLH_DSA = 0x00000034"
definition CKM_HASH_SLH_DSA_SHA224 :: uint where [ck_consts]: "CKM_HASH_SLH_DSA_SHA224 = 0x00000036"
definition CKM_HASH_SLH_DSA_SHA256 :: uint where [ck_consts]: "CKM_HASH_SLH_DSA_SHA256 = 0x00000037"
definition CKM_HASH_SLH_DSA_SHA384 :: uint where [ck_consts]: "CKM_HASH_SLH_DSA_SHA384 = 0x00000038"
definition CKM_HASH_SLH_DSA_SHA512 :: uint where [ck_consts]: "CKM_HASH_SLH_DSA_SHA512 = 0x00000039"
definition CKM_HASH_SLH_DSA_SHA3_224 :: uint where [ck_consts]: "CKM_HASH_SLH_DSA_SHA3_224 = 0x0000003a"
definition CKM_HASH_SLH_DSA_SHA3_256 :: uint where [ck_consts]: "CKM_HASH_SLH_DSA_SHA3_256 = 0x0000003b"
definition CKM_HASH_SLH_DSA_SHA3_384 :: uint where [ck_consts]: "CKM_HASH_SLH_DSA_SHA3_384 = 0x0000003c"
definition CKM_HASH_SLH_DSA_SHA3_512 :: uint where [ck_consts]: "CKM_HASH_SLH_DSA_SHA3_512 = 0x0000003d"
definition CKM_HASH_SLH_DSA_SHAKE128 :: uint where [ck_consts]: "CKM_HASH_SLH_DSA_SHAKE128 = 0x0000003e"
definition CKM_HASH_SLH_DSA_SHAKE256 :: uint where [ck_consts]: "CKM_HASH_SLH_DSA_SHAKE256 = 0x0000003f"
definition CKM_TLS12_EXTENDED_MASTER_KEY_DERIVE :: uint where [ck_consts]: "CKM_TLS12_EXTENDED_MASTER_KEY_DERIVE = 0x00000056"
definition CKM_TLS12_EXTENDED_MASTER_KEY_DERIVE_DH :: uint where [ck_consts]: "CKM_TLS12_EXTENDED_MASTER_KEY_DERIVE_DH = 0x00000057"
definition CKM_VENDOR_DEFINED :: uint where [ck_consts]: "CKM_VENDOR_DEFINED = 0x80000000"

section \<open>CKF\_ constants\<close>

definition CKF_HW :: uint where [ck_consts]: "CKF_HW = 1"
definition CKF_MESSAGE_ENCRYPT :: uint where [ck_consts]: "CKF_MESSAGE_ENCRYPT = 0x00000002"
definition CKF_MESSAGE_DECRYPT :: uint where [ck_consts]: "CKF_MESSAGE_DECRYPT = 0x00000004"
definition CKF_MESSAGE_SIGN :: uint where [ck_consts]: "CKF_MESSAGE_SIGN = 0x00000008"
definition CKF_MESSAGE_VERIFY :: uint where [ck_consts]: "CKF_MESSAGE_VERIFY = 0x00000010"
definition CKF_MULTI_MESSAGE :: uint where [ck_consts]: "CKF_MULTI_MESSAGE = 0x00000020"
definition CKF_MULTI_MESSGE :: uint where [ck_consts]: "CKF_MULTI_MESSGE = CKF_MULTI_MESSAGE"
definition CKF_FIND_OBJECTS :: uint where [ck_consts]: "CKF_FIND_OBJECTS = 0x00000040"
definition CKF_ENCRYPT :: uint where [ck_consts]: "CKF_ENCRYPT = 0x00000100"
definition CKF_DECRYPT :: uint where [ck_consts]: "CKF_DECRYPT = 0x00000200"
definition CKF_DIGEST :: uint where [ck_consts]: "CKF_DIGEST = 0x00000400"
definition CKF_SIGN :: uint where [ck_consts]: "CKF_SIGN = 0x00000800"
definition CKF_SIGN_RECOVER :: uint where [ck_consts]: "CKF_SIGN_RECOVER = 0x00001000"
definition CKF_VERIFY :: uint where [ck_consts]: "CKF_VERIFY = 0x00002000"
definition CKF_VERIFY_RECOVER :: uint where [ck_consts]: "CKF_VERIFY_RECOVER = 0x00004000"
definition CKF_GENERATE :: uint where [ck_consts]: "CKF_GENERATE = 0x00008000"
definition CKF_GENERATE_KEY_PAIR :: uint where [ck_consts]: "CKF_GENERATE_KEY_PAIR = 0x00010000"
definition CKF_WRAP :: uint where [ck_consts]: "CKF_WRAP = 0x00020000"
definition CKF_UNWRAP :: uint where [ck_consts]: "CKF_UNWRAP = 0x00040000"
definition CKF_DERIVE :: uint where [ck_consts]: "CKF_DERIVE = 0x00080000"
definition CKF_EC_F_P :: uint where [ck_consts]: "CKF_EC_F_P = 0x00100000"
definition CKF_EC_F_2M :: uint where [ck_consts]: "CKF_EC_F_2M = 0x00200000"
definition CKF_EC_ECPARAMETERS :: uint where [ck_consts]: "CKF_EC_ECPARAMETERS = 0x00400000"
definition CKF_EC_OID :: uint where [ck_consts]: "CKF_EC_OID = 0x00800000"
definition CKF_EC_NAMEDCURVE :: uint where [ck_consts]: "CKF_EC_NAMEDCURVE = CKF_EC_OID"
definition CKF_EC_UNCOMPRESS :: uint where [ck_consts]: "CKF_EC_UNCOMPRESS = 0x01000000"
definition CKF_EC_COMPRESS :: uint where [ck_consts]: "CKF_EC_COMPRESS = 0x02000000"
definition CKF_EC_CURVENAME :: uint where [ck_consts]: "CKF_EC_CURVENAME = 0x04000000"
definition CKF_ENCAPSULATE :: uint where [ck_consts]: "CKF_ENCAPSULATE = 0x10000000"
definition CKF_DECAPSULATE :: uint where [ck_consts]: "CKF_DECAPSULATE = 0x20000000"
definition CKF_EXTENSION :: uint where [ck_consts]: "CKF_EXTENSION = 0x80000000"

section \<open>CKR\_ constants\<close>

definition CKR_OK :: uint where [ck_consts]: "CKR_OK = 0"
definition CKR_CANCEL :: uint where [ck_consts]: "CKR_CANCEL = 1"
definition CKR_HOST_MEMORY :: uint where [ck_consts]: "CKR_HOST_MEMORY = 0x00000002"
definition CKR_SLOT_ID_INVALID :: uint where [ck_consts]: "CKR_SLOT_ID_INVALID = 0x00000003"
definition CKR_GENERAL_ERROR :: uint where [ck_consts]: "CKR_GENERAL_ERROR = 0x00000005"
definition CKR_FUNCTION_FAILED :: uint where [ck_consts]: "CKR_FUNCTION_FAILED = 0x00000006"
definition CKR_ARGUMENTS_BAD :: uint where [ck_consts]: "CKR_ARGUMENTS_BAD = 0x00000007"
definition CKR_NO_EVENT :: uint where [ck_consts]: "CKR_NO_EVENT = 0x00000008"
definition CKR_NEED_TO_CREATE_THREADS :: uint where [ck_consts]: "CKR_NEED_TO_CREATE_THREADS = 0x00000009"
definition CKR_CANT_LOCK :: uint where [ck_consts]: "CKR_CANT_LOCK = 0x0000000a"
definition CKR_ATTRIBUTE_READ_ONLY :: uint where [ck_consts]: "CKR_ATTRIBUTE_READ_ONLY = 0x00000010"
definition CKR_ATTRIBUTE_SENSITIVE :: uint where [ck_consts]: "CKR_ATTRIBUTE_SENSITIVE = 0x00000011"
definition CKR_ATTRIBUTE_TYPE_INVALID :: uint where [ck_consts]: "CKR_ATTRIBUTE_TYPE_INVALID = 0x00000012"
definition CKR_ATTRIBUTE_VALUE_INVALID :: uint where [ck_consts]: "CKR_ATTRIBUTE_VALUE_INVALID = 0x00000013"
definition CKR_ACTION_PROHIBITED :: uint where [ck_consts]: "CKR_ACTION_PROHIBITED = 0x0000001b"
definition CKR_DATA_INVALID :: uint where [ck_consts]: "CKR_DATA_INVALID = 0x00000020"
definition CKR_DATA_LEN_RANGE :: uint where [ck_consts]: "CKR_DATA_LEN_RANGE = 0x00000021"
definition CKR_DEVICE_ERROR :: uint where [ck_consts]: "CKR_DEVICE_ERROR = 0x00000030"
definition CKR_DEVICE_MEMORY :: uint where [ck_consts]: "CKR_DEVICE_MEMORY = 0x00000031"
definition CKR_DEVICE_REMOVED :: uint where [ck_consts]: "CKR_DEVICE_REMOVED = 0x00000032"
definition CKR_ENCRYPTED_DATA_INVALID :: uint where [ck_consts]: "CKR_ENCRYPTED_DATA_INVALID = 0x00000040"
definition CKR_ENCRYPTED_DATA_LEN_RANGE :: uint where [ck_consts]: "CKR_ENCRYPTED_DATA_LEN_RANGE = 0x00000041"
definition CKR_AEAD_DECRYPT_FAILED :: uint where [ck_consts]: "CKR_AEAD_DECRYPT_FAILED = 0x00000042"
definition CKR_FUNCTION_CANCELED :: uint where [ck_consts]: "CKR_FUNCTION_CANCELED = 0x00000050"
definition CKR_FUNCTION_NOT_PARALLEL :: uint where [ck_consts]: "CKR_FUNCTION_NOT_PARALLEL = 0x00000051"
definition CKR_FUNCTION_NOT_SUPPORTED :: uint where [ck_consts]: "CKR_FUNCTION_NOT_SUPPORTED = 0x00000054"
definition CKR_KEY_HANDLE_INVALID :: uint where [ck_consts]: "CKR_KEY_HANDLE_INVALID = 0x00000060"
definition CKR_KEY_SIZE_RANGE :: uint where [ck_consts]: "CKR_KEY_SIZE_RANGE = 0x00000062"
definition CKR_KEY_TYPE_INCONSISTENT :: uint where [ck_consts]: "CKR_KEY_TYPE_INCONSISTENT = 0x00000063"
definition CKR_KEY_NOT_NEEDED :: uint where [ck_consts]: "CKR_KEY_NOT_NEEDED = 0x00000064"
definition CKR_KEY_CHANGED :: uint where [ck_consts]: "CKR_KEY_CHANGED = 0x00000065"
definition CKR_KEY_NEEDED :: uint where [ck_consts]: "CKR_KEY_NEEDED = 0x00000066"
definition CKR_KEY_INDIGESTIBLE :: uint where [ck_consts]: "CKR_KEY_INDIGESTIBLE = 0x00000067"
definition CKR_KEY_FUNCTION_NOT_PERMITTED :: uint where [ck_consts]: "CKR_KEY_FUNCTION_NOT_PERMITTED = 0x00000068"
definition CKR_KEY_NOT_WRAPPABLE :: uint where [ck_consts]: "CKR_KEY_NOT_WRAPPABLE = 0x00000069"
definition CKR_KEY_UNEXTRACTABLE :: uint where [ck_consts]: "CKR_KEY_UNEXTRACTABLE = 0x0000006a"
definition CKR_MECHANISM_INVALID :: uint where [ck_consts]: "CKR_MECHANISM_INVALID = 0x00000070"
definition CKR_MECHANISM_PARAM_INVALID :: uint where [ck_consts]: "CKR_MECHANISM_PARAM_INVALID = 0x00000071"
definition CKR_OBJECT_HANDLE_INVALID :: uint where [ck_consts]: "CKR_OBJECT_HANDLE_INVALID = 0x00000082"
definition CKR_OPERATION_ACTIVE :: uint where [ck_consts]: "CKR_OPERATION_ACTIVE = 0x00000090"
definition CKR_OPERATION_NOT_INITIALIZED :: uint where [ck_consts]: "CKR_OPERATION_NOT_INITIALIZED = 0x00000091"
definition CKR_PIN_INCORRECT :: uint where [ck_consts]: "CKR_PIN_INCORRECT = 0x000000a0"
definition CKR_PIN_INVALID :: uint where [ck_consts]: "CKR_PIN_INVALID = 0x000000a1"
definition CKR_PIN_LEN_RANGE :: uint where [ck_consts]: "CKR_PIN_LEN_RANGE = 0x000000a2"
definition CKR_PIN_EXPIRED :: uint where [ck_consts]: "CKR_PIN_EXPIRED = 0x000000a3"
definition CKR_PIN_LOCKED :: uint where [ck_consts]: "CKR_PIN_LOCKED = 0x000000a4"
definition CKR_SESSION_CLOSED :: uint where [ck_consts]: "CKR_SESSION_CLOSED = 0x000000b0"
definition CKR_SESSION_COUNT :: uint where [ck_consts]: "CKR_SESSION_COUNT = 0x000000b1"
definition CKR_SESSION_HANDLE_INVALID :: uint where [ck_consts]: "CKR_SESSION_HANDLE_INVALID = 0x000000b3"
definition CKR_SESSION_PARALLEL_NOT_SUPPORTED :: uint where [ck_consts]: "CKR_SESSION_PARALLEL_NOT_SUPPORTED = 0x000000b4"
definition CKR_SESSION_READ_ONLY :: uint where [ck_consts]: "CKR_SESSION_READ_ONLY = 0x000000b5"
definition CKR_SESSION_EXISTS :: uint where [ck_consts]: "CKR_SESSION_EXISTS = 0x000000b6"
definition CKR_SESSION_READ_ONLY_EXISTS :: uint where [ck_consts]: "CKR_SESSION_READ_ONLY_EXISTS = 0x000000b7"
definition CKR_SESSION_READ_WRITE_SO_EXISTS :: uint where [ck_consts]: "CKR_SESSION_READ_WRITE_SO_EXISTS = 0x000000b8"
definition CKR_SIGNATURE_INVALID :: uint where [ck_consts]: "CKR_SIGNATURE_INVALID = 0x000000c0"
definition CKR_SIGNATURE_LEN_RANGE :: uint where [ck_consts]: "CKR_SIGNATURE_LEN_RANGE = 0x000000c1"
definition CKR_TEMPLATE_INCOMPLETE :: uint where [ck_consts]: "CKR_TEMPLATE_INCOMPLETE = 0x000000d0"
definition CKR_TEMPLATE_INCONSISTENT :: uint where [ck_consts]: "CKR_TEMPLATE_INCONSISTENT = 0x000000d1"
definition CKR_TOKEN_NOT_PRESENT :: uint where [ck_consts]: "CKR_TOKEN_NOT_PRESENT = 0x000000e0"
definition CKR_TOKEN_NOT_RECOGNIZED :: uint where [ck_consts]: "CKR_TOKEN_NOT_RECOGNIZED = 0x000000e1"
definition CKR_TOKEN_WRITE_PROTECTED :: uint where [ck_consts]: "CKR_TOKEN_WRITE_PROTECTED = 0x000000e2"
definition CKR_UNWRAPPING_KEY_HANDLE_INVALID :: uint where [ck_consts]: "CKR_UNWRAPPING_KEY_HANDLE_INVALID = 0x000000f0"
definition CKR_UNWRAPPING_KEY_SIZE_RANGE :: uint where [ck_consts]: "CKR_UNWRAPPING_KEY_SIZE_RANGE = 0x000000f1"
definition CKR_UNWRAPPING_KEY_TYPE_INCONSISTENT :: uint where [ck_consts]: "CKR_UNWRAPPING_KEY_TYPE_INCONSISTENT = 0x000000f2"
definition CKR_USER_ALREADY_LOGGED_IN :: uint where [ck_consts]: "CKR_USER_ALREADY_LOGGED_IN = 0x00000100"
definition CKR_USER_NOT_LOGGED_IN :: uint where [ck_consts]: "CKR_USER_NOT_LOGGED_IN = 0x00000101"
definition CKR_USER_PIN_NOT_INITIALIZED :: uint where [ck_consts]: "CKR_USER_PIN_NOT_INITIALIZED = 0x00000102"
definition CKR_USER_TYPE_INVALID :: uint where [ck_consts]: "CKR_USER_TYPE_INVALID = 0x00000103"
definition CKR_USER_ANOTHER_ALREADY_LOGGED_IN :: uint where [ck_consts]: "CKR_USER_ANOTHER_ALREADY_LOGGED_IN = 0x00000104"
definition CKR_USER_TOO_MANY_TYPES :: uint where [ck_consts]: "CKR_USER_TOO_MANY_TYPES = 0x00000105"
definition CKR_WRAPPED_KEY_INVALID :: uint where [ck_consts]: "CKR_WRAPPED_KEY_INVALID = 0x00000110"
definition CKR_WRAPPED_KEY_LEN_RANGE :: uint where [ck_consts]: "CKR_WRAPPED_KEY_LEN_RANGE = 0x00000112"
definition CKR_WRAPPING_KEY_HANDLE_INVALID :: uint where [ck_consts]: "CKR_WRAPPING_KEY_HANDLE_INVALID = 0x00000113"
definition CKR_WRAPPING_KEY_SIZE_RANGE :: uint where [ck_consts]: "CKR_WRAPPING_KEY_SIZE_RANGE = 0x00000114"
definition CKR_WRAPPING_KEY_TYPE_INCONSISTENT :: uint where [ck_consts]: "CKR_WRAPPING_KEY_TYPE_INCONSISTENT = 0x00000115"
definition CKR_RANDOM_SEED_NOT_SUPPORTED :: uint where [ck_consts]: "CKR_RANDOM_SEED_NOT_SUPPORTED = 0x00000120"
definition CKR_RANDOM_NO_RNG :: uint where [ck_consts]: "CKR_RANDOM_NO_RNG = 0x00000121"
definition CKR_DOMAIN_PARAMS_INVALID :: uint where [ck_consts]: "CKR_DOMAIN_PARAMS_INVALID = 0x00000130"
definition CKR_CURVE_NOT_SUPPORTED :: uint where [ck_consts]: "CKR_CURVE_NOT_SUPPORTED = 0x00000140"
definition CKR_BUFFER_TOO_SMALL :: uint where [ck_consts]: "CKR_BUFFER_TOO_SMALL = 0x00000150"
definition CKR_SAVED_STATE_INVALID :: uint where [ck_consts]: "CKR_SAVED_STATE_INVALID = 0x00000160"
definition CKR_INFORMATION_SENSITIVE :: uint where [ck_consts]: "CKR_INFORMATION_SENSITIVE = 0x00000170"
definition CKR_STATE_UNSAVEABLE :: uint where [ck_consts]: "CKR_STATE_UNSAVEABLE = 0x00000180"
definition CKR_CRYPTOKI_NOT_INITIALIZED :: uint where [ck_consts]: "CKR_CRYPTOKI_NOT_INITIALIZED = 0x00000190"
definition CKR_CRYPTOKI_ALREADY_INITIALIZED :: uint where [ck_consts]: "CKR_CRYPTOKI_ALREADY_INITIALIZED = 0x00000191"
definition CKR_MUTEX_BAD :: uint where [ck_consts]: "CKR_MUTEX_BAD = 0x000001a0"
definition CKR_MUTEX_NOT_LOCKED :: uint where [ck_consts]: "CKR_MUTEX_NOT_LOCKED = 0x000001a1"
definition CKR_NEW_PIN_MODE :: uint where [ck_consts]: "CKR_NEW_PIN_MODE = 0x000001b0"
definition CKR_NEXT_OTP :: uint where [ck_consts]: "CKR_NEXT_OTP = 0x000001b1"
definition CKR_EXCEEDED_MAX_ITERATIONS :: uint where [ck_consts]: "CKR_EXCEEDED_MAX_ITERATIONS = 0x000001b5"
definition CKR_FIPS_SELF_TEST_FAILED :: uint where [ck_consts]: "CKR_FIPS_SELF_TEST_FAILED = 0x000001b6"
definition CKR_LIBRARY_LOAD_FAILED :: uint where [ck_consts]: "CKR_LIBRARY_LOAD_FAILED = 0x000001b7"
definition CKR_PIN_TOO_WEAK :: uint where [ck_consts]: "CKR_PIN_TOO_WEAK = 0x000001b8"
definition CKR_PUBLIC_KEY_INVALID :: uint where [ck_consts]: "CKR_PUBLIC_KEY_INVALID = 0x000001b9"
definition CKR_FUNCTION_REJECTED :: uint where [ck_consts]: "CKR_FUNCTION_REJECTED = 0x00000200"
definition CKR_TOKEN_RESOURCE_EXCEEDED :: uint where [ck_consts]: "CKR_TOKEN_RESOURCE_EXCEEDED = 0x00000201"
definition CKR_OPERATION_CANCEL_FAILED :: uint where [ck_consts]: "CKR_OPERATION_CANCEL_FAILED = 0x00000202"
definition CKR_KEY_EXHAUSTED :: uint where [ck_consts]: "CKR_KEY_EXHAUSTED = 0x00000203"
definition CKR_PENDING :: uint where [ck_consts]: "CKR_PENDING = 0x00000204"
definition CKR_SESSION_ASYNC_NOT_SUPPORTED :: uint where [ck_consts]: "CKR_SESSION_ASYNC_NOT_SUPPORTED = 0x00000205"
definition CKR_SEED_RANDOM_REQUIRED :: uint where [ck_consts]: "CKR_SEED_RANDOM_REQUIRED = 0x00000206"
definition CKR_OPERATION_NOT_VALIDATED :: uint where [ck_consts]: "CKR_OPERATION_NOT_VALIDATED = 0x00000207"
definition CKR_TOKEN_NOT_INITIALIZED :: uint where [ck_consts]: "CKR_TOKEN_NOT_INITIALIZED = 0x00000208"
definition CKR_PARAMETER_SET_NOT_SUPPORTED :: uint where [ck_consts]: "CKR_PARAMETER_SET_NOT_SUPPORTED = 0x00000209"
definition CKR_VENDOR_DEFINED :: uint where [ck_consts]: "CKR_VENDOR_DEFINED = 0x80000000"

section \<open>CKF\_ constants\<close>

definition CKF_END_OF_MESSAGE :: uint where [ck_consts]: "CKF_END_OF_MESSAGE = 1"
definition CKF_INTERFACE_FORK_SAFE :: uint where [ck_consts]: "CKF_INTERFACE_FORK_SAFE = 1"
definition CKF_LIBRARY_CANT_CREATE_OS_THREADS :: uint where [ck_consts]: "CKF_LIBRARY_CANT_CREATE_OS_THREADS = 1"
definition CKF_OS_LOCKING_OK :: uint where [ck_consts]: "CKF_OS_LOCKING_OK = 0x00000002"
definition CKF_DONT_BLOCK :: uint where [ck_consts]: "CKF_DONT_BLOCK = 1"

section \<open>CKG\_ constants\<close>

definition CKG_MGF1_SHA1 :: uint where [ck_consts]: "CKG_MGF1_SHA1 = 1"
definition CKG_MGF1_SHA256 :: uint where [ck_consts]: "CKG_MGF1_SHA256 = 0x00000002"
definition CKG_MGF1_SHA384 :: uint where [ck_consts]: "CKG_MGF1_SHA384 = 0x00000003"
definition CKG_MGF1_SHA512 :: uint where [ck_consts]: "CKG_MGF1_SHA512 = 0x00000004"
definition CKG_MGF1_SHA224 :: uint where [ck_consts]: "CKG_MGF1_SHA224 = 0x00000005"
definition CKG_MGF1_SHA3_224 :: uint where [ck_consts]: "CKG_MGF1_SHA3_224 = 0x00000006"
definition CKG_MGF1_SHA3_256 :: uint where [ck_consts]: "CKG_MGF1_SHA3_256 = 0x00000007"
definition CKG_MGF1_SHA3_384 :: uint where [ck_consts]: "CKG_MGF1_SHA3_384 = 0x00000008"
definition CKG_MGF1_SHA3_512 :: uint where [ck_consts]: "CKG_MGF1_SHA3_512 = 0x00000009"

section \<open>CKZ\_ constants\<close>

definition CKZ_DATA_SPECIFIED :: uint where [ck_consts]: "CKZ_DATA_SPECIFIED = 1"

section \<open>CKD\_ constants\<close>

definition CKD_NULL :: uint where [ck_consts]: "CKD_NULL = 1"
definition CKD_SHA1_KDF :: uint where [ck_consts]: "CKD_SHA1_KDF = 0x00000002"
definition CKD_SHA1_KDF_ASN1 :: uint where [ck_consts]: "CKD_SHA1_KDF_ASN1 = 0x00000003"
definition CKD_SHA1_KDF_CONCATENATE :: uint where [ck_consts]: "CKD_SHA1_KDF_CONCATENATE = 0x00000004"
definition CKD_SHA224_KDF :: uint where [ck_consts]: "CKD_SHA224_KDF = 0x00000005"
definition CKD_SHA256_KDF :: uint where [ck_consts]: "CKD_SHA256_KDF = 0x00000006"
definition CKD_SHA384_KDF :: uint where [ck_consts]: "CKD_SHA384_KDF = 0x00000007"
definition CKD_SHA512_KDF :: uint where [ck_consts]: "CKD_SHA512_KDF = 0x00000008"
definition CKD_CPDIVERSIFY_KDF :: uint where [ck_consts]: "CKD_CPDIVERSIFY_KDF = 0x00000009"
definition CKD_SHA3_224_KDF :: uint where [ck_consts]: "CKD_SHA3_224_KDF = 0x0000000a"
definition CKD_SHA3_256_KDF :: uint where [ck_consts]: "CKD_SHA3_256_KDF = 0x0000000b"
definition CKD_SHA3_384_KDF :: uint where [ck_consts]: "CKD_SHA3_384_KDF = 0x0000000c"
definition CKD_SHA3_512_KDF :: uint where [ck_consts]: "CKD_SHA3_512_KDF = 0x0000000d"
definition CKD_SHA1_KDF_SP800 :: uint where [ck_consts]: "CKD_SHA1_KDF_SP800 = 0x0000000e"
definition CKD_SHA224_KDF_SP800 :: uint where [ck_consts]: "CKD_SHA224_KDF_SP800 = 0x0000000f"
definition CKD_SHA256_KDF_SP800 :: uint where [ck_consts]: "CKD_SHA256_KDF_SP800 = 0x00000010"
definition CKD_SHA384_KDF_SP800 :: uint where [ck_consts]: "CKD_SHA384_KDF_SP800 = 0x00000011"
definition CKD_SHA512_KDF_SP800 :: uint where [ck_consts]: "CKD_SHA512_KDF_SP800 = 0x00000012"
definition CKD_SHA3_224_KDF_SP800 :: uint where [ck_consts]: "CKD_SHA3_224_KDF_SP800 = 0x00000013"
definition CKD_SHA3_256_KDF_SP800 :: uint where [ck_consts]: "CKD_SHA3_256_KDF_SP800 = 0x00000014"
definition CKD_SHA3_384_KDF_SP800 :: uint where [ck_consts]: "CKD_SHA3_384_KDF_SP800 = 0x00000015"
definition CKD_SHA3_512_KDF_SP800 :: uint where [ck_consts]: "CKD_SHA3_512_KDF_SP800 = 0x00000016"
definition CKD_BLAKE2B_160_KDF :: uint where [ck_consts]: "CKD_BLAKE2B_160_KDF = 0x00000017"
definition CKD_BLAKE2B_256_KDF :: uint where [ck_consts]: "CKD_BLAKE2B_256_KDF = 0x00000018"
definition CKD_BLAKE2B_384_KDF :: uint where [ck_consts]: "CKD_BLAKE2B_384_KDF = 0x00000019"
definition CKD_BLAKE2B_512_KDF :: uint where [ck_consts]: "CKD_BLAKE2B_512_KDF = 0x0000001a"

section \<open>CKP\_ constants\<close>

definition CKP_PKCS5_PBKD2_HMAC_SHA1 :: uint where [ck_consts]: "CKP_PKCS5_PBKD2_HMAC_SHA1 = 1"
definition CKP_PKCS5_PBKD2_HMAC_GOSTR3411 :: uint where [ck_consts]: "CKP_PKCS5_PBKD2_HMAC_GOSTR3411 = 0x00000002"
definition CKP_PKCS5_PBKD2_HMAC_SHA224 :: uint where [ck_consts]: "CKP_PKCS5_PBKD2_HMAC_SHA224 = 0x00000003"
definition CKP_PKCS5_PBKD2_HMAC_SHA256 :: uint where [ck_consts]: "CKP_PKCS5_PBKD2_HMAC_SHA256 = 0x00000004"
definition CKP_PKCS5_PBKD2_HMAC_SHA384 :: uint where [ck_consts]: "CKP_PKCS5_PBKD2_HMAC_SHA384 = 0x00000005"
definition CKP_PKCS5_PBKD2_HMAC_SHA512 :: uint where [ck_consts]: "CKP_PKCS5_PBKD2_HMAC_SHA512 = 0x00000006"
definition CKP_PKCS5_PBKD2_HMAC_SHA512_224 :: uint where [ck_consts]: "CKP_PKCS5_PBKD2_HMAC_SHA512_224 = 0x00000007"
definition CKP_PKCS5_PBKD2_HMAC_SHA512_256 :: uint where [ck_consts]: "CKP_PKCS5_PBKD2_HMAC_SHA512_256 = 0x00000008"

section \<open>CKZ\_ constants\<close>

definition CKZ_SALT_SPECIFIED :: uint where [ck_consts]: "CKZ_SALT_SPECIFIED = 1"

section \<open>CK\_ constants\<close>

definition CK_OTP_VALUE :: uint where [ck_consts]: "CK_OTP_VALUE = 0"
definition CK_OTP_PIN :: uint where [ck_consts]: "CK_OTP_PIN = 1"
definition CK_OTP_CHALLENGE :: uint where [ck_consts]: "CK_OTP_CHALLENGE = 2"
definition CK_OTP_TIME :: uint where [ck_consts]: "CK_OTP_TIME = 3"
definition CK_OTP_COUNTER :: uint where [ck_consts]: "CK_OTP_COUNTER = 4"
definition CK_OTP_FLAGS :: uint where [ck_consts]: "CK_OTP_FLAGS = 5"
definition CK_OTP_OUTPUT_LENGTH :: uint where [ck_consts]: "CK_OTP_OUTPUT_LENGTH = 6"
definition CK_OTP_OUTPUT_FORMAT :: uint where [ck_consts]: "CK_OTP_OUTPUT_FORMAT = 7"

section \<open>CKF\_ constants\<close>

definition CKF_NEXT_OTP :: uint where [ck_consts]: "CKF_NEXT_OTP = 1"
definition CKF_EXCLUDE_TIME :: uint where [ck_consts]: "CKF_EXCLUDE_TIME = 0x00000002"
definition CKF_EXCLUDE_COUNTER :: uint where [ck_consts]: "CKF_EXCLUDE_COUNTER = 0x00000004"
definition CKF_EXCLUDE_CHALLENGE :: uint where [ck_consts]: "CKF_EXCLUDE_CHALLENGE = 0x00000008"
definition CKF_EXCLUDE_PIN :: uint where [ck_consts]: "CKF_EXCLUDE_PIN = 0x00000010"
definition CKF_USER_FRIENDLY_OTP :: uint where [ck_consts]: "CKF_USER_FRIENDLY_OTP = 0x00000020"

section \<open>CKG\_ constants\<close>

definition CKG_NO_GENERATE :: uint where [ck_consts]: "CKG_NO_GENERATE = 0"
definition CKG_GENERATE :: uint where [ck_consts]: "CKG_GENERATE = 1"
definition CKG_GENERATE_COUNTER :: uint where [ck_consts]: "CKG_GENERATE_COUNTER = 0x00000002"
definition CKG_GENERATE_RANDOM :: uint where [ck_consts]: "CKG_GENERATE_RANDOM = 0x00000003"
definition CKG_GENERATE_COUNTER_XOR :: uint where [ck_consts]: "CKG_GENERATE_COUNTER_XOR = 0x00000004"

section \<open>CK\_ constants\<close>

definition CK_SP800_108_ITERATION_VARIABLE :: uint where [ck_consts]: "CK_SP800_108_ITERATION_VARIABLE = 1"
definition CK_SP800_108_OPTIONAL_COUNTER :: uint where [ck_consts]: "CK_SP800_108_OPTIONAL_COUNTER = 0x00000002"
definition CK_SP800_108_DKM_LENGTH :: uint where [ck_consts]: "CK_SP800_108_DKM_LENGTH = 0x00000003"
definition CK_SP800_108_BYTE_ARRAY :: uint where [ck_consts]: "CK_SP800_108_BYTE_ARRAY = 0x00000004"
definition CK_SP800_108_COUNTER :: uint where [ck_consts]: "CK_SP800_108_COUNTER = CK_SP800_108_OPTIONAL_COUNTER"
definition CK_SP800_108_KEY_HANDLE :: uint where [ck_consts]: "CK_SP800_108_KEY_HANDLE = 0x00000005"
definition CK_SP800_108_DKM_LENGTH_SUM_OF_KEYS :: uint where [ck_consts]: "CK_SP800_108_DKM_LENGTH_SUM_OF_KEYS = 1"
definition CK_SP800_108_DKM_LENGTH_SUM_OF_SEGMENTS :: uint where [ck_consts]: "CK_SP800_108_DKM_LENGTH_SUM_OF_SEGMENTS = 0x00000002"

section \<open>CKF\_ constants\<close>

definition CKF_HKDF_SALT_NULL :: uint where [ck_consts]: "CKF_HKDF_SALT_NULL = 1"
definition CKF_HKDF_SALT_DATA :: uint where [ck_consts]: "CKF_HKDF_SALT_DATA = 0x00000002"
definition CKF_HKDF_SALT_KEY :: uint where [ck_consts]: "CKF_HKDF_SALT_KEY = 0x00000004"

section \<open>CKS\_ constants\<close>

definition CKS_LAST_VALIDATION_OK :: uint where [ck_consts]: "CKS_LAST_VALIDATION_OK = 1"

section \<open>CKV\_ constants\<close>

definition CKV_AUTHORITY_TYPE_UNSPECIFIED :: uint where [ck_consts]: "CKV_AUTHORITY_TYPE_UNSPECIFIED = 0"
definition CKV_AUTHORITY_TYPE_NIST_CMVP :: uint where [ck_consts]: "CKV_AUTHORITY_TYPE_NIST_CMVP = 1"
definition CKV_AUTHORITY_TYPE_COMMON_CRITERIA :: uint where [ck_consts]: "CKV_AUTHORITY_TYPE_COMMON_CRITERIA = 0x00000002"
definition CKV_TYPE_UNSPECIFIED :: uint where [ck_consts]: "CKV_TYPE_UNSPECIFIED = 0"
definition CKV_TYPE_SOFTWARE :: uint where [ck_consts]: "CKV_TYPE_SOFTWARE = 1"
definition CKV_TYPE_HARDWARE :: uint where [ck_consts]: "CKV_TYPE_HARDWARE = 0x00000002"
definition CKV_TYPE_FIRMWARE :: uint where [ck_consts]: "CKV_TYPE_FIRMWARE = 0x00000003"
definition CKV_TYPE_HYBRID :: uint where [ck_consts]: "CKV_TYPE_HYBRID = 0x00000004"

section \<open>CKH\_ constants\<close>

definition CKH_HEDGE_PREFERRED :: uint where [ck_consts]: "CKH_HEDGE_PREFERRED = 0"
definition CKH_HEDGE_REQUIRED :: uint where [ck_consts]: "CKH_HEDGE_REQUIRED = 1"
definition CKH_DETERMINISTIC_REQUIRED :: uint where [ck_consts]: "CKH_DETERMINISTIC_REQUIRED = 0x00000002"

section \<open>CKP\_ constants\<close>

definition CKP_ML_DSA_44 :: uint where [ck_consts]: "CKP_ML_DSA_44 = 1"
definition CKP_ML_DSA_65 :: uint where [ck_consts]: "CKP_ML_DSA_65 = 0x00000002"
definition CKP_ML_DSA_87 :: uint where [ck_consts]: "CKP_ML_DSA_87 = 0x00000003"
definition CKP_SLH_DSA_SHA2_128S :: uint where [ck_consts]: "CKP_SLH_DSA_SHA2_128S = 1"
definition CKP_SLH_DSA_SHAKE_128S :: uint where [ck_consts]: "CKP_SLH_DSA_SHAKE_128S = 0x00000002"
definition CKP_SLH_DSA_SHA2_128F :: uint where [ck_consts]: "CKP_SLH_DSA_SHA2_128F = 0x00000003"
definition CKP_SLH_DSA_SHAKE_128F :: uint where [ck_consts]: "CKP_SLH_DSA_SHAKE_128F = 0x00000004"
definition CKP_SLH_DSA_SHA2_192S :: uint where [ck_consts]: "CKP_SLH_DSA_SHA2_192S = 0x00000005"
definition CKP_SLH_DSA_SHAKE_192S :: uint where [ck_consts]: "CKP_SLH_DSA_SHAKE_192S = 0x00000006"
definition CKP_SLH_DSA_SHA2_192F :: uint where [ck_consts]: "CKP_SLH_DSA_SHA2_192F = 0x00000007"
definition CKP_SLH_DSA_SHAKE_192F :: uint where [ck_consts]: "CKP_SLH_DSA_SHAKE_192F = 0x00000008"
definition CKP_SLH_DSA_SHA2_256S :: uint where [ck_consts]: "CKP_SLH_DSA_SHA2_256S = 0x00000009"
definition CKP_SLH_DSA_SHAKE_256S :: uint where [ck_consts]: "CKP_SLH_DSA_SHAKE_256S = 0x0000000a"
definition CKP_SLH_DSA_SHA2_256F :: uint where [ck_consts]: "CKP_SLH_DSA_SHA2_256F = 0x0000000b"
definition CKP_SLH_DSA_SHAKE_256F :: uint where [ck_consts]: "CKP_SLH_DSA_SHAKE_256F = 0x0000000c"
definition CKP_ML_KEM_512 :: uint where [ck_consts]: "CKP_ML_KEM_512 = 1"
definition CKP_ML_KEM_768 :: uint where [ck_consts]: "CKP_ML_KEM_768 = 0x00000002"
definition CKP_ML_KEM_1024 :: uint where [ck_consts]: "CKP_ML_KEM_1024 = 0x00000003"

section \<open>CKT\_ constants\<close>

definition CKT_TRUST_UNKNOWN :: uint where [ck_consts]: "CKT_TRUST_UNKNOWN = 0"
definition CKT_TRUSTED :: uint where [ck_consts]: "CKT_TRUSTED = 1"
definition CKT_TRUST_ANCHOR :: uint where [ck_consts]: "CKT_TRUST_ANCHOR = 0x00000002"
definition CKT_NOT_TRUSTED :: uint where [ck_consts]: "CKT_NOT_TRUSTED = 0x00000003"
definition CKT_TRUST_MUST_VERIFY_TRUST :: uint where [ck_consts]: "CKT_TRUST_MUST_VERIFY_TRUST = 0x00000004"

end
