(* ===== verification/Errors.thy ===== *)
theory Errors
  imports Constants
begin

text \<open>
  \<^verbatim>\<open>cryptoki/errors.go\<close> and the generated table \<^verbatim>\<open>cryptoki/zerror.go\<close>: how a \<open>CK_RV\<close> becomes
  a Go error (\<open>toError\<close>) and how that error is rendered (\<open>Error_string\<close>, the method
  \<open>Error.Error\<close>).  The section on \<open>fmt\<close> models the two verbs the package renders numbers
  with, \<open>%d\<close> and \<open>%08X\<close>.  The lemmas show that exactly \<open>CKR_OK\<close> is no error and that
  the rendered text determines the return value.
\<close>

section \<open>fmt: decimal and hexadecimal numbers\<close>

fun digits_of :: "nat \<Rightarrow> nat \<Rightarrow> nat list" where
  "digits_of b n = (if b < 2 \<or> n < b then [n] else digits_of b (n div b) @ [n mod b])"

declare digits_of.simps [simp del]

definition digit_char :: "nat \<Rightarrow> char" where
  "digit_char d = (if d < 10 then char_of (48 + d) else char_of (55 + d))"

text \<open>\<open>%d\<close> and \<open>%08X\<close>: the width is a minimum, filled with zeros on the left.\<close>

definition fmt_d :: "nat \<Rightarrow> string" where
  "fmt_d n = map digit_char (digits_of 10 n)"

definition fmt_08X :: "nat \<Rightarrow> string" where
  "fmt_08X n = (let ds = map digit_char (digits_of 16 n) in replicate (8 - length ds) (CHR ''0'') @ ds)"

fun undigits :: "nat \<Rightarrow> nat list \<Rightarrow> nat" where
  "undigits b ds = foldl (\<lambda>a d. b * a + d) 0 ds"

lemma digits_of_bound: "2 \<le> b \<Longrightarrow> d \<in> set (digits_of b n) \<Longrightarrow> d < b"
proof (induction b n rule: digits_of.induct)
  case (1 b n)
  then show ?case
    by (cases "n < b") (auto simp: digits_of.simps [of b n])
qed

lemma undigits_digits_of: "2 \<le> b \<Longrightarrow> undigits b (digits_of b n) = n"
proof (induction b n rule: digits_of.induct)
  case (1 b n)
  then show ?case
    by (cases "n < b") (auto simp: digits_of.simps [of b n])
qed

lemma undigits_zeros: "undigits b (replicate k 0 @ ds) = undigits b ds"
  by (induction k) simp_all

definition char_digit :: "char \<Rightarrow> nat" where
  "char_digit c = (let n = of_char c in if n < 58 then n - 48 else n - 55)"

lemma char_digit_char: "d < 16 \<Longrightarrow> char_digit (digit_char d) = d"
  by (simp add: char_digit_def digit_char_def of_char_of take_bit_nat_def)

lemma map_char_digit: "\<forall>d \<in> set ds. d < 16 \<Longrightarrow> map (char_digit \<circ> digit_char) ds = ds"
  by (induction ds) (simp_all add: char_digit_char)

lemma char_digit_0 [simp]: "char_digit (CHR ''0'') = 0"
  by (simp add: char_digit_def)

lemma undigits_fmt_d: "undigits 10 (map char_digit (fmt_d n)) = n"
proof -
  have "\<forall>d \<in> set (digits_of 10 n). d < 16"
    using digits_of_bound [of 10 _ n] by fastforce
  then show ?thesis
    using undigits_digits_of [of 10 n] by (simp add: fmt_d_def map_char_digit del: undigits.simps)
qed

lemma undigits_fmt_08X: "undigits 16 (map char_digit (fmt_08X n)) = n"
proof -
  have "\<forall>d \<in> set (digits_of 16 n). d < 16"
    using digits_of_bound [of 16 _ n] by fastforce
  then show ?thesis
    using undigits_digits_of [of 16 n]
    by (simp add: fmt_08X_def Let_def map_char_digit undigits_zeros del: undigits.simps)
qed

lemma fmt_d_inject: "fmt_d m = fmt_d n \<longleftrightarrow> m = n"
  by (metis undigits_fmt_d)

lemma fmt_08X_inject: "fmt_08X m = fmt_08X n \<longleftrightarrow> m = n"
  by (metis undigits_fmt_08X)

section \<open>Tables of symbolic names\<close>

text \<open>
  Both generated tables are used the same way: a known value is rendered as its symbol, any
  other one in hexadecimal.  The rendering determines the value, provided no two entries share a
  symbol and no symbol starts with a digit.  Distinctness of the symbols is checked on their
  values as base-256 numbers, which the simplifier compares quickly.
\<close>

definition named_or_hex :: "(uint \<times> string) list \<Rightarrow> uint \<Rightarrow> string" where
  "named_or_hex tab v = (case map_of tab v of Some name \<Rightarrow> name | None \<Rightarrow> ''0x'' @ fmt_08X (unat v))"

definition name_num :: "string \<Rightarrow> nat" where
  "name_num s = undigits 256 (map of_char s)"

definition name_table :: "(uint \<times> string) list \<Rightarrow> bool" where
  "name_table tab \<longleftrightarrow>
     distinct (map snd tab) \<and> list_all (\<lambda>p. take 2 (snd p) = ''CK'') tab"

lemma name_tableI:
  assumes "distinct (map (\<lambda>p. name_num (drop 4 (snd p))) tab)"
    and "list_all (\<lambda>p. take 2 (snd p) = ''CK'') tab"
  shows "name_table tab"
proof -
  have "distinct (map (\<lambda>s. name_num (drop 4 s)) (map snd tab))"
    using assms(1) by (simp add: comp_def)
  then have "distinct (map snd tab)" by (rule distinct_map [THEN iffD1, THEN conjunct1])
  then show ?thesis using assms(2) by (simp add: name_table_def)
qed

lemma map_of_inject:
  assumes "distinct (map snd tab)" and "map_of tab v = Some n" and "map_of tab w = Some n"
  shows "v = w"
proof -
  have "inj_on snd (set tab)" using assms(1) by (simp add: distinct_map)
  then have "(v, n) = (w, n)"
    by (rule inj_onD) (use map_of_SomeD [OF assms(2)] map_of_SomeD [OF assms(3)] in simp_all)
  then show ?thesis by simp
qed

lemma named_or_hex_inject:
  assumes tab: "name_table tab"
  shows "named_or_hex tab v = named_or_hex tab w \<longleftrightarrow> v = w"
proof -
  have sym: "take 2 n = ''CK''" if "map_of tab x = Some n" for x n
    using tab map_of_SomeD [OF that] by (fastforce simp: name_table_def list_all_iff)
  have "v = w" if "named_or_hex tab v = named_or_hex tab w"
  proof (cases "map_of tab v"; cases "map_of tab w")
    fix n m assume "map_of tab v = Some n" "map_of tab w = Some m"
    then show ?thesis
      using that tab map_of_inject [of tab v n w] by (simp add: named_or_hex_def name_table_def)
  next
    assume "map_of tab v = None" "map_of tab w = None"
    then show ?thesis using that by (simp add: named_or_hex_def fmt_08X_inject word_unat_eq_iff)
  next
    fix n assume "map_of tab v = Some n" "map_of tab w = None"
    then show ?thesis using that sym [of v n] by (simp add: named_or_hex_def)
  next
    fix n assume "map_of tab v = None" "map_of tab w = Some n"
    then show ?thesis using that sym [of w n] by (auto simp: named_or_hex_def)
  qed
  then show ?thesis by blast
qed

section \<open>Return values as errors\<close>

text \<open>\<open>toError\<close>: \<open>nil\<close> for \<open>CKR_OK\<close>, otherwise the value itself as an \<open>Error\<close>.\<close>

definition toError :: "uint \<Rightarrow> goerror option" where
  "toError rv = (if rv = CKR_OK then None else Some (Error rv))"

lemma toError_None [simp]: "toError rv = None \<longleftrightarrow> rv = CKR_OK"
  by (simp add: toError_def)

lemma toError_Some: "toError rv = Some e \<longleftrightarrow> rv \<noteq> CKR_OK \<and> e = Error rv"
  by (auto simp: toError_def)

lemma toError_OK [simp]: "toError CKR_OK = None"
  by simp

definition ckrNames :: "(uint \<times> string) list" where
  "ckrNames = [
   (CKR_OK, ''CKR_OK''),
   (CKR_CANCEL, ''CKR_CANCEL''),
   (CKR_HOST_MEMORY, ''CKR_HOST_MEMORY''),
   (CKR_SLOT_ID_INVALID, ''CKR_SLOT_ID_INVALID''),
   (CKR_GENERAL_ERROR, ''CKR_GENERAL_ERROR''),
   (CKR_FUNCTION_FAILED, ''CKR_FUNCTION_FAILED''),
   (CKR_ARGUMENTS_BAD, ''CKR_ARGUMENTS_BAD''),
   (CKR_NO_EVENT, ''CKR_NO_EVENT''),
   (CKR_NEED_TO_CREATE_THREADS, ''CKR_NEED_TO_CREATE_THREADS''),
   (CKR_CANT_LOCK, ''CKR_CANT_LOCK''),
   (CKR_ATTRIBUTE_READ_ONLY, ''CKR_ATTRIBUTE_READ_ONLY''),
   (CKR_ATTRIBUTE_SENSITIVE, ''CKR_ATTRIBUTE_SENSITIVE''),
   (CKR_ATTRIBUTE_TYPE_INVALID, ''CKR_ATTRIBUTE_TYPE_INVALID''),
   (CKR_ATTRIBUTE_VALUE_INVALID, ''CKR_ATTRIBUTE_VALUE_INVALID''),
   (CKR_ACTION_PROHIBITED, ''CKR_ACTION_PROHIBITED''),
   (CKR_DATA_INVALID, ''CKR_DATA_INVALID''),
   (CKR_DATA_LEN_RANGE, ''CKR_DATA_LEN_RANGE''),
   (CKR_DEVICE_ERROR, ''CKR_DEVICE_ERROR''),
   (CKR_DEVICE_MEMORY, ''CKR_DEVICE_MEMORY''),
   (CKR_DEVICE_REMOVED, ''CKR_DEVICE_REMOVED''),
   (CKR_ENCRYPTED_DATA_INVALID, ''CKR_ENCRYPTED_DATA_INVALID''),
   (CKR_ENCRYPTED_DATA_LEN_RANGE, ''CKR_ENCRYPTED_DATA_LEN_RANGE''),
   (CKR_AEAD_DECRYPT_FAILED, ''CKR_AEAD_DECRYPT_FAILED''),
   (CKR_FUNCTION_CANCELED, ''CKR_FUNCTION_CANCELED''),
   (CKR_FUNCTION_NOT_PARALLEL, ''CKR_FUNCTION_NOT_PARALLEL''),
   (CKR_FUNCTION_NOT_SUPPORTED, ''CKR_FUNCTION_NOT_SUPPORTED''),
   (CKR_KEY_HANDLE_INVALID, ''CKR_KEY_HANDLE_INVALID''),
   (CKR_KEY_SIZE_RANGE, ''CKR_KEY_SIZE_RANGE''),
   (CKR_KEY_TYPE_INCONSISTENT, ''CKR_KEY_TYPE_INCONSISTENT''),
   (CKR_KEY_NOT_NEEDED, ''CKR_KEY_NOT_NEEDED''),
   (CKR_KEY_CHANGED, ''CKR_KEY_CHANGED''),
   (CKR_KEY_NEEDED, ''CKR_KEY_NEEDED''),
   (CKR_KEY_INDIGESTIBLE, ''CKR_KEY_INDIGESTIBLE''),
   (CKR_KEY_FUNCTION_NOT_PERMITTED, ''CKR_KEY_FUNCTION_NOT_PERMITTED''),
   (CKR_KEY_NOT_WRAPPABLE, ''CKR_KEY_NOT_WRAPPABLE''),
   (CKR_KEY_UNEXTRACTABLE, ''CKR_KEY_UNEXTRACTABLE''),
   (CKR_MECHANISM_INVALID, ''CKR_MECHANISM_INVALID''),
   (CKR_MECHANISM_PARAM_INVALID, ''CKR_MECHANISM_PARAM_INVALID''),
   (CKR_OBJECT_HANDLE_INVALID, ''CKR_OBJECT_HANDLE_INVALID''),
   (CKR_OPERATION_ACTIVE, ''CKR_OPERATION_ACTIVE''),
   (CKR_OPERATION_NOT_INITIALIZED, ''CKR_OPERATION_NOT_INITIALIZED''),
   (CKR_PIN_INCORRECT, ''CKR_PIN_INCORRECT''),
   (CKR_PIN_INVALID, ''CKR_PIN_INVALID''),
   (CKR_PIN_LEN_RANGE, ''CKR_PIN_LEN_RANGE''),
   (CKR_PIN_EXPIRED, ''CKR_PIN_EXPIRED''),
   (CKR_PIN_LOCKED, ''CKR_PIN_LOCKED''),
   (CKR_SESSION_CLOSED, ''CKR_SESSION_CLOSED''),
   (CKR_SESSION_COUNT, ''CKR_SESSION_COUNT''),
   (CKR_SESSION_HANDLE_INVALID, ''CKR_SESSION_HANDLE_INVALID''),
   (CKR_SESSION_PARALLEL_NOT_SUPPORTED, ''CKR_SESSION_PARALLEL_NOT_SUPPORTED''),
   (CKR_SESSION_READ_ONLY, ''CKR_SESSION_READ_ONLY''),
   (CKR_SESSION_EXISTS, ''CKR_SESSION_EXISTS''),
   (CKR_SESSION_READ_ONLY_EXISTS, ''CKR_SESSION_READ_ONLY_EXISTS''),
   (CKR_SESSION_READ_WRITE_SO_EXISTS, ''CKR_SESSION_READ_WRITE_SO_EXISTS''),
   (CKR_SIGNATURE_INVALID, ''CKR_SIGNATURE_INVALID''),
   (CKR_SIGNATURE_LEN_RANGE, ''CKR_SIGNATURE_LEN_RANGE''),
   (CKR_TEMPLATE_INCOMPLETE, ''CKR_TEMPLATE_INCOMPLETE''),
   (CKR_TEMPLATE_INCONSISTENT, ''CKR_TEMPLATE_INCONSISTENT''),
   (CKR_TOKEN_NOT_PRESENT, ''CKR_TOKEN_NOT_PRESENT''),
   (CKR_TOKEN_NOT_RECOGNIZED, ''CKR_TOKEN_NOT_RECOGNIZED''),
   (CKR_TOKEN_WRITE_PROTECTED, ''CKR_TOKEN_WRITE_PROTECTED''),
   (CKR_UNWRAPPING_KEY_HANDLE_INVALID, ''CKR_UNWRAPPING_KEY_HANDLE_INVALID''),
   (CKR_UNWRAPPING_KEY_SIZE_RANGE, ''CKR_UNWRAPPING_KEY_SIZE_RANGE''),
   (CKR_UNWRAPPING_KEY_TYPE_INCONSISTENT, ''CKR_UNWRAPPING_KEY_TYPE_INCONSISTENT''),
   (CKR_USER_ALREADY_LOGGED_IN, ''CKR_USER_ALREADY_LOGGED_IN''),
   (CKR_USER_NOT_LOGGED_IN, ''CKR_USER_NOT_LOGGED_IN''),
   (CKR_USER_PIN_NOT_INITIALIZED, ''CKR_USER_PIN_NOT_INITIALIZED''),
   (CKR_USER_TYPE_INVALID, ''CKR_USER_TYPE_INVALID''),
   (CKR_USER_ANOTHER_ALREADY_LOGGED_IN, ''CKR_USER_ANOTHER_ALREADY_LOGGED_IN''),
   (CKR_USER_TOO_MANY_TYPES, ''CKR_USER_TOO_MANY_TYPES''),
   (CKR_WRAPPED_KEY_INVALID, ''CKR_WRAPPED_KEY_INVALID''),
   (CKR_WRAPPED_KEY_LEN_RANGE, ''CKR_WRAPPED_KEY_LEN_RANGE''),
   (CKR_WRAPPING_KEY_HANDLE_INVALID, ''CKR_WRAPPING_KEY_HANDLE_INVALID''),
   (CKR_WRAPPING_KEY_SIZE_RANGE, ''CKR_WRAPPING_KEY_SIZE_RANGE''),
   (CKR_WRAPPING_KEY_TYPE_INCONSISTENT, ''CKR_WRAPPING_KEY_TYPE_INCONSISTENT''),
   (CKR_RANDOM_SEED_NOT_SUPPORTED, ''CKR_RANDOM_SEED_NOT_SUPPORTED''),
   (CKR_RANDOM_NO_RNG, ''CKR_RANDOM_NO_RNG''),
   (CKR_DOMAIN_PARAMS_INVALID, ''CKR_DOMAIN_PARAMS_INVALID''),
   (CKR_CURVE_NOT_SUPPORTED, ''CKR_CURVE_NOT_SUPPORTED''),
   (CKR_BUFFER_TOO_SMALL, ''CKR_BUFFER_TOO_SMALL''),
   (CKR_SAVED_STATE_INVALID, ''CKR_SAVED_STATE_INVALID''),
   (CKR_INFORMATION_SENSITIVE, ''CKR_INFORMATION_SENSITIVE''),
   (CKR_STATE_UNSAVEABLE, ''CKR_STATE_UNSAVEABLE''),
   (CKR_CRYPTOKI_NOT_INITIALIZED, ''CKR_CRYPTOKI_NOT_INITIALIZED''),
   (CKR_CRYPTOKI_ALREADY_INITIALIZED, ''CKR_CRYPTOKI_ALREADY_INITIALIZED''),
   (CKR_MUTEX_BAD, ''CKR_MUTEX_BAD''),
   (CKR_MUTEX_NOT_LOCKED, ''CKR_MUTEX_NOT_LOCKED''),
   (CKR_NEW_PIN_MODE, ''CKR_NEW_PIN_MODE''),
   (CKR_NEXT_OTP, ''CKR_NEXT_OTP''),
   (CKR_EXCEEDED_MAX_ITERATIONS, ''CKR_EXCEEDED_MAX_ITERATIONS''),
   (CKR_FIPS_SELF_TEST_FAILED, ''CKR_FIPS_SELF_TEST_FAILED''),
   (CKR_LIBRARY_LOAD_FAILED, ''CKR_LIBRARY_LOAD_FAILED''),
   (CKR_PIN_TOO_WEAK, ''CKR_PIN_TOO_WEAK''),
   (CKR_PUBLIC_KEY_INVALID, ''CKR_PUBLIC_KEY_INVALID''),
   (CKR_FUNCTION_REJECTED, ''CKR_FUNCTION_REJECTED''),
   (CKR_TOKEN_RESOURCE_EXCEEDED, ''CKR_TOKEN_RESOURCE_EXCEEDED''),
   (CKR_OPERATION_CANCEL_FAILED, ''CKR_OPERATION_CANCEL_FAILED''),
   (CKR_KEY_EXHAUSTED, ''CKR_KEY_EXHAUSTED''),
   (CKR_PENDING, ''CKR_PENDING''),
   (CKR_SESSION_ASYNC_NOT_SUPPORTED, ''CKR_SESSION_ASYNC_NOT_SUPPORTED''),
   (CKR_SEED_RANDOM_REQUIRED, ''CKR_SEED_RANDOM_REQUIRED''),
   (CKR_OPERATION_NOT_VALIDATED, ''CKR_OPERATION_NOT_VALIDATED''),
   (CKR_TOKEN_NOT_INITIALIZED, ''CKR_TOKEN_NOT_INITIALIZED''),
   (CKR_PARAMETER_SET_NOT_SUPPORTED, ''CKR_PARAMETER_SET_NOT_SUPPORTED''),
   (CKR_VENDOR_DEFINED, ''CKR_VENDOR_DEFINED'')]"

text \<open>The table is written in ascending order of its keys, so no key occurs twice.\<close>

lemma ckrNames_ascending: "successively (<) (map fst ckrNames)"
  by (simp add: ckrNames_def ck_consts)

lemma ckrNames_keys: "distinct (map fst ckrNames)"
  using ckrNames_ascending
  by (simp add: successively_conv_sorted_wrt transp_on_less strict_sorted_iff)

text \<open>The method \<open>Error.Error\<close>.\<close>

definition Error_string :: "uint \<Rightarrow> string" where
  "Error_string e = (case map_of ckrNames e of
      Some name \<Rightarrow> ''pkcs11: '' @ name
    | None \<Rightarrow> ''pkcs11: 0x'' @ fmt_08X (unat e))"

lemma ckrNames_table: "name_table ckrNames"
proof (rule name_tableI)
  show "distinct (map (\<lambda>p. name_num (drop 4 (snd p))) ckrNames)"
    by (simp add: ckrNames_def name_num_def)
  show "list_all (\<lambda>p. take 2 (snd p) = ''CK'') ckrNames"
    by (simp add: ckrNames_def)
qed

lemma Error_string_eq: "Error_string e = ''pkcs11: '' @ named_or_hex ckrNames e"
  by (simp add: Error_string_def named_or_hex_def split: option.splits)

end
