(* ===== verification/Types.thy ===== *)
theory Types
  imports Errors
begin

text \<open>
  \<^verbatim>\<open>cryptoki/types.go\<close>: the handle types, \<open>Version\<close>, \<open>Mechanism\<close> and \<open>Attribute\<close>, with the
  structured mechanism parameters of \<^verbatim>\<open>cryptoki/params.go\<close> that a \<open>Mechanism\<close> can carry, and the
  generated table \<^verbatim>\<open>cryptoki/zattr.go\<close> behind \<open>AttributeName\<close>.  A Go slice that can be \<open>nil\<close>
  where the code tells \<open>nil\<close> from empty (\<open>Attribute.Value\<close>) is an option.
\<close>

section \<open>Handles and versions\<close>

type_synonym SlotID = uint
type_synonym SessionHandle = uint
type_synonym ObjectHandle = uint

datatype Version = Version (Major: byte) (Minor: byte)

definition Version_String :: "Version \<Rightarrow> string" where
  "Version_String v = fmt_d (unat (Major v)) @ ''.'' @ fmt_d (unat (Minor v))"

text \<open>Versions are ordered by major, then minor number; the module loader compares them.\<close>

instantiation Version :: linorder
begin

definition less_eq_Version :: "Version \<Rightarrow> Version \<Rightarrow> bool" where
  "less_eq_Version v w \<longleftrightarrow> Major v < Major w \<or> Major v = Major w \<and> Minor v \<le> Minor w"

definition less_Version :: "Version \<Rightarrow> Version \<Rightarrow> bool" where
  "less_Version v w \<longleftrightarrow> Major v < Major w \<or> Major v = Major w \<and> Minor v < Minor w"

instance
  by standard (auto simp: less_eq_Version_def less_Version_def Version.expand)

end

section \<open>Mechanisms and attributes\<close>

record oaepParams =
  oaep_hashAlg :: uint
  oaep_mgf :: uint
  oaep_source :: uint
  oaep_sourceData :: "byte list"

record pssParams =
  pss_hashAlg :: uint
  pss_mgf :: uint
  pss_saltLen :: int

record ecdh1Params =
  ecdh_kdf :: uint
  ecdh_sharedData :: "byte list"
  ecdh_publicData :: "byte list"

text \<open>
  The sealed interface \<open>MechanismParams\<close>.  A \<open>*GCMParams\<close> is a mutable Go object with a life of
  its own, so it is a reference into a store; the other three are immutable values.
\<close>

datatype MechanismParams =
    GCMRef nat
  | OAEP oaepParams
  | PSS pssParams
  | ECDH1 ecdh1Params

record Mechanism =
  mechanism :: uint
  Parameter :: "byte list"
  params :: "MechanismParams option"

record Attribute =
  Type :: uint
  Value :: "byte list option"

section \<open>Attribute names\<close>

definition ckaNames :: "(uint \<times> string) list" where
  "ckaNames = [
   (CKA_CLASS, ''CKA_CLASS''),
   (CKA_TOKEN, ''CKA_TOKEN''),
   (CKA_PRIVATE, ''CKA_PRIVATE''),
   (CKA_LABEL, ''CKA_LABEL''),
   (CKA_UNIQUE_ID, ''CKA_UNIQUE_ID''),
   (CKA_APPLICATION, ''CKA_APPLICATION''),
   (CKA_VALUE, ''CKA_VALUE''),
   (CKA_OBJECT_ID, ''CKA_OBJECT_ID''),
   (CKA_CERTIFICATE_TYPE, ''CKA_CERTIFICATE_TYPE''),
   (CKA_ISSUER, ''CKA_ISSUER''),
   (CKA_SERIAL_NUMBER, ''CKA_SERIAL_NUMBER''),
   (CKA_AC_ISSUER, ''CKA_AC_ISSUER''),
   (CKA_OWNER, ''CKA_OWNER''),
   (CKA_ATTR_TYPES, ''CKA_ATTR_TYPES''),
   (CKA_TRUSTED, ''CKA_TRUSTED''),
   (CKA_CERTIFICATE_CATEGORY, ''CKA_CERTIFICATE_CATEGORY''),
   (CKA_JAVA_MIDP_SECURITY_DOMAIN, ''CKA_JAVA_MIDP_SECURITY_DOMAIN''),
   (CKA_URL, ''CKA_URL''),
   (CKA_HASH_OF_SUBJECT_PUBLIC_KEY, ''CKA_HASH_OF_SUBJECT_PUBLIC_KEY''),
   (CKA_HASH_OF_ISSUER_PUBLIC_KEY, ''CKA_HASH_OF_ISSUER_PUBLIC_KEY''),
   (CKA_NAME_HASH_ALGORITHM, ''CKA_NAME_HASH_ALGORITHM''),
   (CKA_CHECK_VALUE, ''CKA_CHECK_VALUE''),
   (CKA_KEY_TYPE, ''CKA_KEY_TYPE''),
   (CKA_SUBJECT, ''CKA_SUBJECT''),
   (CKA_ID, ''CKA_ID''),
   (CKA_SENSITIVE, ''CKA_SENSITIVE''),
   (CKA_ENCRYPT, ''CKA_ENCRYPT''),
   (CKA_DECRYPT, ''CKA_DECRYPT''),
   (CKA_WRAP, ''CKA_WRAP''),
   (CKA_UNWRAP, ''CKA_UNWRAP''),
   (CKA_SIGN, ''CKA_SIGN''),
   (CKA_SIGN_RECOVER, ''CKA_SIGN_RECOVER''),
   (CKA_VERIFY, ''CKA_VERIFY''),
   (CKA_VERIFY_RECOVER, ''CKA_VERIFY_RECOVER''),
   (CKA_DERIVE, ''CKA_DERIVE''),
   (CKA_START_DATE, ''CKA_START_DATE''),
   (CKA_END_DATE, ''CKA_END_DATE''),
   (CKA_MODULUS, ''CKA_MODULUS''),
   (CKA_MODULUS_BITS, ''CKA_MODULUS_BITS''),
   (CKA_PUBLIC_EXPONENT, ''CKA_PUBLIC_EXPONENT''),
   (CKA_PRIVATE_EXPONENT, ''CKA_PRIVATE_EXPONENT''),
   (CKA_PRIME_1, ''CKA_PRIME_1''),
   (CKA_PRIME_2, ''CKA_PRIME_2''),
   (CKA_EXPONENT_1, ''CKA_EXPONENT_1''),
   (CKA_EXPONENT_2, ''CKA_EXPONENT_2''),
   (CKA_COEFFICIENT, ''CKA_COEFFICIENT''),
   (CKA_PUBLIC_KEY_INFO, ''CKA_PUBLIC_KEY_INFO''),
   (CKA_PRIME, ''CKA_PRIME''),
   (CKA_SUBPRIME, ''CKA_SUBPRIME''),
   (CKA_BASE, ''CKA_BASE''),
   (CKA_PRIME_BITS, ''CKA_PRIME_BITS''),
   (CKA_SUBPRIME_BITS, ''CKA_SUBPRIME_BITS''),
   (CKA_VALUE_BITS, ''CKA_VALUE_BITS''),
   (CKA_VALUE_LEN, ''CKA_VALUE_LEN''),
   (CKA_EXTRACTABLE, ''CKA_EXTRACTABLE''),
   (CKA_LOCAL, ''CKA_LOCAL''),
   (CKA_NEVER_EXTRACTABLE, ''CKA_NEVER_EXTRACTABLE''),
   (CKA_ALWAYS_SENSITIVE, ''CKA_ALWAYS_SENSITIVE''),
   (CKA_KEY_GEN_MECHANISM, ''CKA_KEY_GEN_MECHANISM''),
   (CKA_MODIFIABLE, ''CKA_MODIFIABLE''),
   (CKA_COPYABLE, ''CKA_COPYABLE''),
   (CKA_DESTROYABLE, ''CKA_DESTROYABLE''),
   (CKA_EC_PARAMS, ''CKA_EC_PARAMS''),
   (CKA_EC_POINT, ''CKA_EC_POINT''),
   (CKA_SECONDARY_AUTH, ''CKA_SECONDARY_AUTH''),
   (CKA_AUTH_PIN_FLAGS, ''CKA_AUTH_PIN_FLAGS''),
   (CKA_ALWAYS_AUTHENTICATE, ''CKA_ALWAYS_AUTHENTICATE''),
   (CKA_WRAP_WITH_TRUSTED, ''CKA_WRAP_WITH_TRUSTED''),
   (CKA_WRAP_TEMPLATE, ''CKA_WRAP_TEMPLATE''),
   (CKA_UNWRAP_TEMPLATE, ''CKA_UNWRAP_TEMPLATE''),
   (CKA_DERIVE_TEMPLATE, ''CKA_DERIVE_TEMPLATE''),
   (CKA_OTP_FORMAT, ''CKA_OTP_FORMAT''),
   (CKA_OTP_LENGTH, ''CKA_OTP_LENGTH''),
   (CKA_OTP_TIME_INTERVAL, ''CKA_OTP_TIME_INTERVAL''),
   (CKA_OTP_USER_FRIENDLY_MODE, ''CKA_OTP_USER_FRIENDLY_MODE''),
   (CKA_OTP_CHALLENGE_REQUIREMENT, ''CKA_OTP_CHALLENGE_REQUIREMENT''),
   (CKA_OTP_TIME_REQUIREMENT, ''CKA_OTP_TIME_REQUIREMENT''),
   (CKA_OTP_COUNTER_REQUIREMENT, ''CKA_OTP_COUNTER_REQUIREMENT''),
   (CKA_OTP_PIN_REQUIREMENT, ''CKA_OTP_PIN_REQUIREMENT''),
   (CKA_OTP_COUNTER, ''CKA_OTP_COUNTER''),
   (CKA_OTP_TIME, ''CKA_OTP_TIME''),
   (CKA_OTP_USER_IDENTIFIER, ''CKA_OTP_USER_IDENTIFIER''),
   (CKA_OTP_SERVICE_IDENTIFIER, ''CKA_OTP_SERVICE_IDENTIFIER''),
   (CKA_OTP_SERVICE_LOGO, ''CKA_OTP_SERVICE_LOGO''),
   (CKA_OTP_SERVICE_LOGO_TYPE, ''CKA_OTP_SERVICE_LOGO_TYPE''),
   (CKA_GOSTR3410_PARAMS, ''CKA_GOSTR3410_PARAMS''),
   (CKA_GOSTR3411_PARAMS, ''CKA_GOSTR3411_PARAMS''),
   (CKA_GOST28147_PARAMS, ''CKA_GOST28147_PARAMS''),
   (CKA_HW_FEATURE_TYPE, ''CKA_HW_FEATURE_TYPE''),
   (CKA_RESET_ON_INIT, ''CKA_RESET_ON_INIT''),
   (CKA_HAS_RESET, ''CKA_HAS_RESET''),
   (CKA_PIXEL_X, ''CKA_PIXEL_X''),
   (CKA_PIXEL_Y, ''CKA_PIXEL_Y''),
   (CKA_RESOLUTION, ''CKA_RESOLUTION''),
   (CKA_CHAR_ROWS, ''CKA_CHAR_ROWS''),
   (CKA_CHAR_COLUMNS, ''CKA_CHAR_COLUMNS''),
   (CKA_COLOR, ''CKA_COLOR''),
   (CKA_BITS_PER_PIXEL, ''CKA_BITS_PER_PIXEL''),
   (CKA_CHAR_SETS, ''CKA_CHAR_SETS''),
   (CKA_ENCODING_METHODS, ''CKA_ENCODING_METHODS''),
   (CKA_MIME_TYPES, ''CKA_MIME_TYPES''),
   (CKA_MECHANISM_TYPE, ''CKA_MECHANISM_TYPE''),
   (CKA_REQUIRED_CMS_ATTRIBUTES, ''CKA_REQUIRED_CMS_ATTRIBUTES''),
   (CKA_DEFAULT_CMS_ATTRIBUTES, ''CKA_DEFAULT_CMS_ATTRIBUTES''),
   (CKA_SUPPORTED_CMS_ATTRIBUTES, ''CKA_SUPPORTED_CMS_ATTRIBUTES''),
   (CKA_ALLOWED_MECHANISMS, ''CKA_ALLOWED_MECHANISMS''),
   (CKA_PROFILE_ID, ''CKA_PROFILE_ID''),
   (CKA_X2RATCHET_BAG, ''CKA_X2RATCHET_BAG''),
   (CKA_X2RATCHET_BAGSIZE, ''CKA_X2RATCHET_BAGSIZE''),
   (CKA_X2RATCHET_BOBS1STMSG, ''CKA_X2RATCHET_BOBS1STMSG''),
   (CKA_X2RATCHET_CKR, ''CKA_X2RATCHET_CKR''),
   (CKA_X2RATCHET_CKS, ''CKA_X2RATCHET_CKS''),
   (CKA_X2RATCHET_DHP, ''CKA_X2RATCHET_DHP''),
   (CKA_X2RATCHET_DHR, ''CKA_X2RATCHET_DHR''),
   (CKA_X2RATCHET_DHS, ''CKA_X2RATCHET_DHS''),
   (CKA_X2RATCHET_HKR, ''CKA_X2RATCHET_HKR''),
   (CKA_X2RATCHET_HKS, ''CKA_X2RATCHET_HKS''),
   (CKA_X2RATCHET_ISALICE, ''CKA_X2RATCHET_ISALICE''),
   (CKA_X2RATCHET_NHKR, ''CKA_X2RATCHET_NHKR''),
   (CKA_X2RATCHET_NHKS, ''CKA_X2RATCHET_NHKS''),
   (CKA_X2RATCHET_NR, ''CKA_X2RATCHET_NR''),
   (CKA_X2RATCHET_NS, ''CKA_X2RATCHET_NS''),
   (CKA_X2RATCHET_PNS, ''CKA_X2RATCHET_PNS''),
   (CKA_X2RATCHET_RK, ''CKA_X2RATCHET_RK''),
   (CKA_HSS_LEVELS, ''CKA_HSS_LEVELS''),
   (CKA_HSS_LMS_TYPE, ''CKA_HSS_LMS_TYPE''),
   (CKA_HSS_LMOTS_TYPE, ''CKA_HSS_LMOTS_TYPE''),
   (CKA_HSS_LMS_TYPES, ''CKA_HSS_LMS_TYPES''),
   (CKA_HSS_LMOTS_TYPES, ''CKA_HSS_LMOTS_TYPES''),
   (CKA_HSS_KEYS_REMAINING, ''CKA_HSS_KEYS_REMAINING''),
   (CKA_PARAMETER_SET, ''CKA_PARAMETER_SET''),
   (CKA_OBJECT_VALIDATION_FLAGS, ''CKA_OBJECT_VALIDATION_FLAGS''),
   (CKA_VALIDATION_TYPE, ''CKA_VALIDATION_TYPE''),
   (CKA_VALIDATION_VERSION, ''CKA_VALIDATION_VERSION''),
   (CKA_VALIDATION_LEVEL, ''CKA_VALIDATION_LEVEL''),
   (CKA_VALIDATION_MODULE_ID, ''CKA_VALIDATION_MODULE_ID''),
   (CKA_VALIDATION_FLAG, ''CKA_VALIDATION_FLAG''),
   (CKA_VALIDATION_AUTHORITY_TYPE, ''CKA_VALIDATION_AUTHORITY_TYPE''),
   (CKA_VALIDATION_COUNTRY, ''CKA_VALIDATION_COUNTRY''),
   (CKA_VALIDATION_CERTIFICATE_IDENTIFIER, ''CKA_VALIDATION_CERTIFICATE_IDENTIFIER''),
   (CKA_VALIDATION_CERTIFICATE_URI, ''CKA_VALIDATION_CERTIFICATE_URI''),
   (CKA_VALIDATION_VENDOR_URI, ''CKA_VALIDATION_VENDOR_URI''),
   (CKA_VALIDATION_PROFILE, ''CKA_VALIDATION_PROFILE''),
   (CKA_ENCAPSULATE_TEMPLATE, ''CKA_ENCAPSULATE_TEMPLATE''),
   (CKA_DECAPSULATE_TEMPLATE, ''CKA_DECAPSULATE_TEMPLATE''),
   (CKA_TRUST_SERVER_AUTH, ''CKA_TRUST_SERVER_AUTH''),
   (CKA_TRUST_CLIENT_AUTH, ''CKA_TRUST_CLIENT_AUTH''),
   (CKA_TRUST_CODE_SIGNING, ''CKA_TRUST_CODE_SIGNING''),
   (CKA_TRUST_EMAIL_PROTECTION, ''CKA_TRUST_EMAIL_PROTECTION''),
   (CKA_TRUST_IPSEC_IKE, ''CKA_TRUST_IPSEC_IKE''),
   (CKA_TRUST_TIME_STAMPING, ''CKA_TRUST_TIME_STAMPING''),
   (CKA_TRUST_OCSP_SIGNING, ''CKA_TRUST_OCSP_SIGNING''),
   (CKA_ENCAPSULATE, ''CKA_ENCAPSULATE''),
   (CKA_DECAPSULATE, ''CKA_DECAPSULATE''),
   (CKA_HASH_OF_CERTIFICATE, ''CKA_HASH_OF_CERTIFICATE''),
   (CKA_PUBLIC_CRC64_VALUE, ''CKA_PUBLIC_CRC64_VALUE''),
   (CKA_SEED, ''CKA_SEED''),
   (CKA_VENDOR_DEFINED, ''CKA_VENDOR_DEFINED'')]"

definition AttributeName :: "uint \<Rightarrow> string" where
  "AttributeName t = (case map_of ckaNames t of Some name \<Rightarrow> name | None \<Rightarrow> ''0x'' @ fmt_08X (unat t))"

lemma ckaNames_keys: "distinct (map fst ckaNames)"
proof -
  have "distinct (map (\<lambda>p. unat (fst p)) ckaNames)"
    by (simp add: ckaNames_def ck_consts)
  then have "distinct (map unat (map fst ckaNames))"
    by (simp add: comp_def)
  then show ?thesis using distinct_map by blast
qed

lemma ckaNames_table: "name_table ckaNames"
proof (rule name_tableI)
  show "distinct (map (\<lambda>p. name_num (drop 4 (snd p))) ckaNames)"
    by (simp add: ckaNames_def name_num_def)
  show "list_all (\<lambda>p. take 2 (snd p) = ''CK'') ckaNames"
    by (simp add: ckaNames_def)
qed

lemma AttributeName_eq: "AttributeName t = named_or_hex ckaNames t"
  by (simp add: AttributeName_def named_or_hex_def)

end
