(* ===== verification/CHeap.thy ===== *)
theory CHeap
  imports Go_Prelude
begin

text \<open>
  The C heap the binding marshals through.  A pointer is \<open>Null\<close> or names a block; a live block
  holds raw bytes or one of the PKCS \#11 structures of \<^verbatim>\<open>internal/headers/pkcs11t.h\<close> that the
  code fills in.  \<open>malloc\<close> and \<open>calloc\<close> are the C library's: which requests they grant and
  what fresh memory contains are not determined by the program, so both are fields of the heap
  (\<open>grants\<close>, \<open>junk\<close>) that no operation changes and every theorem quantifies over.  \<open>freed\<close>
  records what each block held at the moment it was released.
\<close>

section \<open>Pointers, blocks and structures\<close>

datatype ptr = Null | Ptr nat

record ck_attr =
  atype :: uint
  pValue :: ptr
  ulValueLen :: uint

record ck_gcm =
  pIv :: ptr
  ulIvLen :: uint
  ulIvBits :: uint
  pAAD :: ptr
  ulAADLen :: uint
  ulTagBits :: uint

datatype cobj =
    CBytes "byte list"
  | CMech uint ptr uint \<comment> \<open>mechanism, pParameter, ulParameterLen\<close>
  | CAttrs "ck_attr list"
  | CGcm ck_gcm
  | COaep uint uint uint ptr uint \<comment> \<open>hashAlg, mgf, source, pSourceData, ulSourceDataLen\<close>
  | CPss uint uint uint \<comment> \<open>hashAlg, mgf, sLen\<close>
  | CEcdh uint ptr uint ptr uint \<comment> \<open>kdf, pSharedData, its length, pPublicData, its length\<close>

text \<open>Sizes of the structures on LP64, where a pointer and a \<open>CK_ULONG\<close> are 8 bytes each.\<close>

fun csizeof :: "cobj \<Rightarrow> nat" where
  "csizeof (CBytes b) = length b"
| "csizeof (CMech t p n) = 24"
| "csizeof (CAttrs as) = 24 * length as"
| "csizeof (CGcm g) = 48"
| "csizeof (COaep h m s p n) = 40"
| "csizeof (CPss h m s) = 24"
| "csizeof (CEcdh k p n q l) = 40"

record heap =
  mem :: "nat \<Rightarrow> cobj option"
  brk :: nat
  junk :: "nat \<Rightarrow> nat \<Rightarrow> byte"
  grants :: "nat \<Rightarrow> nat \<Rightarrow> bool"
  freed :: "(nat \<times> cobj) list"

definition heap_ok :: "heap \<Rightarrow> bool" where
  "heap_ok h \<longleftrightarrow> (\<forall>a \<in> dom (mem h). a < brk h)"

lemma heap_ok_fresh: "heap_ok h \<Longrightarrow> mem h (brk h) = None"
  by (auto simp: heap_ok_def dom_def)

section \<open>The allocator\<close>

text \<open>\<open>C.malloc\<close> and \<open>C.calloc(1, n)\<close>: \<open>Null\<close> where the request is not granted.\<close>

definition c_malloc :: "nat \<Rightarrow> heap \<Rightarrow> ptr \<times> heap" where
  "c_malloc n h =
     (if grants h (brk h) n
      then (Ptr (brk h), h\<lparr>mem := (mem h)(brk h \<mapsto> CBytes (map (junk h (brk h)) [0..<n])),
                          brk := Suc (brk h)\<rparr>)
      else (Null, h\<lparr>brk := Suc (brk h)\<rparr>))"

definition c_calloc :: "nat \<Rightarrow> heap \<Rightarrow> ptr \<times> heap" where
  "c_calloc n h =
     (if grants h (brk h) n
      then (Ptr (brk h), h\<lparr>mem := (mem h)(brk h \<mapsto> CBytes (replicate n 0)), brk := Suc (brk h)\<rparr>)
      else (Null, h\<lparr>brk := Suc (brk h)\<rparr>))"

text \<open>\<open>C.free\<close>: a no-op on \<open>NULL\<close>; freeing anything but a live block is undefined (\<open>None\<close>).\<close>

fun c_free :: "ptr \<Rightarrow> heap \<Rightarrow> heap option" where
  "c_free Null h = Some h"
| "c_free (Ptr a) h = (case mem h a of
      None \<Rightarrow> None
    | Some b \<Rightarrow> Some (h\<lparr>mem := (mem h)(a := None), freed := freed h @ [(a, b)]\<rparr>))"

text \<open>
  \<open>C.ck_memzero(p, n)\<close> of \<^verbatim>\<open>cryptoki/shim.c\<close>: nothing for \<open>NULL\<close> or \<open>n = 0\<close>, otherwise the
  first \<open>n\<close> bytes become 0; running past the block is undefined.
\<close>

fun c_memzero :: "ptr \<Rightarrow> nat \<Rightarrow> heap \<Rightarrow> heap option" where
  "c_memzero Null n h = Some h"
| "c_memzero (Ptr a) n h =
     (if n = 0 then Some h else (case mem h a of
         Some (CBytes b) \<Rightarrow>
           (if n \<le> length b
            then Some (h\<lparr>mem := (mem h)(a \<mapsto> CBytes (replicate n 0 @ drop n b))\<rparr>)
            else None)
       | _ \<Rightarrow> None))"

text \<open>Reading \<open>n\<close> bytes at a pointer, writing bytes there, and storing a structure into a block.\<close>

fun c_read :: "heap \<Rightarrow> ptr \<Rightarrow> nat \<Rightarrow> byte list option" where
  "c_read h Null n = (if n = 0 then Some [] else None)"
| "c_read h (Ptr a) n = (case mem h a of
      Some (CBytes b) \<Rightarrow> (if n \<le> length b then Some (take n b) else None)
    | _ \<Rightarrow> None)"

fun c_write :: "ptr \<Rightarrow> byte list \<Rightarrow> heap \<Rightarrow> heap option" where
  "c_write Null bs h = (if bs = [] then Some h else None)"
| "c_write (Ptr a) bs h = (case mem h a of
      Some (CBytes b) \<Rightarrow>
        (if length bs \<le> length b
         then Some (h\<lparr>mem := (mem h)(a \<mapsto> CBytes (bs @ drop (length bs) b))\<rparr>)
         else None)
    | _ \<Rightarrow> None)"

fun c_store :: "ptr \<Rightarrow> cobj \<Rightarrow> heap \<Rightarrow> heap option" where
  "c_store Null ob h = None"
| "c_store (Ptr a) ob h = (case mem h a of
      Some b \<Rightarrow> (if csizeof b = csizeof ob then Some (h\<lparr>mem := (mem h)(a \<mapsto> ob)\<rparr>) else None)
    | None \<Rightarrow> None)"

fun c_load :: "heap \<Rightarrow> ptr \<Rightarrow> cobj option" where
  "c_load h Null = None"
| "c_load h (Ptr a) = mem h a"

text \<open>The block a pointer names holds these bytes; a \<open>NULL\<close> pointer stands for no bytes.\<close>

fun buf_at :: "heap \<Rightarrow> ptr \<Rightarrow> byte list \<Rightarrow> bool" where
  "buf_at h Null bs \<longleftrightarrow> bs = []"
| "buf_at h (Ptr a) bs \<longleftrightarrow> mem h a = Some (CBytes bs)"

lemma c_malloc_ok:
  assumes "heap_ok h" and "c_malloc n h = (p, h')"
  shows "heap_ok h'" "mem h \<subseteq>\<^sub>m mem h'" "brk h \<le> brk h'"
    "junk h' = junk h" "grants h' = grants h" "freed h' = freed h"
  using assms heap_ok_fresh [OF assms(1)]
  by (auto simp: c_malloc_def heap_ok_def map_le_def less_Suc_eq split: if_splits)

lemma c_malloc_Ptr:
  assumes "c_malloc n h = (Ptr a, h')"
  shows "a = brk h"
    "mem h' = (mem h)(a \<mapsto> CBytes (map (junk h a) [0..<n]))"
  using assms by (auto simp: c_malloc_def split: if_splits)

lemma c_malloc_Null: "c_malloc n h = (Null, h') \<Longrightarrow> mem h' = mem h"
  by (auto simp: c_malloc_def split: if_splits)

lemma c_read_buf_at: "buf_at h p bs \<Longrightarrow> c_read h p (length bs) = Some bs"
  by (cases p) auto

lemma c_free_mem: "c_free (Ptr a) h = Some h' \<Longrightarrow> mem h' = (mem h)(a := None)"
  by (auto split: option.splits)

lemma c_write_mem:
  "c_write (Ptr a) bs h = Some h' \<Longrightarrow>
     \<exists>b. mem h a = Some (CBytes b) \<and> length bs \<le> length b \<and>
         mem h' = (mem h)(a \<mapsto> CBytes (bs @ drop (length bs) b))"
  by (auto split: option.splits cobj.splits if_splits)

section \<open>The allocator as an interface\<close>

text \<open>
  What the marshalling code relies on: a granted block is fresh and its bytes are as many as
  asked for, releasing it restores the blocks there were before, and no operation touches
  another block.
\<close>

locale allocator =
  fixes alloc :: "nat \<Rightarrow> heap \<Rightarrow> ptr \<times> heap"
    and release :: "ptr \<Rightarrow> heap \<Rightarrow> heap option"
  assumes alloc_fresh: "heap_ok h \<Longrightarrow> alloc n h = (Ptr a, h') \<Longrightarrow> mem h a = None"
    and alloc_bytes: "alloc n h = (Ptr a, h') \<Longrightarrow>
      \<exists>b. mem h' = (mem h)(a \<mapsto> CBytes b) \<and> length b = n"
    and alloc_ok: "heap_ok h \<Longrightarrow> alloc n h = (p, h') \<Longrightarrow> heap_ok h'"
    and release_live: "mem h a = Some b \<Longrightarrow>
      \<exists>h'. release (Ptr a) h = Some h' \<and> mem h' = (mem h)(a := None)"
    and release_dead: "mem h a = None \<Longrightarrow> release (Ptr a) h = None"
begin

lemma alloc_release:
  assumes "heap_ok h" and "alloc n h = (Ptr a, h')"
  shows "\<exists>h''. release (Ptr a) h' = Some h'' \<and> mem h'' = mem h"
proof -
  obtain b where m: "mem h' = (mem h)(a \<mapsto> CBytes b)"
    using alloc_bytes [OF assms(2)] by blast
  obtain h'' where r: "release (Ptr a) h' = Some h''" and m'': "mem h'' = (mem h')(a := None)"
    using release_live [of h' a] m by auto
  have "mem h'' = mem h"
    using m m'' alloc_fresh [OF assms] by (simp add: domIff)
  then show ?thesis using r by blast
qed

lemma no_double_release:
  assumes "release (Ptr a) h = Some h'"
  shows "release (Ptr a) h' = None"
proof -
  obtain b where "mem h a = Some b" using assms release_dead [of h a] by fastforce
  then obtain g where "release (Ptr a) h = Some g" and "mem g = (mem h)(a := None)"
    using release_live by blast
  then show ?thesis using assms release_dead [of h' a] by simp
qed

end

interpretation malloc: allocator c_malloc c_free
proof (unfold_locales, goal_cases)
  case 1 then show ?case by (auto simp: c_malloc_def heap_ok_fresh split: if_splits)
next
  case 2 then show ?case by (auto simp: c_malloc_def split: if_splits)
next
  case 3 then show ?case using c_malloc_ok(1) by blast
next
  case 4 then show ?case by auto
next
  case 5 then show ?case by simp
qed

interpretation calloc: allocator c_calloc c_free
proof (unfold_locales, goal_cases)
  case 1 then show ?case by (auto simp: c_calloc_def heap_ok_fresh split: if_splits)
next
  case 2 then show ?case by (auto simp: c_calloc_def split: if_splits)
next
  case 3 then show ?case
    by (auto simp: c_calloc_def heap_ok_def less_Suc_eq split: if_splits)
next
  case 4 then show ?case by auto
next
  case 5 then show ?case by simp
qed

end
