(* ===== verification/Native.thy ===== *)
theory Native
  imports Types CHeap "HOL-Library.Monad_Syntax"
begin

text \<open>
  The state the binding runs in and its boundary to the native module.  A PKCS \#11 module is a
  shared library that is not part of the repository, so it is a parameter: a function from its
  own state and a call to a reply.  A call is seen the way the library sees it, with every pointer
  argument already read through the C heap; a reply says what the library stored through its
  output pointers.  Passing a pointer the library may not read, or a reply that writes outside
  the memory it was given, is a \<open>Fault\<close>.\<close>

section \<open>Calls as the module sees them\<close>

datatype life_fn = C_Initialize | C_Finalize | C_GetInfo
datatype slot_fn = C_GetSlotList | C_GetSlotInfo | C_GetTokenInfo | C_GetMechanismList
  | C_GetMechanismInfo | C_InitToken | C_InitPIN | C_SetPIN | C_WaitForSlotEvent
datatype sess_fn = C_OpenSession | C_CloseSession | C_CloseAllSessions | C_GetSessionInfo
  | C_Login | C_Logout | C_GetOperationState | C_SetOperationState
datatype obj_fn = C_CreateObject | C_CopyObject | C_DestroyObject | C_GetObjectSize
  | C_GetAttributeValue | C_SetAttributeValue | C_FindObjectsInit | C_FindObjects
  | C_FindObjectsFinal
datatype dig_fn = C_SeedRandom | C_GenerateRandom | C_DigestInit | C_Digest | C_DigestUpdate
  | C_DigestKey | C_DigestFinal
datatype enc_fn = C_EncryptInit | C_Encrypt | C_EncryptUpdate | C_EncryptFinal
  | C_DecryptInit | C_Decrypt | C_DecryptUpdate | C_DecryptFinal
datatype sig_fn = C_SignInit | C_Sign | C_SignUpdate | C_SignFinal
  | C_VerifyInit | C_Verify | C_VerifyUpdate | C_VerifyFinal
datatype dual_fn = C_DigestEncryptUpdate | C_DecryptDigestUpdate | C_SignEncryptUpdate
  | C_DecryptVerifyUpdate
datatype key_fn = C_GenerateKey | C_GenerateKeyPair | C_WrapKey | C_UnwrapKey | C_DeriveKey
datatype v32_fn = C_EncapsulateKey | C_DecapsulateKey | C_VerifySignatureInit
  | C_VerifySignature | C_VerifySignatureUpdate | C_VerifySignatureFinal
  | C_GetSessionValidationFlags | C_WrapKeyAuthenticated | C_UnwrapKeyAuthenticated

datatype ck_fn = Life life_fn | Slot slot_fn | Sess sess_fn | Obj obj_fn | Dig dig_fn
  | Enc enc_fn | Sig sig_fn | Dual dual_fn | Key key_fn | V32 v32_fn

text \<open>
  Arguments as the binding passes them: values, C pointers with their lengths, and references
  to Go memory (\<open>ARef\<close> for one result, \<open>AArr\<close> for an array, \<open>False\<close> meaning \<open>nil\<close>).
\<close>

datatype carg =
    AULong uint
  | AIn ptr uint
  | AMech ptr
  | ATmpl ptr uint
  | AOut ptr uint
  | AAttrs ptr uint
  | AArr bool uint
  | ARef

datatype param_view =
    PNone
  | PRaw "byte list"
  | PGcm ptr "byte list" uint "byte list" uint \<comment> \<open>pIv, IV bytes, ulIvBits, AAD, ulTagBits\<close>
  | POaep uint uint uint "byte list"
  | PPss uint uint uint
  | PEcdh uint "byte list" "byte list"

type_synonym mech_view = "uint \<times> param_view"
type_synonym attr_view = "uint \<times> byte list option"

datatype cview =
    SULong uint
  | SIn "byte list option" uint
  | SMech "mech_view option"
  | STmpl "attr_view list option"
  | SOut bool uint
  | SAttrs "(uint \<times> bool \<times> uint) list"
  | SArr bool uint
  | SRef

datatype ck_call = Call ck_fn "cview list"

section \<open>Replies\<close>

record ck_info =
  cryptokiVersion :: Version
  manufacturerID :: "byte list"
  iflags :: uint
  libraryDescription :: "byte list"
  libraryVersion :: Version

record ck_slot_info =
  slotDescription :: "byte list"
  sl_manufacturerID :: "byte list"
  sl_flags :: uint
  sl_hardwareVersion :: Version
  sl_firmwareVersion :: Version

record ck_token_info =
  tk_label :: "byte list"
  tk_manufacturerID :: "byte list"
  tk_model :: "byte list"
  tk_serialNumber :: "byte list"
  tk_flags :: uint
  tk_counts :: "uint list" \<comment> \<open>the ten \<open>CK_ULONG\<close> fields from ulMaxSessionCount to ulFreePrivateMemory\<close>
  tk_hardwareVersion :: Version
  tk_firmwareVersion :: Version
  tk_utcTime :: "byte list"

datatype cinfo =
    NoInfo
  | Info ck_info
  | SlotI ck_slot_info
  | TokenI ck_token_info
  | MechI uint uint uint
  | SessI uint uint uint uint

text \<open>
  \<open>olen\<close> is the value the library leaves behind the length or count pointer, \<open>obytes\<close> what it
  writes into the output buffer, \<open>ohandles\<close> the scalars it stores in Go memory, \<open>oattrs\<close> the
  lengths and values it stores in an attribute array, and \<open>owrites\<close> any other memory it writes
  (a module that generates a GCM nonce writes it through the \<open>pIv\<close> it was given).
\<close>

record ck_reply =
  rv :: uint
  olen :: uint
  obytes :: "byte list"
  ohandles :: "uint list"
  oattrs :: "(uint \<times> byte list) list"
  oinfo :: cinfo
  owrites :: "(ptr \<times> byte list) list"

definition reply0 :: "uint \<Rightarrow> ck_reply" where
  "reply0 r = \<lparr>rv = r, olen = 0, obytes = [], ohandles = [], oattrs = [], oinfo = NoInfo, owrites = []\<rparr>"

type_synonym 'm native = "'m \<Rightarrow> ck_call \<Rightarrow> ck_reply \<times> 'm"

section \<open>The state\<close>

text \<open>
  \<open>ckModule\<close> is the struct of \<^verbatim>\<open>cryptoki/shim.c\<close>; \<open>mblk\<close> is its own heap block.  \<open>gcmobj\<close> is
  the Go struct \<open>GCMParams\<close>.  Of a \<open>Ctx\<close> the state keeps \<open>module\<close>, the read and write holders
  of \<open>mu\<close> and the \<open>waiters\<close> count; \<open>policy\<close> is the package variable, \<open>libs\<close> the shared
  libraries currently loaded, and \<open>calls\<close> the calls made so far, oldest first.  \<open>at_calls\<close> is
  for the proofs only: it says how the lock was at each of these calls and at each \<open>dlclose\<close>, its readers, whether
  a writer held it, and the waiters.
\<close>

record 'm ckModule =
  mblk :: ptr
  dl :: nat
  fns :: "'m native option"
  fns32 :: "'m native option"
  fnsBase :: "'m native option"

record gcmobj =
  gp :: ptr
  iv :: ptr
  aad :: ptr
  inUse :: int
  freePending :: bool

record 'm world =
  hp :: heap
  nat_st :: 'm
  modl :: "'m ckModule option"
  libs :: "nat set"
  readers :: nat
  writer :: bool
  waiters :: nat
  policy :: "(uint \<Rightarrow> goerror option) option"
  gcms :: "nat \<Rightarrow> gcmobj option"
  calls :: "ck_call list"
  at_calls :: "(nat \<times> bool \<times> nat) list"

section \<open>Reading arguments and storing results\<close>

definition view_gcm :: "heap \<Rightarrow> ck_gcm \<Rightarrow> param_view option" where
  "view_gcm h g = do {
     i \<leftarrow> c_read h (pIv g) (unat (ulIvLen g));
     a \<leftarrow> c_read h (pAAD g) (unat (ulAADLen g));
     Some (PGcm (pIv g) i (ulIvBits g) a (ulTagBits g)) }"

fun view_param :: "heap \<Rightarrow> ptr \<Rightarrow> uint \<Rightarrow> param_view option" where
  "view_param h Null n = Some PNone"
| "view_param h (Ptr a) n = (case mem h a of
      Some (CBytes b) \<Rightarrow> (if unat n \<le> length b then Some (PRaw (take (unat n) b)) else None)
    | Some (CGcm g) \<Rightarrow> (if n = 48 then view_gcm h g else None)
    | Some (COaep ha mg so sp sl) \<Rightarrow>
        (if n = 40 then do { d \<leftarrow> c_read h sp (unat sl); Some (POaep ha mg so d) } else None)
    | Some (CPss ha mg sl) \<Rightarrow> (if n = 24 then Some (PPss ha mg sl) else None)
    | Some (CEcdh k sp sl pp pl) \<Rightarrow>
        (if n = 40 then do { d \<leftarrow> c_read h sp (unat sl); p \<leftarrow> c_read h pp (unat pl); Some (PEcdh k d p) }
         else None)
    | _ \<Rightarrow> None)"

fun view_mech :: "heap \<Rightarrow> ptr \<Rightarrow> mech_view option option" where
  "view_mech h Null = Some None"
| "view_mech h (Ptr a) = (case mem h a of
      Some (CMech t p n) \<Rightarrow> do { v \<leftarrow> view_param h p n; Some (Some (t, v)) }
    | _ \<Rightarrow> None)"

definition view_attr :: "heap \<Rightarrow> ck_attr \<Rightarrow> attr_view option" where
  "view_attr h a = do {
     b \<leftarrow> c_read h (pValue a) (unat (ulValueLen a));
     Some (atype a, if pValue a = Null then None else Some b) }"

fun view_arg :: "heap \<Rightarrow> carg \<Rightarrow> cview option" where
  "view_arg h (AULong u) = Some (SULong u)"
| "view_arg h (AIn p n) =
     do { b \<leftarrow> c_read h p (unat n); Some (SIn (if p = Null then None else Some b) n) }"
| "view_arg h (AMech p) = do { v \<leftarrow> view_mech h p; Some (SMech v) }"
| "view_arg h (ATmpl Null n) = (if n = 0 then Some (STmpl None) else None)"
| "view_arg h (ATmpl (Ptr a) n) = (case mem h a of
      Some (CAttrs as) \<Rightarrow>
        (if unat n \<le> length as
         then do { vs \<leftarrow> those (map (view_attr h) (take (unat n) as)); Some (STmpl (Some vs)) }
         else None)
    | _ \<Rightarrow> None)"
| "view_arg h (AOut p n) =
     do { b \<leftarrow> (if p = Null then Some [] else c_read h p (unat n)); Some (SOut (p \<noteq> Null) n) }"
| "view_arg h (AAttrs p n) = (case c_load h p of
      Some (CAttrs as) \<Rightarrow>
        (if unat n = length as
         then Some (SAttrs (map (\<lambda>a. (atype a, pValue a \<noteq> Null, ulValueLen a)) as)) else None)
    | _ \<Rightarrow> None)"
| "view_arg h (AArr b n) = Some (SArr b n)"
| "view_arg h ARef = Some SRef"

fun out_ptr :: "carg list \<Rightarrow> ptr" where
  "out_ptr [] = Null"
| "out_ptr (AOut p n # as) = p"
| "out_ptr (a # as) = out_ptr as"

fun attrs_ptr :: "carg list \<Rightarrow> ptr" where
  "attrs_ptr [] = Null"
| "attrs_ptr (AAttrs p n # as) = p"
| "attrs_ptr (a # as) = attrs_ptr as"

fun store_attr_values ::
  "ck_attr list \<Rightarrow> (uint \<times> byte list) list \<Rightarrow> heap \<Rightarrow> (ck_attr list \<times> heap) option" where
  "store_attr_values [] rs h = Some ([], h)"
| "store_attr_values (a # as) [] h = Some (a # as, h)"
| "store_attr_values (a # as) ((n, bs) # rs) h = do {
     h1 \<leftarrow> c_write (pValue a) bs h;
     (as', h2) \<leftarrow> store_attr_values as rs h1;
     Some (a\<lparr>ulValueLen := n\<rparr> # as', h2) }"

fun store_attrs :: "ptr \<Rightarrow> (uint \<times> byte list) list \<Rightarrow> heap \<Rightarrow> heap option" where
  "store_attrs Null rs h = Some h"
| "store_attrs (Ptr a) rs h = (case mem h a of
      Some (CAttrs as) \<Rightarrow> do {
        (as', h') \<leftarrow> store_attr_values as rs h;
        c_store (Ptr a) (CAttrs as') h' }
    | _ \<Rightarrow> None)"

fun store_writes :: "(ptr \<times> byte list) list \<Rightarrow> heap \<Rightarrow> heap option" where
  "store_writes [] h = Some h"
| "store_writes ((p, bs) # ws) h = do { h' \<leftarrow> c_write p bs h; store_writes ws h' }"

definition store_reply :: "carg list \<Rightarrow> ck_reply \<Rightarrow> heap \<Rightarrow> heap option" where
  "store_reply as r h = do {
     h1 \<leftarrow> c_write (out_ptr as) (obytes r) h;
     h2 \<leftarrow> store_attrs (attrs_ptr as) (oattrs r) h1;
     store_writes (owrites r) h2 }"

text \<open>One call into the library.\<close>

definition native_call :: "'m native \<Rightarrow> ck_fn \<Rightarrow> carg list \<Rightarrow> ('m world, ck_reply) go" where
  "native_call N f as w = (case those (map (view_arg (hp w)) as) of
      None \<Rightarrow> (Fault ''invalid pointer passed to the module'', w)
    | Some vs \<Rightarrow> (let (r, ms) = N (nat_st w) (Call f vs);
                      w' = w\<lparr>nat_st := ms, calls := calls w @ [Call f vs],
                        at_calls := at_calls w @ [(readers w, writer w, waiters w)]\<rparr>
                  in case store_reply as r (hp w) of
                       None \<Rightarrow> (Fault ''the module wrote outside its buffers'', w')
                     | Some h \<Rightarrow> (Ret r, w'\<lparr>hp := h\<rparr>)))"

end
