(* ===== verification/Contract.thy ===== *)
theory Contract
  imports Native
begin

text \<open>
  The contract of an operation of the binding.  \<open>refines S P m f\<close>: from a well-formed state of
  \<open>P\<close>, the code \<open>m\<close> does what the protocol \<open>f\<close>, over the module's state and the calls made so far, says, and when it is done the C heap holds the blocks it held before, the
  locks are where they were, and every block it released obeys the rule \<open>S\<close>.  It neither panics
  nor faults, and the process is aborted only where the C library refuses an allocation.  The only
  assumption on the native module is \<open>conforming\<close>: it writes no more than the capacity it is
  told, and to nothing else.  The rules compose contracts along the control structures, so a
  component's proof follows its code.
\<close>

section \<open>A module that stays within its buffers\<close>

fun out_cap :: "cview list \<Rightarrow> nat" where
  "out_cap [] = 0"
| "out_cap (SOut b n # vs) = (if b then unat n else 0)"
| "out_cap (v # vs) = out_cap vs"

fun attr_caps :: "cview list \<Rightarrow> nat list" where
  "attr_caps [] = []"
| "attr_caps (SAttrs as # vs) = map (\<lambda>(t, b, n). if b then unat n else 0) as"
| "attr_caps (v # vs) = attr_caps vs"

fun fits_attrs :: "nat list \<Rightarrow> (uint \<times> byte list) list \<Rightarrow> bool" where
  "fits_attrs cs [] \<longleftrightarrow> True"
| "fits_attrs [] (r # rs) \<longleftrightarrow> True"
| "fits_attrs (c # cs) (r # rs) \<longleftrightarrow> length (snd r) \<le> c \<and> fits_attrs cs rs"

fun arr_fits :: "uint list \<Rightarrow> cview \<Rightarrow> bool" where
  "arr_fits hs (SArr b n) \<longleftrightarrow> length hs \<le> (if b then unat n else 0)"
| "arr_fits hs v \<longleftrightarrow> True"

definition fits :: "cview list \<Rightarrow> ck_reply \<Rightarrow> bool" where
  "fits vs r \<longleftrightarrow> owrites r = [] \<and> length (obytes r) \<le> out_cap vs \<and> fits_attrs (attr_caps vs) (oattrs r) \<and>
     list_all (arr_fits (ohandles r)) vs"

definition conforming :: "'m native \<Rightarrow> bool" where
  "conforming N \<longleftrightarrow> (\<forall>ms f vs. fits vs (fst (N ms (Call f vs))))"

lemma conformingD: "conforming N \<Longrightarrow> N ms (Call f vs) = (r, ms') \<Longrightarrow> fits vs r"
  by (metis conforming_def fst_conv)

text \<open>
  A loaded module: its library is open, its function list is there and conforming, and its own
  block is allocated.  Between operations the write lock is free.
\<close>

definition module_ok :: "nat set \<Rightarrow> 'm ckModule \<Rightarrow> bool" where
  "module_ok L m \<longleftrightarrow> dl m \<in> L \<and> (\<exists>N. fns m = Some N) \<and>
     (\<forall>N. fns m = Some N \<or> fns32 m = Some N \<or> fnsBase m = Some N \<longrightarrow> conforming N)"

definition wf :: "'m world \<Rightarrow> bool" where
  "wf w \<longleftrightarrow> heap_ok (hp w) \<and> \<not> writer w \<and> (\<forall>m. modl w = Some m \<longrightarrow> module_ok (libs w) m \<and>
     (\<exists>a b. mblk m = Ptr a \<and> mem (hp w) a = Some b))"

section \<open>Extensions, frames and contracts\<close>

text \<open>
  \<open>ext w w'\<close>: \<open>w'\<close> may have more live blocks, more readers of the lock, further calls and GCM
  parameters in more use; the rest is as in \<open>w\<close>.
\<close>

definition gcm_le :: "gcmobj \<Rightarrow> gcmobj \<Rightarrow> bool" where
  "gcm_le g g' \<longleftrightarrow> g' = g\<lparr>inUse := inUse g'\<rparr> \<and> inUse g \<le> inUse g'"

definition ext :: "'m world \<Rightarrow> 'm world \<Rightarrow> bool" where
  "ext w w' \<longleftrightarrow> mem (hp w) \<subseteq>\<^sub>m mem (hp w') \<and> brk (hp w) \<le> brk (hp w') \<and>
     junk (hp w') = junk (hp w) \<and> grants (hp w') = grants (hp w) \<and>
     modl w' = modl w \<and> libs w' = libs w \<and> writer w' = writer w \<and> waiters w' = waiters w \<and>
     policy w' = policy w \<and> (\<forall>i. rel_option gcm_le (gcms w i) (gcms w' i))"

text \<open>
  A \<open>release_rule\<close> says what a block may hold when it is given back to the allocator;
  \<open>scrubbed\<close> asks that no byte the program stored is left in it: it is all zeros, or it still is
  as \<open>malloc\<close> returned it.
\<close>

type_synonym release_rule = "(nat \<Rightarrow> nat \<Rightarrow> byte) \<Rightarrow> nat \<times> cobj \<Rightarrow> bool"

fun scrubbed :: release_rule where
  "scrubbed J (a, CBytes b) \<longleftrightarrow> list_all (\<lambda>x. x = 0) b \<or> b = map (J a) [0..<length b]"
| "scrubbed J (a, ob) \<longleftrightarrow> True"

text \<open>\<open>released pub\<close>: what is not scrubbed may only be one of the byte strings of \<open>pub\<close>.\<close>

definition released :: "byte list set \<Rightarrow> release_rule" where
  "released pub J x \<longleftrightarrow> scrubbed J x \<or> (\<exists>b \<in> pub. snd x = CBytes b)"

definition frame :: "release_rule \<Rightarrow> 'm world \<Rightarrow> 'm world \<Rightarrow> bool" where
  "frame S w w' \<longleftrightarrow> ext w w' \<and> mem (hp w') = mem (hp w) \<and> gcms w' = gcms w \<and> readers w' = readers w \<and>
     (\<exists>fs. freed (hp w') = freed (hp w) @ fs \<and> (\<forall>x \<in> set fs. S (junk (hp w)) x))"

definition stable :: "('m world \<Rightarrow> bool) \<Rightarrow> bool" where
  "stable P \<longleftrightarrow> (\<forall>w w'. ext w w' \<longrightarrow> P w \<longrightarrow> P w')"

definition nview :: "'m world \<Rightarrow> 'm \<times> ck_call list" where
  "nview w = (nat_st w, calls w)"

text \<open>
  A protocol says which results an operation may have and how it moves the module: a function
  into the set of possible outcomes, because a module that reports more bytes than it wrote makes
  the result depend on what fresh memory holds.
\<close>

type_synonym ('m, 'a) protocol = "'m \<times> ck_call list \<Rightarrow> ('a \<times> ('m \<times> ck_call list)) set"

text \<open>The C library may refuse some allocation.\<close>

definition oom :: "'m world \<Rightarrow> bool" where
  "oom w \<longleftrightarrow> (\<exists>a n. \<not> grants (hp w) a n)"

definition refines ::
  "release_rule \<Rightarrow> ('m world \<Rightarrow> bool) \<Rightarrow> ('m world, 'a) go \<Rightarrow> ('m, 'a) protocol \<Rightarrow> bool" where
  "refines S P m f \<longleftrightarrow> (\<forall>w. wf w \<longrightarrow> P w \<longrightarrow> (case m w of
      (Ret x, w') \<Rightarrow> frame S w w' \<and> (x, nview w') \<in> f (nview w)
    | (Crash e, w') \<Rightarrow> oom w
    | (Panic e, w') \<Rightarrow> False
    | (Fault e, w') \<Rightarrow> False))"

text \<open>The module answers a call; results are threaded, errors returned early.\<close>

definition abs_ret :: "'a \<Rightarrow> ('m, 'a) protocol" where
  "abs_ret x s = {(x, s)}"

definition abs_call :: "'m native \<Rightarrow> ck_fn \<Rightarrow> cview list \<Rightarrow> ('m, ck_reply) protocol" where
  "abs_call N f vs s = (let (r, ms) = N (fst s) (Call f vs) in {(r, (ms, snd s @ [Call f vs]))})"

definition abs_bind :: "('m, 'a) protocol \<Rightarrow> ('a \<Rightarrow> ('m, 'b) protocol) \<Rightarrow> ('m, 'b) protocol" where
  "abs_bind f g s = (\<Union>(x, s') \<in> f s. g x s')"

definition abs_try ::
  "('m, 'e + 'a) protocol \<Rightarrow> ('a \<Rightarrow> ('m, 'e + 'b) protocol) \<Rightarrow> ('m, 'e + 'b) protocol" where
  "abs_try f g = abs_bind f (\<lambda>r. case r of Inl e \<Rightarrow> abs_ret (Inl e) | Inr x \<Rightarrow> g x)"

lemma abs_ret_in [simp]: "(x, s') \<in> abs_ret y s \<longleftrightarrow> x = y \<and> s' = s"
  by (auto simp: abs_ret_def)

lemma abs_bindI: "(x, s') \<in> f s \<Longrightarrow> (y, s'') \<in> g x s' \<Longrightarrow> (y, s'') \<in> abs_bind f g s"
  by (auto simp: abs_bind_def)

lemma abs_bindE:
  assumes "(y, s'') \<in> abs_bind f g s"
  obtains x s' where "(x, s') \<in> f s" "(y, s'') \<in> g x s'"
  using assms by (auto simp: abs_bind_def)

lemma abs_call_in:
  "(r, s') \<in> abs_call N f vs s \<longleftrightarrow> (\<exists>ms. N (fst s) (Call f vs) = (r, ms) \<and> s' = (ms, snd s @ [Call f vs]))"
  by (auto simp: abs_call_def split: prod.splits)

named_theorems refine_intros \<open>rules for contracts\<close>
named_theorems stable_intros \<open>rules for stable assertions\<close>

lemma map_leD: "f \<subseteq>\<^sub>m g \<Longrightarrow> f a = Some b \<Longrightarrow> g a = Some b"
  by (metis domI map_le_def)

lemma gcm_le_refl [simp]: "gcm_le g g"
  by (simp add: gcm_le_def)

lemma gcm_le_trans: "gcm_le f g \<Longrightarrow> gcm_le g h \<Longrightarrow> gcm_le f h"
  by (auto simp: gcm_le_def) (metis gcmobj.update_convs(4) gcmobj.surjective)

lemma rel_gcm_le_refl [simp]: "rel_option gcm_le x x"
  by (cases x) simp_all

lemma rel_gcm_le_trans:
  "rel_option gcm_le x y \<Longrightarrow> rel_option gcm_le y z \<Longrightarrow> rel_option gcm_le x z"
  by (cases x; cases y; cases z) (auto intro: gcm_le_trans)

lemma ext_refl [simp]: "ext w w"
  by (simp add: ext_def)

lemma ext_trans:
  assumes "ext u v" and "ext v w"
  shows "ext u w"
proof -
  have "rel_option gcm_le (gcms u i) (gcms w i)" for i
    using assms rel_gcm_le_trans unfolding ext_def by blast
  then show ?thesis using assms by (auto simp: ext_def intro: map_le_trans)
qed

lemma frame_refl [simp]: "frame S w w"
  by (simp add: frame_def)

lemma frame_trans: "frame S u v \<Longrightarrow> frame S v w \<Longrightarrow> frame S u w"
proof -
  assume a: "frame S u v" "frame S v w"
  then have "ext u w" unfolding frame_def by (blast intro: ext_trans)
  then show ?thesis using a by (auto simp: frame_def ext_def)
qed

lemma frame_ext: "frame S w w' \<Longrightarrow> ext w w'"
  by (simp add: frame_def)

lemma frame_wf: "frame S w w' \<Longrightarrow> wf w \<Longrightarrow> wf w'"
  by (auto simp: frame_def ext_def wf_def heap_ok_def intro: less_le_trans)

lemma ext_wf: "ext w w' \<Longrightarrow> heap_ok (hp w') \<Longrightarrow> wf w \<Longrightarrow> wf w'"
  using map_leD [of "mem (hp w)" "mem (hp w')"] by (fastforce simp: ext_def wf_def)

lemma stableD: "stable P \<Longrightarrow> ext w w' \<Longrightarrow> P w \<Longrightarrow> P w'"
  by (auto simp: stable_def)

lemma ext_oom: "ext w w' \<Longrightarrow> oom w' = oom w"
  by (simp add: oom_def ext_def)

lemma frame_oom: "frame S w w' \<Longrightarrow> oom w' = oom w"
  by (rule ext_oom [OF frame_ext])

lemma refinesI:
  assumes "\<And>w. wf w \<Longrightarrow> P w \<Longrightarrow>
    (\<exists>x w'. m w = (Ret x, w') \<and> frame S w w' \<and> (x, nview w') \<in> f (nview w)) \<or>
    (\<exists>e w'. m w = (Crash e, w') \<and> oom w)"
  shows "refines S P m f"
  unfolding refines_def
proof (intro allI impI)
  fix w assume "wf w" "P w"
  from assms [OF this] show "case m w of
      (Ret x, w') \<Rightarrow> frame S w w' \<and> (x, nview w') \<in> f (nview w)
    | (Crash e, w') \<Rightarrow> oom w
    | (Panic e, w') \<Rightarrow> False
    | (Fault e, w') \<Rightarrow> False" by auto
qed

lemma refinesE:
  assumes "refines S P m f" and "wf w" and "P w"
  obtains x w' where "m w = (Ret x, w')" "frame S w w'" "(x, nview w') \<in> f (nview w)"
  | e w' where "m w = (Crash e, w')" "oom w"
proof -
  obtain r w' where m: "m w = (r, w')" by (cases "m w")
  have "case m w of
      (Ret x, w') \<Rightarrow> frame S w w' \<and> (x, nview w') \<in> f (nview w)
    | (Crash e, w') \<Rightarrow> oom w
    | (Panic e, w') \<Rightarrow> False
    | (Fault e, w') \<Rightarrow> False" using assms by (simp add: refines_def)
  then show thesis using m that by (cases r) auto
qed

lemma refines_pre: "refines S P m f \<Longrightarrow> (\<And>w. wf w \<Longrightarrow> Q w \<Longrightarrow> P w) \<Longrightarrow> refines S Q m f"
  by (auto simp: refines_def)

lemma refines_cong: "refines S P m f \<Longrightarrow> f = g \<Longrightarrow> refines S P m g"
  by simp

lemma refines_same: "refines S P m f \<Longrightarrow> (\<And>w. P w \<Longrightarrow> n w = m w) \<Longrightarrow> refines S P n f"
  by (simp add: refines_def)

lemma stable_True [stable_intros]: "stable (\<lambda>w. True)"
  by (simp add: stable_def)

lemma stable_conj [stable_intros]: "stable P \<Longrightarrow> stable Q \<Longrightarrow> stable (\<lambda>w. P w \<and> Q w)"
  by (auto simp: stable_def)

lemma stable_modl [stable_intros]: "stable (\<lambda>w. modl w = m)"
  by (auto simp: stable_def ext_def)

lemma stable_gcms [stable_intros]: "stable (\<lambda>w. \<exists>g'. gcms w i = Some g' \<and> gcm_le g g')"
  unfolding stable_def ext_def
  by (metis gcm_le_trans option.rel_cases option.sel option.distinct(1))

lemma stable_mem [stable_intros]: "stable (\<lambda>w. mem (hp w) a = Some b)"
  by (auto simp: stable_def ext_def map_le_def dom_def)

lemma stable_buf_at [stable_intros]: "stable (\<lambda>w. buf_at (hp w) p bs)"
  by (cases p) (auto simp: stable_def ext_def map_le_def dom_def)

lemma refines_ret [refine_intros]: "refines S P (go_ret x) (abs_ret x)"
  by (simp add: refines_def go_run)

text \<open>The continuation may rely on what every result of the first part satisfies.\<close>

lemma refines_bind_fact:
  assumes "stable P" and "refines S P m f"
    and fact: "\<And>w x s. wf w \<Longrightarrow> P w \<Longrightarrow> (x, s) \<in> f (nview w) \<Longrightarrow> Q x"
    and k: "\<And>x. Q x \<Longrightarrow> refines S P (k x) (g x)"
  shows "refines S P (go_bind m k) (abs_bind f g)"
proof (rule refinesI)
  fix w assume w: "wf w" "P w"
  from refinesE [OF assms(2) w]
  show "(\<exists>x w'. go_bind m k w = (Ret x, w') \<and> frame S w w' \<and>
      (x, nview w') \<in> abs_bind f g (nview w)) \<or>
    (\<exists>e w'. go_bind m k w = (Crash e, w') \<and> oom w)"
  proof cases
    case (1 x w')
    have "wf w'" "P w'"
      using w 1(2) stableD [OF assms(1)] by (auto intro: frame_wf frame_ext)
    from refinesE [OF k [OF fact [OF w 1(3)]] this] show ?thesis
      by cases (use 1 frame_oom [OF 1(2)] in
        \<open>auto simp: go_run intro: frame_trans abs_bindI\<close>)
  next
    case (2 e w')
    then show ?thesis by (auto simp: go_run)
  qed
qed

lemma refines_bind [refine_intros]:
  assumes "stable P" and "refines S P m f" and "\<And>x. refines S P (k x) (g x)"
  shows "refines S P (go_bind m k) (abs_bind f g)"
  by (rule refines_bind_fact [where Q = "\<lambda>x. True", OF assms(1,2)]) (simp_all add: assms(3))

lemma refines_try [refine_intros]:
  assumes "stable P" and "refines S P m f" and "\<And>x. refines S P (k x) (g x)"
  shows "refines S P (go_try m k) (abs_try f g)"
  unfolding go_try_def abs_try_def
proof (rule refines_bind [OF assms(1,2)])
  fix r show "refines S P (case r of Inl e \<Rightarrow> go_ret (Inl e) | Inr x \<Rightarrow> k x)
      (case r of Inl e \<Rightarrow> abs_ret (Inl e) | Inr x \<Rightarrow> g x)"
    using assms(3) by (cases r) (auto intro: refines_ret)
qed

lemma refines_if [refine_intros]:
  "(b \<Longrightarrow> refines S P m f) \<Longrightarrow> (\<not> b \<Longrightarrow> refines S P n g) \<Longrightarrow>
     refines S P (if b then m else n) (if b then f else g)"
  by simp

lemma refines_case_option [refine_intros]:
  "(x = None \<Longrightarrow> refines S P m f) \<Longrightarrow> (\<And>y. x = Some y \<Longrightarrow> refines S P (k y) (g y)) \<Longrightarrow>
     refines S P (case x of None \<Rightarrow> m | Some y \<Rightarrow> k y) (case x of None \<Rightarrow> f | Some y \<Rightarrow> g y)"
  by (cases x) auto

section \<open>What is readable stays readable\<close>

lemma c_read_mono: "mem h \<subseteq>\<^sub>m mem h' \<Longrightarrow> c_read h p n = Some b \<Longrightarrow> c_read h' p n = Some b"
  by (cases p) (auto split: option.splits cobj.splits dest: map_leD)

lemma view_attr_mono: "mem h \<subseteq>\<^sub>m mem h' \<Longrightarrow> view_attr h a = Some v \<Longrightarrow> view_attr h' a = Some v"
proof -
  assume le: "mem h \<subseteq>\<^sub>m mem h'" and v: "view_attr h a = Some v"
  then obtain b where b: "c_read h (pValue a) (unat (ulValueLen a)) = Some b"
    by (auto simp: view_attr_def bind_eq_Some_conv)
  show ?thesis using v b c_read_mono [OF le b] by (simp add: view_attr_def)
qed

lemma those_map_mono:
  assumes "\<And>a v. f a = Some v \<Longrightarrow> g a = Some v"
  shows "those (map f as) = Some vs \<Longrightarrow> those (map g as) = Some vs"
  using assms by (induction as arbitrary: vs) (auto split: option.splits)

lemma view_attrs_mono:
  assumes "mem h \<subseteq>\<^sub>m mem h'" and "those (map (view_attr h) as) = Some vs"
  shows "those (map (view_attr h') as) = Some vs"
  by (rule those_map_mono [OF view_attr_mono [OF assms(1)] assms(2)])

lemma view_param_mono:
  assumes "mem h \<subseteq>\<^sub>m mem h'" and "view_param h p n = Some v"
  shows "view_param h' p n = Some v"
proof (cases p)
  case Null then show ?thesis using assms by simp
next
  case (Ptr a)
  then obtain ob where ob: "mem h a = Some ob" using assms(2) by (auto split: option.splits)
  then have ob': "mem h' a = Some ob" using map_leD [OF assms(1)] by simp
  show ?thesis using assms(2) Ptr ob ob'
    by (cases ob) (auto simp: view_gcm_def bind_eq_Some_conv split: if_splits
        dest: c_read_mono [OF assms(1)])
qed

lemma view_mech_mono:
  assumes "mem h \<subseteq>\<^sub>m mem h'" and "view_mech h p = Some v"
  shows "view_mech h' p = Some v"
proof (cases p)
  case Null then show ?thesis using assms by simp
next
  case (Ptr a)
  then obtain ob where ob: "mem h a = Some ob" using assms(2) by (auto split: option.splits)
  then have ob': "mem h' a = Some ob" using map_leD [OF assms(1)] by simp
  show ?thesis using assms(2) Ptr ob ob'
    by (cases ob) (auto simp: bind_eq_Some_conv dest: view_param_mono [OF assms(1)])
qed

lemma view_arg_mono:
  assumes "mem h \<subseteq>\<^sub>m mem h'" and "view_arg h a = Some v"
  shows "view_arg h' a = Some v"
proof (cases a)
  case (ATmpl p n)
  show ?thesis
  proof (cases p)
    case (Ptr b)
    then obtain ob where ob: "mem h b = Some ob" using assms(2) ATmpl by (auto split: option.splits)
    then have ob': "mem h' b = Some ob" using map_leD [OF assms(1)] by simp
    show ?thesis using assms(2) ATmpl Ptr ob ob'
      by (cases ob) (auto simp: bind_eq_Some_conv split: if_splits
          dest: view_attrs_mono [OF assms(1)])
  qed (use assms ATmpl in simp)
next
  case (AAttrs p n)
  then show ?thesis using assms
    by (cases p) (auto split: option.splits cobj.splits dest: map_leD [OF assms(1)])
qed (use assms in \<open>auto simp: bind_eq_Some_conv split: if_splits
      dest: c_read_mono [OF assms(1)] view_mech_mono [OF assms(1)]\<close>)

lemma stable_view [stable_intros]: "stable (\<lambda>w. view_arg (hp w) a = Some v)"
  by (auto simp: stable_def ext_def dest: view_arg_mono)

section \<open>Scoped resources\<close>

text \<open>
  The law of a pair \<open>x := acquire; defer release(x)\<close>: acquiring only adds to the state and
  establishes \<open>Q x\<close>, releasing after a body that gave everything back gives this back too, and
  neither calls the module.  \<open>R\<close> is what acquiring needs.  Where acquiring fails with an error
  (\<open>err\<close>), it has taken nothing.
\<close>

definition silent :: "'m world \<Rightarrow> 'm world \<Rightarrow> bool" where
  "silent w w' \<longleftrightarrow> nview w' = nview w"

locale scoped_try =
  fixes S :: release_rule
    and R :: "'m world \<Rightarrow> bool"
    and err :: "goerror option"
    and acquire :: "('m world, goerror + 'x) go"
    and release :: "'x \<Rightarrow> ('m world, unit) go"
    and Q :: "'x \<Rightarrow> 'm world \<Rightarrow> bool"
  assumes acquire_error: "wf w \<Longrightarrow> R w \<Longrightarrow> err = Some e \<Longrightarrow> acquire w = (Ret (Inl e), w)"
    and acquire_total: "wf w \<Longrightarrow> R w \<Longrightarrow> err = None \<Longrightarrow>
      (\<exists>x w'. acquire w = (Ret (Inr x), w')) \<or>
      (\<exists>e w'. acquire w = (Crash e, w') \<and> oom w)"
    and acquire_ok: "wf w \<Longrightarrow> R w \<Longrightarrow> acquire w = (Ret (Inr x), w') \<Longrightarrow>
      heap_ok (hp w') \<and> ext w w' \<and> silent w w' \<and> Q x w'"
    and release_ok: "wf w \<Longrightarrow> R w \<Longrightarrow> acquire w = (Ret (Inr x), w') \<Longrightarrow> frame S w' v \<Longrightarrow>
      \<exists>v'. release x v = (Ret (), v') \<and> frame S w v' \<and> silent v v'"
begin

lemma refines_scope:
  assumes P: "stable P" and body: "\<And>x. refines S (\<lambda>w. P w \<and> Q x w) (body x) f"
    and R: "\<And>w. P w \<Longrightarrow> R w"
  shows "refines S P (go_try_scoped acquire release body)
    (case err of Some e \<Rightarrow> abs_ret (Inl e) | None \<Rightarrow> f)"
proof (cases err)
  case (Some e)
  then show ?thesis using acquire_error R by (auto simp: refines_def go_run)
next
  case None
  let ?m = "go_try_scoped acquire release body"
  have "refines S P ?m f"
  proof (rule refinesI)
    fix w assume w: "wf w" "P w"
    note r = R [OF w(2)]
    from acquire_total [OF w(1) r None]
    show "(\<exists>x w'. ?m w = (Ret x, w') \<and> frame S w w' \<and> (x, nview w') \<in> f (nview w)) \<or>
      (\<exists>e w'. ?m w = (Crash e, w') \<and> oom w)"
    proof (elim disjE exE conjE)
      fix x w1 assume a: "acquire w = (Ret (Inr x), w1)"
      have ok: "heap_ok (hp w1)" "ext w w1" "nview w1 = nview w" "Q x w1"
        using acquire_ok [OF w(1) r a] by (simp_all add: silent_def)
      have w1: "wf w1" "P w1 \<and> Q x w1"
        using ok w by (auto intro: ext_wf stableD [OF P])
      from refinesE [OF body w1] show ?thesis
      proof cases
        case (1 y w2)
        obtain w3 where "release x w2 = (Ret (), w3)" "frame S w w3" "nview w3 = nview w2"
          using release_ok [OF w(1) r a 1(2)] by (auto simp: silent_def)
        then show ?thesis using a 1 ok by (simp add: go_run)
      next
        case (2 e w2)
        moreover have "oom w1 = oom w" using ok(2) by (rule ext_oom)
        ultimately show ?thesis using a by (auto simp: go_run)
      qed
    qed (auto simp: go_run)
  qed
  then show ?thesis using None by simp
qed

end

locale scoped =
  fixes S :: release_rule
    and R :: "'m world \<Rightarrow> bool"
    and acquire :: "('m world, 'x) go"
    and release :: "'x \<Rightarrow> ('m world, unit) go"
    and Q :: "'x \<Rightarrow> 'm world \<Rightarrow> bool"
  assumes get_total: "wf w \<Longrightarrow> R w \<Longrightarrow>
      (\<exists>x w'. acquire w = (Ret x, w')) \<or>
      (\<exists>e w'. acquire w = (Crash e, w') \<and> oom w)"
    and get_ok: "wf w \<Longrightarrow> R w \<Longrightarrow> acquire w = (Ret x, w') \<Longrightarrow>
      heap_ok (hp w') \<and> ext w w' \<and> silent w w' \<and> Q x w'"
    and put_ok: "wf w \<Longrightarrow> R w \<Longrightarrow> acquire w = (Ret x, w') \<Longrightarrow> frame S w' v \<Longrightarrow>
      \<exists>v'. release x v = (Ret (), v') \<and> frame S w v' \<and> silent v v'"

text \<open>A resource that cannot fail is one whose error is \<open>None\<close>.\<close>

sublocale scoped \<subseteq> fallible: scoped_try S R None "go_bind acquire (\<lambda>x. go_ret (Inr x))" release Q
proof (unfold_locales, goal_cases)
  case (2 w) from get_total [OF 2(1,2)] show ?case by (fastforce simp: go_run)
next
  case (3 w x w') then show ?case using get_ok [of w]
    by (auto simp: go_run split: prod.splits outcome.splits)
next
  case (4 w x w' v) then show ?case using put_ok [of w]
    by (auto simp: go_run split: prod.splits outcome.splits)
qed simp

context scoped begin

lemma refines_scope_plain:
  fixes body :: "'x \<Rightarrow> ('m world, goerror + 'c) go"
  assumes P: "stable P" and body: "\<And>x. refines S (\<lambda>w. P w \<and> Q x w) (body x) f"
    and R: "\<And>w. P w \<Longrightarrow> R w"
  shows "refines S P (go_scoped acquire release body) f"
proof -
  have "go_scoped acquire release body =
      go_try_scoped (go_bind acquire (\<lambda>x. go_ret (Inr x))) release body"
    by (rule ext) (simp add: go_run split: prod.splits outcome.splits)
  then show ?thesis using fallible.refines_scope [OF P body R] by simp
qed

end

section \<open>Calls into a conforming module\<close>

fun args_cap :: "carg list \<Rightarrow> nat" where
  "args_cap [] = 0"
| "args_cap (AOut p n # as) = (if p \<noteq> Null then unat n else 0)"
| "args_cap (a # as) = args_cap as"

lemma those_Cons_Some:
  "those (x # xs) = Some zs \<longleftrightarrow> (\<exists>y ys. x = Some y \<and> those xs = Some ys \<and> zs = y # ys)"
  by (auto split: option.splits)

lemma view_arg_cap:
  "view_arg h a = Some y \<Longrightarrow> out_cap (y # ys) =
     (case a of AOut p n \<Rightarrow> if p \<noteq> Null then unat n else 0 | _ \<Rightarrow> out_cap ys)"
proof (cases a)
  case (ATmpl p n)
  then show "view_arg h a = Some y \<Longrightarrow> ?thesis"
    by (cases p) (auto simp: bind_eq_Some_conv split: option.splits cobj.splits if_splits)
qed (auto simp: bind_eq_Some_conv split: option.splits cobj.splits if_splits)

lemma out_cap_views:
  "those (map (view_arg h) as) = Some vs \<Longrightarrow> out_cap vs = args_cap as"
proof (induction as arbitrary: vs)
  case Nil then show ?case by simp
next
  case (Cons a as)
  then obtain y ys where y: "view_arg h a = Some y" and ys: "those (map (view_arg h) as) = Some ys"
    and vs: "vs = y # ys" by (auto simp: those_Cons_Some simp del: those.simps)
  then show ?case using view_arg_cap [OF y, of ys] Cons.IH [OF ys] by (cases a) auto
qed

text \<open>
  A call whose arguments can all be read, with no output memory, leaves the heap alone; with an
  output buffer it changes that block's contents only, never its size.
\<close>

lemma native_call_pure:
  assumes "conforming N" and "those (map (view_arg (hp w)) as) = Some vs"
    and "out_ptr as = Null" and "attrs_ptr as = Null" and "args_cap as = 0"
  shows "\<exists>r ms. N (nat_st w) (Call f vs) = (r, ms) \<and>
    native_call N f as w = (Ret r, w\<lparr>nat_st := ms, calls := calls w @ [Call f vs],
      at_calls := at_calls w @ [(readers w, writer w, waiters w)]\<rparr>)"
proof -
  obtain r ms where N: "N (nat_st w) (Call f vs) = (r, ms)" by (cases "N (nat_st w) (Call f vs)")
  have "fits vs r" by (rule conformingD [OF assms(1) N])
  then have "obytes r = []" "owrites r = []"
    using out_cap_views [OF assms(2)] assms(5) by (simp_all add: fits_def)
  then show ?thesis using N assms(2,3,4)
    by (simp add: native_call_def store_reply_def)
qed

lemma native_call_out:
  assumes "conforming N" and "those (map (view_arg (hp w)) as) = Some vs"
    and "out_ptr as = Ptr a" and "attrs_ptr as = Null"
    and "mem (hp w) a = Some (CBytes b)" and "args_cap as \<le> length b"
  shows "\<exists>r ms. N (nat_st w) (Call f vs) = (r, ms) \<and> length (obytes r) \<le> args_cap as \<and>
    native_call N f as w = (Ret r, w\<lparr>nat_st := ms, calls := calls w @ [Call f vs],
      at_calls := at_calls w @ [(readers w, writer w, waiters w)], hp := (hp w)\<lparr>mem := (mem (hp w))(a \<mapsto> CBytes (obytes r @ drop (length (obytes r)) b))\<rparr>\<rparr>)"
proof -
  obtain r ms where N: "N (nat_st w) (Call f vs) = (r, ms)" by (cases "N (nat_st w) (Call f vs)")
  have "fits vs r" by (rule conformingD [OF assms(1) N])
  then have "length (obytes r) \<le> args_cap as" "owrites r = []"
    using out_cap_views [OF assms(2)] by (simp_all add: fits_def)
  then show ?thesis using N assms(2-6)
    by (simp add: native_call_def store_reply_def)
qed

end
