(* ===== verification/Examples.thy ===== *)
theory Examples
  imports Contract
begin

text \<open>
  A small module and a state in which it is loaded, used to instantiate theorems at concrete
  inputs.  The module answers every call with success; asked for data it reports three bytes, and
  writes them where the buffer has room; asked for a list it reports an empty one.
\<close>

fun toy_reply :: "cview list \<Rightarrow> ck_reply" where
  "toy_reply [] = reply0 CKR_OK"
| "toy_reply (SOut b n # vs) = (if \<not> b then (reply0 CKR_OK)\<lparr>olen := 3\<rparr>
     else if unat n < 3 then (reply0 CKR_BUFFER_TOO_SMALL)\<lparr>olen := 3\<rparr>
     else (reply0 CKR_OK)\<lparr>olen := 3, obytes := [1, 2, 3]\<rparr>)"
| "toy_reply (v # vs) = toy_reply vs"

fun is_arr :: "cview \<Rightarrow> bool" where
  "is_arr (SArr b n) = True"
| "is_arr v = False"

definition toy :: "nat native" where
  "toy n c = (case c of Call f vs \<Rightarrow> (if list_ex is_arr vs then reply0 CKR_OK else toy_reply vs, n + 1))"

definition toy_module :: "nat ckModule" where
  "toy_module = \<lparr>mblk = Ptr 0, dl = 7, fns = Some toy, fns32 = None, fnsBase = Some toy\<rparr>"

definition toy_heap :: heap where
  "toy_heap = \<lparr>mem = [0 \<mapsto> CBytes (replicate 32 0)], brk = 1, junk = (\<lambda>a i. 170), grants = (\<lambda>a n. True), freed = []\<rparr>"

definition toy_world :: "nat world" where
  "toy_world = \<lparr>hp = toy_heap, nat_st = 0, modl = Some toy_module, libs = {7}, readers = 0, writer = False,
     waiters = 0, policy = None, gcms = (\<lambda>i. None), calls = [], at_calls = []\<rparr>"

lemma toy_reply_owrites: "owrites (toy_reply vs) = [] \<and> oattrs (toy_reply vs) = [] \<and> ohandles (toy_reply vs) = []
    \<and> length (obytes (toy_reply vs)) \<le> out_cap vs"
  by (induction vs rule: toy_reply.induct) (simp_all add: reply0_def)

lemma toy_conforming: "conforming toy"
proof -
  have "arr_fits [] v" for v by (cases v) simp_all
  moreover have "fits_attrs cs []" for cs by simp
  ultimately show ?thesis using toy_reply_owrites
    by (simp add: conforming_def fits_def toy_def list_all_iff reply0_def)
qed

lemma toy_wf: "wf toy_world"
  by (auto simp: wf_def toy_world_def heap_ok_def toy_heap_def module_ok_def toy_module_def toy_conforming)

lemma toy_no_oom: "\<not> oom toy_world"
  by (simp add: oom_def toy_world_def toy_heap_def)

section \<open>Other modules\<close>

text \<open>Any conforming module can be loaded in the state of the example.\<close>

definition loaded_world :: "'m native \<Rightarrow> 'm \<Rightarrow> 'm world" where
  "loaded_world N s = \<lparr>hp = toy_heap, nat_st = s,
     modl = Some \<lparr>mblk = Ptr 0, dl = 7, fns = Some N, fns32 = None, fnsBase = Some N\<rparr>, libs = {7}, readers = 0,
     writer = False, waiters = 0, policy = None, gcms = (\<lambda>i. None), calls = [], at_calls = []\<rparr>"

lemma loaded_wf: "conforming N \<Longrightarrow> wf (loaded_world N s)"
  by (auto simp: wf_def loaded_world_def heap_ok_def toy_heap_def module_ok_def)

lemma loaded_no_oom: "\<not> oom (loaded_world N s)"
  by (simp add: oom_def loaded_world_def toy_heap_def)

lemma loaded_simps [simp]:
  "modl (loaded_world N s) = Some \<lparr>mblk = Ptr 0, dl = 7, fns = Some N, fns32 = None, fnsBase = Some N\<rparr>"
  "nat_st (loaded_world N s) = s" "calls (loaded_world N s) = []" "policy (loaded_world N s) = None"
  "writer (loaded_world N s) = False" "readers (loaded_world N s) = 0" "waiters (loaded_world N s) = 0"
  "libs (loaded_world N s) = {7}" "hp (loaded_world N s) = toy_heap"
  by (simp_all add: loaded_world_def)

text \<open>\<open>stingy\<close> finds every buffer too small; \<open>finder\<close> has that many objects left to find, and \<open>boaster\<close>
  claims to have found more than it was asked for.\<close>

fun stingy_reply :: "cview list \<Rightarrow> ck_reply" where
  "stingy_reply [] = reply0 CKR_OK"
| "stingy_reply (SOut b n # vs) = (if b then (reply0 CKR_BUFFER_TOO_SMALL)\<lparr>olen := 5\<rparr> else (reply0 CKR_OK)\<lparr>olen := 5\<rparr>)"
| "stingy_reply (v # vs) = stingy_reply vs"

definition stingy :: "nat native" where
  "stingy n c = (case c of Call f vs \<Rightarrow> (stingy_reply vs, n + 1))"

definition finder :: "nat native" where
  "finder n c = (case c of
      Call (Obj C_FindObjects) [SULong h, SArr True k] \<Rightarrow> (let m = min n (unat k) in
        ((reply0 CKR_OK)\<lparr>olen := of_nat m, ohandles := replicate m 77\<rparr>, n - m))
    | _ \<Rightarrow> (reply0 CKR_OK, n))"

definition boaster :: "nat native" where
  "boaster n c = (case c of
      Call (Obj C_FindObjects) [SULong h, SArr True k] \<Rightarrow> ((reply0 CKR_OK)\<lparr>olen := k + 1\<rparr>, n)
    | _ \<Rightarrow> (reply0 CKR_OK, n))"

lemma fits_reply0: "fits vs ((reply0 r)\<lparr>olen := k\<rparr>)" "fits vs (reply0 r)"
proof -
  have "arr_fits [] v" for v by (cases v) simp_all
  then show "fits vs ((reply0 r)\<lparr>olen := k\<rparr>)" "fits vs (reply0 r)"
    by (simp_all add: fits_def reply0_def list_all_iff)
qed

lemma stingy_conforming: "conforming stingy"
proof -
  have "fits us (stingy_reply vs)" for us vs
    by (induction vs rule: stingy_reply.induct) (simp_all add: fits_reply0)
  then show ?thesis by (simp add: conforming_def stingy_def)
qed

lemma finder_conforming: "conforming finder"
  unfolding conforming_def
proof (intro allI)
  fix ms f vs
  show "fits vs (fst (finder ms (Call f vs)))"
  proof (cases "\<exists>h k. f = Obj C_FindObjects \<and> vs = [SULong h, SArr True k]")
    case True
    then show ?thesis by (auto simp: finder_def Let_def fits_def reply0_def)
  next
    case False
    then have "finder ms (Call f vs) = (reply0 CKR_OK, ms)"
      by (auto simp: finder_def split: ck_fn.splits obj_fn.splits list.splits cview.splits bool.splits)
    then show ?thesis by (simp add: fits_reply0)
  qed
qed

lemma boaster_conforming: "conforming boaster"
  unfolding conforming_def boaster_def
  by (auto simp: fits_reply0 split: ck_fn.splits obj_fn.splits list.splits cview.splits bool.splits)

end
