(* ===== verification/ULong.thy ===== *)
theory ULong
  imports Types
begin

text \<open>
  The \<open>CK_ULONG\<close> codec of \<^verbatim>\<open>cryptoki/marshal.go\<close> (\<open>ckULong\<close>, \<open>ULongToBytes\<close>,
  \<open>BytesToULong\<close>, \<open>ckBBool\<close>), \<open>infoULong\<close> of \<^verbatim>\<open>cryptoki/slot.go\<close> and \<open>NewAttribute\<close> with
  \<open>isArrayAttribute\<close> of \<^verbatim>\<open>cryptoki/object.go\<close>.  These are the functions whose result depends on
  the platform, so they take it as an argument: the width of \<open>CK_ULONG\<close> in bytes (8 on LP64, 4 on
  Windows) and the byte order.  A function that can panic has an \<open>outcome\<close>.
\<close>

unbundle bit_operations_syntax

record platform =
  ULongSize :: nat
  bigEndian :: bool

definition lp64 :: platform where "lp64 = \<lparr>ULongSize = 8, bigEndian = False\<rparr>"
definition llp64 :: platform where "llp64 = \<lparr>ULongSize = 4, bigEndian = False\<rparr>"
definition lp64be :: platform where "lp64be = \<lparr>ULongSize = 8, bigEndian = True\<rparr>"

text \<open>The memory image of an \<open>n\<close>-byte unsigned number, least significant byte first, and back.\<close>

fun le_bytes :: "nat \<Rightarrow> nat \<Rightarrow> byte list" where
  "le_bytes 0 v = []"
| "le_bytes (Suc n) v = of_nat v # le_bytes n (v div 256)"

fun le_value :: "byte list \<Rightarrow> nat" where
  "le_value [] = 0"
| "le_value (b # bs) = unat b + 256 * le_value bs"

definition native_bytes :: "platform \<Rightarrow> nat \<Rightarrow> byte list" where
  "native_bytes pf v = (let bs = le_bytes (ULongSize pf) v in if bigEndian pf then rev bs else bs)"

definition native_value :: "platform \<Rightarrow> byte list \<Rightarrow> nat" where
  "native_value pf bs = le_value (if bigEndian pf then rev bs else bs)"

text \<open>
  \<open>ckULong\<close>: the conversion \<open>C.CK_ULONG(v)\<close> truncates to the platform's width; a value that
  does not survive it panics.
\<close>

definition ckULong :: "platform \<Rightarrow> uint \<Rightarrow> byte list outcome" where
  "ckULong pf v =
     (let cv = unat v mod 256 ^ ULongSize pf
      in if cv \<noteq> unat v then Panic ''cryptoki: value overflows CK_ULONG on this platform''
         else Ret (native_bytes pf cv))"

definition ULongToBytes :: "platform \<Rightarrow> uint \<Rightarrow> byte list outcome" where
  "ULongToBytes pf v = ckULong pf v"

text \<open>\<open>copy(buf[:], b)\<close> into a zeroed buffer of one \<open>CK_ULONG\<close>, then a native-endian read.\<close>

definition BytesToULong :: "platform \<Rightarrow> byte list \<Rightarrow> uint" where
  "BytesToULong pf b =
     (let k = ULongSize pf; buf = take k b @ replicate (k - length b) 0
      in if k < 8 then of_nat (native_value pf (take 4 buf)) else of_nat (native_value pf (take 8 buf)))"

definition ckBBool :: "bool \<Rightarrow> byte list" where
  "ckBBool b = (if b then [1] else [0])"

text \<open>\<open>infoULong\<close> maps the module's all-ones marker onto the Go constant.\<close>

definition ulongUnavailable :: "platform \<Rightarrow> uint" where
  "ulongUnavailable pf = of_nat (256 ^ ULongSize pf - 1)"

definition infoULong :: "platform \<Rightarrow> uint \<Rightarrow> uint" where
  "infoULong pf v = (if v = ulongUnavailable pf then CK_UNAVAILABLE_INFORMATION else v)"

section \<open>Attributes built from Go values\<close>

text \<open>The dynamic types \<open>NewAttribute\<close> distinguishes; \<open>VOther\<close> is any other type.\<close>

datatype go_value = VNil | VBool bool | VInt int | VUint uint | VString "byte list"
  | VBytes "byte list" | VOther string

definition map_outcome :: "('a \<Rightarrow> 'b) \<Rightarrow> 'a outcome \<Rightarrow> 'b outcome" where
  "map_outcome f r = (case r of Ret x \<Rightarrow> Ret (f x) | Panic e \<Rightarrow> Panic e | Crash e \<Rightarrow> Crash e | Fault e \<Rightarrow> Fault e)"

definition attr :: "uint \<Rightarrow> byte list option \<Rightarrow> Attribute" where
  "attr t v = \<lparr>Type = t, Value = v\<rparr>"

text \<open>\<open>append([]byte(nil), v...)\<close> of an empty slice is \<open>nil\<close>; \<open>[]byte("")\<close> is not.\<close>

fun NewAttribute :: "platform \<Rightarrow> uint \<Rightarrow> go_value \<Rightarrow> Attribute outcome" where
  "NewAttribute pf t VNil = Ret (attr t None)"
| "NewAttribute pf t (VBool b) = Ret (attr t (Some (ckBBool b)))"
| "NewAttribute pf t (VInt i) =
     (if i < 0 then Panic ''cryptoki: NewAttribute: negative int is not a valid CK_ULONG''
      else map_outcome (\<lambda>b. attr t (Some b)) (ckULong pf (of_int i)))"
| "NewAttribute pf t (VUint u) = map_outcome (\<lambda>b. attr t (Some b)) (ckULong pf u)"
| "NewAttribute pf t (VString s) = Ret (attr t (Some s))"
| "NewAttribute pf t (VBytes b) = Ret (attr t (if b = [] then None else Some b))"
| "NewAttribute pf t (VOther ty) = Panic (''cryptoki: NewAttribute: unsupported value type '' @ ty)"

definition isArrayAttribute :: "uint \<Rightarrow> bool" where
  "isArrayAttribute t =
     (if t = CKA_ENCAPSULATE_TEMPLATE \<or> t = CKA_DECAPSULATE_TEMPLATE then True
      else t AND CKF_ARRAY_ATTRIBUTE \<noteq> 0)"

section \<open>The codec\<close>

lemma length_le_bytes [simp]: "length (le_bytes n v) = n"
  by (induction n arbitrary: v) simp_all

lemma le_value_le_bytes: "le_value (le_bytes n v) = v mod 256 ^ n"
proof (induction n arbitrary: v)
  case 0 then show ?case by simp
next
  case (Suc n)
  have "le_value (le_bytes (Suc n) v) = v mod 256 + 256 * (v div 256 mod 256 ^ n)"
    by (simp add: Suc.IH unat_of_nat)
  also have "\<dots> = v mod 256 ^ Suc n" by (simp add: mod_mult2_eq)
  finally show ?case .
qed

lemma le_value_zeros: "le_value (bs @ replicate k 0) = le_value bs"
proof (induction bs)
  case Nil then show ?case by (induction k) simp_all
qed simp

lemma le_value_append: "le_value (as @ bs) = le_value as + 256 ^ length as * le_value bs"
  by (induction as) (simp_all add: algebra_simps)

lemma le_value_bound: "le_value bs < 256 ^ length bs"
proof (induction bs)
  case (Cons b bs)
  have "unat b < 256" using unsigned_less [of b] by simp
  then show ?case using Cons.IH by simp
qed simp

lemma native_bytes_length [simp]: "length (native_bytes pf v) = ULongSize pf"
  by (simp add: native_bytes_def Let_def)

lemma native_value_bytes: "native_value pf (native_bytes pf v) = v mod 256 ^ ULongSize pf"
  by (simp add: native_value_def native_bytes_def Let_def le_value_le_bytes)

text \<open>What the rest of the binding relies on, for every platform of the two widths.\<close>

locale ulong_codec =
  fixes width :: nat
    and enc :: "uint \<Rightarrow> byte list outcome"
    and dec :: "byte list \<Rightarrow> uint"
  assumes enc_fits: "unat v < 256 ^ width \<Longrightarrow> \<exists>b. enc v = Ret b \<and> length b = width"
    and enc_wide: "256 ^ width \<le> unat v \<Longrightarrow> \<exists>e. enc v = Panic e"
    and dec_enc: "enc v = Ret b \<Longrightarrow> dec (b @ t) = v"
begin

lemma enc_length: "enc v = Ret b \<Longrightarrow> length b = width"
  using enc_fits [of v] enc_wide [of v] by (cases "unat v < 256 ^ width") auto

lemma enc_inject: "enc v = Ret b \<Longrightarrow> enc w = Ret b \<Longrightarrow> v = w"
  using dec_enc [of v b "[]"] dec_enc [of w b "[]"] by simp

lemma enc_total: "(\<exists>b. enc v = Ret b) \<longleftrightarrow> unat v < 256 ^ width"
  using enc_fits [of v] enc_wide [of v] by (cases "unat v < 256 ^ width") auto

end

lemma ckULong_fits: "unat v < 256 ^ ULongSize pf \<Longrightarrow> ckULong pf v = Ret (native_bytes pf (unat v))"
  by (simp add: ckULong_def)

lemma ckULong_wide: "256 ^ ULongSize pf \<le> unat v \<Longrightarrow>
    ckULong pf v = Panic ''cryptoki: value overflows CK_ULONG on this platform''"
proof -
  assume "256 ^ ULongSize pf \<le> unat v"
  moreover have "unat v mod 256 ^ ULongSize pf < 256 ^ ULongSize pf" by simp
  ultimately have "unat v mod 256 ^ ULongSize pf \<noteq> unat v" by linarith
  then show ?thesis by (simp add: ckULong_def Let_def)
qed

lemma BytesToULong_ckULong:
  assumes k: "ULongSize pf = 4 \<or> ULongSize pf = 8" and e: "ckULong pf v = Ret b"
  shows "BytesToULong pf (b @ t) = v"
proof -
  have lt: "unat v < 256 ^ ULongSize pf" using e ckULong_wide [of pf v] by fastforce
  then have b: "b = native_bytes pf (unat v)" using e ckULong_fits [of v pf] by simp
  then have "native_value pf b = unat v" using lt by (simp add: native_value_bytes)
  then show ?thesis using k b by (auto simp: BytesToULong_def Let_def)
qed

lemma ulong_codec_platform:
  assumes "ULongSize pf = 4 \<or> ULongSize pf = 8"
  shows "ulong_codec (ULongSize pf) (ckULong pf) (BytesToULong pf)"
proof (unfold_locales, goal_cases)
  case (1 v) then show ?case by (simp add: ckULong_fits)
next
  case (2 v) then show ?case by (simp add: ckULong_wide)
next
  case (3 v b t) then show ?case by (rule BytesToULong_ckULong [OF assms])
qed

interpretation lp64: ulong_codec 8 "ckULong lp64" "BytesToULong lp64"
  using ulong_codec_platform [of lp64] by (simp add: lp64_def)

interpretation llp64: ulong_codec 4 "ckULong llp64" "BytesToULong llp64"
  using ulong_codec_platform [of llp64] by (simp add: llp64_def)

interpretation lp64be: ulong_codec 8 "ckULong lp64be" "BytesToULong lp64be"
  using ulong_codec_platform [of lp64be] by (simp add: lp64be_def)

text \<open>Decoding what a token returned, of any length, on a little-endian platform.\<close>

lemma le_value_take_zeros:
  "le_value (take k b @ replicate (k - length b) 0) = le_value (take k b)"
  by (rule le_value_zeros)

lemma BytesToULong_le:
  assumes "ULongSize pf = 4 \<or> ULongSize pf = 8" and "\<not> bigEndian pf"
  shows "BytesToULong pf b = of_nat (le_value (take (ULongSize pf) b))"
  using assms le_value_zeros [of b "ULongSize pf - length b"]
  by (auto simp: BytesToULong_def native_value_def Let_def min_def le_value_take_zeros)

end
