(* ===== verification/Marshal.thy ===== *)
theory Marshal
  imports Examples ULong
begin

text \<open>
  The marshalling helpers of \<^verbatim>\<open>cryptoki/marshal.go\<close> (and \<open>free\<close> of \<^verbatim>\<open>cryptoki/slot.go\<close>): copying
  Go bytes into C memory, building attribute arrays, releasing and scrubbing buffers, and
  \<open>outOp\<close>, the two-pass protocol for calls that return a variable amount of data.  A helper that
  returns a \<open>free\<close> function returns it here too, as an action.  The lemmas discharge the contract
  of scoped resources for each helper, bound the number of calls and the size of the buffers
  \<open>outOp\<close> makes, and show that it implements a protocol that mentions no memory at all.
\<close>

definition maxOutBuf :: nat where "maxOutBuf = 67108864"
definition maxRetries :: nat where "maxRetries = 8"
definition maxListLen :: nat where "maxListLen = 1048576"

section \<open>cgo: allocation and copies\<close>

definition heap_op :: "string \<Rightarrow> (heap \<Rightarrow> heap option) \<Rightarrow> ('m world, unit) go" where
  "heap_op e f = (\<lambda>w. case f (hp w) of None \<Rightarrow> (Fault e, w) | Some h \<Rightarrow> (Ret (), w\<lparr>hp := h\<rparr>))"

text \<open>A call to \<open>C.malloc\<close> through cgo ends the process instead of returning \<open>nil\<close>.\<close>

definition cgo_malloc :: "nat \<Rightarrow> ('m world, ptr) go" where
  "cgo_malloc n = (\<lambda>w. case c_malloc n (hp w) of
      (Null, h) \<Rightarrow> (Crash ''runtime: C malloc failed'', w\<lparr>hp := h\<rparr>)
    | (Ptr a, h) \<Rightarrow> (Ret (Ptr a), w\<lparr>hp := h\<rparr>))"

definition cgo_CBytes :: "byte list \<Rightarrow> ('m world, ptr) go" where
  "cgo_CBytes b = go_bind (cgo_malloc (length b)) (\<lambda>p.
     go_bind (heap_op ''write'' (c_write p b)) (\<lambda>_. go_ret p))"

text \<open>\<open>C.int(u)\<close>, and \<open>C.GoBytes(p, n)\<close>, which panics on a negative length.\<close>

definition c_int :: "uint \<Rightarrow> int" where
  "c_int u = sint (ucast u :: 32 word)"

definition cgo_GoBytes :: "ptr \<Rightarrow> int \<Rightarrow> ('m world, byte list) go" where
  "cgo_GoBytes p n =
     (if n < 0 then go_panic ''gobytes: length out of range''
      else (\<lambda>w. case c_read (hp w) p (nat n) of
          None \<Rightarrow> (Fault ''read'', w) | Some b \<Rightarrow> (Ret b, w)))"

definition ulong_len :: "'a list \<Rightarrow> uint" where
  "ulong_len xs = of_nat (length xs)"

section \<open>Helpers\<close>

definition cMalloc :: "nat \<Rightarrow> ('m world, ptr) go" where
  "cMalloc n = go_bind (cgo_malloc n) (\<lambda>p.
     if p = Null then go_panic ''cryptoki: C.malloc failed (out of memory)'' else go_ret p)"

definition cBytes :: "byte list \<Rightarrow> ('m world, ptr \<times> uint) go" where
  "cBytes b = (if b = [] then go_ret (Null, 0)
     else go_bind (cgo_CBytes b) (\<lambda>p. go_ret (p, ulong_len b)))"

definition cInput :: "byte list \<Rightarrow> ('m world, ptr \<times> uint) go" where
  "cInput b = (if b = [] then go_bind (cMalloc 1) (\<lambda>p. go_ret (p, 0))
     else go_bind (cgo_CBytes b) (\<lambda>p. go_ret (p, ulong_len b)))"

definition free :: "ptr \<Rightarrow> ('m world, unit) go" where
  "free p = (if p \<noteq> Null then heap_op ''free'' (c_free p) else go_ret ())"

definition zfree :: "ptr \<Rightarrow> uint \<Rightarrow> ('m world, unit) go" where
  "zfree p n = (if p = Null then go_ret () else
     go_bind (if n > 0 then heap_op ''memzero'' (c_memzero p (unat n)) else go_ret ()) (\<lambda>_.
     heap_op ''free'' (c_free p)))"

definition zfree_all :: "(ptr \<times> uint) list \<Rightarrow> ('m world, unit) go" where
  "zfree_all vs = foldr (\<lambda>(p, n) k. go_bind (zfree p n) (\<lambda>_. k)) vs (go_ret ())"

definition cAttributesFits :: "int \<Rightarrow> nat \<Rightarrow> bool" where
  "cAttributesFits n elemSize =
     (if n < 0 \<or> elemSize = 0 then False else nat n \<le> maxOutBuf div elemSize)"

text \<open>
  The loop of \<open>cAttributes\<close>: one entry per attribute, with the value buffers it allocated.  A
  \<open>nil\<close> element is dereferenced.
\<close>

primrec cAttributes_loop ::
  "Attribute option list \<Rightarrow> ('m world, ck_attr list \<times> (ptr \<times> uint) list) go" where
  "cAttributes_loop [] = go_ret ([], [])"
| "cAttributes_loop (a # tmpl) = (case a of
      None \<Rightarrow> go_panic ''nil pointer dereference''
    | Some a \<Rightarrow> go_bind (cBytes (case Value a of None \<Rightarrow> [] | Some v \<Rightarrow> v)) (\<lambda>(p, l).
        go_bind (cAttributes_loop tmpl) (\<lambda>(list, values).
        go_ret (\<lparr>atype = Type a, pValue = p, ulValueLen = l\<rparr> # list,
                if p \<noteq> Null then (p, l) # values else values))))"

definition cAttributes ::
  "Attribute option list \<Rightarrow> ('m world, ptr \<times> uint \<times> ('m world, unit) go) go" where
  "cAttributes tmpl = (let n = length tmpl in
     if n = 0 then go_ret (Null, 0, go_ret ())
     else if \<not> cAttributesFits (int n) 24 then go_panic ''cryptoki: cAttributes: template too large''
     else go_bind (cMalloc (n * 24)) (\<lambda>arr.
       go_bind (cAttributes_loop tmpl) (\<lambda>(list, values).
       go_bind (heap_op ''store'' (c_store arr (CAttrs list))) (\<lambda>_.
       go_ret (arr, of_nat n,
         go_bind (zfree_all values) (\<lambda>_. heap_op ''free'' (c_free arr)))))))"

section \<open>outOp\<close>

text \<open>The callback gets the output buffer and the length behind \<open>outLen\<close>; it returns the result
  and the length left there.\<close>

type_synonym 'm out_call = "ptr \<Rightarrow> uint \<Rightarrow> ('m world, uint \<times> uint) go"

definition err_limit :: "uint \<Rightarrow> goerror" where
  "err_limit n = Errf ''cryptoki: output size %d exceeds limit %d'' [unat n, maxOutBuf]"

definition err_alloc :: "uint \<Rightarrow> uint \<Rightarrow> goerror" where
  "err_alloc n c = Errf ''cryptoki: output size %d exceeds allocation %d'' [unat n, unat c]"

definition err_retries :: goerror where
  "err_retries = Errf ''cryptoki: outOp: CKR_BUFFER_TOO_SMALL after %d retries'' [maxRetries]"

text \<open>At least one byte is allocated, so that the output pointer is not \<open>NULL\<close>.\<close>

definition alloc_cap :: "uint \<Rightarrow> uint" where
  "alloc_cap n = (if n = 0 then 1 else n)"

primrec outOp_loop :: "nat \<Rightarrow> 'm out_call \<Rightarrow> uint \<Rightarrow> ('m world, goerror + byte list) go" where
  "outOp_loop 0 call n = go_ret (Inl err_retries)"
| "outOp_loop (Suc k) call n =
     (if unat n > maxOutBuf then go_ret (Inl (err_limit n))
      else let want = n; allocCap = alloc_cap n in
        go_bind (cMalloc (unat allocCap)) (\<lambda>buf.
        go_bind (call buf want) (\<lambda>(rv, n).
        if rv = CKR_BUFFER_TOO_SMALL then
          go_bind (zfree buf allocCap) (\<lambda>_.
          if unat n > maxOutBuf then go_ret (Inl (err_limit n)) else outOp_loop k call n)
        else case toError rv of
          Some err \<Rightarrow> go_bind (zfree buf allocCap) (\<lambda>_. go_ret (Inl err))
        | None \<Rightarrow>
            if n > allocCap \<or> unat n > maxOutBuf then
              go_bind (zfree buf allocCap) (\<lambda>_. go_ret (Inl (err_alloc n allocCap)))
            else if n = 0 then go_bind (zfree buf allocCap) (\<lambda>_. go_ret (Inr []))
            else go_bind (cgo_GoBytes buf (c_int n)) (\<lambda>out.
              go_bind (zfree buf allocCap) (\<lambda>_. go_ret (Inr out))))))"

definition outOp :: "'m out_call \<Rightarrow> ('m world, goerror + byte list) go" where
  "outOp call = go_bind (call Null 0) (\<lambda>(rv, n). case toError rv of
      Some err \<Rightarrow> go_ret (Inl err)
    | None \<Rightarrow> outOp_loop maxRetries call n)"

section \<open>Allocations and their release\<close>

text \<open>
  \<open>heap_grow D k w\<close> adds the blocks \<open>D\<close> and \<open>heap_drop A fs v\<close> removes those of \<open>A\<close>, recording
  them.  \<open>allocated S w w' r\<close>: \<open>w'\<close> has new blocks only, and the action \<open>r\<close> releases exactly
  them, in any later state where they are still there, each as \<open>S\<close> demands.
\<close>

definition heap_grow :: "(nat \<Rightarrow> cobj option) \<Rightarrow> nat \<Rightarrow> 'm world \<Rightarrow> 'm world" where
  "heap_grow D k w = w\<lparr>hp := (hp w)\<lparr>mem := mem (hp w) ++ D, brk := k\<rparr>\<rparr>"

definition heap_drop :: "nat set \<Rightarrow> (nat \<times> cobj) list \<Rightarrow> 'm world \<Rightarrow> 'm world" where
  "heap_drop A fs w = w\<lparr>hp := (hp w)\<lparr>mem := mem (hp w) |` (- A), freed := freed (hp w) @ fs\<rparr>\<rparr>"

definition fresh :: "(nat \<Rightarrow> cobj option) \<Rightarrow> nat \<Rightarrow> nat \<Rightarrow> bool" where
  "fresh D b k \<longleftrightarrow> b \<le> k \<and> (\<forall>a \<in> dom D. b \<le> a \<and> a < k)"

definition releases ::
  "release_rule \<Rightarrow> (nat \<Rightarrow> nat \<Rightarrow> byte) \<Rightarrow> (nat \<Rightarrow> cobj option) \<Rightarrow> ('m world, unit) go \<Rightarrow> bool" where
  "releases S J D r \<longleftrightarrow> (\<forall>v. D \<subseteq>\<^sub>m mem (hp v) \<longrightarrow>
     (\<exists>fs. r v = (Ret (), heap_drop (dom D) fs v) \<and> (\<forall>y \<in> set fs. S J y)))"

definition allocated ::
  "release_rule \<Rightarrow> 'm world \<Rightarrow> 'm world \<Rightarrow> ('m world, unit) go \<Rightarrow> bool" where
  "allocated S w w' r \<longleftrightarrow> (\<exists>D k. fresh D (brk (hp w)) k \<and> w' = heap_grow D k w \<and>
     releases S (junk (hp w)) D r)"

lemma heap_grow_simps [simp]:
  "mem (hp (heap_grow D k w)) = mem (hp w) ++ D" "brk (hp (heap_grow D k w)) = k"
  "junk (hp (heap_grow D k w)) = junk (hp w)" "grants (hp (heap_grow D k w)) = grants (hp w)"
  "freed (hp (heap_grow D k w)) = freed (hp w)" "nview (heap_grow D k w) = nview w"
  "gcms (heap_grow D k w) = gcms w" "modl (heap_grow D k w) = modl w"
  "readers (heap_grow D k w) = readers w" "libs (heap_grow D k w) = libs w"
  "policy (heap_grow D k w) = policy w" "nat_st (heap_grow D k w) = nat_st w"
  "oom (heap_grow D k w) = oom w"
  by (simp_all add: heap_grow_def nview_def oom_def)

lemma heap_grow_grow: "heap_grow E l (heap_grow D k w) = heap_grow (D ++ E) l w"
  by (simp add: heap_grow_def)

lemma heap_drop_drop: "heap_drop B gs (heap_drop A fs w) = heap_drop (A \<union> B) (fs @ gs) w"
  by (simp add: heap_drop_def)

lemma fresh_disjoint:
  assumes "fresh D b k" and "\<And>a. a \<in> A \<Longrightarrow> a < b"
  shows "dom D \<inter> A = {}" "A \<inter> dom D = {}"
  using assms by (meson disjoint_iff fresh_def leD)+

lemma freshD: "fresh D b k \<Longrightarrow> a \<in> dom D \<Longrightarrow> b \<le> a" "fresh D b k \<Longrightarrow> a \<in> dom D \<Longrightarrow> a < k"
  "fresh D b k \<Longrightarrow> b \<le> k"
  by (simp_all add: fresh_def)

lemma fresh_seq:
  assumes D: "fresh D b k" and E: "fresh E k l"
  shows "fresh (D ++ E) b l"
  unfolding fresh_def
proof (intro conjI ballI)
  show "b \<le> l" using freshD(3) [OF D] freshD(3) [OF E] by simp
  fix a assume "a \<in> dom (D ++ E)"
  then have "a \<in> dom D \<or> a \<in> dom E" by auto
  then show "b \<le> a" "a < l"
    using freshD(1) [OF D, of a] freshD(2) [OF D, of a] freshD(1) [OF E, of a]
      freshD(2) [OF E, of a] freshD(3) [OF D] freshD(3) [OF E] by linarith+
qed

lemma restrict_map_UNIV [simp]: "m |` UNIV = m"
  by (simp add: restrict_map_def)

lemma map_le_disjoint_add: "dom D \<inter> dom m = {} \<Longrightarrow> m \<subseteq>\<^sub>m m ++ D"
  by (simp add: map_le_def map_add_dom_app_simps(3) disjoint_iff) (metis map_add_dom_app_simps(3))

lemma heap_grow_ok:
  assumes "heap_ok (hp w)" and "fresh D (brk (hp w)) k"
  shows "heap_ok (hp (heap_grow D k w))" "ext w (heap_grow D k w)" "dom D \<inter> dom (mem (hp w)) = {}"
proof -
  show d: "dom D \<inter> dom (mem (hp w)) = {}"
    by (rule fresh_disjoint [OF assms(2)]) (use assms(1) in \<open>simp add: heap_ok_def\<close>)
  have ok: "a < brk (hp w)" if "a \<in> dom (mem (hp w))" for a
    using assms(1) that by (simp add: heap_ok_def)
  have "a < k" if "a \<in> dom (mem (hp w) ++ D)" for a
  proof -
    have "a \<in> dom (mem (hp w)) \<or> a \<in> dom D" using that by auto
    then show ?thesis using freshD(2) [OF assms(2), of a] freshD(3) [OF assms(2)] ok by fastforce
  qed
  then show "heap_ok (hp (heap_grow D k w))" unfolding heap_ok_def heap_grow_simps by (intro ballI)
  show "ext w (heap_grow D k w)"
    using map_le_disjoint_add [OF d] freshD(3) [OF assms(2)] by (simp add: ext_def heap_grow_def)
qed

lemma releases_none: "releases S J Map.empty (go_ret ())"
  unfolding releases_def
proof (intro allI impI exI conjI)
  fix v :: "'m world"
  show "go_ret () v = (Ret (), heap_drop (dom Map.empty) [] v)"
    by (simp add: go_run heap_drop_def)
qed simp

lemma restrict_disjoint: "D \<subseteq>\<^sub>m m \<Longrightarrow> dom D \<inter> A = {} \<Longrightarrow> D \<subseteq>\<^sub>m m |` (- A)"
  by (auto simp: map_le_def restrict_map_def)

lemma releases_seq:
  fixes r :: "('m world, unit) go"
  assumes "releases S J D r" and "releases S J E r'" and "dom D \<inter> dom E = {}"
  shows "releases S J (D ++ E) (go_bind r (\<lambda>_. r'))"
  unfolding releases_def
proof (intro allI impI)
  fix v :: "'m world" assume le: "D ++ E \<subseteq>\<^sub>m mem (hp v)"
  have "D \<subseteq>\<^sub>m D ++ E" using assms(3) by (auto simp: map_le_def map_add_dom_app_simps(3) disjoint_iff)
  then have D: "D \<subseteq>\<^sub>m mem (hp v)" using le by (rule map_le_trans)
  have E: "E \<subseteq>\<^sub>m mem (hp v)" using map_le_map_add le by (rule map_le_trans)
  obtain fs where r: "r v = (Ret (), heap_drop (dom D) fs v)" and fs: "\<forall>y \<in> set fs. S J y"
    using assms(1) D by (auto simp: releases_def)
  have "E \<subseteq>\<^sub>m mem (hp (heap_drop (dom D) fs v))"
    using restrict_disjoint [OF E] assms(3) by (simp add: heap_drop_def Int_commute)
  then obtain gs where "r' (heap_drop (dom D) fs v) = (Ret (), heap_drop (dom E) gs (heap_drop (dom D) fs v))"
    "\<forall>y \<in> set gs. S J y"
    using assms(2) by (auto simp: releases_def)
  then have "go_bind r (\<lambda>_. r') v = (Ret (), heap_drop (dom (D ++ E)) (fs @ gs) v) \<and>
      (\<forall>y \<in> set (fs @ gs). S J y)"
    using r fs by (auto simp: go_run heap_drop_drop Un_commute)
  then show "\<exists>fs. go_bind r (\<lambda>_. r') v = (Ret (), heap_drop (dom (D ++ E)) fs v) \<and> (\<forall>y \<in> set fs. S J y)"
    by blast
qed

lemma releases_free:
  "S J (a, ob) \<Longrightarrow> releases S J [a \<mapsto> ob] (heap_op e (c_free (Ptr a)))"
  by (auto simp: releases_def heap_op_def heap_drop_def map_le_def restrict_map_def fun_eq_iff
      split: option.splits intro!: exI [of _ "[(a, ob)]"])

lemma allocatedI:
  "fresh D (brk (hp w)) k \<Longrightarrow> releases S (junk (hp w)) D r \<Longrightarrow> allocated S w (heap_grow D k w) r"
  by (auto simp: allocated_def)

lemma allocated_none: "allocated S w w (go_ret ())"
proof -
  have "allocated S w (heap_grow Map.empty (brk (hp w)) w) (go_ret ())"
    by (rule allocatedI) (simp_all add: fresh_def releases_none)
  then show ?thesis by (simp add: heap_grow_def)
qed

lemma allocated_seq:
  assumes "allocated S w w1 r1" and "allocated S w1 w2 r2"
  shows "allocated S w w2 (go_bind r1 (\<lambda>_. r2))" "allocated S w w2 (go_bind r2 (\<lambda>_. r1))"
proof -
  obtain D k where D: "fresh D (brk (hp w)) k" "w1 = heap_grow D k w" "releases S (junk (hp w)) D r1"
    using assms(1) by (auto simp: allocated_def)
  obtain E l where E: "fresh E k l" "w2 = heap_grow E l w1" "releases S (junk (hp w)) E r2"
    using assms(2) D(2) by (auto simp: allocated_def)
  have disj: "dom D \<inter> dom E = {}"
    by (rule fresh_disjoint(2) [OF E(1) freshD(2) [OF D(1)]])
  have f: "fresh (D ++ E) (brk (hp w)) l" by (rule fresh_seq [OF D(1) E(1)])
  have "w2 = heap_grow (D ++ E) l w" using D(2) E(2) by (simp add: heap_grow_grow)
  moreover have "E ++ D = D ++ E" using disj by (metis map_add_comm)
  ultimately show "allocated S w w2 (go_bind r1 (\<lambda>_. r2))" "allocated S w w2 (go_bind r2 (\<lambda>_. r1))"
    using allocatedI [OF f releases_seq [OF D(3) E(3) disj]]
      allocatedI [OF f, of S "go_bind r2 (\<lambda>_. r1)"] releases_seq [OF E(3) D(3)] disj
    by (simp_all add: Int_commute)
qed

text \<open>An allocation gives everything back after a body that did.\<close>

lemma allocated_frame:
  assumes "heap_ok (hp w)" and "allocated S w w1 r" and "frame S w1 v"
  shows "\<exists>v'. r v = (Ret (), v') \<and> frame S w v' \<and> silent v v'"
proof -
  obtain D k where D: "fresh D (brk (hp w)) k" "w1 = heap_grow D k w"
    and rel: "releases S (junk (hp w)) D r"
    using assms(2) by (auto simp: allocated_def)
  note g = heap_grow_ok [OF assms(1) D(1)]
  have m: "mem (hp v) = mem (hp w) ++ D" using assms(3) D(2) by (simp add: frame_def)
  obtain fs where r: "r v = (Ret (), heap_drop (dom D) fs v)" and fs: "\<forall>y \<in> set fs. S (junk (hp w)) y"
    using rel m map_le_map_add [of D "mem (hp w)"] unfolding releases_def by metis
  have "(mem (hp w) ++ D) |` (- dom D) = mem (hp w)"
  proof
    fix a show "((mem (hp w) ++ D) |` (- dom D)) a = mem (hp w) a"
      using g(3) by (cases "a \<in> dom D")
        (simp_all add: restrict_map_def map_add_dom_app_simps(3) disjoint_iff, metis domIff)
  qed
  moreover have "ext w v" using g(2) assms(3) D(2) ext_trans unfolding frame_def by blast
  ultimately have "frame S w (heap_drop (dom D) fs v)"
    using assms(3) D(2) m fs by (auto simp: frame_def ext_def heap_drop_def)
  moreover have "silent v (heap_drop (dom D) fs v)"
    by (simp add: silent_def heap_drop_def nview_def)
  ultimately show ?thesis using r by blast
qed

definition acquires ::
  "release_rule \<Rightarrow> ('m world \<Rightarrow> bool) \<Rightarrow> ('m world, 'x) go \<Rightarrow> ('x \<Rightarrow> ('m world, unit) go) \<Rightarrow>
     ('x \<Rightarrow> 'm world \<Rightarrow> bool) \<Rightarrow> bool" where
  "acquires S R m rel Q \<longleftrightarrow> (\<forall>w. heap_ok (hp w) \<longrightarrow> R w \<longrightarrow>
     (\<exists>x w'. m w = (Ret x, w') \<and> allocated S w w' (rel x) \<and> Q x w') \<or>
     (\<exists>e w'. m w = (Crash e, w') \<and> oom w))"

lemma acquiresE:
  assumes "acquires S R m rel Q" and "heap_ok (hp w)" and "R w"
  obtains x w' where "m w = (Ret x, w')" "allocated S w w' (rel x)" "Q x w'"
  | e w' where "m w = (Crash e, w')" "oom w"
  using assms unfolding acquires_def by blast

lemma allocated_ok:
  assumes "heap_ok (hp w)" and "allocated S w w' r"
  shows "heap_ok (hp w') \<and> ext w w' \<and> silent w w'"
proof -
  obtain D k where D: "fresh D (brk (hp w)) k" "w' = heap_grow D k w"
    using assms(2) by (auto simp: allocated_def)
  then show ?thesis using heap_grow_ok [OF assms(1) D(1)] by (simp add: silent_def)
qed

lemma scopedI:
  assumes "acquires S R m rel Q"
  shows "scoped S R m rel Q"
proof (unfold_locales, goal_cases)
  case (1 w)
  then show ?case using assms by (fastforce simp: wf_def acquires_def)
next
  case (2 w x w')
  then have h: "heap_ok (hp w)" by (simp add: wf_def)
  show ?case by (rule acquiresE [OF assms h 2(2)]) (use 2 allocated_ok [OF h] in auto)
next
  case (3 w x w' v)
  then have h: "heap_ok (hp w)" by (simp add: wf_def)
  show ?case by (rule acquiresE [OF assms h 3(2)]) (use 3 allocated_frame [OF h] in auto)
qed

section \<open>The helpers as resources\<close>

lemma cgo_malloc_run:
  "cgo_malloc n w = (let b = brk (hp w) in
     if grants (hp w) b n
     then (Ret (Ptr b), heap_grow [b \<mapsto> CBytes (map (junk (hp w) b) [0..<n])] (Suc b) w)
     else (Crash ''runtime: C malloc failed'', heap_grow Map.empty (Suc b) w))"
  by (simp add: cgo_malloc_def c_malloc_def Let_def heap_grow_def)

lemma cMalloc_run: "cMalloc n w = cgo_malloc n w"
  by (simp add: cMalloc_def cgo_malloc_run Let_def go_run)

lemma cgo_CBytes_run:
  "cgo_CBytes b w = (let a = brk (hp w) in
     if grants (hp w) a (length b) then (Ret (Ptr a), heap_grow [a \<mapsto> CBytes b] (Suc a) w)
     else (Crash ''runtime: C malloc failed'', heap_grow Map.empty (Suc a) w))"
  by (simp add: cgo_CBytes_def cgo_malloc_run Let_def go_run heap_op_def heap_grow_def)

lemma refused_oom: "\<not> grants (hp w) a n \<Longrightarrow> oom w"
  by (auto simp: oom_def)

lemma fresh_one: "fresh [b \<mapsto> x] b (Suc b)"
  by (simp add: fresh_def)

lemma allocated_one:
  "releases S (junk (hp w)) [brk (hp w) \<mapsto> ob] r \<Longrightarrow>
     allocated S w (heap_grow [brk (hp w) \<mapsto> ob] (Suc (brk (hp w))) w) r"
  by (rule allocatedI [OF fresh_one])

lemma releases_zfree:
  assumes "unat n \<le> length b" and "S J (a, CBytes (replicate (unat n) 0 @ drop (unat n) b))"
  shows "releases S J [a \<mapsto> CBytes b] (zfree (Ptr a) n)"
  unfolding releases_def
proof (intro allI impI exI conjI)
  fix v :: "'m world" assume le: "[a \<mapsto> CBytes b] \<subseteq>\<^sub>m mem (hp v)"
  then have "mem (hp v) a = Some (CBytes b)" by (auto simp: map_le_def)
  then show "zfree (Ptr a) n v =
      (Ret (), heap_drop (dom [a \<mapsto> CBytes b]) [(a, CBytes (replicate (unat n) 0 @ drop (unat n) b))] v)"
    using assms(1)
    by (auto simp: zfree_def go_run heap_op_def heap_drop_def restrict_map_def fun_eq_iff
        word_gt_0 unat_eq_0)
qed (use assms(2) in simp)

lemma releases_free_go:
  "S J (a, ob) \<Longrightarrow> releases S J [a \<mapsto> ob] (free (Ptr a))"
  using releases_free [of S J a ob] by (simp add: free_def)

text \<open>What a data argument reads as once it has been copied.\<close>

definition data_view :: "byte list \<Rightarrow> cview" where
  "data_view b = SIn (Some (take (unat (ulong_len b)) b)) (ulong_len b)"

definition bytes_view :: "byte list \<Rightarrow> cview" where
  "bytes_view b = (if b = [] then SIn None 0 else data_view b)"

lemma unat_ulong_len [simp]: "unat (ulong_len b) \<le> length b"
  by (simp add: ulong_len_def unat_of_nat)

lemma data_view_full: "length b < 2 ^ 64 \<Longrightarrow> data_view b = SIn (Some b) (of_nat (length b))"
  by (simp add: data_view_def ulong_len_def)

abbreviation sees_in :: "cview \<Rightarrow> ptr \<times> uint \<Rightarrow> 'm world \<Rightarrow> bool" where
  "sees_in v x w \<equiv> view_arg (hp w) (AIn (fst x) (snd x)) = Some v"

lemma released_scrubbed [simp]: "scrubbed J x \<Longrightarrow> released pub J x"
  by (simp add: released_def)

lemma released_public [simp]: "b \<in> pub \<Longrightarrow> released pub J (a, CBytes b)"
  by (auto simp: released_def)

lemma zeroed [simp]: "scrubbed J (a, CBytes (replicate n 0))"
  by (simp add: list_all_iff)

definition fits64 :: "'a list \<Rightarrow> bool" where
  "fits64 xs \<longleftrightarrow> length xs < 2 ^ 64"

lemma unat_ulong_len_eq [simp]: "fits64 xs \<Longrightarrow> unat (ulong_len xs) = length xs"
  by (simp add: ulong_len_def fits64_def)

lemma releases_zfree_copy:
  assumes "fits64 b"
  shows "releases (released pub) J [a \<mapsto> CBytes b] (zfree (Ptr a) (ulong_len b))"
  using releases_zfree [of "ulong_len b" b "released pub" J a] assms by (simp del: scrubbed.simps)

lemma cBytes_zfree:
  "acquires (released pub) (\<lambda>w. fits64 b) (cBytes b) (\<lambda>(p, n). zfree p n) (sees_in (bytes_view b))"
  unfolding acquires_def
proof (intro allI impI)
  fix w :: "'m world" assume "heap_ok (hp w)" and b: "fits64 b"
  show "(\<exists>x w'. cBytes b w = (Ret x, w') \<and>
      allocated (released pub) w w' (case x of (p, n) \<Rightarrow> zfree p n) \<and>
      sees_in (bytes_view b) x w') \<or> (\<exists>e w'. cBytes b w = (Crash e, w') \<and> oom w)"
  proof (cases "b = []")
    case True
    then show ?thesis using allocated_none [of _ w]
      by (simp add: cBytes_def go_run zfree_def bytes_view_def)
  next
    case False
    then show ?thesis
      using allocated_one [OF releases_zfree_copy [OF b]] refused_oom b
      by (auto simp: cBytes_def go_run cgo_CBytes_run Let_def bytes_view_def data_view_def)
  qed
qed

lemma cBytes_free:
  "acquires (released pub) (\<lambda>w. b \<in> pub) (cBytes b) (\<lambda>(p, n). free p) (sees_in (bytes_view b))"
  unfolding acquires_def
proof (intro allI impI)
  fix w :: "'m world" assume "b \<in> pub"
  then show "(\<exists>x w'. cBytes b w = (Ret x, w') \<and>
      allocated (released pub) w w' (case x of (p, n) \<Rightarrow> free p) \<and>
      sees_in (bytes_view b) x w') \<or> (\<exists>e w'. cBytes b w = (Crash e, w') \<and> oom w)"
    using allocated_none [of _ w] allocated_one [OF releases_free_go, of "released pub" w] refused_oom
    by (cases "b = []") (auto simp: cBytes_def free_def go_run cgo_CBytes_run Let_def bytes_view_def data_view_def)
qed

text \<open>\<open>cInput\<close> never passes \<open>NULL\<close>: an empty input is a one-byte block with length 0.\<close>

lemma cInput_run_empty:
  "cInput [] w = (let a = brk (hp w) in
     if grants (hp w) a 1 then (Ret (Ptr a, 0), heap_grow [a \<mapsto> CBytes [junk (hp w) a 0]] (Suc a) w)
     else (Crash ''runtime: C malloc failed'', heap_grow Map.empty (Suc a) w))"
  by (simp add: cInput_def go_run cMalloc_run cgo_malloc_run Let_def)

lemma cInput_zfree:
  "acquires (released pub) (\<lambda>w. fits64 b) (cInput b) (\<lambda>(p, n). zfree p n) (sees_in (data_view b))"
  unfolding acquires_def
proof (intro allI impI)
  fix w :: "'m world" assume "heap_ok (hp w)" and b: "fits64 b"
  show "(\<exists>x w'. cInput b w = (Ret x, w') \<and>
      allocated (released pub) w w' (case x of (p, n) \<Rightarrow> zfree p n) \<and>
      sees_in (data_view b) x w') \<or> (\<exists>e w'. cInput b w = (Crash e, w') \<and> oom w)"
  proof (cases "b = []")
    case True
    have "releases (released pub) (junk (hp w)) [brk (hp w) \<mapsto> CBytes [junk (hp w) (brk (hp w)) 0]]
        (zfree (Ptr (brk (hp w))) 0)"
      by (rule releases_zfree) simp_all
    from allocated_one [OF this] show ?thesis
      using True refused_oom by (auto simp: cInput_run_empty Let_def data_view_def ulong_len_def)
  next
    case False
    then show ?thesis
      using allocated_one [OF releases_zfree_copy [OF b]] refused_oom b
      by (auto simp: cInput_def go_run cgo_CBytes_run Let_def data_view_def)
  qed
qed

lemma allocated_free:
  "released pub (junk (hp w)) (brk (hp w), ob) \<Longrightarrow>
     allocated (released pub) w (heap_grow [brk (hp w) \<mapsto> ob] (Suc (brk (hp w))) w) (free (Ptr (brk (hp w))))"
  by (rule allocated_one [OF releases_free_go])

lemma cInput_free:
  "acquires (released pub) (\<lambda>w. b \<in> pub) (cInput b) (\<lambda>(p, n). free p) (sees_in (data_view b))"
  unfolding acquires_def
proof (intro allI impI)
  fix w :: "'m world" assume b: "b \<in> pub"
  note a = allocated_free [of pub w "CBytes b"] allocated_free [of pub w "CBytes [junk (hp w) (brk (hp w)) 0]"]
  show "(\<exists>x w'. cInput b w = (Ret x, w') \<and>
      allocated (released pub) w w' (case x of (p, n) \<Rightarrow> free p) \<and>
      sees_in (data_view b) x w') \<or> (\<exists>e w'. cInput b w = (Crash e, w') \<and> oom w)"
  proof (cases "b = []")
    case True
    then show ?thesis using a(2) refused_oom
      by (auto simp: cInput_run_empty Let_def data_view_def ulong_len_def)
  next
    case False
    then show ?thesis using a(1) b refused_oom
      by (auto simp: cInput_def go_run cgo_CBytes_run Let_def data_view_def)
  qed
qed

interpretation cBytes: scoped "released pub" "\<lambda>w. fits64 b" "cBytes b" "\<lambda>(p, n). zfree p n"
    "sees_in (bytes_view b)" for pub b
  by (rule scopedI [OF cBytes_zfree])

interpretation cInput: scoped "released pub" "\<lambda>w. fits64 b" "cInput b" "\<lambda>(p, n). zfree p n"
    "sees_in (data_view b)" for pub b
  by (rule scopedI [OF cInput_zfree])

interpretation cInput_plain: scoped "released pub" "\<lambda>w. b \<in> pub" "cInput b" "\<lambda>(p, n). free p"
    "sees_in (data_view b)" for pub b
  by (rule scopedI [OF cInput_free])

section \<open>Attribute arrays\<close>

text \<open>A structure whose fields point at blocks of their own: allocate, fill in, release in reverse.\<close>

lemma map_add_upd_swap: "a \<notin> dom D \<Longrightarrow> ((m(a \<mapsto> x)) ++ D)(a \<mapsto> y) = (m(a \<mapsto> y)) ++ D"
  by (rule ext) (auto simp: map_add_def domIff split: option.splits)

lemma allocated_struct:
  fixes r :: "('m world, unit) go"
  assumes "w1 = heap_grow [a \<mapsto> x] (Suc a) w" and "a = brk (hp w)"
    and "allocated S w1 w2 r" and "csizeof x = csizeof ob" and "S (junk (hp w)) (a, ob)"
  shows "\<exists>w3. heap_op e (c_store (Ptr a) ob) w2 = (Ret (), w3) \<and> nview w3 = nview w2 \<and>
    mem (hp w3) = (mem (hp w2))(a \<mapsto> ob) \<and>
    allocated S w w3 (go_bind r (\<lambda>_. heap_op e' (c_free (Ptr a))))"
proof -
  obtain D k where D: "fresh D (Suc a) k" "w2 = heap_grow D k w1" "releases S (junk (hp w)) D r"
    using assms(1,3) by (auto simp: allocated_def)
  have a: "a \<notin> dom D" using freshD(1) [OF D(1), of a] by auto
  let ?w1 = "heap_grow [a \<mapsto> ob] (Suc a) w"
  have "mem (hp w2) a = Some x" using D(2) assms(1) a by (simp add: map_add_dom_app_simps(3))
  then have st: "heap_op e (c_store (Ptr a) ob) w2 = (Ret (), w2\<lparr>hp := (hp w2)\<lparr>mem := (mem (hp w2))(a \<mapsto> ob)\<rparr>\<rparr>)"
    using assms(4) by (simp add: heap_op_def)
  have w3: "w2\<lparr>hp := (hp w2)\<lparr>mem := (mem (hp w2))(a \<mapsto> ob)\<rparr>\<rparr> = heap_grow D k ?w1"
    using D(2) assms(1) a by (simp add: heap_grow_def map_add_upd_swap)
  have "allocated S w ?w1 (heap_op e' (c_free (Ptr a)))"
    using allocated_one [OF releases_free, where S = S and w = w and ob = ob] assms(2,5) by simp
  moreover have "allocated S ?w1 (heap_grow D k ?w1) r"
    using D by (intro allocatedI) simp_all
  ultimately have "allocated S w (heap_grow D k ?w1) (go_bind r (\<lambda>_. heap_op e' (c_free (Ptr a))))"
    by (rule allocated_seq(2))
  then show ?thesis unfolding st w3 using D(2) assms(1) a w3 [symmetric]
    by (intro exI conjI) (rule refl, simp_all add: nview_def)
qed

text \<open>A pointer to a block allocated at or after \<open>b\<close>, or \<open>NULL\<close>; what it reads is unaffected
  by older blocks.\<close>

fun above :: "nat \<Rightarrow> ptr \<Rightarrow> bool" where
  "above b Null \<longleftrightarrow> True"
| "above b (Ptr a) \<longleftrightarrow> b \<le> a"

lemma cBytes_above: "cBytes b w = (Ret (p, n), w') \<Longrightarrow> above (brk (hp w)) p"
  by (auto simp: cBytes_def go_run cgo_CBytes_run Let_def split: if_splits)

lemma above_mono: "above b p \<Longrightarrow> c \<le> b \<Longrightarrow> above c p"
  by (cases p) auto

lemma view_attr_upd:
  "above (Suc a) (pValue x) \<Longrightarrow> view_attr (h\<lparr>mem := (mem h)(a \<mapsto> ob)\<rparr>) x = view_attr h x"
  by (cases "pValue x") (auto simp: view_attr_def)

lemma view_attrs_upd:
  assumes "list_all (\<lambda>x. above (Suc a) (pValue x)) xs"
  shows "map (view_attr (h\<lparr>mem := (mem h)(a \<mapsto> ob)\<rparr>)) xs = map (view_attr h) xs"
  using assms by (induction xs) (simp_all add: view_attr_upd)

lemma view_attr_mem: "mem h = mem h' \<Longrightarrow> view_attr h = view_attr h'"
proof
  fix a assume m: "mem h = mem h'"
  show "view_attr h a = view_attr h' a" using m by (cases "pValue a") (simp_all add: view_attr_def)
qed

definition attr_view_of :: "Attribute \<Rightarrow> attr_view" where
  "attr_view_of a = (Type a, case Value a of None \<Rightarrow> None | Some v \<Rightarrow> if v = [] then None else Some v)"

definition tmpl_view :: "Attribute list \<Rightarrow> cview" where
  "tmpl_view as = STmpl (if as = [] then None else Some (map attr_view_of as))"

text \<open>A template the code accepts: no \<open>nil\<close> element, and not too many.\<close>

definition attr_ok :: "Attribute \<Rightarrow> bool" where
  "attr_ok a \<longleftrightarrow> (case Value a of None \<Rightarrow> True | Some v \<Rightarrow> fits64 v)"

definition tmpl_ok :: "Attribute list \<Rightarrow> bool" where
  "tmpl_ok as \<longleftrightarrow> list_all attr_ok as \<and> cAttributesFits (int (length as)) 24"

lemma zfree_Null [simp]: "zfree Null n = go_ret ()"
  by (simp add: zfree_def)

lemma zfree_all_Nil [simp]: "zfree_all [] = go_ret ()"
  by (simp add: zfree_all_def)

lemma zfree_all_Cons: "zfree_all ((p, n) # vs) = go_bind (zfree p n) (\<lambda>_. zfree_all vs)"
  by (simp add: zfree_all_def)

lemma cAttributes_loop_run:
  fixes w :: "'m world"
  assumes "list_all attr_ok as" and "heap_ok (hp w)"
  shows "(\<exists>list vals w'. cAttributes_loop (map Some as) w = (Ret (list, vals), w') \<and>
      allocated (released pub) w w' (zfree_all vals) \<and> length list = length as \<and>
      list_all (\<lambda>x. above (brk (hp w)) (pValue x)) list \<and>
      those (map (view_attr (hp w')) list) = Some (map attr_view_of as)) \<or>
    (\<exists>e w'. cAttributes_loop (map Some as) w = (Crash e, w') \<and> oom w)"
  using assms
proof (induction as arbitrary: w)
  case Nil
  then show ?case by (simp add: go_run allocated_none)
next
  case (Cons a as)
  let ?v = "case Value a of None \<Rightarrow> [] | Some v \<Rightarrow> v"
  have v: "fits64 ?v" using Cons.prems(1) by (auto simp: attr_ok_def fits64_def split: option.splits)
  show ?case
  proof (rule acquiresE [OF cBytes_zfree Cons.prems(2) v])
    fix x w1
    assume m: "cBytes ?v w = (Ret x, w1)"
      and al: "allocated (released pub) w w1 (case x of (p, n) \<Rightarrow> zfree p n)"
      and see: "sees_in (bytes_view ?v) x w1"
    obtain p n where x: "x = (p, n)" by (cases x)
    have ok1: "heap_ok (hp w1)" "ext w w1" using allocated_ok [OF Cons.prems(2) al] by simp_all
    have "view_attr (hp w1) \<lparr>atype = Type a, pValue = p, ulValueLen = n\<rparr> = Some (attr_view_of a)"
      using see x v by (auto simp: view_attr_def attr_view_of_def bytes_view_def data_view_def
        bind_eq_Some_conv split: option.splits if_splits)
    note head = view_attr_mono [OF _ this]
    have "list_all attr_ok as" using Cons.prems(1) by simp
    from Cons.IH [OF this ok1(1)] show ?thesis
    proof (elim disjE exE conjE)
      fix list vals w2
      assume l: "cAttributes_loop (map Some as) w1 = (Ret (list, vals), w2)"
        and al2: "allocated (released pub) w1 w2 (zfree_all vals)"
        and len: "length list = length as"
        and ab: "list_all (\<lambda>x. above (brk (hp w1)) (pValue x)) list"
        and tl: "those (map (view_attr (hp w2)) list) = Some (map attr_view_of as)"
      have "mem (hp w1) \<subseteq>\<^sub>m mem (hp w2)" using allocated_ok [OF ok1(1) al2] by (simp add: ext_def)
      note hd = head [OF this]
      have "allocated (released pub) w w2 (zfree_all (if p \<noteq> Null then (p, n) # vals else vals))"
        using allocated_seq(1) [OF al al2] x by (cases "p = Null") (simp_all add: zfree_all_Cons)
      moreover have "list_all (\<lambda>x. above (brk (hp w)) (pValue x)) list"
        using ab ok1(2) by (auto simp: list_all_iff ext_def intro: above_mono)
      ultimately show ?thesis using m x l len tl hd cBytes_above [of ?v w p n w1] by (simp add: go_run)
    next
      fix e w2 assume "cAttributes_loop (map Some as) w1 = (Crash e, w2)" "oom w1"
      then show ?thesis using m x ext_oom [OF ok1(2)] by (simp add: go_run)
    qed
  qed (simp add: go_run)
qed

lemma cAttributes_acquires:
  "acquires (released pub) (\<lambda>w. tmpl_ok as) (cAttributes (map Some as)) (\<lambda>(p, n, fr). fr)
     (\<lambda>(p, n, fr) w. view_arg (hp w) (ATmpl p n) = Some (tmpl_view as))"
  unfolding acquires_def
proof (intro allI impI)
  fix w :: "'m world" assume h: "heap_ok (hp w)" and t: "tmpl_ok as"
  let ?a = "brk (hp w)" and ?n = "length as * 24"
  let ?w1 = "heap_grow [?a \<mapsto> CBytes (map (junk (hp w) ?a) [0..<?n])] (Suc ?a) w"
  show "(\<exists>x w'. cAttributes (map Some as) w = (Ret x, w') \<and>
      allocated (released pub) w w' (case x of (p, n, fr) \<Rightarrow> fr) \<and>
      (case x of (p, n, fr) \<Rightarrow> \<lambda>w. view_arg (hp w) (ATmpl p n) = Some (tmpl_view as)) w') \<or>
    (\<exists>e w'. cAttributes (map Some as) w = (Crash e, w') \<and> oom w)"
  proof (cases "as = [] \<or> \<not> grants (hp w) ?a ?n")
    case True
    then show ?thesis using t allocated_none [of _ w] refused_oom
      by (auto simp: cAttributes_def go_run tmpl_view_def tmpl_ok_def cMalloc_run cgo_malloc_run Let_def)
  next
    case False
    then have ne: "as \<noteq> []" and g: "grants (hp w) ?a ?n" by simp_all
    have h1: "heap_ok (hp ?w1)" by (rule heap_grow_ok [OF h fresh_one])
    have m1: "cMalloc ?n w = (Ret (Ptr ?a), ?w1)" using g by (simp add: cMalloc_run cgo_malloc_run Let_def)
    have "list_all attr_ok as" using t by (simp add: tmpl_ok_def)
    from cAttributes_loop_run [OF this h1, of pub] show ?thesis
    proof (elim disjE exE conjE)
      fix list vals w2
      assume l: "cAttributes_loop (map Some as) ?w1 = (Ret (list, vals), w2)"
        and al: "allocated (released pub) ?w1 w2 (zfree_all vals)"
        and len: "length list = length as"
        and ab: "list_all (\<lambda>x. above (brk (hp ?w1)) (pValue x)) list"
        and vs: "those (map (view_attr (hp w2)) list) = Some (map attr_view_of as)"
      have sc: "released pub (junk (hp w)) (?a, CAttrs list)" by simp
      have sz: "csizeof (CBytes (map (junk (hp w) ?a) [0..<?n])) = csizeof (CAttrs list)"
        using len by simp
      from allocated_struct [OF refl refl al sz sc, of "''store''" "''free''"] obtain w3
        where st: "heap_op ''store'' (c_store (Ptr ?a) (CAttrs list)) w2 = (Ret (), w3)"
          and m3: "mem (hp w3) = (mem (hp w2))(?a \<mapsto> CAttrs list)"
          and al3: "allocated (released pub) w w3 (go_bind (zfree_all vals) (\<lambda>_. heap_op ''free'' (c_free (Ptr ?a))))"
        by blast
      let ?h = "(hp w2)\<lparr>mem := (mem (hp w2))(?a \<mapsto> CAttrs list)\<rparr>"
      have "view_attr (hp w3) = view_attr ?h" by (rule view_attr_mem) (simp add: m3)
      moreover have "map (view_attr ?h) list = map (view_attr (hp w2)) list"
        by (rule view_attrs_upd) (use ab in simp)
      ultimately have "those (map (view_attr (hp w3)) list) = Some (map attr_view_of as)"
        using vs by metis
      moreover have small: "length as < 2 ^ 64"
        using t by (simp add: tmpl_ok_def cAttributesFits_def maxOutBuf_def)
      ultimately have "view_arg (hp w3) (ATmpl (Ptr ?a) (of_nat (length as))) = Some (tmpl_view as)"
        using m3 len ne small by (simp add: tmpl_view_def)
      then show ?thesis using m1 l st al3 ne t by (simp add: cAttributes_def go_run tmpl_ok_def Let_def)
    qed (use m1 ne t in \<open>simp add: cAttributes_def go_run tmpl_ok_def Let_def\<close>)
  qed
qed

interpretation cAttributes: scoped "released pub" "\<lambda>w. tmpl_ok as" "cAttributes (map Some as)"
    "\<lambda>(p, n, fr). fr" "\<lambda>(p, n, fr) w. view_arg (hp w) (ATmpl p n) = Some (tmpl_view as)" for pub as
  by (rule scopedI [OF cAttributes_acquires])

section \<open>The two-pass protocol\<close>

text \<open>
  \<open>outOp\<close> without memory.  A callback is a protocol from "is there a buffer" and the capacity to
  the return value, the length left behind and the bytes written; where a module claims more bytes
  than it wrote, the rest of the result is whatever was in the buffer.
\<close>

type_synonym 'm abs_out = "bool \<Rightarrow> uint \<Rightarrow> ('m, uint \<times> uint \<times> byte list) protocol"

definition abs_bytes :: "uint \<Rightarrow> byte list \<Rightarrow> ('m, goerror + byte list) protocol" where
  "abs_bytes n bs s = {(Inr x, s) |x. length x = unat n \<and> take (length bs) x = take (unat n) bs}"

primrec abs_outOp_loop :: "nat \<Rightarrow> 'm abs_out \<Rightarrow> uint \<Rightarrow> ('m, goerror + byte list) protocol" where
  "abs_outOp_loop 0 ac n = abs_ret (Inl err_retries)"
| "abs_outOp_loop (Suc k) ac n =
     (if unat n > maxOutBuf then abs_ret (Inl (err_limit n))
      else abs_bind (ac True n) (\<lambda>(rv, n', bs).
        if rv = CKR_BUFFER_TOO_SMALL then
          (if unat n' > maxOutBuf then abs_ret (Inl (err_limit n')) else abs_outOp_loop k ac n')
        else (case toError rv of
            Some err \<Rightarrow> abs_ret (Inl err)
          | None \<Rightarrow> if n' > alloc_cap n then abs_ret (Inl (err_alloc n' (alloc_cap n)))
                    else abs_bytes n' bs)))"

definition abs_outOp :: "'m abs_out \<Rightarrow> ('m, goerror + byte list) protocol" where
  "abs_outOp ac = abs_bind (ac False 0) (\<lambda>(rv, n, bs). case toError rv of
      Some err \<Rightarrow> abs_ret (Inl err)
    | None \<Rightarrow> abs_outOp_loop maxRetries ac n)"

text \<open>A callback keeps to its buffer: it changes the bytes of that block and nothing else.\<close>

definition out_refines ::
  "release_rule \<Rightarrow> ('m world \<Rightarrow> bool) \<Rightarrow> 'm out_call \<Rightarrow> 'm abs_out \<Rightarrow> bool" where
  "out_refines S P call ac \<longleftrightarrow>
     (\<forall>w. wf w \<longrightarrow> P w \<longrightarrow> (\<exists>rv n w'. call Null 0 w = (Ret (rv, n), w') \<and> frame S w w' \<and>
        ((rv, n, []), nview w') \<in> ac False 0 (nview w))) \<and>
     (\<forall>w a b n. wf w \<longrightarrow> P w \<longrightarrow> mem (hp w) a = Some (CBytes b) \<longrightarrow> unat n \<le> length b \<longrightarrow>
        (\<exists>rv n' bs w'. call (Ptr a) n w = (Ret (rv, n'), w') \<and> length bs \<le> unat n \<and>
           mem (hp w') = (mem (hp w))(a \<mapsto> CBytes (bs @ drop (length bs) b)) \<and>
           frame S w (w'\<lparr>hp := (hp w')\<lparr>mem := mem (hp w)\<rparr>\<rparr>) \<and>
           ((rv, n', bs), nview w') \<in> ac True n (nview w)))"

lemma out_refines_sizing:
  assumes "out_refines S P call ac" and "wf w" and "P w"
  obtains rv n w' where "call Null 0 w = (Ret (rv, n), w')" "frame S w w'"
    "((rv, n, []), nview w') \<in> ac False 0 (nview w)"
  using assms unfolding out_refines_def by blast

lemma out_refines_data:
  assumes "out_refines S P call ac" and "wf w" and "P w"
    and "mem (hp w) a = Some (CBytes b)" and "unat n \<le> length b"
  obtains rv n' bs w' where "call (Ptr a) n w = (Ret (rv, n'), w')" "length bs \<le> unat n"
    "mem (hp w') = (mem (hp w))(a \<mapsto> CBytes (bs @ drop (length bs) b))"
    "frame S w (w'\<lparr>hp := (hp w')\<lparr>mem := mem (hp w)\<rparr>\<rparr>)"
    "((rv, n', bs), nview w') \<in> ac True n (nview w)"
proof -
  have "\<exists>rv n' bs w'. call (Ptr a) n w = (Ret (rv, n'), w') \<and> length bs \<le> unat n \<and>
           mem (hp w') = (mem (hp w))(a \<mapsto> CBytes (bs @ drop (length bs) b)) \<and>
           frame S w (w'\<lparr>hp := (hp w')\<lparr>mem := mem (hp w)\<rparr>\<rparr>) \<and>
           ((rv, n', bs), nview w') \<in> ac True n (nview w)"
    using assms unfolding out_refines_def by blast
  then show thesis using that by blast
qed

lemma c_int_small: "unat n < 2 ^ 31 \<Longrightarrow> c_int n = int (unat n)"
proof -
  assume n: "unat n < 2 ^ 31"
  have "sint (ucast n :: 32 word) = signed_take_bit 31 (uint (ucast n :: 32 word))"
    by (simp only: sint_uint) simp
  also have "\<dots> = signed_take_bit 31 (int (unat n))"
    by (simp add: unsigned_ucast_eq signed_take_bit_take_bit)
  also have "\<dots> = int (unat n)"
  proof (rule signed_take_bit_int_eq_self)
    have "int (unat n) < int (2 ^ 31)" using n by (simp only: of_nat_less_iff)
    then show "int (unat n) < 2 ^ 31" by simp
    show "- (2 ^ 31) \<le> int (unat n)" by (rule order_trans [of _ 0]) simp_all
  qed
  finally show ?thesis by (simp add: c_int_def)
qed

lemma frame_regrow:
  assumes "frame S (heap_grow [a \<mapsto> x] k w) (v\<lparr>hp := (hp v)\<lparr>mem := mem (hp (heap_grow [a \<mapsto> x] k w))\<rparr>\<rparr>)"
    and "mem (hp v) = (mem (hp (heap_grow [a \<mapsto> x] k w)))(a \<mapsto> y)"
  shows "frame S (heap_grow [a \<mapsto> y] k w) v"
  using assms by (simp add: frame_def ext_def heap_grow_def)

text \<open>One data pass: the callback runs in a fresh buffer, which is then scrubbed and released.\<close>

lemma data_pass:
  fixes w :: "'m world"
  assumes call: "out_refines (released pub) P call ac" and P: "stable P"
    and w: "wf w" "P w" and cap: "cap = alloc_cap n" and n: "unat n \<le> maxOutBuf"
  shows "(\<exists>a w1 rv n' bs w2 w3. cMalloc (unat cap) w = (Ret (Ptr a), w1) \<and>
      call (Ptr a) n w1 = (Ret (rv, n'), w2) \<and> zfree (Ptr a) cap w2 = (Ret (), w3) \<and>
      frame (released pub) w w3 \<and> ((rv, n', bs), nview w3) \<in> ac True n (nview w) \<and>
      (\<forall>l. unat l \<le> unat cap \<longrightarrow> (\<exists>x. cgo_GoBytes (Ptr a) (c_int l) w2 = (Ret x, w2) \<and>
         length x = unat l \<and> take (length bs) x = take (unat l) bs))) \<or>
    (\<exists>e w1. cMalloc (unat cap) w = (Crash e, w1) \<and> oom w)"
proof (cases "grants (hp w) (brk (hp w)) (unat cap)")
  case False
  then show ?thesis using refused_oom by (auto simp: cMalloc_run cgo_malloc_run Let_def)
next
  case True
  let ?a = "brk (hp w)" and ?S = "released pub"
  let ?b = "map (junk (hp w) ?a) [0..<unat cap]"
  let ?w1 = "heap_grow [?a \<mapsto> CBytes ?b] (Suc ?a) w"
  have h: "heap_ok (hp w)" using w(1) by (simp add: wf_def)
  have m: "cMalloc (unat cap) w = (Ret (Ptr ?a), ?w1)"
    using True by (simp add: cMalloc_run cgo_malloc_run Let_def)
  note g = heap_grow_ok [OF h fresh_one, of "CBytes ?b"]
  have w1: "wf ?w1" "P ?w1"
    using g w by (auto intro: ext_wf stableD [OF P])
  have cl: "unat n \<le> length ?b" using cap by (simp add: alloc_cap_def)
  have ma: "mem (hp ?w1) ?a = Some (CBytes ?b)" by simp
  obtain rv n' bs w2 where c: "call (Ptr ?a) n ?w1 = (Ret (rv, n'), w2)" "length bs \<le> unat n"
    "mem (hp w2) = (mem (hp ?w1))(?a \<mapsto> CBytes (bs @ drop (length bs) ?b))"
    "frame ?S ?w1 (w2\<lparr>hp := (hp w2)\<lparr>mem := mem (hp ?w1)\<rparr>\<rparr>)"
    "((rv, n', bs), nview w2) \<in> ac True n (nview ?w1)"
    by (rule out_refines_data [OF call w1 ma cl])
  let ?y = "bs @ drop (length bs) ?b"
  have ly: "length ?y = unat cap" using c(2) cl by simp
  have rel: "releases ?S (junk (hp w)) [?a \<mapsto> CBytes ?y] (zfree (Ptr ?a) cap)"
    by (rule releases_zfree) (use ly in \<open>simp_all del: scrubbed.simps\<close>)
  obtain w3 where z: "zfree (Ptr ?a) cap w2 = (Ret (), w3)" "frame ?S w w3" "nview w3 = nview w2"
    using allocated_frame [OF h allocated_one [OF rel] frame_regrow [OF c(4,3)]]
    by (auto simp: silent_def)
  have "\<exists>x. cgo_GoBytes (Ptr ?a) (c_int l) w2 = (Ret x, w2) \<and>
      length x = unat l \<and> take (length bs) x = take (unat l) bs" if le: "unat l \<le> unat cap" for l
  proof (intro exI conjI)
    have "unat cap < 2 ^ 31" using cap n by (simp add: maxOutBuf_def alloc_cap_def)
    then have "c_int l = int (unat l)" using le by (intro c_int_small) simp
    then show "cgo_GoBytes (Ptr ?a) (c_int l) w2 = (Ret (take (unat l) ?y), w2)"
      using c(3) ly le by (simp add: cgo_GoBytes_def)
    show "length (take (unat l) ?y) = unat l" using ly le by simp
    show "take (length bs) (take (unat l) ?y) = take (unat l) bs" by (simp add: min_def)
  qed
  then show ?thesis using m c(1,5) z by auto
qed

text \<open>One turn of the loop on the facts of its data pass, in the code and in the protocol.\<close>

lemma outOp_turn:
  assumes "unat n \<le> maxOutBuf" and "cMalloc (unat (alloc_cap n)) w = (Ret (Ptr a), w1)" and "call (Ptr a) n w1 = (Ret (q, n'), w2)"
    and "zfree (Ptr a) (alloc_cap n) w2 = (Ret (), w3)"
  shows "outOp_loop (Suc k) call n w = (if q = CKR_BUFFER_TOO_SMALL
      then (if unat n' > maxOutBuf then go_ret (Inl (err_limit n')) else outOp_loop k call n') w3
      else case toError q of Some e \<Rightarrow> (Ret (Inl e), w3)
        | None \<Rightarrow> if n' > alloc_cap n \<or> unat n' > maxOutBuf then (Ret (Inl (err_alloc n' (alloc_cap n))), w3)
           else if n' = 0 then (Ret (Inr []), w3)
           else go_bind (cgo_GoBytes (Ptr a) (c_int n'))
             (\<lambda>out. go_bind (zfree (Ptr a) (alloc_cap n)) (\<lambda>_. go_ret (Inr out))) w2)"
  using assms by (cases "toError q") (simp_all add: go_run Let_def)

lemma abs_outOp_turn:
  assumes "unat n \<le> maxOutBuf" and "((q, n', bs), t) \<in> ac True n s"
    and "(x, s') \<in> (if q = CKR_BUFFER_TOO_SMALL then
        (if unat n' > maxOutBuf then abs_ret (Inl (err_limit n')) else abs_outOp_loop k ac n')
      else (case toError q of Some err \<Rightarrow> abs_ret (Inl err)
        | None \<Rightarrow> if n' > alloc_cap n then abs_ret (Inl (err_alloc n' (alloc_cap n))) else abs_bytes n' bs)) t"
  shows "(x, s') \<in> abs_outOp_loop (Suc k) ac n s"
  using assms by (simp add: not_less [symmetric] split del: if_split)
    (rule abs_bindI [where f = "ac True n" and s = s, OF assms(2)], simp)

lemma outOp_loop_refines:
  assumes call: "out_refines (released pub) P call ac" and P: "stable P"
  shows "refines (released pub) P (outOp_loop k call n) (abs_outOp_loop k ac n)"
proof (induction k arbitrary: n)
  case 0 then show ?case by (simp add: refines_ret)
next
  case (Suc k)
  let ?S = "released pub" and ?m = "outOp_loop (Suc k) call n" and ?cap = "alloc_cap n"
  show ?case
  proof (cases "unat n > maxOutBuf")
    case True then show ?thesis by (simp add: refines_ret)
  next
    case False
    then have n: "unat n \<le> maxOutBuf" by simp
    have cm: "unat ?cap \<le> maxOutBuf" using n by (simp add: maxOutBuf_def alloc_cap_def)
    show ?thesis
    proof (rule refinesI)
      fix w assume w: "wf w" "P w"
      from data_pass [OF call P w refl n]
      show "(\<exists>x w'. ?m w = (Ret x, w') \<and> frame ?S w w' \<and> (x, nview w') \<in> abs_outOp_loop (Suc k) ac n (nview w)) \<or>
        (\<exists>e w'. ?m w = (Crash e, w') \<and> oom w)"
      proof (elim disjE exE conjE)
        fix a w1 rv n' bs w2 w3
        assume m: "cMalloc (unat ?cap) w = (Ret (Ptr a), w1)" and c: "call (Ptr a) n w1 = (Ret (rv, n'), w2)"
          and z: "zfree (Ptr a) ?cap w2 = (Ret (), w3)" and f: "frame ?S w w3" and ac: "((rv, n', bs), nview w3) \<in> ac True n (nview w)"
          and gb: "\<forall>l. unat l \<le> unat ?cap \<longrightarrow> (\<exists>x. cgo_GoBytes (Ptr a) (c_int l) w2 = (Ret x, w2) \<and>
             length x = unat l \<and> take (length bs) x = take (unat l) bs)"
        note run = outOp_turn [where call = call and k = k, OF n m c z]
        note abs = abs_outOp_turn [where ac = ac and k = k, OF n ac]
        have w3: "wf w3" "P w3" using w f stableD [OF P] by (auto intro: frame_wf frame_ext)
        consider (retry) "rv = CKR_BUFFER_TOO_SMALL" "unat n' \<le> maxOutBuf"
          | (limit) "rv = CKR_BUFFER_TOO_SMALL" "unat n' > maxOutBuf"
          | (error) e where "rv \<noteq> CKR_BUFFER_TOO_SMALL" "toError rv = Some e"
          | (claim) "rv \<noteq> CKR_BUFFER_TOO_SMALL" "toError rv = None" "n' > ?cap"
          | (ok) "rv \<noteq> CKR_BUFFER_TOO_SMALL" "toError rv = None" "n' \<le> ?cap"
          by (cases "toError rv") fastforce+
        then show ?thesis
        proof cases
          case retry
          then have eq: "?m w = outOp_loop k call n' w3" using run by simp
          have in_abs: "(x, s') \<in> abs_outOp_loop k ac n' (nview w3) \<Longrightarrow> (x, s') \<in> abs_outOp_loop (Suc k) ac n (nview w)" for x s'
            by (rule abs) (use retry in simp)
          from refinesE [OF Suc.IH [of n'] w3] show ?thesis
            unfolding eq by cases (use in_abs frame_trans [OF f] frame_oom [OF f] in blast)+
        next
          case ok
          then have le: "unat n' \<le> unat ?cap" by (simp add: word_le_nat_alt)
          with gb obtain x where x: "cgo_GoBytes (Ptr a) (c_int n') w2 = (Ret x, w2)"
            "length x = unat n'" "take (length bs) x = take (unat n') bs" by blast
          have "?m w = (Ret (Inr x), w3)" using run ok le cm x z by (cases "n' = 0") (simp_all add: go_run)
          moreover have "(Inr x, nview w3) \<in> abs_outOp_loop (Suc k) ac n (nview w)"
            by (rule abs) (use ok x in \<open>auto simp: abs_bytes_def\<close>)
          ultimately show ?thesis using f by blast
        qed (use run f abs in \<open>auto simp: go_run\<close>)
      qed (use False in \<open>simp add: go_run Let_def\<close>)
    qed
  qed
qed

lemma outOp_refines:
  assumes call: "out_refines (released pub) P call ac" and P: "stable P"
  shows "refines (released pub) P (outOp call) (abs_outOp ac)"
proof (rule refinesI)
  fix w assume w: "wf w" "P w"
  obtain rv n w1 where c: "call Null 0 w = (Ret (rv, n), w1)" "frame (released pub) w w1"
    "((rv, n, []), nview w1) \<in> ac False 0 (nview w)"
    by (rule out_refines_sizing [OF call w])
  note bindI = abs_bindI [where f = "ac False 0" and s = "nview w", OF c(3)]
  have w1: "wf w1" "P w1" using w c(2) stableD [OF P] by (auto intro: frame_wf frame_ext)
  show "(\<exists>x w'. outOp call w = (Ret x, w') \<and> frame (released pub) w w' \<and>
      (x, nview w') \<in> abs_outOp ac (nview w)) \<or>
    (\<exists>e w'. outOp call w = (Crash e, w') \<and> oom w)"
  proof (cases "toError rv")
    case (Some e)
    then show ?thesis using c
      by (auto simp: outOp_def abs_outOp_def go_run intro!: bindI)
  next
    case None
    from refinesE [OF outOp_loop_refines [OF call P, of maxRetries n] w1] show ?thesis
      by cases (use None c frame_oom [OF c(2)] in
        \<open>auto simp: outOp_def abs_outOp_def go_run intro: frame_trans bindI\<close>)
  qed
qed

end
