(* ===== verification/Policy.thy ===== *)
theory Policy
  imports Marshal
begin

text \<open>
  \<^verbatim>\<open>cryptoki/policy.go\<close> with the constructors of \<^verbatim>\<open>cryptoki/types.go\<close> that consult it: which
  digests a structured parameter names, how a mechanism is checked before it is built and again
  when it is handed to the module, and the policy \<open>RejectWeakMechanisms\<close>.  A policy is a function
  from a mechanism type to an optional error; \<open>None\<close> is the \<open>nil\<close> policy.
\<close>

type_synonym mechanism_policy = "(uint \<Rightarrow> goerror option) option"

definition SetMechanismPolicy :: "mechanism_policy \<Rightarrow> ('m world, unit) go" where
  "SetMechanismPolicy p = go_modify (\<lambda>w. w\<lparr>policy := p\<rparr>)"

definition checkMechanism :: "mechanism_policy \<Rightarrow> uint \<Rightarrow> goerror option" where
  "checkMechanism p m = (case p of None \<Rightarrow> None | Some allow \<Rightarrow> allow m)"

definition mgfHash :: "(uint \<times> uint) list" where
  "mgfHash = [
   (CKG_MGF1_SHA1, CKM_SHA_1),
   (CKG_MGF1_SHA224, CKM_SHA224),
   (CKG_MGF1_SHA256, CKM_SHA256),
   (CKG_MGF1_SHA384, CKM_SHA384),
   (CKG_MGF1_SHA512, CKM_SHA512),
   (CKG_MGF1_SHA3_224, CKM_SHA3_224),
   (CKG_MGF1_SHA3_256, CKM_SHA3_256),
   (CKG_MGF1_SHA3_384, CKM_SHA3_384),
   (CKG_MGF1_SHA3_512, CKM_SHA3_512)]"

definition kdfHash :: "(uint \<times> uint) list" where
  "kdfHash = [
   (CKD_SHA1_KDF, CKM_SHA_1),
   (CKD_SHA1_KDF_ASN1, CKM_SHA_1),
   (CKD_SHA1_KDF_CONCATENATE, CKM_SHA_1),
   (CKD_SHA1_KDF_SP800, CKM_SHA_1),
   (CKD_SHA224_KDF, CKM_SHA224),
   (CKD_SHA224_KDF_SP800, CKM_SHA224),
   (CKD_SHA256_KDF, CKM_SHA256),
   (CKD_SHA256_KDF_SP800, CKM_SHA256),
   (CKD_SHA384_KDF, CKM_SHA384),
   (CKD_SHA384_KDF_SP800, CKM_SHA384),
   (CKD_SHA512_KDF, CKM_SHA512),
   (CKD_SHA512_KDF_SP800, CKM_SHA512),
   (CKD_SHA3_224_KDF, CKM_SHA3_224),
   (CKD_SHA3_224_KDF_SP800, CKM_SHA3_224),
   (CKD_SHA3_256_KDF, CKM_SHA3_256),
   (CKD_SHA3_256_KDF_SP800, CKM_SHA3_256),
   (CKD_SHA3_384_KDF, CKM_SHA3_384),
   (CKD_SHA3_384_KDF_SP800, CKM_SHA3_384),
   (CKD_SHA3_512_KDF, CKM_SHA3_512),
   (CKD_SHA3_512_KDF_SP800, CKM_SHA3_512)]"

definition weakMechanisms :: "(uint \<times> string) list" where
  "weakMechanisms = [
   (CKM_MD2, ''MD2''),
   (CKM_MD2_HMAC, ''MD2-HMAC''),
   (CKM_MD2_HMAC_GENERAL, ''MD2-HMAC-GENERAL''),
   (CKM_MD5, ''MD5''),
   (CKM_MD5_HMAC, ''MD5-HMAC''),
   (CKM_MD5_HMAC_GENERAL, ''MD5-HMAC-GENERAL''),
   (CKM_MD5_RSA_PKCS, ''MD5-RSA-PKCS''),
   (CKM_MD5_KEY_DERIVATION, ''MD5-KEY-DERIVATION''),
   (CKM_SHA_1, ''SHA-1''),
   (CKM_SHA_1_HMAC, ''SHA-1-HMAC''),
   (CKM_SHA_1_HMAC_GENERAL, ''SHA-1-HMAC-GENERAL''),
   (CKM_SHA1_RSA_PKCS, ''SHA1-RSA-PKCS''),
   (CKM_SHA1_RSA_PKCS_PSS, ''SHA1-RSA-PKCS-PSS''),
   (CKM_SHA1_RSA_X9_31, ''SHA1-RSA-X9.31''),
   (CKM_DSA_SHA1, ''DSA-SHA1''),
   (CKM_ECDSA_SHA1, ''ECDSA-SHA1''),
   (CKM_SHA1_KEY_DERIVATION, ''SHA1-KEY-DERIVATION''),
   (CKM_DES_KEY_GEN, ''DES-KEY-GEN''),
   (CKM_DES_ECB, ''DES-ECB''),
   (CKM_DES_CBC, ''DES-CBC''),
   (CKM_DES_MAC, ''DES-MAC''),
   (CKM_DES_MAC_GENERAL, ''DES-MAC-GENERAL''),
   (CKM_DES_CBC_PAD, ''DES-CBC-PAD''),
   (CKM_DES2_KEY_GEN, ''DES2-KEY-GEN''),
   (CKM_RC2_KEY_GEN, ''RC2-KEY-GEN''),
   (CKM_RC2_ECB, ''RC2-ECB''),
   (CKM_RC2_CBC, ''RC2-CBC''),
   (CKM_RC2_MAC, ''RC2-MAC''),
   (CKM_RC2_MAC_GENERAL, ''RC2-MAC-GENERAL''),
   (CKM_RC4_KEY_GEN, ''RC4-KEY-GEN''),
   (CKM_RC4, ''RC4''),
   (CKM_SSL3_MD5_MAC, ''SSL3-MD5-MAC''),
   (CKM_SSL3_SHA1_MAC, ''SSL3-SHA1-MAC''),
   (CKM_PBE_MD2_DES_CBC, ''PBE-MD2-DES-CBC''),
   (CKM_PBE_MD5_DES_CBC, ''PBE-MD5-DES-CBC''),
   (CKM_PBE_SHA1_RC4_128, ''PBE-SHA1-RC4-128''),
   (CKM_PBE_SHA1_RC4_40, ''PBE-SHA1-RC4-40''),
   (CKM_PBE_SHA1_RC2_128_CBC, ''PBE-SHA1-RC2-128-CBC''),
   (CKM_PBE_SHA1_RC2_40_CBC, ''PBE-SHA1-RC2-40-CBC'')]"

definition withMGFHash :: "uint list \<Rightarrow> uint \<Rightarrow> uint list" where
  "withMGFHash hashes mgf = (case map_of mgfHash mgf of Some h \<Rightarrow> hashes @ [h] | None \<Rightarrow> hashes)"

text \<open>The optional method \<open>hashMechanisms\<close>; \<open>GCMParams\<close> does not have it.\<close>

fun hashMechanisms :: "MechanismParams \<Rightarrow> uint list option" where
  "hashMechanisms (GCMRef i) = None"
| "hashMechanisms (OAEP p) = Some (withMGFHash [oaep_hashAlg p] (oaep_mgf p))"
| "hashMechanisms (PSS p) = Some (withMGFHash [pss_hashAlg p] (pss_mgf p))"
| "hashMechanisms (ECDH1 p) =
     Some (case map_of kdfHash (ecdh_kdf p) of Some h \<Rightarrow> [h] | None \<Rightarrow> [])"

primrec firstError :: "mechanism_policy \<Rightarrow> uint list \<Rightarrow> goerror option" where
  "firstError pol [] = None"
| "firstError pol (h # hs) = (case checkMechanism pol h of Some err \<Rightarrow> Some err | None \<Rightarrow> firstError pol hs)"

definition checkMechanismUse :: "mechanism_policy \<Rightarrow> Mechanism \<Rightarrow> goerror option" where
  "checkMechanismUse pol m = (case checkMechanism pol (mechanism m) of
      Some err \<Rightarrow> Some err
    | None \<Rightarrow> (case params m of
          None \<Rightarrow> None
        | Some p \<Rightarrow> (case hashMechanisms p of None \<Rightarrow> None | Some hs \<Rightarrow> firstError pol hs)))"

definition RejectWeakMechanisms :: "uint \<Rightarrow> goerror option" where
  "RejectWeakMechanisms m = (case map_of weakMechanisms m of
      Some name \<Rightarrow> Some (Errf (''cryptoki: mechanism %#x ('' @ name @ '') is weak and rejected by policy'') [unat m])
    | None \<Rightarrow> None)"

definition NewMechanism :: "uint \<Rightarrow> byte list \<Rightarrow> ('m world, Mechanism) go" where
  "NewMechanism mech parameter = go_bind (go_gets policy) (\<lambda>pol.
     case checkMechanism pol mech of
       Some err \<Rightarrow> go_panic ''mechanism policy''
     | None \<Rightarrow> go_ret \<lparr>mechanism = mech, Parameter = parameter, params = None\<rparr>)"

definition NewMechanismWithParams :: "uint \<Rightarrow> MechanismParams \<Rightarrow> ('m world, Mechanism) go" where
  "NewMechanismWithParams mech p = (let m = \<lparr>mechanism = mech, Parameter = [], params = Some p\<rparr> in
     go_bind (go_gets policy) (\<lambda>pol. case checkMechanismUse pol m of
       Some err \<Rightarrow> go_panic ''mechanism policy''
     | None \<Rightarrow> go_ret m))"

section \<open>What a policy decides\<close>

text \<open>
  The digests the parameters of a mechanism name, as PKCS \#11 assigns them: a mask generation function
  \<open>CKG_MGF1_X\<close> and a key derivation function \<open>CKD_X_KDF\<close> use the hash function \<open>X\<close>.
\<close>

inductive mgf_uses :: "uint \<Rightarrow> uint \<Rightarrow> bool" where
  "mgf_uses CKG_MGF1_SHA1 CKM_SHA_1"
| "mgf_uses CKG_MGF1_SHA224 CKM_SHA224"
| "mgf_uses CKG_MGF1_SHA256 CKM_SHA256"
| "mgf_uses CKG_MGF1_SHA384 CKM_SHA384"
| "mgf_uses CKG_MGF1_SHA512 CKM_SHA512"
| "mgf_uses CKG_MGF1_SHA3_224 CKM_SHA3_224"
| "mgf_uses CKG_MGF1_SHA3_256 CKM_SHA3_256"
| "mgf_uses CKG_MGF1_SHA3_384 CKM_SHA3_384"
| "mgf_uses CKG_MGF1_SHA3_512 CKM_SHA3_512"

inductive kdf_uses :: "uint \<Rightarrow> uint \<Rightarrow> bool" where
  "k \<in> {CKD_SHA1_KDF, CKD_SHA1_KDF_ASN1, CKD_SHA1_KDF_CONCATENATE, CKD_SHA1_KDF_SP800} \<Longrightarrow> kdf_uses k CKM_SHA_1"
| "k \<in> {CKD_SHA224_KDF, CKD_SHA224_KDF_SP800} \<Longrightarrow> kdf_uses k CKM_SHA224"
| "k \<in> {CKD_SHA256_KDF, CKD_SHA256_KDF_SP800} \<Longrightarrow> kdf_uses k CKM_SHA256"
| "k \<in> {CKD_SHA384_KDF, CKD_SHA384_KDF_SP800} \<Longrightarrow> kdf_uses k CKM_SHA384"
| "k \<in> {CKD_SHA512_KDF, CKD_SHA512_KDF_SP800} \<Longrightarrow> kdf_uses k CKM_SHA512"
| "k \<in> {CKD_SHA3_224_KDF, CKD_SHA3_224_KDF_SP800} \<Longrightarrow> kdf_uses k CKM_SHA3_224"
| "k \<in> {CKD_SHA3_256_KDF, CKD_SHA3_256_KDF_SP800} \<Longrightarrow> kdf_uses k CKM_SHA3_256"
| "k \<in> {CKD_SHA3_384_KDF, CKD_SHA3_384_KDF_SP800} \<Longrightarrow> kdf_uses k CKM_SHA3_384"
| "k \<in> {CKD_SHA3_512_KDF, CKD_SHA3_512_KDF_SP800} \<Longrightarrow> kdf_uses k CKM_SHA3_512"

text \<open>The mechanism types a use of a mechanism involves: its own, the hash of OAEP and PSS, and the digests above.\<close>

inductive involved :: "Mechanism \<Rightarrow> uint \<Rightarrow> bool" for m where
  itself: "involved m (mechanism m)"
| oaep_hash: "params m = Some (OAEP p) \<Longrightarrow> involved m (oaep_hashAlg p)"
| oaep_mask: "params m = Some (OAEP p) \<Longrightarrow> mgf_uses (oaep_mgf p) h \<Longrightarrow> involved m h"
| pss_hash: "params m = Some (PSS p) \<Longrightarrow> involved m (pss_hashAlg p)"
| pss_mask: "params m = Some (PSS p) \<Longrightarrow> mgf_uses (pss_mgf p) h \<Longrightarrow> involved m h"
| ecdh_derivation: "params m = Some (ECDH1 p) \<Longrightarrow> kdf_uses (ecdh_kdf p) h \<Longrightarrow> involved m h"

text \<open>The two tables of the code are these assignments.\<close>

lemma mgfHash_uses: "map_of mgfHash g = Some h \<longleftrightarrow> mgf_uses g h"
  by (simp add: mgfHash_def mgf_uses.simps ck_consts)

lemma kdfHash_uses: "map_of kdfHash k = Some h \<longleftrightarrow> kdf_uses k h"
  by (simp add: kdfHash_def kdf_uses.simps ck_consts)

text \<open>The types the code asks the policy about, in its order.\<close>

definition consulted :: "Mechanism \<Rightarrow> uint list" where
  "consulted m = mechanism m # (case params m of None \<Rightarrow> [] | Some p \<Rightarrow>
     (case hashMechanisms p of None \<Rightarrow> [] | Some hs \<Rightarrow> hs))"

lemma firstError_None: "firstError pol hs = None \<longleftrightarrow> list_all (\<lambda>h. checkMechanism pol h = None) hs"
  by (induction hs) (auto split: option.splits)

lemma firstError_Some:
  "firstError pol hs = Some e \<Longrightarrow> \<exists>h \<in> set hs. checkMechanism pol h = Some e"
  by (induction hs) (auto split: option.splits)

lemma checkMechanismUse_firstError: "checkMechanismUse pol m = firstError pol (consulted m)"
  by (simp add: checkMechanismUse_def consulted_def split: option.splits)

lemma checkMechanismUse_nil [simp]: "checkMechanismUse None m = None"
  by (simp add: checkMechanismUse_firstError firstError_None checkMechanism_def list_all_iff)

lemma with_digest: "h \<in> set (withMGFHash hs g) \<longleftrightarrow> h \<in> set hs \<or> mgf_uses g h"
  by (auto simp: withMGFHash_def mgfHash_uses [symmetric] split: option.splits)

lemma consulted_involved: "h \<in> set (consulted m) \<longleftrightarrow> involved m h"
proof (cases "params m")
  case None
  then show ?thesis by (simp add: consulted_def involved.simps)
next
  case (Some q)
  then show ?thesis
    by (cases q) (auto simp: consulted_def involved.simps with_digest kdfHash_uses [symmetric] split: option.splits)
qed

text \<open>The two tables only name digests of the CKM_ number space.\<close>

lemma mgf_digests: "list_all (\<lambda>p. snd p \<in> set (map snd kdfHash)) mgfHash"
  by (simp add: mgfHash_def kdfHash_def)

end
