(* ===== verification/Params.thy ===== *)
theory Params
  imports Policy
begin

text \<open>
  \<^verbatim>\<open>cryptoki/params.go\<close> and \<open>cMechanism\<close> of \<^verbatim>\<open>cryptoki/marshal.go\<close>: the structured mechanism
  parameters.  A \<open>GCMParams\<close> is a Go object that owns three C blocks until its last user is done
  and \<open>Free\<close> has been called; its methods run under its mutex, so each is one step here.  The
  object is named by the number of its parameter block, which is never reused.  OAEP, PSS and
  ECDH1 parameters are built in C memory for one call.
\<close>

section \<open>AES-GCM\<close>

definition GCMParamsSize :: nat where "GCMParamsSize = 48"

definition gcm_tag_ok :: "int \<Rightarrow> bool" where
  "gcm_tag_ok tagBits \<longleftrightarrow> \<not> (tagBits \<le> 0 \<or> tagBits > 128 \<or> tagBits mod 8 \<noteq> 0)"

fun block_of :: "ptr \<Rightarrow> nat" where
  "block_of Null = 0"
| "block_of (Ptr a) = a"

definition new_gcm :: "ptr \<Rightarrow> ptr \<Rightarrow> ptr \<Rightarrow> ('m world, nat) go" where
  "new_gcm p ivPtr aadPtr = go_bind (go_modify (\<lambda>w. w\<lparr>gcms := (gcms w)(block_of p \<mapsto>
       \<lparr>gp = p, iv = ivPtr, aad = aadPtr, inUse = 0, freePending = False\<rparr>)\<rparr>))
     (\<lambda>_. go_ret (block_of p))"

definition NewGCMParams :: "byte list \<Rightarrow> byte list \<Rightarrow> int \<Rightarrow> ('m world, nat) go" where
  "NewGCMParams ivb aadb tagBits =
     (if \<not> gcm_tag_ok tagBits then go_panic ''cryptoki: NewGCMParams: tagBits must be byte-aligned in (0,128]''
      else go_bind (cMalloc 48) (\<lambda>p.
        go_bind (cBytes ivb) (\<lambda>(ivPtr, ivLen).
        go_bind (cBytes aadb) (\<lambda>(aadPtr, aadLen).
        go_bind (heap_op ''store'' (c_store p (CGcm \<lparr>pIv = ivPtr, ulIvLen = ivLen,
            ulIvBits = of_nat (length ivb * 8), pAAD = aadPtr, ulAADLen = aadLen,
            ulTagBits = of_int tagBits\<rparr>))) (\<lambda>_.
        new_gcm p ivPtr aadPtr)))))"

definition NewGCMParamsHSMIV :: "int \<Rightarrow> byte list \<Rightarrow> int \<Rightarrow> ('m world, nat) go" where
  "NewGCMParamsHSMIV ivLen aadb tagBits =
     (if \<not> gcm_tag_ok tagBits then go_panic ''cryptoki: NewGCMParamsHSMIV: tagBits must be byte-aligned in (0,128]''
      else if ivLen \<le> 0 then go_panic ''cryptoki: NewGCMParamsHSMIV: ivLen must be positive''
      else go_bind (cMalloc 48) (\<lambda>p.
        go_bind (cMalloc (nat ivLen)) (\<lambda>ivPtr.
        go_bind (heap_op ''memzero'' (c_memzero ivPtr (nat ivLen))) (\<lambda>_.
        go_bind (cBytes aadb) (\<lambda>(aadPtr, aadLen).
        go_bind (heap_op ''store'' (c_store p (CGcm \<lparr>pIv = ivPtr, ulIvLen = of_int ivLen,
            ulIvBits = of_int (ivLen * 8), pAAD = aadPtr, ulAADLen = aadLen,
            ulTagBits = of_int tagBits\<rparr>))) (\<lambda>_.
        new_gcm p ivPtr aadPtr))))))"

text \<open>The object behind a reference, and the C structure behind its pointer.\<close>

definition with_gcm :: "nat \<Rightarrow> (gcmobj \<Rightarrow> ('m world, 'a) go) \<Rightarrow> ('m world, 'a) go" where
  "with_gcm i k = (\<lambda>w. case gcms w i of
      None \<Rightarrow> (Panic ''nil pointer dereference'', w) | Some g \<Rightarrow> k g w)"

definition load_gcm :: "ptr \<Rightarrow> (ck_gcm \<Rightarrow> ('m world, 'a) go) \<Rightarrow> ('m world, 'a) go" where
  "load_gcm p k = (\<lambda>w. case c_load (hp w) p of
      Some (CGcm s) \<Rightarrow> k s w | _ \<Rightarrow> (Fault ''read'', w))"

definition upd_gcm :: "nat \<Rightarrow> (gcmobj \<Rightarrow> gcmobj) \<Rightarrow> ('m world, unit) go" where
  "upd_gcm i f = go_modify (\<lambda>w. w\<lparr>gcms := (gcms w)(i := map_option f (gcms w i))\<rparr>)"

definition freeLocked :: "nat \<Rightarrow> ('m world, unit) go" where
  "freeLocked i = with_gcm i (\<lambda>g.
     if gp g = Null then go_ret ()
     else load_gcm (gp g) (\<lambda>s.
       go_bind (zfree (iv g) (ulIvLen s)) (\<lambda>_.
       go_bind (upd_gcm i (\<lambda>g. g\<lparr>iv := Null\<rparr>)) (\<lambda>_.
       go_bind (zfree (aad g) (ulAADLen s)) (\<lambda>_.
       go_bind (upd_gcm i (\<lambda>g. g\<lparr>aad := Null\<rparr>)) (\<lambda>_.
       go_bind (heap_op ''free'' (c_free (gp g))) (\<lambda>_.
       upd_gcm i (\<lambda>g. g\<lparr>gp := Null, freePending := False\<rparr>))))))))"

text \<open>The function \<open>build\<close> returns: the build is done.\<close>

definition gcm_done :: "nat \<Rightarrow> ('m world, unit) go" where
  "gcm_done i = go_bind (upd_gcm i (\<lambda>g. g\<lparr>inUse := inUse g - 1\<rparr>)) (\<lambda>_.
     with_gcm i (\<lambda>g. if inUse g = 0 \<and> freePending g then freeLocked i else go_ret ()))"

definition gcm_build :: "nat \<Rightarrow> ('m world, ptr \<times> uint \<times> ('m world, unit) go) go" where
  "gcm_build i = with_gcm i (\<lambda>g.
     if gp g = Null then go_panic ''cryptoki: GCMParams.build called after Free''
     else go_bind (upd_gcm i (\<lambda>g. g\<lparr>inUse := inUse g + 1\<rparr>)) (\<lambda>_.
       go_ret (gp g, of_nat GCMParamsSize, gcm_done i)))"

definition gcm_IV :: "nat \<Rightarrow> ('m world, byte list) go" where
  "gcm_IV i = with_gcm i (\<lambda>g.
     if gp g = Null then go_ret []
     else load_gcm (gp g) (\<lambda>s.
       if pIv s = Null \<or> ulIvLen s = 0 then go_ret [] else cgo_GoBytes (pIv s) (c_int (ulIvLen s))))"

definition gcm_Free :: "nat \<Rightarrow> ('m world, unit) go" where
  "gcm_Free i = with_gcm i (\<lambda>g.
     if gp g = Null then go_ret ()
     else if inUse g > 0 then upd_gcm i (\<lambda>g. g\<lparr>freePending := True\<rparr>)
     else freeLocked i)"

section \<open>OAEP, PSS and ECDH1\<close>

definition NewOAEPParams :: "uint \<Rightarrow> uint \<Rightarrow> uint \<Rightarrow> byte list \<Rightarrow> MechanismParams" where
  "NewOAEPParams hashAlg mgf source sourceData =
     OAEP \<lparr>oaep_hashAlg = hashAlg, oaep_mgf = mgf, oaep_source = source, oaep_sourceData = sourceData\<rparr>"

definition NewPSSParams :: "uint \<Rightarrow> uint \<Rightarrow> int \<Rightarrow> MechanismParams outcome" where
  "NewPSSParams hashAlg mgf saltLen =
     (if saltLen < 0 then Panic ''cryptoki: NewPSSParams: saltLen must be non-negative''
      else Ret (PSS \<lparr>pss_hashAlg = hashAlg, pss_mgf = mgf, pss_saltLen = saltLen\<rparr>))"

definition NewECDH1DeriveParams :: "uint \<Rightarrow> byte list \<Rightarrow> byte list \<Rightarrow> MechanismParams" where
  "NewECDH1DeriveParams kdf sharedData publicData =
     ECDH1 \<lparr>ecdh_kdf = kdf, ecdh_sharedData = sharedData, ecdh_publicData = publicData\<rparr>"

definition oaep_build :: "oaepParams \<Rightarrow> ('m world, ptr \<times> uint \<times> ('m world, unit) go) go" where
  "oaep_build p = go_bind (cMalloc 40) (\<lambda>op.
     go_bind (cBytes (oaep_sourceData p)) (\<lambda>(src, srcLen).
     go_bind (heap_op ''store'' (c_store op
       (COaep (oaep_hashAlg p) (oaep_mgf p) (oaep_source p) src srcLen))) (\<lambda>_.
     go_ret (op, 40, go_bind (free src) (\<lambda>_. heap_op ''free'' (c_free op))))))"

definition pss_build :: "pssParams \<Rightarrow> ('m world, ptr \<times> uint \<times> ('m world, unit) go) go" where
  "pss_build p = go_bind (cMalloc 24) (\<lambda>pp.
     go_bind (heap_op ''store'' (c_store pp
       (CPss (pss_hashAlg p) (pss_mgf p) (of_int (pss_saltLen p))))) (\<lambda>_.
     go_ret (pp, 24, heap_op ''free'' (c_free pp))))"

definition ecdh1_build :: "ecdh1Params \<Rightarrow> ('m world, ptr \<times> uint \<times> ('m world, unit) go) go" where
  "ecdh1_build p = go_bind (cMalloc 40) (\<lambda>ep.
     go_bind (cBytes (ecdh_sharedData p)) (\<lambda>(shared, sharedLen).
     go_bind (cBytes (ecdh_publicData p)) (\<lambda>(public, publicLen).
     go_bind (heap_op ''store'' (c_store ep
       (CEcdh (ecdh_kdf p) shared sharedLen public publicLen))) (\<lambda>_.
     go_ret (ep, 40, go_bind (zfree shared sharedLen) (\<lambda>_.
       go_bind (free public) (\<lambda>_. heap_op ''free'' (c_free ep))))))))"

fun build :: "MechanismParams \<Rightarrow> ('m world, ptr \<times> uint \<times> ('m world, unit) go) go" where
  "build (GCMRef i) = gcm_build i"
| "build (OAEP p) = oaep_build p"
| "build (PSS p) = pss_build p"
| "build (ECDH1 p) = ecdh1_build p"

section \<open>Passing a mechanism\<close>

definition cMechanism ::
  "Mechanism option \<Rightarrow> ('m world, goerror + ptr \<times> ('m world, unit) go) go" where
  "cMechanism m = (case m of
      None \<Rightarrow> go_ret (Inr (Null, go_ret ()))
    | Some m \<Rightarrow> go_bind (go_gets policy) (\<lambda>pol. case checkMechanismUse pol m of
        Some err \<Rightarrow> go_ret (Inl err)
      | None \<Rightarrow> go_bind (cMalloc 24) (\<lambda>mech. case params m of
          Some p \<Rightarrow> go_bind (build p) (\<lambda>(p, plen, freeParam).
            go_bind (heap_op ''store'' (c_store mech (CMech (mechanism m) p plen))) (\<lambda>_.
            go_ret (Inr (mech, go_bind freeParam (\<lambda>_. heap_op ''free'' (c_free mech))))))
        | None \<Rightarrow> go_bind (cBytes (Parameter m)) (\<lambda>(param, plen).
            go_bind (heap_op ''store'' (c_store mech (CMech (mechanism m) param plen))) (\<lambda>_.
            go_ret (Inr (mech, go_bind (zfree param plen) (\<lambda>_. heap_op ''free'' (c_free mech)))))))))"

section \<open>Structures as resources\<close>

text \<open>
  \<open>seen k F w\<close>: the heap of \<open>w\<close>, and any heap that keeps its blocks from number \<open>k\<close> on,
  satisfies \<open>F\<close>.  It says that what has been built does not depend on older blocks, so that it
  survives the filling in of the structure around it.
\<close>

definition keeps :: "nat \<Rightarrow> heap \<Rightarrow> heap \<Rightarrow> bool" where
  "keeps k h h' \<longleftrightarrow> (\<forall>b x. k \<le> b \<longrightarrow> mem h b = Some x \<longrightarrow> mem h' b = Some x)"

definition seen :: "nat \<Rightarrow> (heap \<Rightarrow> bool) \<Rightarrow> 'm world \<Rightarrow> bool" where
  "seen k F w \<longleftrightarrow> (\<forall>h'. keeps k (hp w) h' \<longrightarrow> F h')"

lemma seenD: "seen k F w \<Longrightarrow> F (hp w)"
  by (simp add: seen_def keeps_def)

lemma seen_ext: "seen k F w \<Longrightarrow> ext w w' \<Longrightarrow> seen k F w'"
  unfolding seen_def ext_def keeps_def by (meson map_leD)

lemma seen_upd:
  assumes "seen (Suc a) F w" and "mem (hp w') = (mem (hp w))(a \<mapsto> ob)"
  shows "seen a (\<lambda>h. F h \<and> mem h a = Some ob) w'"
  using assms unfolding seen_def keeps_def by (auto simp: Suc_le_eq)

definition acquires_at ::
  "release_rule \<Rightarrow> ('m world \<Rightarrow> bool) \<Rightarrow> ('m world, 'x) go \<Rightarrow> ('x \<Rightarrow> ('m world, unit) go) \<Rightarrow>
     ('x \<Rightarrow> heap \<Rightarrow> bool) \<Rightarrow> bool" where
  "acquires_at S R m rel F \<longleftrightarrow>
     (\<forall>k. acquires S (\<lambda>w. R w \<and> brk (hp w) = k) m rel (\<lambda>x. seen k (F x)))"

lemma acquires_atE:
  assumes "acquires_at S R m rel F" and "heap_ok (hp w)" and "R w"
  obtains x w' where "m w = (Ret x, w')" "allocated S w w' (rel x)" "seen (brk (hp w)) (F x) w'"
  | e w' where "m w = (Crash e, w')" "oom w"
  using assms unfolding acquires_at_def acquires_def by blast

lemma acquires_atI:
  assumes "\<And>w. heap_ok (hp w) \<Longrightarrow> R w \<Longrightarrow>
     (\<exists>x w'. m w = (Ret x, w') \<and> allocated S w w' (rel x) \<and> seen (brk (hp w)) (F x) w') \<or>
     (\<exists>e w'. m w = (Crash e, w') \<and> oom w)"
  shows "acquires_at S R m rel F"
  using assms unfolding acquires_at_def acquires_def by blast

lemma acquires_at_mono:
  assumes "acquires_at S R m rel F" and "\<And>w. R' w \<Longrightarrow> R w" and "\<And>x h. F x h \<Longrightarrow> F' x h"
  shows "acquires_at S R' m rel F'"
proof (rule acquires_atI)
  fix w assume w: "heap_ok (hp w)" "R' w"
  show "(\<exists>x w'. m w = (Ret x, w') \<and> allocated S w w' (rel x) \<and> seen (brk (hp w)) (F' x) w') \<or>
     (\<exists>e w'. m w = (Crash e, w') \<and> oom w)"
    by (rule acquires_atE [OF assms(1) w(1) assms(2) [OF w(2)]])
      (use assms(3) in \<open>auto simp: seen_def\<close>)
qed

lemma acquires_of_at: "acquires_at S R m rel F \<Longrightarrow> acquires S R m rel (\<lambda>x w. F x (hp w))"
  unfolding acquires_at_def acquires_def by (blast dest: seenD)

lemma acquires_at_ret: "(\<And>h. F x h) \<Longrightarrow> rel x = go_ret () \<Longrightarrow> acquires_at S R (go_ret x) rel F"
  by (rule acquires_atI) (simp add: go_run allocated_none seen_def)

lemma acquires_at_seq:
  assumes m: "acquires_at S R m1 rel1 F1" "\<And>x. acquires_at S R (m2 x) (rel2 x) (F2 x)" and R: "stable R"
    and r: "\<And>x y. r (res x y) = go_bind (rel1 x) (\<lambda>_. rel2 x y)"
    and F: "\<And>x y h. F1 x h \<Longrightarrow> F2 x y h \<Longrightarrow> F (res x y) h"
  shows "acquires_at S R (go_bind m1 (\<lambda>x. go_bind (m2 x) (\<lambda>y. go_ret (res x y)))) r F"
proof (rule acquires_atI)
  fix w assume w: "heap_ok (hp w)" "R w"
  let ?m = "go_bind m1 (\<lambda>x. go_bind (m2 x) (\<lambda>y. go_ret (res x y)))"
  show "(\<exists>x w'. ?m w = (Ret x, w') \<and> allocated S w w' (r x) \<and> seen (brk (hp w)) (F x) w') \<or>
     (\<exists>e w'. ?m w = (Crash e, w') \<and> oom w)"
  proof (rule acquires_atE [OF m(1) w])
    fix x w1 assume a: "m1 w = (Ret x, w1)" "allocated S w w1 (rel1 x)" "seen (brk (hp w)) (F1 x) w1"
    have ok: "heap_ok (hp w1)" "ext w w1" using allocated_ok [OF w(1) a(2)] by simp_all
    have "R w1" using stableD [OF R ok(2) w(2)] .
    from ok(1) this show ?thesis
    proof (rule acquires_atE [OF m(2) [of x]])
      fix y w2 assume b: "m2 x w1 = (Ret y, w2)" "allocated S w1 w2 (rel2 x y)"
        "seen (brk (hp w1)) (F2 x y) w2"
      have "ext w1 w2" using allocated_ok [OF ok(1) b(2)] by simp
      moreover have "brk (hp w) \<le> brk (hp w1)" using ok(2) by (simp add: ext_def)
      ultimately have "seen (brk (hp w)) (F (res x y)) w2"
        using seen_ext [OF a(3)] b(3) F by (fastforce simp: seen_def keeps_def)
      then show ?thesis using a b allocated_seq(1) [OF a(2) b(2)] r by (simp add: go_run)
    next
      fix e w2 assume "m2 x w1 = (Crash e, w2)" "oom w1"
      then show ?thesis using a ext_oom [OF ok(2)] by (simp add: go_run)
    qed
  qed (simp add: go_run)
qed

lemma acquires_at_struct:
  assumes m: "acquires_at S R m rel F" and R: "stable R"
    and ob: "\<And>x. csizeof (ob x) = n" "\<And>J a x. S J (a, ob x)"
    and r: "\<And>p x fr. r (res p x fr) = fr"
    and F': "\<And>a x fr h. F x h \<Longrightarrow> mem h a = Some (ob x) \<Longrightarrow> F' (res (Ptr a) x fr) h"
  shows "acquires_at S R (go_bind (cMalloc n) (\<lambda>p. go_bind m (\<lambda>x.
    go_bind (heap_op e (c_store p (ob x))) (\<lambda>_.
    go_ret (res p x (go_bind (rel x) (\<lambda>_. heap_op e' (c_free p)))))))) r F'"
    (is "acquires_at S R ?m r F'")
proof (rule acquires_atI)
  fix w assume w: "heap_ok (hp w)" "R w"
  let ?a = "brk (hp w)"
  let ?w1 = "heap_grow [?a \<mapsto> CBytes (map (junk (hp w) ?a) [0..<n])] (Suc ?a) w"
  show "(\<exists>x w'. ?m w = (Ret x, w') \<and> allocated S w w' (r x) \<and> seen (brk (hp w)) (F' x) w') \<or>
     (\<exists>e w'. ?m w = (Crash e, w') \<and> oom w)"
  proof (cases "grants (hp w) ?a n")
    case False
    then show ?thesis using refused_oom by (auto simp: go_run cMalloc_run cgo_malloc_run Let_def)
  next
    case True
    then have mal: "cMalloc n w = (Ret (Ptr ?a), ?w1)" by (simp add: cMalloc_run cgo_malloc_run Let_def)
    note g = heap_grow_ok [OF w(1) fresh_one]
    have "R ?w1" using stableD [OF R g(2) w(2)] .
    with g(1) show ?thesis
    proof (rule acquires_atE [OF m])
      fix x w2 assume x: "m ?w1 = (Ret x, w2)" "allocated S ?w1 w2 (rel x)" "seen (brk (hp ?w1)) (F x) w2"
      have sz: "csizeof (CBytes (map (junk (hp w) ?a) [0..<n])) = csizeof (ob x)" using ob(1) by simp
      obtain w3 where st: "heap_op e (c_store (Ptr ?a) (ob x)) w2 = (Ret (), w3)"
        and m3: "mem (hp w3) = (mem (hp w2))(?a \<mapsto> ob x)"
        and al: "allocated S w w3 (go_bind (rel x) (\<lambda>_. heap_op e' (c_free (Ptr ?a))))"
        using allocated_struct [OF refl refl x(2) sz ob(2), of e e'] by blast
      have "seen (Suc ?a) (F x) w2" using x(3) by simp
      from seen_upd [OF this m3] have "seen ?a (F' (res (Ptr ?a) x fr)) w3" for fr
        using F' by (simp add: seen_def)
      then show ?thesis using mal x st al r by (simp add: go_run)
    qed (use mal in \<open>simp add: go_run\<close>)
  qed
qed

section \<open>Parameters that live for one call\<close>

lemma stable_const [stable_intros]: "stable (\<lambda>w. c)"
  by (simp add: stable_def)

lemma bytes_view_read:
  "fits64 b \<Longrightarrow> view_arg h (AIn p n) = Some (bytes_view b) \<Longrightarrow> c_read h p (unat n) = Some b"
  by (cases "b = []") (auto simp: bytes_view_def data_view_def bind_eq_Some_conv split: if_splits)

lemma bytes_view_Null:
  "view_arg h (AIn p n) = Some (bytes_view b) \<Longrightarrow> p = Null \<longleftrightarrow> b = []"
  by (auto simp: bytes_view_def data_view_def bind_eq_Some_conv split: if_splits)

lemma go_bind_gets: "go_bind (go_gets f) k w = k (f w) w"
  by (simp add: go_run)

lemma raw_view_param:
  assumes "fits64 b" and "view_arg h (AIn p n) = Some (bytes_view b)"
  shows "view_param h p n = Some (if b = [] then PNone else PRaw b)"
  using bytes_view_read [OF assms] bytes_view_Null [OF assms(2)]
  by (cases p) (auto split: option.splits cobj.splits if_splits)

lemma go_bind_unit [simp]: "go_bind m go_ret = m"
  by (rule ext) (simp add: go_run split: prod.splits outcome.splits)

lemma cBytes_seen:
  assumes "cBytes b w = (Ret (p, n), w')" and "view_arg (hp w') (AIn p n) = Some (bytes_view b)"
  shows "seen (brk (hp w)) (\<lambda>h. view_arg h (AIn p n) = Some (bytes_view b)) w'"
proof (cases p)
  case Null then show ?thesis using assms(2) by (simp add: seen_def)
next
  case (Ptr a)
  have "brk (hp w) \<le> a" using cBytes_above [OF assms(1)] Ptr by simp
  moreover obtain c where c: "mem (hp w') a = Some (CBytes c)"
    using assms(2) Ptr by (auto simp: bind_eq_Some_conv split: option.splits cobj.splits)
  ultimately show ?thesis using assms(2) Ptr by (auto simp: seen_def keeps_def)
qed

lemma cBytes_at:
  "acquires_at (released pub) (\<lambda>w. fits64 b) (cBytes b) (\<lambda>(p, n). zfree p n)
     (\<lambda>(p, n) h. view_arg h (AIn p n) = Some (bytes_view b))"
proof (rule acquires_atI)
  fix w :: "'m world" assume w: "heap_ok (hp w)" "fits64 b"
  show "(\<exists>x w'. cBytes b w = (Ret x, w') \<and> allocated (released pub) w w' (case x of (p, n) \<Rightarrow> zfree p n) \<and>
      seen (brk (hp w)) (case x of (p, n) \<Rightarrow> \<lambda>h. view_arg h (AIn p n) = Some (bytes_view b)) w') \<or>
    (\<exists>e w'. cBytes b w = (Crash e, w') \<and> oom w)"
    by (rule acquiresE [OF cBytes_zfree w]) (auto dest: cBytes_seen simp del: view_arg.simps)
qed

lemma cBytes_free_at:
  "acquires_at (released pub) (\<lambda>w. b \<in> pub) (cBytes b) (\<lambda>(p, n). free p)
     (\<lambda>(p, n) h. view_arg h (AIn p n) = Some (bytes_view b))"
proof (rule acquires_atI)
  fix w :: "'m world" assume w: "heap_ok (hp w)" "b \<in> pub"
  show "(\<exists>x w'. cBytes b w = (Ret x, w') \<and> allocated (released pub) w w' (case x of (p, n) \<Rightarrow> free p) \<and>
      seen (brk (hp w)) (case x of (p, n) \<Rightarrow> \<lambda>h. view_arg h (AIn p n) = Some (bytes_view b)) w') \<or>
    (\<exists>e w'. cBytes b w = (Crash e, w') \<and> oom w)"
    by (rule acquiresE [OF cBytes_free w]) (auto dest: cBytes_seen simp del: view_arg.simps)
qed

text \<open>What the module sees of a parameter that is not a GCM block; which lengths are possible; and
  which bytes a parameter leaves behind when it is released.\<close>

fun pview :: "MechanismParams \<Rightarrow> param_view" where
  "pview (GCMRef i) = PNone"
| "pview (OAEP p) = POaep (oaep_hashAlg p) (oaep_mgf p) (oaep_source p) (oaep_sourceData p)"
| "pview (PSS p) = PPss (pss_hashAlg p) (pss_mgf p) (of_int (pss_saltLen p))"
| "pview (ECDH1 p) = PEcdh (ecdh_kdf p) (ecdh_sharedData p) (ecdh_publicData p)"

fun params_ok :: "MechanismParams \<Rightarrow> bool" where
  "params_ok (GCMRef i) \<longleftrightarrow> False"
| "params_ok (OAEP p) \<longleftrightarrow> fits64 (oaep_sourceData p)"
| "params_ok (PSS p) \<longleftrightarrow> True"
| "params_ok (ECDH1 p) \<longleftrightarrow> fits64 (ecdh_sharedData p) \<and> fits64 (ecdh_publicData p)"

fun params_public :: "MechanismParams \<Rightarrow> byte list set" where
  "params_public (OAEP p) = {oaep_sourceData p}"
| "params_public (ECDH1 p) = {ecdh_publicData p}"
| "params_public p = {}"

lemma build_at:
  assumes "params_ok p" and "params_public p \<subseteq> pub"
  shows "acquires_at (released pub) (\<lambda>w. True) (build p) (\<lambda>(q, n, fr). fr)
     (\<lambda>(q, n, fr) h. view_param h q n = Some (pview p))"
proof (cases p)
  case (OAEP rec)
  then have pub: "oaep_sourceData rec \<in> pub" and b: "fits64 (oaep_sourceData rec)" using assms by simp_all
  have "acquires_at (released pub) (\<lambda>w. True) (go_bind (cMalloc 40) (\<lambda>op.
     go_bind (cBytes (oaep_sourceData rec)) (\<lambda>x.
     go_bind (heap_op ''store'' (c_store op (COaep (oaep_hashAlg rec) (oaep_mgf rec) (oaep_source rec) (fst x) (snd x)))) (\<lambda>_.
     go_ret (op, 40, go_bind ((\<lambda>(p, n). free p) x) (\<lambda>_. heap_op ''free'' (c_free op)))))))
     (\<lambda>(q, n, fr). fr) (\<lambda>(q, n, fr) h. view_param h q n = Some (pview p))"
    by (rule acquires_at_struct [OF acquires_at_mono [OF cBytes_free_at] stable_True])
      (use OAEP b pub in \<open>auto simp: case_prod_unfold bind_eq_Some_conv
          dest: bytes_view_read simp del: view_arg.simps\<close>)
  then show ?thesis using OAEP by (simp add: oaep_build_def case_prod_unfold)
next
  case (PSS rec)
  have "acquires_at (released pub) (\<lambda>w. True) (go_bind (cMalloc 24) (\<lambda>pp.
     go_bind (go_ret ()) (\<lambda>x.
     go_bind (heap_op ''store'' (c_store pp (CPss (pss_hashAlg rec) (pss_mgf rec) (of_int (pss_saltLen rec))))) (\<lambda>_.
     go_ret (pp, 24, go_bind (go_ret ()) (\<lambda>_. heap_op ''free'' (c_free pp)))))))
     (\<lambda>(q, n, fr). fr) (\<lambda>(q, n, fr) h. view_param h q n = Some (pview p))"
    by (rule acquires_at_struct [OF acquires_at_ret [where F = "\<lambda>x h. True"] stable_True]) (use PSS in auto)
  then show ?thesis using PSS by (simp add: pss_build_def)
next
  case (ECDH1 rec)
  then have pub: "ecdh_publicData rec \<in> pub" and b: "fits64 (ecdh_sharedData rec)" "fits64 (ecdh_publicData rec)" using assms by simp_all
  have sh: "acquires_at (released pub) (\<lambda>w. True) (cBytes (ecdh_sharedData rec)) (\<lambda>(p, n). zfree p n)
     (\<lambda>(p, n) h. view_arg h (AIn p n) = Some (bytes_view (ecdh_sharedData rec)))"
    using cBytes_at [of pub "ecdh_sharedData rec"] b(1) by simp
  have pb: "acquires_at (released pub) (\<lambda>w. True) (cBytes (ecdh_publicData rec)) (\<lambda>(p, n). free p)
     (\<lambda>(p, n) h. view_arg h (AIn p n) = Some (bytes_view (ecdh_publicData rec)))"
    by (rule acquires_at_mono [OF cBytes_free_at]) (use pub in auto)
  have two: "acquires_at (released pub) (\<lambda>w. True)
     (go_bind (cBytes (ecdh_sharedData rec)) (\<lambda>x. go_bind (cBytes (ecdh_publicData rec)) (\<lambda>y. go_ret (x, y))))
     (\<lambda>(x, y). go_bind ((\<lambda>(p, n). zfree p n) x) (\<lambda>_. (\<lambda>(p, n). free p) y))
     (\<lambda>(x, y) h. view_arg h (AIn (fst x) (snd x)) = Some (bytes_view (ecdh_sharedData rec)) \<and>
        view_arg h (AIn (fst y) (snd y)) = Some (bytes_view (ecdh_publicData rec)))"
    by (rule acquires_at_seq [OF sh pb stable_True]) (auto simp del: view_arg.simps)
  have "acquires_at (released pub) (\<lambda>w. True) (go_bind (cMalloc 40) (\<lambda>ep.
     go_bind (go_bind (cBytes (ecdh_sharedData rec)) (\<lambda>x. go_bind (cBytes (ecdh_publicData rec)) (\<lambda>y. go_ret (x, y)))) (\<lambda>z.
     go_bind (heap_op ''store'' (c_store ep (CEcdh (ecdh_kdf rec) (fst (fst z)) (snd (fst z)) (fst (snd z)) (snd (snd z))))) (\<lambda>_.
     go_ret (ep, 40, go_bind ((\<lambda>(x, y). go_bind ((\<lambda>(p, n). zfree p n) x) (\<lambda>_. (\<lambda>(p, n). free p) y)) z)
       (\<lambda>_. heap_op ''free'' (c_free ep)))))))
     (\<lambda>(q, n, fr). fr) (\<lambda>(q, n, fr) h. view_param h q n = Some (pview p))"
    by (rule acquires_at_struct [OF two stable_True])
      (use ECDH1 b in \<open>auto simp: case_prod_unfold bind_eq_Some_conv
          dest: bytes_view_read simp del: view_arg.simps\<close>)
  then show ?thesis using ECDH1
    by (simp add: ecdh1_build_def case_prod_unfold go_bind_assoc)
qed (use assms in simp)

section \<open>The contract of a mechanism\<close>

definition raw_view :: "byte list \<Rightarrow> param_view" where
  "raw_view b = (if b = [] then PNone else PRaw b)"

text \<open>A live GCM object, and what the module sees of it.\<close>

definition gcm_sees :: "nat \<Rightarrow> param_view \<Rightarrow> 'm world \<Rightarrow> bool" where
  "gcm_sees i V w \<longleftrightarrow> (\<exists>g. gcms w i = Some g \<and> gp g \<noteq> Null \<and> 0 \<le> inUse g \<and>
     (freePending g \<longrightarrow> 0 < inUse g) \<and> view_param (hp w) (gp g) 48 = Some V)"

definition mech_sees :: "Mechanism option \<Rightarrow> mech_view option \<Rightarrow> 'm world \<Rightarrow> bool" where
  "mech_sees m V w \<longleftrightarrow> (case m of
      None \<Rightarrow> V = None
    | Some m \<Rightarrow> (case params m of
        None \<Rightarrow> fits64 (Parameter m) \<and> V = Some (mechanism m, raw_view (Parameter m))
      | Some p \<Rightarrow> (case p of
          GCMRef i \<Rightarrow> (\<exists>v. gcm_sees i v w \<and> V = Some (mechanism m, v))
        | _ \<Rightarrow> params_ok p \<and> V = Some (mechanism m, pview p))))"

definition mech_public :: "Mechanism option \<Rightarrow> byte list set" where
  "mech_public m = (case m of None \<Rightarrow> {}
    | Some m \<Rightarrow> (case params m of None \<Rightarrow> {} | Some p \<Rightarrow> params_public p))"

definition mech_error :: "mechanism_policy \<Rightarrow> Mechanism option \<Rightarrow> goerror option" where
  "mech_error pol m = (case m of None \<Rightarrow> None | Some m \<Rightarrow> checkMechanismUse pol m)"

lemma gcm_leD: "gcm_le g g' \<Longrightarrow> gp g' = gp g \<and> iv g' = iv g \<and> aad g' = aad g \<and>
    freePending g' = freePending g \<and> inUse g \<le> inUse g'"
  by (cases g; cases g') (simp add: gcm_le_def)

lemma stable_gcm_sees [stable_intros]: "stable (gcm_sees i V)"
  unfolding stable_def
proof (intro allI impI)
  fix w w' :: "'m world" assume e: "ext w w'" and s: "gcm_sees i V w"
  then obtain g where g: "gcms w i = Some g" "gp g \<noteq> Null" "0 \<le> inUse g"
    "freePending g \<longrightarrow> 0 < inUse g" "view_param (hp w) (gp g) 48 = Some V"
    by (auto simp: gcm_sees_def)
  have "rel_option gcm_le (Some g) (gcms w' i)" using e g(1) unfolding ext_def by metis
  then obtain g' where g': "gcms w' i = Some g'" "gcm_le g g'" by (cases "gcms w' i") auto
  have "view_param (hp w') (gp g) 48 = Some V"
    using e g(5) by (auto simp: ext_def intro: view_param_mono)
  then show "gcm_sees i V w'" using g g' gcm_leD [OF g'(2)] by (auto simp: gcm_sees_def)
qed

lemma stable_mech_sees [stable_intros]: "stable (mech_sees m V :: 'm world \<Rightarrow> bool)"
proof -
  have "mech_sees m V w'" if e: "ext w w'" and s: "mech_sees m V w" for w w' :: "'m world"
  proof (cases "\<exists>m' i. m = Some m' \<and> params m' = Some (GCMRef i)")
    case True
    then show ?thesis using s stableD [OF stable_gcm_sees e] by (auto simp: mech_sees_def)
  next
    case False
    then show ?thesis using s
      by (auto simp: mech_sees_def split: option.splits MechanismParams.splits)
  qed
  then show ?thesis unfolding stable_def by blast
qed

lemma stable_policy [stable_intros]: "stable (\<lambda>w. policy w = pol)"
  by (simp add: stable_def ext_def)

lemma cMechanism_error:
  "mech_error (policy w) m = Some e \<Longrightarrow> cMechanism m w = (Ret (Inl e), w)"
  by (auto simp: mech_error_def cMechanism_def go_run split: option.splits)

text \<open>A mechanism that is not a GCM one is a resource by itself.\<close>

lemma cMechanism_at:
  fixes w0 :: "'m world"
  assumes "\<forall>i. params m \<noteq> Some (GCMRef i)" and "mech_public (Some m) \<subseteq> pub"
    and s: "mech_sees (Some m) V w0" and "checkMechanismUse pol m = None"
  shows "acquires_at (released pub) (\<lambda>w :: 'm world. policy w = pol) (cMechanism (Some m))
     (\<lambda>r. case r of Inl e \<Rightarrow> go_ret () | Inr (p, fr) \<Rightarrow> fr)
     (\<lambda>r h. case r of Inl e \<Rightarrow> False | Inr (p, fr) \<Rightarrow> view_arg h (AMech p) = Some (SMech V))"
    (is "acquires_at ?S ?R ?m ?r ?F")
proof -
  define body :: "('m world, ptr \<times> uint \<times> ('m world, unit) go) go" where "body = (case params m of
     Some p \<Rightarrow> build p
   | None \<Rightarrow> go_bind (cBytes (Parameter m)) (\<lambda>x. go_ret (fst x, snd x, zfree (fst x) (snd x))))"
  have run: "?m w = go_bind (cMalloc 24) (\<lambda>mech. go_bind body (\<lambda>x.
      go_bind (heap_op ''store'' (c_store mech (CMech (mechanism m) (fst x) (fst (snd x))))) (\<lambda>_.
      go_ret (Inr (mech, go_bind ((\<lambda>(p, n, fr). fr) x) (\<lambda>_. heap_op ''free'' (c_free mech))))))) w"
    if "policy w = pol" for w
    using that assms(4) by (cases "params m")
      (simp_all add: cMechanism_def go_bind_gets body_def case_prod_unfold go_bind_assoc)
  have b: "acquires_at ?S ?R body (\<lambda>(p, n, fr). fr)
      (\<lambda>(p, n, fr) h. \<exists>v. view_param h p n = Some v \<and> V = Some (mechanism m, v))"
    (is "acquires_at _ _ _ _ ?V")
  proof (cases "params m")
    case None
    then have f: "fits64 (Parameter m)" and V: "V = Some (mechanism m, raw_view (Parameter m))"
      using s by (simp_all add: mech_sees_def)
    have c: "acquires_at ?S ?R (cBytes (Parameter m)) (\<lambda>(p, n). zfree p n)
        (\<lambda>(p, n) h. view_arg h (AIn p n) = Some (bytes_view (Parameter m)))"
      by (rule acquires_at_mono [OF cBytes_at]) (use f in auto)
    have "acquires_at ?S ?R (go_bind (cBytes (Parameter m)) (\<lambda>x. go_bind (go_ret ()) (\<lambda>y.
        go_ret (fst x, snd x, zfree (fst x) (snd x))))) (\<lambda>(p, n, fr). fr) ?V"
      by (rule acquires_at_seq [OF c acquires_at_ret [where F = "\<lambda>x h. True"]])
        (use V f in \<open>auto simp: stable_policy raw_view_def go_bind_unit case_prod_unfold
          dest: raw_view_param simp del: view_arg.simps view_param.simps\<close>)
    then show ?thesis using None by (simp add: body_def)
  next
    case (Some p)
    then have p: "params_ok p" "V = Some (mechanism m, pview p)" "params_public p \<subseteq> pub"
      using assms by (auto simp: mech_sees_def mech_public_def split: MechanismParams.splits)
    show ?thesis unfolding body_def Some option.case
      by (rule acquires_at_mono [OF build_at [OF p(1,3)]]) (use p(2) in auto)
  qed
  have "acquires_at ?S ?R (go_bind (cMalloc 24) (\<lambda>mech. go_bind body (\<lambda>x.
      go_bind (heap_op ''store'' (c_store mech (CMech (mechanism m) (fst x) (fst (snd x))))) (\<lambda>_.
      go_ret (Inr (mech, go_bind ((\<lambda>(p, n, fr). fr) x) (\<lambda>_. heap_op ''free'' (c_free mech)))))))) ?r ?F"
    by (rule acquires_at_struct [OF b stable_policy]) auto
  then show ?thesis using run unfolding acquires_at_def acquires_def by simp
qed

lemma scoped_try_acquires:
  assumes a: "acquires S R m (\<lambda>r. case r of Inl e \<Rightarrow> go_ret () | Inr x \<Rightarrow> rel x)
     (\<lambda>r w. case r of Inl e \<Rightarrow> False | Inr x \<Rightarrow> Q x w)"
  shows "scoped_try S R None m rel Q"
proof (unfold_locales, goal_cases)
  case (2 w)
  then have h: "heap_ok (hp w)" by (simp add: wf_def)
  show ?case by (rule acquiresE [OF a h 2(2)]) (auto split: sum.splits)
next
  case (3 w x w')
  then have h: "heap_ok (hp w)" by (simp add: wf_def)
  show ?case by (rule acquiresE [OF a h 3(2)]) (use 3 allocated_ok [OF h] in auto)
next
  case (4 w x w' v)
  then have h: "heap_ok (hp w)" by (simp add: wf_def)
  show ?case by (rule acquiresE [OF a h 4(2)]) (use 4 allocated_frame [OF h] in auto)
qed simp

text \<open>A GCM mechanism borrows the object: its use count goes up for the duration of the call.\<close>

definition bump :: "nat \<Rightarrow> int \<Rightarrow> 'm world \<Rightarrow> 'm world" where
  "bump i d w = w\<lparr>gcms := (gcms w)(i := map_option (\<lambda>g. g\<lparr>inUse := inUse g + d\<rparr>) (gcms w i))\<rparr>"

lemma gcm_done_run:
  assumes "gcms v i = Some g" and "freePending g \<longrightarrow> inUse g \<noteq> 1"
  shows "gcm_done i v = (Ret (), bump i (- 1) v)"
  using assms by (auto simp: gcm_done_def go_run upd_gcm_def with_gcm_def bump_def)

lemma cMechanism_gcm_run:
  assumes "params m = Some (GCMRef i)" and "checkMechanismUse (policy w) m = None"
    and "gcms w i = Some g" and "gp g \<noteq> Null" and "grants (hp w) (brk (hp w)) 24"
  shows "cMechanism (Some m) w = (Ret (Inr (Ptr (brk (hp w)),
      go_bind (gcm_done i) (\<lambda>_. heap_op ''free'' (c_free (Ptr (brk (hp w))))))),
    bump i 1 (heap_grow [brk (hp w) \<mapsto> CMech (mechanism m) (gp g) 48] (Suc (brk (hp w))) w))"
  using assms
  by (simp add: cMechanism_def go_run cMalloc_run cgo_malloc_run Let_def gcm_build_def with_gcm_def
      upd_gcm_def heap_op_def heap_grow_def bump_def GCMParamsSize_def)

lemma bump_simps [simp]: "hp (bump i d w) = hp w" "modl (bump i d w) = modl w" "libs (bump i d w) = libs w"
  "readers (bump i d w) = readers w" "policy (bump i d w) = policy w" "nview (bump i d w) = nview w"
  "oom (bump i d w) = oom w"
  by (simp_all add: bump_def nview_def oom_def)

lemma ext_bump: "0 \<le> d \<Longrightarrow> ext w w' \<Longrightarrow> gcms w' = gcms w \<Longrightarrow> ext w (bump i d w')"
  by (auto simp: ext_def bump_def gcm_le_def option.rel_map intro!: option.rel_refl)

lemma frame_unbump:
  assumes "frame S (bump i d w) v"
  shows "frame S w (bump i (- d) v)"
proof -
  have "gcms v = (gcms w)(i := map_option (\<lambda>g. g\<lparr>inUse := inUse g + d\<rparr>) (gcms w i))"
    using assms by (simp add: frame_def bump_def)
  then have "gcms (bump i (- d) v) = gcms w"
    by (cases "gcms w i") (auto simp: bump_def fun_eq_iff)
  then show ?thesis using assms by (auto simp: frame_def ext_def bump_def)
qed

lemma gcm_scoped:
  assumes p: "params m = Some (GCMRef i)" and c: "checkMechanismUse pol m = None"
  shows "scoped_try (released pub) (\<lambda>w. policy w = pol \<and> gcm_sees i v w) None (cMechanism (Some m))
     (\<lambda>(p, fr). fr) (\<lambda>(p, fr) w. view_arg (hp w) (AMech p) = Some (SMech (Some (mechanism m, v))))"
proof -
  have run: "(\<exists>g. gcms w i = Some g \<and> gp g \<noteq> Null \<and> (freePending g \<longrightarrow> 0 < inUse g) \<and>
      view_param (hp w) (gp g) 48 = Some v \<and>
      cMechanism (Some m) w = (Ret (Inr (Ptr (brk (hp w)),
      go_bind (gcm_done i) (\<lambda>_. heap_op ''free'' (c_free (Ptr (brk (hp w))))))),
    bump i 1 (heap_grow [brk (hp w) \<mapsto> CMech (mechanism m) (gp g) 48] (Suc (brk (hp w))) w))) \<or>
    (\<exists>e w'. cMechanism (Some m) w = (Crash e, w') \<and> oom w)" if "policy w = pol" "gcm_sees i v w" for w
  proof (cases "grants (hp w) (brk (hp w)) 24")
    case True
    then show ?thesis using that c cMechanism_gcm_run [OF p] by (auto simp: gcm_sees_def)
  next
    case False
    then show ?thesis using that c refused_oom [OF False]
      by (simp add: cMechanism_def go_run cMalloc_run cgo_malloc_run Let_def)
  qed
  have acq: "\<exists>g. gcms w i = Some g \<and> (freePending g \<longrightarrow> 0 < inUse g) \<and>
      view_param (hp w) (gp g) 48 = Some v \<and> gp g \<noteq> Null \<and>
      x = (Ptr (brk (hp w)), go_bind (gcm_done i) (\<lambda>_. heap_op ''free'' (c_free (Ptr (brk (hp w)))))) \<and>
      w' = bump i 1 (heap_grow [brk (hp w) \<mapsto> CMech (mechanism m) (gp g) 48] (Suc (brk (hp w))) w)"
    if r: "policy w = pol" "gcm_sees i v w" and m: "cMechanism (Some m) w = (Ret (Inr x), w')" for w x w'
    using run [OF r]
  proof (elim disjE exE conjE)
    fix g assume "gcms w i = Some g" "gp g \<noteq> Null" "freePending g \<longrightarrow> 0 < inUse g"
      "view_param (hp w) (gp g) 48 = Some v"
      "cMechanism (Some m) w = (Ret (Inr (Ptr (brk (hp w)),
      go_bind (gcm_done i) (\<lambda>_. heap_op ''free'' (c_free (Ptr (brk (hp w))))))),
    bump i 1 (heap_grow [brk (hp w) \<mapsto> CMech (mechanism m) (gp g) 48] (Suc (brk (hp w))) w))"
    then show ?thesis using m by (intro exI [of _ g]) simp
  qed (use m in simp)
  show ?thesis
  proof (unfold_locales, goal_cases)
    case (2 w) then show ?case using run [of w] by auto
  next
    case (3 w x w')
    then obtain g :: gcmobj where g: "gp g \<noteq> Null" "view_param (hp w) (gp g) 48 = Some v"
      "x = (Ptr (brk (hp w)), go_bind (gcm_done i) (\<lambda>_. heap_op ''free'' (c_free (Ptr (brk (hp w))))))"
      "w' = bump i 1 (heap_grow [brk (hp w) \<mapsto> CMech (mechanism m) (gp g) 48] (Suc (brk (hp w))) w)"
      using acq [OF conjunct1 [OF 3(2)] conjunct2 [OF 3(2)] 3(3)] by blast
    have h: "heap_ok (hp w)" using 3(1) by (simp add: wf_def)
    note gr = heap_grow_ok [OF h fresh_one, of "CMech (mechanism m) (gp g) 48"]
    have "mem (hp w) \<subseteq>\<^sub>m mem (hp w')" using gr(2) g(4) by (simp add: ext_def)
    note vp = view_param_mono [OF this g(2)]
    show ?case using gr ext_bump [OF _ gr(2)] g vp by (simp add: silent_def)
  next
    case (4 w x w' u)
    then obtain g where g: "gcms w i = Some g" "freePending g \<longrightarrow> 0 < inUse g"
      "x = (Ptr (brk (hp w)), go_bind (gcm_done i) (\<lambda>_. heap_op ''free'' (c_free (Ptr (brk (hp w))))))"
      "w' = bump i 1 (heap_grow [brk (hp w) \<mapsto> CMech (mechanism m) (gp g) 48] (Suc (brk (hp w))) w)"
      using acq [OF conjunct1 [OF 4(2)] conjunct2 [OF 4(2)] 4(3)] by blast
    have h: "heap_ok (hp w)" using 4(1) by (simp add: wf_def)
    have S: "released pub (junk (hp w)) (brk (hp w), CMech (mechanism m) (gp g) 48)" by simp
    note fr = frame_unbump [OF 4(4) [unfolded g(4)]]
    have "gcms u i = Some (g\<lparr>inUse := inUse g + 1\<rparr>)"
      using 4(4) g by (simp add: frame_def bump_def)
    then have d: "gcm_done i u = (Ret (), bump i (- 1) u)"
      using g(2) by (intro gcm_done_run) auto
    obtain v' where "heap_op ''free'' (c_free (Ptr (brk (hp w)))) (bump i (- 1) u) = (Ret (), v')"
      "frame (released pub) w v'" "silent (bump i (- 1) u) v'"
      using allocated_frame [OF h allocated_one [OF releases_free [where S = "released pub", OF S]] fr] by blast
    then show ?case using g(3) d by (simp add: go_run silent_def)
  qed simp
qed

text \<open>The laws hold under \<open>R\<close> as soon as they hold, for each state of \<open>R\<close>, under some
  condition that state satisfies.\<close>

lemma scoped_try_pointwise:
  assumes "\<And>w. wf w \<Longrightarrow> R w \<Longrightarrow> \<exists>R'. scoped_try S R' er m rel Q \<and> R' w"
  shows "scoped_try S R er m rel Q"
proof (unfold_locales, goal_cases)
  case (1 w e)
  obtain R' where s: "scoped_try S R' er m rel Q" and r: "R' w" using assms [OF 1(1,2)] by blast
  show ?case by (rule scoped_try.acquire_error [OF s 1(1) r 1(3)])
next
  case (2 w)
  obtain R' where s: "scoped_try S R' er m rel Q" and r: "R' w" using assms [OF 2(1,2)] by blast
  show ?case by (rule scoped_try.acquire_total [OF s 2(1) r 2(3)])
next
  case (3 w x w')
  obtain R' where s: "scoped_try S R' er m rel Q" and r: "R' w" using assms [OF 3(1,2)] by blast
  show ?case by (rule scoped_try.acquire_ok [OF s 3(1) r 3(3)])
next
  case (4 w x w' v)
  obtain R' where s: "scoped_try S R' er m rel Q" and r: "R' w" using assms [OF 4(1,2)] by blast
  show ?case by (rule scoped_try.release_ok [OF s 4(1) r 4(3,4)])
qed

lemma scoped_try_refused:
  assumes "\<And>w. R w \<Longrightarrow> m w = (Ret (Inl e), w)"
  shows "scoped_try S R (Some e) m rel Q"
proof (unfold_locales, goal_cases)
  case (4 w x w' v)
  then have "m w = (Ret (Inl e), w)" using assms by simp
  then show ?case using 4 by simp
qed (use assms in auto)

definition mech_pre :: "byte list set \<Rightarrow> mechanism_policy \<Rightarrow> Mechanism option \<Rightarrow> mech_view option \<Rightarrow> 'm world \<Rightarrow> bool" where
  "mech_pre pub pol m V w \<longleftrightarrow> policy w = pol \<and> mech_sees m V w \<and> mech_public m \<subseteq> pub"

lemma stable_mech_pre [stable_intros]: "stable (mech_pre pub pol m V)"
  unfolding mech_pre_def by (intro stable_intros)

lemma cMechanism_scoped:
  "scoped_try (released pub) (mech_pre pub pol m V) (mech_error pol m) (cMechanism m :: ('m world, _) go)
     (\<lambda>(p, fr). fr) (\<lambda>(p, fr) w. view_arg (hp w) (AMech p) = Some (SMech V))"
    (is "scoped_try ?S ?R ?er ?m ?rel ?Q")
proof (cases ?er)
  case (Some e)
  have "scoped_try ?S ?R (Some e) ?m ?rel ?Q"
    by (rule scoped_try_refused) (use Some cMechanism_error in \<open>auto simp: mech_pre_def\<close>)
  then show ?thesis using Some by simp
next
  case None
  let ?r = "\<lambda>r. case r of Inl e \<Rightarrow> go_ret () | Inr (p, fr) \<Rightarrow> fr"
  let ?F = "\<lambda>r h. case r of Inl e \<Rightarrow> False | Inr (p, fr) \<Rightarrow> view_arg h (AMech p) = Some (SMech V)"
  have lift: "scoped_try ?S (\<lambda>w. policy w = pol) None ?m ?rel ?Q"
    if "acquires_at ?S (\<lambda>w. policy w = pol) ?m ?r ?F"
    by (rule scoped_try_acquires)
      (use acquires_of_at [OF that] in \<open>simp add: case_prod_unfold cong: sum.case_cong\<close>)
  show ?thesis unfolding None
  proof (rule scoped_try_pointwise)
    fix w :: "'m world" assume "?R w"
    then have pol: "policy w = pol" and see: "mech_sees m V w" and pub: "mech_public m \<subseteq> pub"
      by (simp_all add: mech_pre_def)
    show "\<exists>R'. scoped_try ?S R' None ?m ?rel ?Q \<and> R' w"
    proof (cases m)
      case n: None
      have "acquires_at ?S (\<lambda>w. policy w = pol) ?m ?r ?F"
        unfolding n cMechanism_def option.case
        by (rule acquires_at_ret) (use see n in \<open>auto simp: mech_sees_def\<close>)
      from lift [OF this] pol show ?thesis by blast
    next
      case (Some m')
      have chk: "checkMechanismUse pol m' = None" using None Some by (simp add: mech_error_def)
      show ?thesis
      proof (cases "\<exists>i. params m' = Some (GCMRef i)")
        case True
        then obtain i v where i: "params m' = Some (GCMRef i)" and v: "gcm_sees i v w"
          and V: "V = Some (mechanism m', v)"
          using see Some by (auto simp: mech_sees_def)
        show ?thesis using gcm_scoped [OF i chk, of pub v] v pol unfolding Some V by blast
      next
        case False
        then have "acquires_at ?S (\<lambda>w. policy w = pol) ?m ?r ?F"
          using cMechanism_at [OF _ pub [unfolded Some] see [unfolded Some] chk] Some by simp
        from lift [OF this] pol show ?thesis by blast
      qed
    qed
  qed
qed

interpretation cMechanism: scoped_try "released pub" "mech_pre pub pol m V" "mech_error pol m" "cMechanism m"
    "\<lambda>(p, fr). fr" "\<lambda>(p, fr) w. view_arg (hp w) (AMech p) = Some (SMech V)" for pub pol m V
  by (rule cMechanism_scoped)

end
