(* ===== verification/Shim.thy ===== *)
theory Shim
  imports Params
begin

text \<open>
  \<^verbatim>\<open>cryptoki/shim.c\<close>: loading a module, choosing between its 2.x and 3.2 function lists, and
  forwarding a call to the chosen list.  The dynamic linker and the library's two entry points are
  a parameter (\<open>linker\<close>).  The forwarding functions \<open>ck_encrypt\<close>, \<open>ck_sign\<close>, \<dots> share the body
  \<open>REQUIRE_M(m); return CK_FNS(m)->C_X(...)\<close>, \<open>ck_dispatch\<close>, and those of version 3.2
  \<open>REQUIRE_M(m); REQUIRE_V32(m); return m->fns32->C_X(...)\<close>, \<open>ck_dispatch32\<close>; each has a definition of its own.
\<close>

declare view_arg.simps [simp del]

section \<open>Loading\<close>

record 'm iface =
  pFunctionList :: "(Version \<times> 'm native) option"

record 'm library =
  lib_dl :: nat
  C_GetFunctionList :: "(uint \<times> 'm native option) option"
  C_GetInterface :: "(Version option \<Rightarrow> uint \<times> 'm iface option) option"

text \<open>\<open>dlopen\<close>: the library, or the text of \<open>dlerror\<close>.\<close>

type_synonym 'm linker = "string \<Rightarrow> string + 'm library"

definition ck_set_err :: "nat \<Rightarrow> string \<Rightarrow> string" where
  "ck_set_err errlen msg = (if errlen = 0 then [] else take (errlen - 1) msg)"

definition errlen :: nat where "errlen = 256"

text \<open>\<open>ck_resolve_v32\<close>: ask for 3.2 by name, then for the default interface; take the list if it
  is 3.2 or newer.\<close>

definition get_iface :: "(Version option \<Rightarrow> uint \<times> 'm iface option) \<Rightarrow> Version option \<Rightarrow> 'm iface option" where
  "get_iface gi v = (case gi v of (r, i) \<Rightarrow> if r \<noteq> CKR_OK \<or> i = None then None else i)"

definition ck_resolve_v32 :: "'m library \<Rightarrow> 'm native option" where
  "ck_resolve_v32 L = (case C_GetInterface L of
      None \<Rightarrow> None
    | Some gi \<Rightarrow> (case (case get_iface gi (Some (Version 3 2)) of Some i \<Rightarrow> Some i | None \<Rightarrow> get_iface gi None) of
          None \<Rightarrow> None
        | Some i \<Rightarrow> (case pFunctionList i of
            None \<Rightarrow> None
          | Some (v, list) \<Rightarrow> if Major v > 3 \<or> (Major v = 3 \<and> Minor v \<ge> 2) then Some list else None)))"

definition ck_close :: "nat \<Rightarrow> ('m world, unit) go" where
  "ck_close d = go_modify (\<lambda>w. w\<lparr>libs := libs w - {d},
     at_calls := at_calls w @ [(readers w, writer w, waiters w)]\<rparr>)"

definition load_fail :: "uint \<Rightarrow> string \<Rightarrow> ('m world, (uint \<times> string) + 'a) go" where
  "load_fail r msg = go_ret (Inl (r, ck_set_err errlen msg))"

definition ck_load :: "'m linker \<Rightarrow> string \<Rightarrow> ('m world, (uint \<times> string) + 'm ckModule) go" where
  "ck_load ld path = (\<lambda>w. case c_calloc 32 (hp w) of
      (Null, h) \<Rightarrow> load_fail CKR_HOST_MEMORY ''out of memory'' (w\<lparr>hp := h\<rparr>)
    | (Ptr a, h) \<Rightarrow> (case ld path of
        Inl reason \<Rightarrow> go_bind (heap_op ''free'' (c_free (Ptr a)))
          (\<lambda>_. load_fail CKR_GENERAL_ERROR reason)
      | Inr L \<Rightarrow> go_bind (go_modify (\<lambda>w. w\<lparr>libs := insert (lib_dl L) (libs w)\<rparr>)) (\<lambda>_.
          case C_GetFunctionList L of
            None \<Rightarrow> go_bind (ck_close (lib_dl L)) (\<lambda>_. go_bind (heap_op ''free'' (c_free (Ptr a)))
              (\<lambda>_. load_fail CKR_GENERAL_ERROR ''module exports no C_GetFunctionList''))
          | Some (r, list) \<Rightarrow>
              if r \<noteq> CKR_OK \<or> list = None then
                go_bind (ck_close (lib_dl L)) (\<lambda>_. go_bind (heap_op ''free'' (c_free (Ptr a)))
                  (\<lambda>_. load_fail (if r \<noteq> CKR_OK then r else CKR_GENERAL_ERROR) ''C_GetFunctionList failed''))
              else let f32 = ck_resolve_v32 L in
                go_ret (Inr \<lparr>mblk = Ptr a, dl = lib_dl L, fns = list, fns32 = f32,
                  fnsBase = (if f32 \<noteq> None then f32 else list)\<rparr>))) (w\<lparr>hp := h\<rparr>))"

definition ck_unload :: "'m ckModule \<Rightarrow> ('m world, unit) go" where
  "ck_unload m = go_bind (ck_close (dl m)) (\<lambda>_. heap_op ''free'' (c_free (mblk m)))"

definition ck_has_v32 :: "'m ckModule \<Rightarrow> bool" where
  "ck_has_v32 m \<longleftrightarrow> fns32 m \<noteq> None"

section \<open>Dispatch\<close>

definition CK_FNS :: "'m ckModule \<Rightarrow> 'm native option" where
  "CK_FNS m = (if fnsBase m \<noteq> None then fnsBase m else fns m)"

definition ck_dispatch :: "'m ckModule \<Rightarrow> ck_fn \<Rightarrow> carg list \<Rightarrow> ('m world, ck_reply) go" where
  "ck_dispatch m f as = (if fns m = None then go_ret (reply0 CKR_CRYPTOKI_NOT_INITIALIZED)
     else case CK_FNS m of
       None \<Rightarrow> go_fault ''NULL function list'' | Some N \<Rightarrow> native_call N f as)"

definition ck_dispatch32 :: "'m ckModule \<Rightarrow> ck_fn \<Rightarrow> carg list \<Rightarrow> ('m world, ck_reply) go" where
  "ck_dispatch32 m f as = (if fns m = None then go_ret (reply0 CKR_CRYPTOKI_NOT_INITIALIZED)
     else case fns32 m of
       None \<Rightarrow> go_ret (reply0 CKR_FUNCTION_NOT_SUPPORTED) | Some N \<Rightarrow> native_call N f as)"

section \<open>The forwarding functions\<close>

text \<open>One for each entry point: the checks of its body, and the function of the list it calls.\<close>

definition ck_initialize :: "'m ckModule \<Rightarrow> carg list \<Rightarrow> ('m world, ck_reply) go" where
  "ck_initialize m as = ck_dispatch m (Life C_Initialize) as"
definition ck_finalize :: "'m ckModule \<Rightarrow> carg list \<Rightarrow> ('m world, ck_reply) go" where
  "ck_finalize m as = ck_dispatch m (Life C_Finalize) as"
definition ck_get_info :: "'m ckModule \<Rightarrow> carg list \<Rightarrow> ('m world, ck_reply) go" where
  "ck_get_info m as = ck_dispatch m (Life C_GetInfo) as"

primrec forward_life :: "'m ckModule \<Rightarrow> life_fn \<Rightarrow> carg list \<Rightarrow> ('m world, ck_reply) go" where
  "forward_life m C_Initialize = ck_initialize m"
| "forward_life m C_Finalize = ck_finalize m"
| "forward_life m C_GetInfo = ck_get_info m"

definition ck_get_slot_list :: "'m ckModule \<Rightarrow> carg list \<Rightarrow> ('m world, ck_reply) go" where
  "ck_get_slot_list m as = ck_dispatch m (Slot C_GetSlotList) as"
definition ck_get_slot_info :: "'m ckModule \<Rightarrow> carg list \<Rightarrow> ('m world, ck_reply) go" where
  "ck_get_slot_info m as = ck_dispatch m (Slot C_GetSlotInfo) as"
definition ck_get_token_info :: "'m ckModule \<Rightarrow> carg list \<Rightarrow> ('m world, ck_reply) go" where
  "ck_get_token_info m as = ck_dispatch m (Slot C_GetTokenInfo) as"
definition ck_get_mechanism_list :: "'m ckModule \<Rightarrow> carg list \<Rightarrow> ('m world, ck_reply) go" where
  "ck_get_mechanism_list m as = ck_dispatch m (Slot C_GetMechanismList) as"
definition ck_get_mechanism_info :: "'m ckModule \<Rightarrow> carg list \<Rightarrow> ('m world, ck_reply) go" where
  "ck_get_mechanism_info m as = ck_dispatch m (Slot C_GetMechanismInfo) as"
definition ck_init_token :: "'m ckModule \<Rightarrow> carg list \<Rightarrow> ('m world, ck_reply) go" where
  "ck_init_token m as = ck_dispatch m (Slot C_InitToken) as"
definition ck_init_pin :: "'m ckModule \<Rightarrow> carg list \<Rightarrow> ('m world, ck_reply) go" where
  "ck_init_pin m as = ck_dispatch m (Slot C_InitPIN) as"
definition ck_set_pin :: "'m ckModule \<Rightarrow> carg list \<Rightarrow> ('m world, ck_reply) go" where
  "ck_set_pin m as = ck_dispatch m (Slot C_SetPIN) as"
definition ck_wait_for_slot_event :: "'m ckModule \<Rightarrow> carg list \<Rightarrow> ('m world, ck_reply) go" where
  "ck_wait_for_slot_event m as = ck_dispatch m (Slot C_WaitForSlotEvent) as"

primrec forward_slot :: "'m ckModule \<Rightarrow> slot_fn \<Rightarrow> carg list \<Rightarrow> ('m world, ck_reply) go" where
  "forward_slot m C_GetSlotList = ck_get_slot_list m"
| "forward_slot m C_GetSlotInfo = ck_get_slot_info m"
| "forward_slot m C_GetTokenInfo = ck_get_token_info m"
| "forward_slot m C_GetMechanismList = ck_get_mechanism_list m"
| "forward_slot m C_GetMechanismInfo = ck_get_mechanism_info m"
| "forward_slot m C_InitToken = ck_init_token m"
| "forward_slot m C_InitPIN = ck_init_pin m"
| "forward_slot m C_SetPIN = ck_set_pin m"
| "forward_slot m C_WaitForSlotEvent = ck_wait_for_slot_event m"

definition ck_open_session :: "'m ckModule \<Rightarrow> carg list \<Rightarrow> ('m world, ck_reply) go" where
  "ck_open_session m as = ck_dispatch m (Sess C_OpenSession) as"
definition ck_close_session :: "'m ckModule \<Rightarrow> carg list \<Rightarrow> ('m world, ck_reply) go" where
  "ck_close_session m as = ck_dispatch m (Sess C_CloseSession) as"
definition ck_close_all_sessions :: "'m ckModule \<Rightarrow> carg list \<Rightarrow> ('m world, ck_reply) go" where
  "ck_close_all_sessions m as = ck_dispatch m (Sess C_CloseAllSessions) as"
definition ck_get_session_info :: "'m ckModule \<Rightarrow> carg list \<Rightarrow> ('m world, ck_reply) go" where
  "ck_get_session_info m as = ck_dispatch m (Sess C_GetSessionInfo) as"
definition ck_login :: "'m ckModule \<Rightarrow> carg list \<Rightarrow> ('m world, ck_reply) go" where
  "ck_login m as = ck_dispatch m (Sess C_Login) as"
definition ck_logout :: "'m ckModule \<Rightarrow> carg list \<Rightarrow> ('m world, ck_reply) go" where
  "ck_logout m as = ck_dispatch m (Sess C_Logout) as"
definition ck_get_operation_state :: "'m ckModule \<Rightarrow> carg list \<Rightarrow> ('m world, ck_reply) go" where
  "ck_get_operation_state m as = ck_dispatch m (Sess C_GetOperationState) as"
definition ck_set_operation_state :: "'m ckModule \<Rightarrow> carg list \<Rightarrow> ('m world, ck_reply) go" where
  "ck_set_operation_state m as = ck_dispatch m (Sess C_SetOperationState) as"

primrec forward_sess :: "'m ckModule \<Rightarrow> sess_fn \<Rightarrow> carg list \<Rightarrow> ('m world, ck_reply) go" where
  "forward_sess m C_OpenSession = ck_open_session m"
| "forward_sess m C_CloseSession = ck_close_session m"
| "forward_sess m C_CloseAllSessions = ck_close_all_sessions m"
| "forward_sess m C_GetSessionInfo = ck_get_session_info m"
| "forward_sess m C_Login = ck_login m"
| "forward_sess m C_Logout = ck_logout m"
| "forward_sess m C_GetOperationState = ck_get_operation_state m"
| "forward_sess m C_SetOperationState = ck_set_operation_state m"

definition ck_create_object :: "'m ckModule \<Rightarrow> carg list \<Rightarrow> ('m world, ck_reply) go" where
  "ck_create_object m as = ck_dispatch m (Obj C_CreateObject) as"
definition ck_copy_object :: "'m ckModule \<Rightarrow> carg list \<Rightarrow> ('m world, ck_reply) go" where
  "ck_copy_object m as = ck_dispatch m (Obj C_CopyObject) as"
definition ck_destroy_object :: "'m ckModule \<Rightarrow> carg list \<Rightarrow> ('m world, ck_reply) go" where
  "ck_destroy_object m as = ck_dispatch m (Obj C_DestroyObject) as"
definition ck_get_object_size :: "'m ckModule \<Rightarrow> carg list \<Rightarrow> ('m world, ck_reply) go" where
  "ck_get_object_size m as = ck_dispatch m (Obj C_GetObjectSize) as"
definition ck_get_attribute_value :: "'m ckModule \<Rightarrow> carg list \<Rightarrow> ('m world, ck_reply) go" where
  "ck_get_attribute_value m as = ck_dispatch m (Obj C_GetAttributeValue) as"
definition ck_set_attribute_value :: "'m ckModule \<Rightarrow> carg list \<Rightarrow> ('m world, ck_reply) go" where
  "ck_set_attribute_value m as = ck_dispatch m (Obj C_SetAttributeValue) as"
definition ck_find_objects_init :: "'m ckModule \<Rightarrow> carg list \<Rightarrow> ('m world, ck_reply) go" where
  "ck_find_objects_init m as = ck_dispatch m (Obj C_FindObjectsInit) as"
definition ck_find_objects :: "'m ckModule \<Rightarrow> carg list \<Rightarrow> ('m world, ck_reply) go" where
  "ck_find_objects m as = ck_dispatch m (Obj C_FindObjects) as"
definition ck_find_objects_final :: "'m ckModule \<Rightarrow> carg list \<Rightarrow> ('m world, ck_reply) go" where
  "ck_find_objects_final m as = ck_dispatch m (Obj C_FindObjectsFinal) as"

primrec forward_obj :: "'m ckModule \<Rightarrow> obj_fn \<Rightarrow> carg list \<Rightarrow> ('m world, ck_reply) go" where
  "forward_obj m C_CreateObject = ck_create_object m"
| "forward_obj m C_CopyObject = ck_copy_object m"
| "forward_obj m C_DestroyObject = ck_destroy_object m"
| "forward_obj m C_GetObjectSize = ck_get_object_size m"
| "forward_obj m C_GetAttributeValue = ck_get_attribute_value m"
| "forward_obj m C_SetAttributeValue = ck_set_attribute_value m"
| "forward_obj m C_FindObjectsInit = ck_find_objects_init m"
| "forward_obj m C_FindObjects = ck_find_objects m"
| "forward_obj m C_FindObjectsFinal = ck_find_objects_final m"

definition ck_seed_random :: "'m ckModule \<Rightarrow> carg list \<Rightarrow> ('m world, ck_reply) go" where
  "ck_seed_random m as = ck_dispatch m (Dig C_SeedRandom) as"
definition ck_generate_random :: "'m ckModule \<Rightarrow> carg list \<Rightarrow> ('m world, ck_reply) go" where
  "ck_generate_random m as = ck_dispatch m (Dig C_GenerateRandom) as"
definition ck_digest_init :: "'m ckModule \<Rightarrow> carg list \<Rightarrow> ('m world, ck_reply) go" where
  "ck_digest_init m as = ck_dispatch m (Dig C_DigestInit) as"
definition ck_digest :: "'m ckModule \<Rightarrow> carg list \<Rightarrow> ('m world, ck_reply) go" where
  "ck_digest m as = ck_dispatch m (Dig C_Digest) as"
definition ck_digest_update :: "'m ckModule \<Rightarrow> carg list \<Rightarrow> ('m world, ck_reply) go" where
  "ck_digest_update m as = ck_dispatch m (Dig C_DigestUpdate) as"
definition ck_digest_key :: "'m ckModule \<Rightarrow> carg list \<Rightarrow> ('m world, ck_reply) go" where
  "ck_digest_key m as = ck_dispatch m (Dig C_DigestKey) as"
definition ck_digest_final :: "'m ckModule \<Rightarrow> carg list \<Rightarrow> ('m world, ck_reply) go" where
  "ck_digest_final m as = ck_dispatch m (Dig C_DigestFinal) as"

primrec forward_dig :: "'m ckModule \<Rightarrow> dig_fn \<Rightarrow> carg list \<Rightarrow> ('m world, ck_reply) go" where
  "forward_dig m C_SeedRandom = ck_seed_random m"
| "forward_dig m C_GenerateRandom = ck_generate_random m"
| "forward_dig m C_DigestInit = ck_digest_init m"
| "forward_dig m C_Digest = ck_digest m"
| "forward_dig m C_DigestUpdate = ck_digest_update m"
| "forward_dig m C_DigestKey = ck_digest_key m"
| "forward_dig m C_DigestFinal = ck_digest_final m"

definition ck_encrypt_init :: "'m ckModule \<Rightarrow> carg list \<Rightarrow> ('m world, ck_reply) go" where
  "ck_encrypt_init m as = ck_dispatch m (Enc C_EncryptInit) as"
definition ck_encrypt :: "'m ckModule \<Rightarrow> carg list \<Rightarrow> ('m world, ck_reply) go" where
  "ck_encrypt m as = ck_dispatch m (Enc C_Encrypt) as"
definition ck_encrypt_update :: "'m ckModule \<Rightarrow> carg list \<Rightarrow> ('m world, ck_reply) go" where
  "ck_encrypt_update m as = ck_dispatch m (Enc C_EncryptUpdate) as"
definition ck_encrypt_final :: "'m ckModule \<Rightarrow> carg list \<Rightarrow> ('m world, ck_reply) go" where
  "ck_encrypt_final m as = ck_dispatch m (Enc C_EncryptFinal) as"
definition ck_decrypt_init :: "'m ckModule \<Rightarrow> carg list \<Rightarrow> ('m world, ck_reply) go" where
  "ck_decrypt_init m as = ck_dispatch m (Enc C_DecryptInit) as"
definition ck_decrypt :: "'m ckModule \<Rightarrow> carg list \<Rightarrow> ('m world, ck_reply) go" where
  "ck_decrypt m as = ck_dispatch m (Enc C_Decrypt) as"
definition ck_decrypt_update :: "'m ckModule \<Rightarrow> carg list \<Rightarrow> ('m world, ck_reply) go" where
  "ck_decrypt_update m as = ck_dispatch m (Enc C_DecryptUpdate) as"
definition ck_decrypt_final :: "'m ckModule \<Rightarrow> carg list \<Rightarrow> ('m world, ck_reply) go" where
  "ck_decrypt_final m as = ck_dispatch m (Enc C_DecryptFinal) as"

primrec forward_enc :: "'m ckModule \<Rightarrow> enc_fn \<Rightarrow> carg list \<Rightarrow> ('m world, ck_reply) go" where
  "forward_enc m C_EncryptInit = ck_encrypt_init m"
| "forward_enc m C_Encrypt = ck_encrypt m"
| "forward_enc m C_EncryptUpdate = ck_encrypt_update m"
| "forward_enc m C_EncryptFinal = ck_encrypt_final m"
| "forward_enc m C_DecryptInit = ck_decrypt_init m"
| "forward_enc m C_Decrypt = ck_decrypt m"
| "forward_enc m C_DecryptUpdate = ck_decrypt_update m"
| "forward_enc m C_DecryptFinal = ck_decrypt_final m"

definition ck_sign_init :: "'m ckModule \<Rightarrow> carg list \<Rightarrow> ('m world, ck_reply) go" where
  "ck_sign_init m as = ck_dispatch m (Sig C_SignInit) as"
definition ck_sign :: "'m ckModule \<Rightarrow> carg list \<Rightarrow> ('m world, ck_reply) go" where
  "ck_sign m as = ck_dispatch m (Sig C_Sign) as"
definition ck_sign_update :: "'m ckModule \<Rightarrow> carg list \<Rightarrow> ('m world, ck_reply) go" where
  "ck_sign_update m as = ck_dispatch m (Sig C_SignUpdate) as"
definition ck_sign_final :: "'m ckModule \<Rightarrow> carg list \<Rightarrow> ('m world, ck_reply) go" where
  "ck_sign_final m as = ck_dispatch m (Sig C_SignFinal) as"
definition ck_verify_init :: "'m ckModule \<Rightarrow> carg list \<Rightarrow> ('m world, ck_reply) go" where
  "ck_verify_init m as = ck_dispatch m (Sig C_VerifyInit) as"
definition ck_verify :: "'m ckModule \<Rightarrow> carg list \<Rightarrow> ('m world, ck_reply) go" where
  "ck_verify m as = ck_dispatch m (Sig C_Verify) as"
definition ck_verify_update :: "'m ckModule \<Rightarrow> carg list \<Rightarrow> ('m world, ck_reply) go" where
  "ck_verify_update m as = ck_dispatch m (Sig C_VerifyUpdate) as"
definition ck_verify_final :: "'m ckModule \<Rightarrow> carg list \<Rightarrow> ('m world, ck_reply) go" where
  "ck_verify_final m as = ck_dispatch m (Sig C_VerifyFinal) as"

primrec forward_sig :: "'m ckModule \<Rightarrow> sig_fn \<Rightarrow> carg list \<Rightarrow> ('m world, ck_reply) go" where
  "forward_sig m C_SignInit = ck_sign_init m"
| "forward_sig m C_Sign = ck_sign m"
| "forward_sig m C_SignUpdate = ck_sign_update m"
| "forward_sig m C_SignFinal = ck_sign_final m"
| "forward_sig m C_VerifyInit = ck_verify_init m"
| "forward_sig m C_Verify = ck_verify m"
| "forward_sig m C_VerifyUpdate = ck_verify_update m"
| "forward_sig m C_VerifyFinal = ck_verify_final m"

definition ck_digest_encrypt_update :: "'m ckModule \<Rightarrow> carg list \<Rightarrow> ('m world, ck_reply) go" where
  "ck_digest_encrypt_update m as = ck_dispatch m (Dual C_DigestEncryptUpdate) as"
definition ck_decrypt_digest_update :: "'m ckModule \<Rightarrow> carg list \<Rightarrow> ('m world, ck_reply) go" where
  "ck_decrypt_digest_update m as = ck_dispatch m (Dual C_DecryptDigestUpdate) as"
definition ck_sign_encrypt_update :: "'m ckModule \<Rightarrow> carg list \<Rightarrow> ('m world, ck_reply) go" where
  "ck_sign_encrypt_update m as = ck_dispatch m (Dual C_SignEncryptUpdate) as"
definition ck_decrypt_verify_update :: "'m ckModule \<Rightarrow> carg list \<Rightarrow> ('m world, ck_reply) go" where
  "ck_decrypt_verify_update m as = ck_dispatch m (Dual C_DecryptVerifyUpdate) as"

primrec forward_dual :: "'m ckModule \<Rightarrow> dual_fn \<Rightarrow> carg list \<Rightarrow> ('m world, ck_reply) go" where
  "forward_dual m C_DigestEncryptUpdate = ck_digest_encrypt_update m"
| "forward_dual m C_DecryptDigestUpdate = ck_decrypt_digest_update m"
| "forward_dual m C_SignEncryptUpdate = ck_sign_encrypt_update m"
| "forward_dual m C_DecryptVerifyUpdate = ck_decrypt_verify_update m"

definition ck_generate_key :: "'m ckModule \<Rightarrow> carg list \<Rightarrow> ('m world, ck_reply) go" where
  "ck_generate_key m as = ck_dispatch m (Key C_GenerateKey) as"
definition ck_generate_key_pair :: "'m ckModule \<Rightarrow> carg list \<Rightarrow> ('m world, ck_reply) go" where
  "ck_generate_key_pair m as = ck_dispatch m (Key C_GenerateKeyPair) as"
definition ck_wrap_key :: "'m ckModule \<Rightarrow> carg list \<Rightarrow> ('m world, ck_reply) go" where
  "ck_wrap_key m as = ck_dispatch m (Key C_WrapKey) as"
definition ck_unwrap_key :: "'m ckModule \<Rightarrow> carg list \<Rightarrow> ('m world, ck_reply) go" where
  "ck_unwrap_key m as = ck_dispatch m (Key C_UnwrapKey) as"
definition ck_derive_key :: "'m ckModule \<Rightarrow> carg list \<Rightarrow> ('m world, ck_reply) go" where
  "ck_derive_key m as = ck_dispatch m (Key C_DeriveKey) as"

primrec forward_key :: "'m ckModule \<Rightarrow> key_fn \<Rightarrow> carg list \<Rightarrow> ('m world, ck_reply) go" where
  "forward_key m C_GenerateKey = ck_generate_key m"
| "forward_key m C_GenerateKeyPair = ck_generate_key_pair m"
| "forward_key m C_WrapKey = ck_wrap_key m"
| "forward_key m C_UnwrapKey = ck_unwrap_key m"
| "forward_key m C_DeriveKey = ck_derive_key m"

definition ck_encapsulate_key :: "'m ckModule \<Rightarrow> carg list \<Rightarrow> ('m world, ck_reply) go" where
  "ck_encapsulate_key m as = ck_dispatch32 m (V32 C_EncapsulateKey) as"
definition ck_decapsulate_key :: "'m ckModule \<Rightarrow> carg list \<Rightarrow> ('m world, ck_reply) go" where
  "ck_decapsulate_key m as = ck_dispatch32 m (V32 C_DecapsulateKey) as"
definition ck_verify_signature_init :: "'m ckModule \<Rightarrow> carg list \<Rightarrow> ('m world, ck_reply) go" where
  "ck_verify_signature_init m as = ck_dispatch32 m (V32 C_VerifySignatureInit) as"
definition ck_verify_signature :: "'m ckModule \<Rightarrow> carg list \<Rightarrow> ('m world, ck_reply) go" where
  "ck_verify_signature m as = ck_dispatch32 m (V32 C_VerifySignature) as"
definition ck_verify_signature_update :: "'m ckModule \<Rightarrow> carg list \<Rightarrow> ('m world, ck_reply) go" where
  "ck_verify_signature_update m as = ck_dispatch32 m (V32 C_VerifySignatureUpdate) as"
definition ck_verify_signature_final :: "'m ckModule \<Rightarrow> carg list \<Rightarrow> ('m world, ck_reply) go" where
  "ck_verify_signature_final m as = ck_dispatch32 m (V32 C_VerifySignatureFinal) as"
definition ck_get_session_validation_flags :: "'m ckModule \<Rightarrow> carg list \<Rightarrow> ('m world, ck_reply) go" where
  "ck_get_session_validation_flags m as = ck_dispatch32 m (V32 C_GetSessionValidationFlags) as"
definition ck_wrap_key_authenticated :: "'m ckModule \<Rightarrow> carg list \<Rightarrow> ('m world, ck_reply) go" where
  "ck_wrap_key_authenticated m as = ck_dispatch32 m (V32 C_WrapKeyAuthenticated) as"
definition ck_unwrap_key_authenticated :: "'m ckModule \<Rightarrow> carg list \<Rightarrow> ('m world, ck_reply) go" where
  "ck_unwrap_key_authenticated m as = ck_dispatch32 m (V32 C_UnwrapKeyAuthenticated) as"

primrec forward_v32 :: "'m ckModule \<Rightarrow> v32_fn \<Rightarrow> carg list \<Rightarrow> ('m world, ck_reply) go" where
  "forward_v32 m C_EncapsulateKey = ck_encapsulate_key m"
| "forward_v32 m C_DecapsulateKey = ck_decapsulate_key m"
| "forward_v32 m C_VerifySignatureInit = ck_verify_signature_init m"
| "forward_v32 m C_VerifySignature = ck_verify_signature m"
| "forward_v32 m C_VerifySignatureUpdate = ck_verify_signature_update m"
| "forward_v32 m C_VerifySignatureFinal = ck_verify_signature_final m"
| "forward_v32 m C_GetSessionValidationFlags = ck_get_session_validation_flags m"
| "forward_v32 m C_WrapKeyAuthenticated = ck_wrap_key_authenticated m"
| "forward_v32 m C_UnwrapKeyAuthenticated = ck_unwrap_key_authenticated m"

text \<open>The function a method calls for an entry point.\<close>

primrec ck :: "'m ckModule \<Rightarrow> ck_fn \<Rightarrow> carg list \<Rightarrow> ('m world, ck_reply) go" where
  "ck m (Life f) = forward_life m f"
| "ck m (Slot f) = forward_slot m f"
| "ck m (Sess f) = forward_sess m f"
| "ck m (Obj f) = forward_obj m f"
| "ck m (Dig f) = forward_dig m f"
| "ck m (Enc f) = forward_enc m f"
| "ck m (Sig f) = forward_sig m f"
| "ck m (Dual f) = forward_dual m f"
| "ck m (Key f) = forward_key m f"
| "ck m (V32 f) = forward_v32 m f"

lemmas forwarder_defs = ck_initialize_def ck_finalize_def ck_get_info_def ck_get_slot_list_def ck_get_slot_info_def
  ck_get_token_info_def ck_get_mechanism_list_def ck_get_mechanism_info_def ck_init_token_def ck_init_pin_def
  ck_set_pin_def ck_wait_for_slot_event_def ck_open_session_def ck_close_session_def ck_close_all_sessions_def
  ck_get_session_info_def ck_login_def ck_logout_def ck_get_operation_state_def ck_set_operation_state_def
  ck_create_object_def ck_copy_object_def ck_destroy_object_def ck_get_object_size_def
  ck_get_attribute_value_def ck_set_attribute_value_def ck_find_objects_init_def ck_find_objects_def
  ck_find_objects_final_def ck_seed_random_def ck_generate_random_def ck_digest_init_def ck_digest_def
  ck_digest_update_def ck_digest_key_def ck_digest_final_def ck_encrypt_init_def ck_encrypt_def
  ck_encrypt_update_def ck_encrypt_final_def ck_decrypt_init_def ck_decrypt_def ck_decrypt_update_def
  ck_decrypt_final_def ck_sign_init_def ck_sign_def ck_sign_update_def ck_sign_final_def ck_verify_init_def
  ck_verify_def ck_verify_update_def ck_verify_final_def ck_digest_encrypt_update_def
  ck_decrypt_digest_update_def ck_sign_encrypt_update_def ck_decrypt_verify_update_def ck_generate_key_def
  ck_generate_key_pair_def ck_wrap_key_def ck_unwrap_key_def ck_derive_key_def ck_encapsulate_key_def
  ck_decapsulate_key_def ck_verify_signature_init_def ck_verify_signature_def ck_verify_signature_update_def
  ck_verify_signature_final_def ck_get_session_validation_flags_def ck_wrap_key_authenticated_def
  ck_unwrap_key_authenticated_def

text \<open>How a method uses the reply: an error only, a scalar the module stored (zero if it stored
  none), or a callback for \<open>outOp\<close>.\<close>

definition err_only :: "ck_reply \<Rightarrow> goerror + unit" where
  "err_only r = (case toError (rv r) of Some e \<Rightarrow> Inl e | None \<Rightarrow> Inr ())"

definition stored :: "nat \<Rightarrow> ck_reply \<Rightarrow> uint" where
  "stored i r = (if i < length (ohandles r) then ohandles r ! i else 0)"

definition handle :: "ck_reply \<Rightarrow> goerror + uint" where
  "handle r = (case toError (rv r) of Some e \<Rightarrow> Inl e | None \<Rightarrow> Inr (stored 0 r))"

definition ck_then :: "(ck_reply \<Rightarrow> goerror + 'a) \<Rightarrow> 'm ckModule \<Rightarrow> ck_fn \<Rightarrow> carg list \<Rightarrow> ('m world, goerror + 'a) go" where
  "ck_then k m f as = go_bind (ck m f as) (\<lambda>r. go_ret (k r))"

definition ck_out :: "'m ckModule \<Rightarrow> ck_fn \<Rightarrow> carg list \<Rightarrow> 'm out_call" where
  "ck_out m f as out outLen = go_bind (ck m f (as @ [AOut out outLen])) (\<lambda>r. go_ret (rv r, olen r))"

section \<open>Which list serves a call\<close>

text \<open>The functions that exist from version 3.2 on.\<close>

fun is_v32 :: "ck_fn \<Rightarrow> bool" where
  "is_v32 (V32 f) \<longleftrightarrow> True"
| "is_v32 f \<longleftrightarrow> False"

lemma ck_dispatches: "ck m f = (if is_v32 f then ck_dispatch32 m f else ck_dispatch m f)"
proof (rule ext)
  fix as
  show "ck m f as = (if is_v32 f then ck_dispatch32 m f else ck_dispatch m f) as"
  proof (cases f)
    case (Life x) then show ?thesis by (cases x) (simp_all add: forwarder_defs)
  next
    case (Slot x) then show ?thesis by (cases x) (simp_all add: forwarder_defs)
  next
    case (Sess x) then show ?thesis by (cases x) (simp_all add: forwarder_defs)
  next
    case (Obj x) then show ?thesis by (cases x) (simp_all add: forwarder_defs)
  next
    case (Dig x) then show ?thesis by (cases x) (simp_all add: forwarder_defs)
  next
    case (Enc x) then show ?thesis by (cases x) (simp_all add: forwarder_defs)
  next
    case (Sig x) then show ?thesis by (cases x) (simp_all add: forwarder_defs)
  next
    case (Dual x) then show ?thesis by (cases x) (simp_all add: forwarder_defs)
  next
    case (Key x) then show ?thesis by (cases x) (simp_all add: forwarder_defs)
  next
    case (V32 x) then show ?thesis by (cases x) (simp_all add: forwarder_defs)
  qed
qed

declare ck.simps [simp del]

text \<open>The function list a call reaches, or the error it gets without one.\<close>

definition served :: "'m ckModule \<Rightarrow> ck_fn \<Rightarrow> uint + 'm native" where
  "served m f = (if fns m = None then Inl CKR_CRYPTOKI_NOT_INITIALIZED
     else if is_v32 f then (case fns32 m of None \<Rightarrow> Inl CKR_FUNCTION_NOT_SUPPORTED | Some N \<Rightarrow> Inr N)
     else Inr (the (CK_FNS m)))"

definition abs_ck :: "'m ckModule \<Rightarrow> ck_fn \<Rightarrow> cview list \<Rightarrow> ('m, ck_reply) protocol" where
  "abs_ck m f vs = (case served m f of Inl r \<Rightarrow> abs_ret (reply0 r) | Inr N \<Rightarrow> abs_call N f vs)"

lemma served_conforming:
  "wf w \<Longrightarrow> modl w = Some m \<Longrightarrow> served m f = Inr N \<Longrightarrow> conforming N"
  by (auto simp: wf_def module_ok_def served_def CK_FNS_def split: if_splits option.splits)

lemma ck_run:
  "ck m f as = (case served m f of Inl r \<Rightarrow> go_ret (reply0 r) | Inr N \<Rightarrow> native_call N f as)"
  by (auto simp: ck_dispatches ck_dispatch_def ck_dispatch32_def served_def CK_FNS_def fun_eq_iff split: option.splits)

section \<open>Contracts of calls\<close>

definition sees :: "carg list \<Rightarrow> cview list \<Rightarrow> 'm world \<Rightarrow> bool" where
  "sees as vs w \<longleftrightarrow> those (map (view_arg (hp w)) as) = Some vs"

lemma sees_Nil [simp]: "sees [] vs w \<longleftrightarrow> vs = []"
  by (auto simp: sees_def)

lemma sees_Cons [simp]:
  "sees (a # as) vs w \<longleftrightarrow> (\<exists>v vs'. view_arg (hp w) a = Some v \<and> sees as vs' w \<and> vs = v # vs')"
  by (auto simp: sees_def split: option.splits)

lemma view_simps [simp]:
  "view_arg h (AULong u) = Some (SULong u)" "view_arg h ARef = Some SRef"
  "view_arg h (AArr b n) = Some (SArr b n)" "view_arg h (AOut Null n) = Some (SOut False n)"
  by (simp_all add: view_arg.simps)

lemma view_AOut: "mem h a = Some (CBytes b) \<Longrightarrow> unat n \<le> length b \<Longrightarrow>
    view_arg h (AOut (Ptr a) n) = Some (SOut True n)"
  by (simp add: view_arg.simps)

text \<open>Arguments that give the module nothing to write to.\<close>

fun input_arg :: "carg \<Rightarrow> bool" where
  "input_arg (AOut p n) \<longleftrightarrow> False"
| "input_arg (AAttrs p n) \<longleftrightarrow> False"
| "input_arg a \<longleftrightarrow> True"

lemma input_args:
  assumes "list_all input_arg as"
  shows "out_ptr as = Null" "attrs_ptr as = Null" "args_cap as = 0"
    "out_ptr (as @ [AOut p n]) = p" "attrs_ptr (as @ [AOut p n]) = Null"
    "args_cap (as @ [AOut p n]) = (if p \<noteq> Null then unat n else 0)"
proof -
  have "out_ptr as = Null \<and> attrs_ptr as = Null \<and> args_cap as = 0 \<and>
    out_ptr (as @ [AOut p n]) = p \<and> attrs_ptr (as @ [AOut p n]) = Null \<and>
    args_cap (as @ [AOut p n]) = (if p \<noteq> Null then unat n else 0)"
    using assms
  proof (induction as)
    case (Cons a as) then show ?case by (cases a) auto
  qed simp
  then show "out_ptr as = Null" "attrs_ptr as = Null" "args_cap as = 0"
    "out_ptr (as @ [AOut p n]) = p" "attrs_ptr (as @ [AOut p n]) = Null"
    "args_cap (as @ [AOut p n]) = (if p \<noteq> Null then unat n else 0)" by simp_all
qed

lemma sees_append: "sees as us w \<Longrightarrow> sees bs us' w \<Longrightarrow> sees (as @ bs) (us @ us') w"
  by (induction as arbitrary: us) auto

lemma ck_silent_refines:
  assumes io: "out_ptr as = Null" "attrs_ptr as = Null" "args_cap as = 0"
    and "\<And>w. P w \<Longrightarrow> modl w = Some m" and "\<And>w. P w \<Longrightarrow> sees as vs w"
  shows "refines S P (ck m f as) (abs_ck m f vs)"
proof (cases "served m f")
  case (Inl r)
  then show ?thesis by (simp add: ck_run abs_ck_def refines_ret)
next
  case (Inr N)
  show ?thesis
  proof (rule refinesI)
    fix w :: "'a world" assume w: "wf w" "P w"
    have N: "conforming N" by (rule served_conforming [OF w(1) assms(4) [OF w(2)] Inr])
    have vs: "those (map (view_arg (hp w)) as) = Some vs" using assms(5) [OF w(2)] by (simp add: sees_def)
    obtain r ms where c: "N (nat_st w) (Call f vs) = (r, ms)"
      "native_call N f as w = (Ret r, w\<lparr>nat_st := ms, calls := calls w @ [Call f vs], at_calls := at_calls w @ [(readers w, writer w, waiters w)]\<rparr>)"
      using native_call_pure [OF N vs io] by blast
    have "frame S w (w\<lparr>nat_st := ms, calls := calls w @ [Call f vs], at_calls := at_calls w @ [(readers w, writer w, waiters w)]\<rparr>)"
      by (simp add: frame_def ext_def)
    moreover have "(r, nview (w\<lparr>nat_st := ms, calls := calls w @ [Call f vs], at_calls := at_calls w @ [(readers w, writer w, waiters w)]\<rparr>)) \<in> abs_ck m f vs (nview w)"
      using c(1) by (simp add: abs_ck_def Inr abs_call_in nview_def)
    ultimately show "(\<exists>x w'. ck m f as w = (Ret x, w') \<and> frame S w w' \<and> (x, nview w') \<in> abs_ck m f vs (nview w)) \<or>
        (\<exists>e w'. ck m f as w = (Crash e, w') \<and> oom w)"
      using c(2) by (simp add: ck_run Inr)
  qed
qed

lemma ck_refines:
  assumes "list_all input_arg as" and "\<And>w. P w \<Longrightarrow> modl w = Some m" and "\<And>w. P w \<Longrightarrow> sees as vs w"
  shows "refines S P (ck m f as) (abs_ck m f vs)"
  by (rule ck_silent_refines [OF input_args(1-3) [OF assms(1)] assms(2,3)])

text \<open>Whatever answers, the answer fits the arguments.\<close>

lemma reply0_fits [simp]: "fits vs (reply0 r)"
proof -
  have "arr_fits [] v" for v by (cases v) simp_all
  then show ?thesis by (simp add: fits_def reply0_def list_all_iff)
qed

lemma abs_ck_fits:
  assumes "wf w" and "modl w = Some m" and "(r, s') \<in> abs_ck m f vs s"
  shows "fits vs r"
proof (cases "served m f")
  case (Inl e) then show ?thesis using assms(3) by (simp add: abs_ck_def)
next
  case (Inr N)
  have "conforming N" by (rule served_conforming [OF assms(1,2) Inr])
  then show ?thesis using assms(3) by (auto simp: abs_ck_def Inr abs_call_in dest: conformingD)
qed

definition abs_then :: "(ck_reply \<Rightarrow> goerror + 'a) \<Rightarrow> 'm ckModule \<Rightarrow> ck_fn \<Rightarrow> cview list \<Rightarrow> ('m, goerror + 'a) protocol" where
  "abs_then k m f vs = abs_bind (abs_ck m f vs) (\<lambda>r. abs_ret (k r))"

lemma ck_then_refines:
  assumes "stable P" "list_all input_arg as" and "\<And>w. P w \<Longrightarrow> modl w = Some m" and "\<And>w. P w \<Longrightarrow> sees as vs w"
  shows "refines S P (ck_then k m f as) (abs_then k m f vs)"
  unfolding ck_then_def abs_then_def
  by (rule refines_bind [OF assms(1) ck_refines [OF assms(2-4)] refines_ret]) assumption+

definition abs_out :: "'m ckModule \<Rightarrow> ck_fn \<Rightarrow> cview list \<Rightarrow> 'm abs_out" where
  "abs_out m f vs b n = abs_bind (abs_ck m f (vs @ [SOut b n]))
     (\<lambda>r. abs_ret (rv r, olen r, if b then obytes r else []))"

lemma abs_outI:
  "(r, s') \<in> abs_ck m f (vs @ [SOut b n]) s \<Longrightarrow>
     ((rv r, olen r, if b then obytes r else []), s') \<in> abs_out m f vs b n s"
  unfolding abs_out_def by (rule abs_bindI) auto

text \<open>A call with an output buffer writes into that block, and nowhere else.\<close>

lemma ck_writes:
  fixes w :: "'m world"
  assumes w: "wf w" and md: "modl w = Some m" and io: "list_all input_arg as" and vs: "sees as vs w"
    and x: "mem (hp w) x = Some (CBytes b)" and n: "unat n \<le> length b"
  obtains r w' where "ck m f (as @ [AOut (Ptr x) n]) w = (Ret r, w')" "length (obytes r) \<le> unat n"
    "mem (hp w') = (mem (hp w))(x \<mapsto> CBytes (obytes r @ drop (length (obytes r)) b))"
    "frame S w (w'\<lparr>hp := (hp w')\<lparr>mem := mem (hp w)\<rparr>\<rparr>)"
    "(r, nview w') \<in> abs_ck m f (vs @ [SOut True n]) (nview w)"
proof (cases "served m f")
  case (Inl r)
  show thesis
    by (rule that [of "reply0 r" w]) (use x in \<open>simp_all add: ck_run abs_ck_def Inl go_run reply0_def fun_upd_idem\<close>)
next
  case (Inr N)
  note a = input_args [OF io]
  have N: "conforming N" by (rule served_conforming [OF w md Inr])
  have sv: "those (map (view_arg (hp w)) (as @ [AOut (Ptr x) n])) = Some (vs @ [SOut True n])"
    unfolding sees_def [symmetric] by (rule sees_append [OF vs]) (simp add: view_AOut [OF x n])
  have cap: "args_cap (as @ [AOut (Ptr x) n]) \<le> length b" using a(6) [of "Ptr x" n] n by simp
  obtain r ms where c: "N (nat_st w) (Call f (vs @ [SOut True n])) = (r, ms)"
    "length (obytes r) \<le> args_cap (as @ [AOut (Ptr x) n])"
    "native_call N f (as @ [AOut (Ptr x) n]) w =
      (Ret r, w\<lparr>nat_st := ms, calls := calls w @ [Call f (vs @ [SOut True n])],
        at_calls := at_calls w @ [(readers w, writer w, waiters w)],
        hp := (hp w)\<lparr>mem := (mem (hp w))(x \<mapsto> CBytes (obytes r @ drop (length (obytes r)) b))\<rparr>\<rparr>)"
    using native_call_out [OF N sv a(4,5) x cap] by blast
  show thesis
  proof (rule that)
    show "ck m f (as @ [AOut (Ptr x) n]) w = (Ret r, w\<lparr>nat_st := ms, calls := calls w @ [Call f (vs @ [SOut True n])],
        at_calls := at_calls w @ [(readers w, writer w, waiters w)],
        hp := (hp w)\<lparr>mem := (mem (hp w))(x \<mapsto> CBytes (obytes r @ drop (length (obytes r)) b))\<rparr>\<rparr>)"
      using c(3) by (simp add: ck_run Inr)
  qed (use c a(6) [of "Ptr x" n] in \<open>simp_all add: frame_def ext_def abs_ck_def Inr abs_call_in nview_def\<close>)
qed

text \<open>A call whose output pointer is \<open>NULL\<close> only asks for a size.\<close>

lemma ck_sizing_refines:
  fixes P :: "'m world \<Rightarrow> bool"
  assumes io: "list_all input_arg as" and md: "\<And>w. P w \<Longrightarrow> modl w = Some m"
    and vs: "\<And>w. P w \<Longrightarrow> sees as vs w"
  shows "refines S P (ck m f (as @ [AOut Null n])) (abs_ck m f (vs @ [SOut False n]))"
proof (rule ck_silent_refines)
  note a = input_args [OF io]
  show "out_ptr (as @ [AOut Null n]) = Null" "attrs_ptr (as @ [AOut Null n]) = Null" "args_cap (as @ [AOut Null n]) = 0"
    using a by simp_all
  show "sees (as @ [AOut Null n]) (vs @ [SOut False n]) w" if "P w" for w :: "'m world"
    by (rule sees_append [OF vs [OF that]]) simp
qed (rule md)


lemma ck_no_crash: "ck m f as w \<noteq> (Crash e, w')"
  by (auto simp: ck_run go_run native_call_def Let_def split: sum.splits option.splits prod.splits)

lemma ck_out_refines:
  fixes P :: "'m world \<Rightarrow> bool"
  assumes io: "list_all input_arg as" and md: "\<And>w. P w \<Longrightarrow> modl w = Some m"
    and vs: "\<And>w. P w \<Longrightarrow> sees as vs w"
  shows "out_refines S P (ck_out m f as) (abs_out m f vs)"
  unfolding out_refines_def
proof (intro conjI allI impI)
  fix w :: "'m world" assume w: "wf w" "P w"
  have "refines S P (ck m f (as @ [AOut Null 0])) (abs_ck m f (vs @ [SOut False 0]))"
    by (rule ck_sizing_refines [OF io md vs])
  from refinesE [OF this w] show "\<exists>rv n w'. ck_out m f as Null 0 w = (Ret (rv, n), w') \<and> frame S w w' \<and>
      ((rv, n, []), nview w') \<in> abs_out m f vs False 0 (nview w)"
  proof cases
    case (1 r w')
    from abs_outI [OF 1(3)] 1 show ?thesis by (simp add: ck_out_def go_run)
  next
    case (2 e w')
    then show ?thesis using ck_no_crash by blast
  qed
next
  fix w :: "'m world" and x b and n :: uint
  assume w: "wf w" "P w" and x: "mem (hp w) x = Some (CBytes b)" and n: "unat n \<le> length b"
  obtain r w' where c: "ck m f (as @ [AOut (Ptr x) n]) w = (Ret r, w')" "length (obytes r) \<le> unat n"
    "mem (hp w') = (mem (hp w))(x \<mapsto> CBytes (obytes r @ drop (length (obytes r)) b))"
    "frame S w (w'\<lparr>hp := (hp w')\<lparr>mem := mem (hp w)\<rparr>\<rparr>)"
    "(r, nview w') \<in> abs_ck m f (vs @ [SOut True n]) (nview w)"
    by (rule ck_writes [OF w(1) md [OF w(2)] io vs [OF w(2)] x n])
  have "((rv r, olen r, obytes r), nview w') \<in> abs_out m f vs True n (nview w)"
    using abs_outI [OF c(5)] by simp
  then show "\<exists>rv n' bs w'. ck_out m f as (Ptr x) n w = (Ret (rv, n'), w') \<and> length bs \<le> unat n \<and>
     mem (hp w') = (mem (hp w))(x \<mapsto> CBytes (bs @ drop (length bs) b)) \<and>
     frame S w (w'\<lparr>hp := (hp w')\<lparr>mem := mem (hp w)\<rparr>\<rparr>) \<and>
     ((rv, n', bs), nview w') \<in> abs_out m f vs True n (nview w)"
    using c by (intro exI [of _ "rv r"] exI [of _ "olen r"] exI [of _ "obytes r"] exI [of _ w'])
      (simp add: ck_out_def go_run)
qed

end
