(* ===== verification/Ctx.thy ===== *)
theory Ctx
  imports Shim
begin

text \<open>
  \<^verbatim>\<open>cryptoki/binding.go\<close> and \<^verbatim>\<open>cryptoki/lifecycle.go\<close>: the module handle \<open>Ctx\<close> with its lock, and
  its life cycle.  The lock is \<open>sync.RWMutex\<close>; taken by one goroutine at a time here, an acquisition
  that would have to wait is a \<open>Fault\<close> (the theories \<open>Locking\<close> and \<open>Concurrent\<close> treat the concurrent case).  Every
  method starts with \<open>grab\<close> and ends by releasing the read lock: \<open>with_ctx\<close>.
\<close>

section \<open>The lock\<close>

definition RLock :: "('m world, unit) go" where
  "RLock = (\<lambda>w. if writer w then (Fault ''deadlock'', w) else (Ret (), w\<lparr>readers := readers w + 1\<rparr>))"

definition RUnlock :: "('m world, unit) go" where
  "RUnlock = (\<lambda>w. if readers w = 0 then (Fault ''sync: RUnlock of unlocked RWMutex'', w)
     else (Ret (), w\<lparr>readers := readers w - 1\<rparr>))"

definition Lock :: "('m world, unit) go" where
  "Lock = (\<lambda>w. if writer w \<or> readers w > 0 then (Fault ''deadlock'', w) else (Ret (), w\<lparr>writer := True\<rparr>))"

definition Unlock :: "('m world, unit) go" where
  "Unlock = (\<lambda>w. if \<not> writer w then (Fault ''sync: Unlock of unlocked RWMutex'', w)
     else (Ret (), w\<lparr>writer := False\<rparr>))"

definition grab :: "('m world, goerror + 'm ckModule) go" where
  "grab = go_bind RLock (\<lambda>_. go_bind (go_gets modl) (\<lambda>m. case m of
      None \<Rightarrow> go_bind RUnlock (\<lambda>_. go_ret (Inl ErrClosed))
    | Some m \<Rightarrow> go_ret (Inr m)))"

definition with_ctx :: "('m ckModule \<Rightarrow> ('m world, goerror + 'a) go) \<Rightarrow> ('m world, goerror + 'a) go" where
  "with_ctx body = go_try_scoped grab (\<lambda>m. RUnlock) body"

text \<open>Methods that take the write lock.\<close>

definition with_lock :: "('m ckModule \<Rightarrow> ('m world, goerror + 'a) go) \<Rightarrow> ('m world, goerror + 'a) go" where
  "with_lock body = go_bind Lock (\<lambda>_. go_defer Unlock (go_bind (go_gets modl) (\<lambda>m. case m of
      None \<Rightarrow> go_ret (Inl ErrClosed) | Some m \<Rightarrow> body m)))"

section \<open>Life cycle\<close>

definition IsAbs :: "string \<Rightarrow> bool" where
  "IsAbs path \<longleftrightarrow> (\<exists>p. path = CHR ''/'' # p)"

lemma IsAbs_code [code]: "IsAbs path \<longleftrightarrow> (case path of [] \<Rightarrow> False | c # p \<Rightarrow> c = CHR ''/'')"
  by (cases path) (auto simp: IsAbs_def)

definition cstring :: "string \<Rightarrow> byte list" where
  "cstring s = map of_char s @ [0]"

definition New :: "'m linker \<Rightarrow> string \<Rightarrow> ('m world, goerror + unit) go" where
  "New ld path =
     (if \<not> IsAbs path then go_ret (Inl (Errf (''cryptoki: module path must be absolute, got '' @ path) []))
      else go_scoped (cgo_CBytes (cstring path)) (\<lambda>p. heap_op ''free'' (c_free p)) (\<lambda>p.
        go_bind (ck_load ld path) (\<lambda>r. case r of
          Inl (r, errbuf) \<Rightarrow> (let reason = if errbuf = [] then ''could not load module'' else errbuf in
            go_ret (Inl (Errf (''cryptoki: loading '' @ path @ '': '' @ reason) [])))
        | Inr m \<Rightarrow> go_bind (go_modify (\<lambda>w. w\<lparr>modl := Some m\<rparr>)) (\<lambda>_. go_ret (Inr ())))))"

text \<open>\<open>waiters.Wait()\<close> blocks while a waiter is parked.\<close>

definition waiters_Wait :: "('m world, unit) go" where
  "waiters_Wait = (\<lambda>w. if waiters w > 0 then (Fault ''deadlock'', w) else (Ret (), w))"

definition Destroy :: "('m world, unit) go" where
  "Destroy = go_bind Lock (\<lambda>_. go_defer Unlock (go_bind (go_gets modl) (\<lambda>m. case m of
      None \<Rightarrow> go_ret ()
    | Some m \<Rightarrow> go_bind waiters_Wait (\<lambda>_. go_bind (ck_unload m) (\<lambda>_.
        go_modify (\<lambda>w. w\<lparr>modl := None\<rparr>))))))"

definition SupportsV32 :: "('m world, bool) go" where
  "SupportsV32 = go_bind RLock (\<lambda>_. go_defer RUnlock (go_bind (go_gets modl) (\<lambda>m.
     go_ret (case m of None \<Rightarrow> False | Some m \<Rightarrow> ck_has_v32 m))))"

definition InitializeWithFlags :: "uint \<Rightarrow> ('m world, goerror + unit) go" where
  "InitializeWithFlags flags = with_lock (\<lambda>m. ck_then err_only m (Life C_Initialize) [AULong flags])"

definition Initialize :: "('m world, goerror + unit) go" where
  "Initialize = InitializeWithFlags CKF_OS_LOCKING_OK"

definition Finalize :: "('m world, goerror + unit) go" where
  "Finalize = with_lock (\<lambda>m. ck_then err_only m (Life C_Finalize) [])"

section \<open>Information about the library\<close>

definition trim_right :: "(byte \<Rightarrow> bool) \<Rightarrow> byte list \<Rightarrow> byte list" where
  "trim_right p b = rev (dropWhile p (rev b))"

text \<open>\<open>goPaddedString\<close>: trailing spaces and NULs are removed.\<close>

definition goPaddedString :: "byte list \<Rightarrow> byte list" where
  "goPaddedString b = trim_right (\<lambda>x. x = 32 \<or> x = 0) b"

record Info =
  info_CryptokiVersion :: Version
  info_ManufacturerID :: "byte list"
  info_Flags :: uint
  info_LibraryDescription :: "byte list"
  info_LibraryVersion :: Version

definition zero_ck_info :: ck_info where
  "zero_ck_info = \<lparr>cryptokiVersion = Version 0 0, manufacturerID = replicate 32 0, iflags = 0,
     libraryDescription = replicate 32 0, libraryVersion = Version 0 0\<rparr>"

definition info_of :: "cinfo \<Rightarrow> ck_info" where
  "info_of i = (case i of Info x \<Rightarrow> x | _ \<Rightarrow> zero_ck_info)"

definition go_info :: "ck_reply \<Rightarrow> goerror + Info" where
  "go_info r = (case toError (rv r) of Some e \<Rightarrow> Inl e | None \<Rightarrow>
     (let ci = info_of (oinfo r) in Inr \<lparr>info_CryptokiVersion = cryptokiVersion ci,
        info_ManufacturerID = goPaddedString (manufacturerID ci), info_Flags = iflags ci,
        info_LibraryDescription = goPaddedString (libraryDescription ci),
        info_LibraryVersion = libraryVersion ci\<rparr>))"

definition GetInfo :: "('m world, goerror + Info) go" where
  "GetInfo = with_ctx (\<lambda>m. ck_then go_info m (Life C_GetInfo) [])"

text \<open>\<open>Wipe\<close> overwrites the slice in place; the slice is returned here.\<close>

definition Wipe :: "byte list \<Rightarrow> byte list" where
  "Wipe b = map (\<lambda>x. 0) b"

section \<open>The contract of the lock\<close>

definition ctx_error :: "'m ckModule option \<Rightarrow> goerror option" where
  "ctx_error md = (case md of None \<Rightarrow> Some ErrClosed | Some m \<Rightarrow> None)"

lemma frame_readers:
  assumes "frame S (w\<lparr>readers := readers w + 1\<rparr>) v"
  shows "frame S w (v\<lparr>readers := readers v - 1\<rparr>)" "readers v = readers w + 1"
  using assms by (auto simp: frame_def ext_def)

interpretation ctx: scoped_try S "\<lambda>w. modl w = md" "ctx_error md" grab "\<lambda>m. RUnlock"
    "\<lambda>m w. modl w = Some m" for S md
proof (unfold_locales, goal_cases)
  case (1 w e)
  then show ?case
    by (auto simp: ctx_error_def grab_def RLock_def RUnlock_def go_run wf_def split: option.splits)
next
  case (2 w)
  then show ?case
    by (auto simp: ctx_error_def grab_def RLock_def RUnlock_def go_run wf_def split: option.splits)
next
  case (3 w x w')
  then show ?case
    by (auto simp: grab_def RLock_def RUnlock_def go_run wf_def ext_def silent_def nview_def split: option.splits)
next
  case (4 w x w' v)
  then have "w' = w\<lparr>readers := readers w + 1\<rparr>"
    by (auto simp: grab_def RLock_def RUnlock_def go_run wf_def split: option.splits)
  then show ?case using frame_readers [of S w v] 4(4)
    by (simp add: RUnlock_def silent_def nview_def)
qed

definition abs_ctx :: "'m ckModule option \<Rightarrow> ('m ckModule \<Rightarrow> ('m, goerror + 'a) protocol) \<Rightarrow> ('m, goerror + 'a) protocol" where
  "abs_ctx md f = (case md of None \<Rightarrow> abs_ret (Inl ErrClosed) | Some m \<Rightarrow> f m)"

lemma with_ctx_refines:
  assumes "stable P" and "\<And>w. P w \<Longrightarrow> modl w = md"
    and "\<And>m. md = Some m \<Longrightarrow> refines S P (body m) (f m)"
  shows "refines S P (with_ctx body) (abs_ctx md f)"
proof -
  have "refines S (\<lambda>w. P w \<and> modl w = Some x) (body x) (case md of None \<Rightarrow> abs_ret (Inl ErrClosed) | Some m \<Rightarrow> f m)" for x
  proof (cases "md = Some x")
    case True
    have "refines S (\<lambda>w. P w \<and> modl w = Some x) (body x) (f x)"
      by (rule refines_pre [OF assms(3) [OF True]]) simp
    then show ?thesis using True by simp
  next
    case False
    then show ?thesis using assms(2) by (auto simp: refines_def)
  qed
  from ctx.refines_scope [OF assms(1) this assms(2)] show ?thesis
    unfolding with_ctx_def abs_ctx_def by (cases md) (simp_all add: ctx_error_def)
qed

lemma writer_restore [simp]: "\<not> writer w \<Longrightarrow> w\<lparr>writer := False\<rparr> = w"
  by (cases w) simp

text \<open>The write lock: nobody else may be reading.\<close>

lemma with_lock_refines:
  assumes "stable P" and "\<And>w. P w \<Longrightarrow> modl w = md"
    and "\<And>m w. md = Some m \<Longrightarrow> wf w \<Longrightarrow> P w \<Longrightarrow> \<exists>x w'. body m (w\<lparr>writer := True\<rparr>) = (Ret x, w'\<lparr>writer := True\<rparr>) \<and>
       \<not> writer w' \<and> frame S w w' \<and> (x, nview w') \<in> f m (nview w)"
  shows "refines S (\<lambda>w. P w \<and> readers w = 0) (with_lock body) (abs_ctx md f)"
proof (rule refinesI)
  fix w assume w: "wf w" "P w \<and> readers w = 0"
  then have l: "Lock w = (Ret (), w\<lparr>writer := True\<rparr>)" "modl w = md" "\<not> writer w"
    using assms(2) by (auto simp: Lock_def wf_def)
  show "(\<exists>x w'. with_lock body w = (Ret x, w') \<and> frame S w w' \<and> (x, nview w') \<in> abs_ctx md f (nview w)) \<or>
     (\<exists>e w'. with_lock body w = (Crash e, w') \<and> oom w)"
  proof (cases md)
    case None
    then show ?thesis using l by (simp add: with_lock_def go_run abs_ctx_def Unlock_def)
  next
    case (Some m)
    obtain x w' where b: "body m (w\<lparr>writer := True\<rparr>) = (Ret x, w'\<lparr>writer := True\<rparr>)" "\<not> writer w'"
       "frame S w w'" "(x, nview w') \<in> f m (nview w)"
      using assms(3) [OF Some w(1)] w(2) by blast
    then show ?thesis using l Some
      by (simp add: with_lock_def go_run abs_ctx_def Unlock_def)
  qed
qed

text \<open>A call without output memory under the write lock.\<close>

lemma ck_then_locked:
  assumes "wf w" and "modl w = Some m" and "list_all input_arg as" and "sees as vs w"
  shows "\<exists>x w'. ck_then k m f as (w\<lparr>writer := True\<rparr>) = (Ret x, w'\<lparr>writer := True\<rparr>) \<and>
    \<not> writer w' \<and> frame S w w' \<and> (x, nview w') \<in> abs_then k m f vs (nview w)"
proof (cases "served m f")
  case (Inl r)
  have "(k (reply0 r), nview w) \<in> abs_then k m f vs (nview w)"
    by (auto simp: abs_then_def abs_ck_def Inl intro: abs_bindI)
  then show ?thesis using assms(1) Inl
    by (intro exI [of _ "k (reply0 r)"] exI [of _ w]) (simp add: ck_then_def ck_run go_run wf_def)
next
  case (Inr N)
  have N: "conforming N" by (rule served_conforming [OF assms(1,2) Inr])
  let ?w = "w\<lparr>writer := True\<rparr>"
  have vs: "those (map (view_arg (hp ?w)) as) = Some vs" using assms(4) by (simp add: sees_def)
  note io = input_args [OF assms(3)]
  obtain r ms where c: "N (nat_st ?w) (Call f vs) = (r, ms)"
    "native_call N f as ?w = (Ret r, ?w\<lparr>nat_st := ms, calls := calls ?w @ [Call f vs],
      at_calls := at_calls ?w @ [(readers ?w, writer ?w, waiters ?w)]\<rparr>)"
    using native_call_pure [OF N vs io(1,2,3), of f] by blast
  let ?v = "w\<lparr>nat_st := ms, calls := calls w @ [Call f vs], at_calls := at_calls w @ [(readers w, True, waiters w)]\<rparr>"
  have "(r, nview ?v) \<in> abs_ck m f vs (nview w)"
    using c(1) by (simp add: abs_ck_def Inr abs_call_in nview_def)
  then have "(k r, nview ?v) \<in> abs_then k m f vs (nview w)"
    unfolding abs_then_def by (rule abs_bindI) simp
  moreover have "frame S w ?v" by (simp add: frame_def ext_def)
  ultimately show ?thesis using c(2) assms(1) Inr
    by (intro exI [of _ "k r"] exI [of _ ?v]) (simp add: ck_then_def ck_run go_run wf_def)
qed

lemma locked_call_refines:
  fixes md :: "'m ckModule option"
  assumes "list_all input_arg as" and "\<And>w :: 'm world. sees as vs w"
  shows "refines S (\<lambda>w. modl w = md \<and> readers w = 0) (with_lock (\<lambda>m. ck_then k m f as))
     (abs_ctx md (\<lambda>m. abs_then k m f vs))"
proof (rule with_lock_refines [OF stable_modl])
  fix m and w :: "'m world" assume "md = Some m" and w: "wf w" "modl w = md"
  then have "modl w = Some m" by simp
  from ck_then_locked [OF w(1) this assms]
  show "\<exists>x w'. ck_then k m f as (w\<lparr>writer := True\<rparr>) = (Ret x, w'\<lparr>writer := True\<rparr>) \<and>
    \<not> writer w' \<and> frame S w w' \<and> (x, nview w') \<in> abs_then k m f vs (nview w)" .
qed simp

end
