(* ===== verification/Rules.thy ===== *)
theory Rules
  imports Ctx
begin

text \<open>
  The contract rules for the idioms the methods of \<open>Ctx\<close> are made of, each resting on the
  interpretation of the resource it uses: an input copied and scrubbed or just released, an optional
  input, a template, a mechanism, a plain call, a call that returns data.  With them a method's
  contract follows from its definition; \<open>refine_op\<close> collects them.
\<close>

named_theorems refine_op \<open>contract rules for the idioms of a method\<close>

lemma refines_cInput [refine_op]:
  fixes body :: "ptr \<Rightarrow> uint \<Rightarrow> ('m world, goerror + 'a) go"
  assumes "stable P" and "fits64 b"
    and "\<And>p n. refines (released pub) (\<lambda>w. P w \<and> view_arg (hp w) (AIn p n) = Some (data_view b)) (body p n) f"
  shows "refines (released pub) P (go_scoped (cInput b) (\<lambda>(p, n). zfree p n) (\<lambda>(p, n). body p n)) f"
  by (rule cInput.refines_scope_plain [OF assms(1)]) (use assms(2,3) in auto)

lemma refines_cInput_plain [refine_op]:
  fixes body :: "ptr \<Rightarrow> uint \<Rightarrow> ('m world, goerror + 'a) go"
  assumes "stable P" and "b \<in> pub"
    and "\<And>p n. refines (released pub) (\<lambda>w. P w \<and> view_arg (hp w) (AIn p n) = Some (data_view b)) (body p n) f"
  shows "refines (released pub) P (go_scoped (cInput b) (\<lambda>(p, n). free p) (\<lambda>(p, n). body p n)) f"
  by (rule cInput_plain.refines_scope_plain [OF assms(1)]) (use assms(2,3) in auto)

lemma refines_cBytes [refine_op]:
  fixes body :: "ptr \<Rightarrow> uint \<Rightarrow> ('m world, goerror + 'a) go"
  assumes "stable P" and "fits64 b"
    and "\<And>p n. refines (released pub) (\<lambda>w. P w \<and> view_arg (hp w) (AIn p n) = Some (bytes_view b)) (body p n) f"
  shows "refines (released pub) P (go_scoped (cBytes b) (\<lambda>(p, n). zfree p n) (\<lambda>(p, n). body p n)) f"
  by (rule cBytes.refines_scope_plain [OF assms(1)]) (use assms(2,3) in auto)

lemma refines_cAttributes [refine_op]:
  fixes body :: "ptr \<Rightarrow> uint \<Rightarrow> ('m world, goerror + 'a) go"
  assumes "stable P" and "tmpl_ok as"
    and "\<And>p n. refines (released pub) (\<lambda>w. P w \<and> view_arg (hp w) (ATmpl p n) = Some (tmpl_view as)) (body p n) f"
  shows "refines (released pub) P
    (go_scoped (cAttributes (map Some as)) (\<lambda>(p, n, fr). fr) (\<lambda>(p, n, fr). body p n)) f"
  by (rule cAttributes.refines_scope_plain [OF assms(1)]) (use assms(2,3) in auto)

text \<open>
  A mechanism the policy refuses ends the operation before anything is allocated; otherwise the
  module sees it as \<open>V\<close>.
\<close>

definition abs_mech ::
  "mechanism_policy \<Rightarrow> Mechanism option \<Rightarrow> mech_view option \<Rightarrow> (mech_view option \<Rightarrow> ('m, goerror + 'a) protocol) \<Rightarrow>
     ('m, goerror + 'a) protocol" where
  "abs_mech pol m V f = (case mech_error pol m of Some e \<Rightarrow> abs_ret (Inl e) | None \<Rightarrow> f V)"

lemma refines_cMechanism [refine_op]:
  assumes "stable P" and "\<And>w. P w \<Longrightarrow> mech_pre pub pol m V w"
    and "\<And>p. refines (released pub) (\<lambda>w. P w \<and> view_arg (hp w) (AMech p) = Some (SMech V)) (body p) (f V)"
  shows "refines (released pub) P (go_try_scoped (cMechanism m) (\<lambda>(p, fr). fr) (\<lambda>(p, fr). body p))
    (abs_mech pol m V f)"
  unfolding abs_mech_def
  by (rule cMechanism.refines_scope [OF assms(1)]) (use assms(2,3) in auto)

lemmas [refine_op] = with_ctx_refines ck_then_refines outOp_refines ck_out_refines

text \<open>Errors given before the lock is taken.\<close>

lemma refines_ret_if [refine_op]:
  "refines S P m f \<Longrightarrow> refines S P (if b then go_ret x else m) (if b then abs_ret x else f)"
  by (simp add: refines_ret)

section \<open>What a contract gives\<close>

lemma refines_no_oom:
  assumes "refines S P m f" and "wf w" and "P w" and "\<not> oom w"
  shows "\<exists>x w'. m w = (Ret x, w') \<and> frame S w w' \<and> (x, nview w') \<in> f (nview w)"
  using assms by (auto elim: refinesE)

lemma frame_obs: "frame S w w' \<Longrightarrow> mem (hp w') = mem (hp w) \<and> readers w' = readers w \<and> modl w' = modl w
    \<and> libs w' = libs w \<and> writer w' = writer w \<and> waiters w' = waiters w"
  by (simp add: frame_def ext_def)

section \<open>Running on a concrete state\<close>

lemmas outOp_loop_numeral = outOp_loop.simps(2) [of "pred_numeral k" for k, folded numeral_eq_Suc]

lemmas toy_run = go_run with_ctx_def grab_def RLock_def RUnlock_def toy_world_def toy_module_def toy_heap_def
  ck_out_def ck_then_def ck_run served_def CK_FNS_def native_call_def toy_def view_arg.simps reply0_def
  store_reply_def cMalloc_def cgo_malloc_def c_malloc_def cgo_CBytes_def heap_op_def zfree_def free_def
  outOp_def outOp_loop_numeral maxRetries_def maxOutBuf_def alloc_cap_def cgo_GoBytes_def cInput_def cBytes_def
  ulong_len_def toError_def ck_consts c_int_def

end
