(* ===== verification/Crypto.thy ===== *)
theory Crypto
  imports Rules
begin

text \<open>
  \<^verbatim>\<open>cryptoki/crypt.go\<close>, \<^verbatim>\<open>digest.go\<close>, \<^verbatim>\<open>sign.go\<close> and \<^verbatim>\<open>combined.go\<close>: the operations on data.  Each
  method copies its inputs, runs the call (with \<open>outOp\<close> where it returns bytes) and releases the
  copies: scrubbed where they may be plaintext, plainly where they are ciphertext or signatures.
  The contracts say that a method does to the module what its protocol says, and gives back all
  memory and locks; \<open>pub\<close> are the byte strings it may leave in released memory: only ciphertext,
  signatures and the public part of a mechanism parameter ever need to be in it.
\<close>

section \<open>Encryption and decryption\<close>

definition EncryptInit :: "uint \<Rightarrow> Mechanism option \<Rightarrow> uint \<Rightarrow> ('m world, goerror + unit) go" where
  "EncryptInit sh m key = with_ctx (\<lambda>md.
     go_try_scoped (cMechanism m) (\<lambda>(p, fr). fr) (\<lambda>(mech, fr).
     ck_then err_only md (Enc C_EncryptInit) [AULong sh, AMech mech, AULong key]))"

definition Encrypt :: "uint \<Rightarrow> byte list \<Rightarrow> ('m world, goerror + byte list) go" where
  "Encrypt sh data = with_ctx (\<lambda>md.
     go_scoped (cInput data) (\<lambda>(p, n). zfree p n) (\<lambda>(p, n).
     outOp (ck_out md (Enc C_Encrypt) [AULong sh, AIn p n])))"

definition EncryptUpdate :: "uint \<Rightarrow> byte list \<Rightarrow> ('m world, goerror + byte list) go" where
  "EncryptUpdate sh part = with_ctx (\<lambda>md.
     go_scoped (cInput part) (\<lambda>(p, n). zfree p n) (\<lambda>(p, n).
     outOp (ck_out md (Enc C_EncryptUpdate) [AULong sh, AIn p n])))"

definition EncryptFinal :: "uint \<Rightarrow> ('m world, goerror + byte list) go" where
  "EncryptFinal sh = with_ctx (\<lambda>md.
     outOp (ck_out md (Enc C_EncryptFinal) [AULong sh]))"

definition DecryptInit :: "uint \<Rightarrow> Mechanism option \<Rightarrow> uint \<Rightarrow> ('m world, goerror + unit) go" where
  "DecryptInit sh m key = with_ctx (\<lambda>md.
     go_try_scoped (cMechanism m) (\<lambda>(p, fr). fr) (\<lambda>(mech, fr).
     ck_then err_only md (Enc C_DecryptInit) [AULong sh, AMech mech, AULong key]))"

definition Decrypt :: "uint \<Rightarrow> byte list \<Rightarrow> ('m world, goerror + byte list) go" where
  "Decrypt sh cipher = with_ctx (\<lambda>md.
     go_scoped (cInput cipher) (\<lambda>(p, n). free p) (\<lambda>(p, n).
     outOp (ck_out md (Enc C_Decrypt) [AULong sh, AIn p n])))"

definition DecryptUpdate :: "uint \<Rightarrow> byte list \<Rightarrow> ('m world, goerror + byte list) go" where
  "DecryptUpdate sh part = with_ctx (\<lambda>md.
     go_scoped (cInput part) (\<lambda>(p, n). free p) (\<lambda>(p, n).
     outOp (ck_out md (Enc C_DecryptUpdate) [AULong sh, AIn p n])))"

definition DecryptFinal :: "uint \<Rightarrow> ('m world, goerror + byte list) go" where
  "DecryptFinal sh = with_ctx (\<lambda>md.
     outOp (ck_out md (Enc C_DecryptFinal) [AULong sh]))"

section \<open>Digests\<close>

definition DigestInit :: "uint \<Rightarrow> Mechanism option \<Rightarrow> ('m world, goerror + unit) go" where
  "DigestInit sh m = with_ctx (\<lambda>md.
     go_try_scoped (cMechanism m) (\<lambda>(p, fr). fr) (\<lambda>(mech, fr).
     ck_then err_only md (Dig C_DigestInit) [AULong sh, AMech mech]))"

definition Digest :: "uint \<Rightarrow> byte list \<Rightarrow> ('m world, goerror + byte list) go" where
  "Digest sh data = with_ctx (\<lambda>md.
     go_scoped (cInput data) (\<lambda>(p, n). zfree p n) (\<lambda>(p, n).
     outOp (ck_out md (Dig C_Digest) [AULong sh, AIn p n])))"

definition DigestUpdate :: "uint \<Rightarrow> byte list \<Rightarrow> ('m world, goerror + unit) go" where
  "DigestUpdate sh data = with_ctx (\<lambda>md.
     go_scoped (cInput data) (\<lambda>(p, n). zfree p n) (\<lambda>(p, n).
     ck_then err_only md (Dig C_DigestUpdate) [AULong sh, AIn p n]))"

definition DigestKey :: "uint \<Rightarrow> uint \<Rightarrow> ('m world, goerror + unit) go" where
  "DigestKey sh key = with_ctx (\<lambda>md.
     ck_then err_only md (Dig C_DigestKey) [AULong sh, AULong key])"

definition DigestFinal :: "uint \<Rightarrow> ('m world, goerror + byte list) go" where
  "DigestFinal sh = with_ctx (\<lambda>md.
     outOp (ck_out md (Dig C_DigestFinal) [AULong sh]))"

section \<open>Signatures\<close>

definition SignInit :: "uint \<Rightarrow> Mechanism option \<Rightarrow> uint \<Rightarrow> ('m world, goerror + unit) go" where
  "SignInit sh m key = with_ctx (\<lambda>md.
     go_try_scoped (cMechanism m) (\<lambda>(p, fr). fr) (\<lambda>(mech, fr).
     ck_then err_only md (Sig C_SignInit) [AULong sh, AMech mech, AULong key]))"

definition Sign :: "uint \<Rightarrow> byte list \<Rightarrow> ('m world, goerror + byte list) go" where
  "Sign sh data = with_ctx (\<lambda>md.
     go_scoped (cInput data) (\<lambda>(p, n). zfree p n) (\<lambda>(p, n).
     outOp (ck_out md (Sig C_Sign) [AULong sh, AIn p n])))"

definition SignUpdate :: "uint \<Rightarrow> byte list \<Rightarrow> ('m world, goerror + unit) go" where
  "SignUpdate sh part = with_ctx (\<lambda>md.
     go_scoped (cInput part) (\<lambda>(p, n). zfree p n) (\<lambda>(p, n).
     ck_then err_only md (Sig C_SignUpdate) [AULong sh, AIn p n]))"

definition SignFinal :: "uint \<Rightarrow> ('m world, goerror + byte list) go" where
  "SignFinal sh = with_ctx (\<lambda>md.
     outOp (ck_out md (Sig C_SignFinal) [AULong sh]))"

definition VerifyInit :: "uint \<Rightarrow> Mechanism option \<Rightarrow> uint \<Rightarrow> ('m world, goerror + unit) go" where
  "VerifyInit sh m key = with_ctx (\<lambda>md.
     go_try_scoped (cMechanism m) (\<lambda>(p, fr). fr) (\<lambda>(mech, fr).
     ck_then err_only md (Sig C_VerifyInit) [AULong sh, AMech mech, AULong key]))"

definition Verify :: "uint \<Rightarrow> byte list \<Rightarrow> byte list \<Rightarrow> ('m world, goerror + unit) go" where
  "Verify sh data signature = with_ctx (\<lambda>md.
     go_scoped (cInput data) (\<lambda>(p, n). zfree p n) (\<lambda>(p, n).
     go_scoped (cInput signature) (\<lambda>(p, n). free p) (\<lambda>(sig, sn).
     ck_then err_only md (Sig C_Verify) [AULong sh, AIn p n, AIn sig sn])))"

definition VerifyUpdate :: "uint \<Rightarrow> byte list \<Rightarrow> ('m world, goerror + unit) go" where
  "VerifyUpdate sh part = with_ctx (\<lambda>md.
     go_scoped (cInput part) (\<lambda>(p, n). zfree p n) (\<lambda>(p, n).
     ck_then err_only md (Sig C_VerifyUpdate) [AULong sh, AIn p n]))"

definition VerifyFinal :: "uint \<Rightarrow> byte list \<Rightarrow> ('m world, goerror + unit) go" where
  "VerifyFinal sh signature = with_ctx (\<lambda>md.
     go_scoped (cInput signature) (\<lambda>(p, n). free p) (\<lambda>(sig, sn).
     ck_then err_only md (Sig C_VerifyFinal) [AULong sh, AIn sig sn]))"

section \<open>Combined operations\<close>

definition DigestEncryptUpdate :: "uint \<Rightarrow> byte list \<Rightarrow> ('m world, goerror + byte list) go" where
  "DigestEncryptUpdate sh part = with_ctx (\<lambda>md.
     go_scoped (cInput part) (\<lambda>(p, n). zfree p n) (\<lambda>(p, n).
     outOp (ck_out md (Dual C_DigestEncryptUpdate) [AULong sh, AIn p n])))"

definition DecryptDigestUpdate :: "uint \<Rightarrow> byte list \<Rightarrow> ('m world, goerror + byte list) go" where
  "DecryptDigestUpdate sh cipher = with_ctx (\<lambda>md.
     go_scoped (cInput cipher) (\<lambda>(p, n). zfree p n) (\<lambda>(p, n).
     outOp (ck_out md (Dual C_DecryptDigestUpdate) [AULong sh, AIn p n])))"

definition SignEncryptUpdate :: "uint \<Rightarrow> byte list \<Rightarrow> ('m world, goerror + byte list) go" where
  "SignEncryptUpdate sh part = with_ctx (\<lambda>md.
     go_scoped (cInput part) (\<lambda>(p, n). zfree p n) (\<lambda>(p, n).
     outOp (ck_out md (Dual C_SignEncryptUpdate) [AULong sh, AIn p n])))"

definition DecryptVerifyUpdate :: "uint \<Rightarrow> byte list \<Rightarrow> ('m world, goerror + byte list) go" where
  "DecryptVerifyUpdate sh cipher = with_ctx (\<lambda>md.
     go_scoped (cInput cipher) (\<lambda>(p, n). zfree p n) (\<lambda>(p, n).
     outOp (ck_out md (Dual C_DecryptVerifyUpdate) [AULong sh, AIn p n])))"

section \<open>Contracts\<close>

lemma EncryptInit_refines:
  "refines (released pub) (\<lambda>w. modl w = mo \<and> mech_pre pub pol m V w) (EncryptInit sh m key)
     (abs_ctx mo (\<lambda>md. abs_mech pol m V (\<lambda>v. abs_then err_only md (Enc C_EncryptInit) [SULong sh, SMech v, SULong key])))"
  unfolding EncryptInit_def by (rule refine_op stable_intros | simp)+

lemma Encrypt_refines:
  assumes "fits64 data"
  shows "refines (released pub) (\<lambda>w. modl w = mo) (Encrypt sh data)
     (abs_ctx mo (\<lambda>md. abs_outOp (abs_out md (Enc C_Encrypt) [SULong sh, data_view data])))"
  unfolding Encrypt_def by (rule refine_op stable_intros assms | simp)+

lemma EncryptUpdate_refines:
  assumes "fits64 part"
  shows "refines (released pub) (\<lambda>w. modl w = mo) (EncryptUpdate sh part)
     (abs_ctx mo (\<lambda>md. abs_outOp (abs_out md (Enc C_EncryptUpdate) [SULong sh, data_view part])))"
  unfolding EncryptUpdate_def by (rule refine_op stable_intros assms | simp)+

lemma EncryptFinal_refines:
  "refines (released pub) (\<lambda>w. modl w = mo) (EncryptFinal sh)
     (abs_ctx mo (\<lambda>md. abs_outOp (abs_out md (Enc C_EncryptFinal) [SULong sh])))"
  unfolding EncryptFinal_def by (rule refine_op stable_intros | simp)+

lemma DecryptInit_refines:
  "refines (released pub) (\<lambda>w. modl w = mo \<and> mech_pre pub pol m V w) (DecryptInit sh m key)
     (abs_ctx mo (\<lambda>md. abs_mech pol m V (\<lambda>v. abs_then err_only md (Enc C_DecryptInit) [SULong sh, SMech v, SULong key])))"
  unfolding DecryptInit_def by (rule refine_op stable_intros | simp)+

lemma Decrypt_refines:
  assumes "cipher \<in> pub"
  shows "refines (released pub) (\<lambda>w. modl w = mo) (Decrypt sh cipher)
     (abs_ctx mo (\<lambda>md. abs_outOp (abs_out md (Enc C_Decrypt) [SULong sh, data_view cipher])))"
  unfolding Decrypt_def by (rule refine_op stable_intros assms | simp)+

lemma DecryptUpdate_refines:
  assumes "part \<in> pub"
  shows "refines (released pub) (\<lambda>w. modl w = mo) (DecryptUpdate sh part)
     (abs_ctx mo (\<lambda>md. abs_outOp (abs_out md (Enc C_DecryptUpdate) [SULong sh, data_view part])))"
  unfolding DecryptUpdate_def by (rule refine_op stable_intros assms | simp)+

lemma DecryptFinal_refines:
  "refines (released pub) (\<lambda>w. modl w = mo) (DecryptFinal sh)
     (abs_ctx mo (\<lambda>md. abs_outOp (abs_out md (Enc C_DecryptFinal) [SULong sh])))"
  unfolding DecryptFinal_def by (rule refine_op stable_intros | simp)+

lemma DigestInit_refines:
  "refines (released pub) (\<lambda>w. modl w = mo \<and> mech_pre pub pol m V w) (DigestInit sh m)
     (abs_ctx mo (\<lambda>md. abs_mech pol m V (\<lambda>v. abs_then err_only md (Dig C_DigestInit) [SULong sh, SMech v])))"
  unfolding DigestInit_def by (rule refine_op stable_intros | simp)+

lemma Digest_refines:
  assumes "fits64 data"
  shows "refines (released pub) (\<lambda>w. modl w = mo) (Digest sh data)
     (abs_ctx mo (\<lambda>md. abs_outOp (abs_out md (Dig C_Digest) [SULong sh, data_view data])))"
  unfolding Digest_def by (rule refine_op stable_intros assms | simp)+

lemma DigestUpdate_refines:
  assumes "fits64 data"
  shows "refines (released pub) (\<lambda>w. modl w = mo) (DigestUpdate sh data)
     (abs_ctx mo (\<lambda>md. abs_then err_only md (Dig C_DigestUpdate) [SULong sh, data_view data]))"
  unfolding DigestUpdate_def by (rule refine_op stable_intros assms | simp)+

lemma DigestKey_refines:
  "refines (released pub) (\<lambda>w. modl w = mo) (DigestKey sh key)
     (abs_ctx mo (\<lambda>md. abs_then err_only md (Dig C_DigestKey) [SULong sh, SULong key]))"
  unfolding DigestKey_def by (rule refine_op stable_intros | simp)+

lemma DigestFinal_refines:
  "refines (released pub) (\<lambda>w. modl w = mo) (DigestFinal sh)
     (abs_ctx mo (\<lambda>md. abs_outOp (abs_out md (Dig C_DigestFinal) [SULong sh])))"
  unfolding DigestFinal_def by (rule refine_op stable_intros | simp)+

lemma SignInit_refines:
  "refines (released pub) (\<lambda>w. modl w = mo \<and> mech_pre pub pol m V w) (SignInit sh m key)
     (abs_ctx mo (\<lambda>md. abs_mech pol m V (\<lambda>v. abs_then err_only md (Sig C_SignInit) [SULong sh, SMech v, SULong key])))"
  unfolding SignInit_def by (rule refine_op stable_intros | simp)+

lemma Sign_refines:
  assumes "fits64 data"
  shows "refines (released pub) (\<lambda>w. modl w = mo) (Sign sh data)
     (abs_ctx mo (\<lambda>md. abs_outOp (abs_out md (Sig C_Sign) [SULong sh, data_view data])))"
  unfolding Sign_def by (rule refine_op stable_intros assms | simp)+

lemma SignUpdate_refines:
  assumes "fits64 part"
  shows "refines (released pub) (\<lambda>w. modl w = mo) (SignUpdate sh part)
     (abs_ctx mo (\<lambda>md. abs_then err_only md (Sig C_SignUpdate) [SULong sh, data_view part]))"
  unfolding SignUpdate_def by (rule refine_op stable_intros assms | simp)+

lemma SignFinal_refines:
  "refines (released pub) (\<lambda>w. modl w = mo) (SignFinal sh)
     (abs_ctx mo (\<lambda>md. abs_outOp (abs_out md (Sig C_SignFinal) [SULong sh])))"
  unfolding SignFinal_def by (rule refine_op stable_intros | simp)+

lemma VerifyInit_refines:
  "refines (released pub) (\<lambda>w. modl w = mo \<and> mech_pre pub pol m V w) (VerifyInit sh m key)
     (abs_ctx mo (\<lambda>md. abs_mech pol m V (\<lambda>v. abs_then err_only md (Sig C_VerifyInit) [SULong sh, SMech v, SULong key])))"
  unfolding VerifyInit_def by (rule refine_op stable_intros | simp)+

lemma Verify_refines:
  assumes "fits64 data" and "signature \<in> pub"
  shows "refines (released pub) (\<lambda>w. modl w = mo) (Verify sh data signature)
     (abs_ctx mo (\<lambda>md. abs_then err_only md (Sig C_Verify) [SULong sh, data_view data, data_view signature]))"
  unfolding Verify_def by (rule refine_op stable_intros assms | simp)+

lemma VerifyUpdate_refines:
  assumes "fits64 part"
  shows "refines (released pub) (\<lambda>w. modl w = mo) (VerifyUpdate sh part)
     (abs_ctx mo (\<lambda>md. abs_then err_only md (Sig C_VerifyUpdate) [SULong sh, data_view part]))"
  unfolding VerifyUpdate_def by (rule refine_op stable_intros assms | simp)+

lemma VerifyFinal_refines:
  assumes "signature \<in> pub"
  shows "refines (released pub) (\<lambda>w. modl w = mo) (VerifyFinal sh signature)
     (abs_ctx mo (\<lambda>md. abs_then err_only md (Sig C_VerifyFinal) [SULong sh, data_view signature]))"
  unfolding VerifyFinal_def by (rule refine_op stable_intros assms | simp)+

lemma DigestEncryptUpdate_refines:
  assumes "fits64 part"
  shows "refines (released pub) (\<lambda>w. modl w = mo) (DigestEncryptUpdate sh part)
     (abs_ctx mo (\<lambda>md. abs_outOp (abs_out md (Dual C_DigestEncryptUpdate) [SULong sh, data_view part])))"
  unfolding DigestEncryptUpdate_def by (rule refine_op stable_intros assms | simp)+

lemma DecryptDigestUpdate_refines:
  assumes "fits64 cipher"
  shows "refines (released pub) (\<lambda>w. modl w = mo) (DecryptDigestUpdate sh cipher)
     (abs_ctx mo (\<lambda>md. abs_outOp (abs_out md (Dual C_DecryptDigestUpdate) [SULong sh, data_view cipher])))"
  unfolding DecryptDigestUpdate_def by (rule refine_op stable_intros assms | simp)+

lemma SignEncryptUpdate_refines:
  assumes "fits64 part"
  shows "refines (released pub) (\<lambda>w. modl w = mo) (SignEncryptUpdate sh part)
     (abs_ctx mo (\<lambda>md. abs_outOp (abs_out md (Dual C_SignEncryptUpdate) [SULong sh, data_view part])))"
  unfolding SignEncryptUpdate_def by (rule refine_op stable_intros assms | simp)+

lemma DecryptVerifyUpdate_refines:
  assumes "fits64 cipher"
  shows "refines (released pub) (\<lambda>w. modl w = mo) (DecryptVerifyUpdate sh cipher)
     (abs_ctx mo (\<lambda>md. abs_outOp (abs_out md (Dual C_DecryptVerifyUpdate) [SULong sh, data_view cipher])))"
  unfolding DecryptVerifyUpdate_def by (rule refine_op stable_intros assms | simp)+

end
