(* ===== verification/Buffers.thy ===== *)
theory Buffers
  imports Rules
begin

text \<open>
  Operations that hold an output buffer across calls: a contract for code whose only lasting effect
  on memory is on the contents of one block, its composition rules, and the scope that allocates the
  block and releases it.  \<open>GenerateRandom\<close> and \<open>EncapsulateKey\<close> are built from these.  Also the
  resource made by \<open>C.CBytes\<close> alone, which \<open>InitToken\<close> uses.
\<close>

section \<open>A copy made with C.CBytes\<close>

lemma cgo_CBytes_acquires:
  "acquires (released pub) (\<lambda>w. b \<in> pub) (cgo_CBytes b) (\<lambda>p. heap_op ''free'' (c_free p))
     (\<lambda>p w. view_arg (hp w) (AIn p (ulong_len b)) = Some (data_view b))"
  unfolding acquires_def
proof (intro allI impI)
  fix w :: "'m world" assume b: "b \<in> pub"
  have rel: "releases (released pub) (junk (hp w)) [brk (hp w) \<mapsto> CBytes b] (heap_op ''free'' (c_free (Ptr (brk (hp w)))))"
    by (rule releases_free) (use b in simp)
  from allocated_one [OF this] refused_oom
  show "(\<exists>x w'. cgo_CBytes b w = (Ret x, w') \<and> allocated (released pub) w w' (heap_op ''free'' (c_free x)) \<and>
      view_arg (hp w') (AIn x (ulong_len b)) = Some (data_view b)) \<or>
    (\<exists>e w'. cgo_CBytes b w = (Crash e, w') \<and> oom w)"
    by (auto simp: cgo_CBytes_run Let_def data_view_def view_arg.simps)
qed

interpretation cgo_CBytes: scoped "released pub" "\<lambda>w. b \<in> pub" "cgo_CBytes b" "\<lambda>p. heap_op ''free'' (c_free p)"
    "\<lambda>p w. view_arg (hp w) (AIn p (ulong_len b)) = Some (data_view b)" for pub b
  by (rule scopedI [OF cgo_CBytes_acquires])

lemma refines_cgo_CBytes [refine_op]:
  fixes body :: "ptr \<Rightarrow> ('m world, goerror + 'a) go"
  assumes "stable P" and "b \<in> pub"
    and "\<And>p. refines (released pub) (\<lambda>w. P w \<and> view_arg (hp w) (AIn p (ulong_len b)) = Some (data_view b)) (body p) f"
  shows "refines (released pub) P (go_scoped (cgo_CBytes b) (\<lambda>p. heap_op ''free'' (c_free p)) body) f"
  by (rule cgo_CBytes.refines_scope_plain [OF assms(1)]) (use assms(2,3) in auto)

section \<open>Code that works in one block\<close>

text \<open>
  \<open>brefines S P a C m f\<close>: where block \<open>a\<close> holds bytes of \<open>C\<close>, \<open>m\<close> does what \<open>f\<close> says and changes
  nothing but the contents of \<open>a\<close>, keeping its size.
\<close>

definition in_block :: "release_rule \<Rightarrow> nat \<Rightarrow> nat \<Rightarrow> 'm world \<Rightarrow> 'm world \<Rightarrow> bool" where
  "in_block S a n w w' \<longleftrightarrow> (\<exists>b'. length b' = n \<and> mem (hp w') = (mem (hp w))(a \<mapsto> CBytes b') \<and>
     frame S w (w'\<lparr>hp := (hp w')\<lparr>mem := mem (hp w)\<rparr>\<rparr>))"

definition brefines ::
  "release_rule \<Rightarrow> ('m world \<Rightarrow> bool) \<Rightarrow> nat \<Rightarrow> (byte list \<Rightarrow> bool) \<Rightarrow> ('m world, 'a) go \<Rightarrow> ('m, 'a) protocol \<Rightarrow> bool" where
  "brefines S P a C m f \<longleftrightarrow> (\<forall>w b. wf w \<longrightarrow> P w \<longrightarrow> mem (hp w) a = Some (CBytes b) \<longrightarrow> C b \<longrightarrow>
     (\<exists>x w'. m w = (Ret x, w') \<and> in_block S a (length b) w w' \<and> (x, nview w') \<in> f (nview w)) \<or>
     (\<exists>e w'. m w = (Crash e, w') \<and> oom w))"

lemma brefinesI:
  assumes "\<And>w b. wf w \<Longrightarrow> P w \<Longrightarrow> mem (hp w) a = Some (CBytes b) \<Longrightarrow> C b \<Longrightarrow>
     (\<exists>x w'. m w = (Ret x, w') \<and> in_block S a (length b) w w' \<and> (x, nview w') \<in> f (nview w)) \<or>
     (\<exists>e w'. m w = (Crash e, w') \<and> oom w)"
  shows "brefines S P a C m f"
  using assms unfolding brefines_def by blast

lemma brefinesE:
  assumes "brefines S P a C m f" and "wf w" "P w" "mem (hp w) a = Some (CBytes b)" "C b"
  obtains x w' where "m w = (Ret x, w')" "in_block S a (length b) w w'" "(x, nview w') \<in> f (nview w)"
  | e w' where "m w = (Crash e, w')" "oom w"
  using assms unfolding brefines_def by blast

lemma in_block_refl: "mem (hp w) a = Some (CBytes b) \<Longrightarrow> in_block S a (length b) w w"
  unfolding in_block_def by (intro exI [of _ b]) (simp add: fun_upd_idem)

lemma frame_in_block:
  assumes "frame S w w'" and "mem (hp w) a = Some (CBytes b)"
  shows "in_block S a (length b) w w'"
proof -
  have "mem (hp w') = mem (hp w)" "frame S w (w'\<lparr>hp := (hp w')\<lparr>mem := mem (hp w)\<rparr>\<rparr>)"
    using assms(1) by (simp_all add: frame_def ext_def)
  then show ?thesis using assms(2) by (auto simp: in_block_def fun_upd_idem intro!: exI [of _ b])
qed

text \<open>Two steps in the same block compose; the contents in between are those of the second start.\<close>

lemma in_block_trans:
  assumes "in_block S a n u v" and "in_block S a n v w"
  shows "in_block S a n u w"
proof -
  obtain b c where b: "mem (hp v) = (mem (hp u))(a \<mapsto> CBytes b)"
      "frame S u (v\<lparr>hp := (hp v)\<lparr>mem := mem (hp u)\<rparr>\<rparr>)"
    and c: "length c = n" "mem (hp w) = (mem (hp v))(a \<mapsto> CBytes c)"
      "frame S v (w\<lparr>hp := (hp w)\<lparr>mem := mem (hp v)\<rparr>\<rparr>)"
    using assms by (auto simp: in_block_def)
  have "frame S (v\<lparr>hp := (hp v)\<lparr>mem := mem (hp u)\<rparr>\<rparr>) (w\<lparr>hp := (hp w)\<lparr>mem := mem (hp u)\<rparr>\<rparr>)"
    using c(3) by (simp add: frame_def ext_def)
  then have "frame S u (w\<lparr>hp := (hp w)\<lparr>mem := mem (hp u)\<rparr>\<rparr>)"
    using frame_trans [OF b(2)] by blast
  then show ?thesis using b(1) c by (auto simp: in_block_def)
qed

lemma in_block_keeps:
  assumes "in_block S a n w w'"
  shows "modl w' = modl w" "oom w' = oom w"
proof -
  have "modl w' = modl w \<and> grants (hp w') = grants (hp w)"
    using assms by (auto simp: in_block_def frame_def ext_def)
  then show "modl w' = modl w" "oom w' = oom w" by (simp_all add: oom_def)
qed

lemma in_block_wf:
  assumes i: "in_block S a n w w'" and w: "wf w" and a: "mem (hp w) a = Some x"
  shows "wf w'"
proof -
  obtain b' where m: "mem (hp w') = (mem (hp w))(a \<mapsto> CBytes b')" and f: "frame S w (w'\<lparr>hp := (hp w')\<lparr>mem := mem (hp w)\<rparr>\<rparr>)"
    using i by (auto simp: in_block_def)
  have d: "dom (mem (hp w')) = dom (mem (hp w))" using m a by (simp add: insert_absorb domI)
  then have "(\<exists>b. mem (hp w') x = Some b) = (\<exists>b. mem (hp w) x = Some b)" for x by (metis domD domI)
  moreover have "wf (w'\<lparr>hp := (hp w')\<lparr>mem := mem (hp w)\<rparr>\<rparr>)" by (rule frame_wf [OF f w])
  ultimately show ?thesis using d unfolding wf_def heap_ok_def by simp
qed

lemma brefines_refines: "refines S P m f \<Longrightarrow> brefines S P a C m f"
  by (rule brefinesI) (erule refinesE, assumption+, auto intro: frame_in_block)

lemma brefines_ret: "(\<And>s. (x, s) \<in> f s) \<Longrightarrow> brefines S P a C (go_ret x) f"
  by (rule brefines_refines) (simp add: refines_def go_run)

lemma brefines_if: "(b \<Longrightarrow> brefines S P a C m f) \<Longrightarrow> (\<not> b \<Longrightarrow> brefines S P a C n g) \<Longrightarrow>
    brefines S P a C (if b then m else n) (if b then f else g)"
  by simp

lemma brefines_bytes:
  assumes "\<And>b. C b \<Longrightarrow> unat l \<le> length b \<and> take (length bs) b = bs" and "unat l < 2 ^ 31"
  shows "brefines S P a C (go_bind (cgo_GoBytes (Ptr a) (c_int l)) (\<lambda>x. go_ret (Inr x))) (abs_bytes l bs)"
proof (rule brefinesI)
  fix w :: "'b world" and b assume m: "mem (hp w) a = Some (CBytes b)" and C: "C b"
  have l: "unat l \<le> length b" "take (length bs) b = bs" using assms(1) [OF C] by simp_all
  have "cgo_GoBytes (Ptr a) (c_int l) w = (Ret (take (unat l) b), w)"
    using m l c_int_small [OF assms(2)] by (simp add: cgo_GoBytes_def)
  moreover have "take (length bs) (take (unat l) b) = take (unat l) bs"
    using l(2) by (metis min.commute take_take)
  ultimately show "(\<exists>x w'. go_bind (cgo_GoBytes (Ptr a) (c_int l)) (\<lambda>x. go_ret (Inr x)) w = (Ret x, w') \<and>
      in_block S a (length b) w w' \<and> (x, nview w') \<in> abs_bytes l bs (nview w)) \<or>
    (\<exists>e w'. go_bind (cgo_GoBytes (Ptr a) (c_int l)) (\<lambda>x. go_ret (Inr x)) w = (Crash e, w') \<and> oom w)"
    using l in_block_refl [of w a b S] m by (simp add: go_run abs_bytes_def min_def)
qed

text \<open>A result is passed on.\<close>

lemma brefines_then_ret:
  assumes "brefines S P a C m f"
  shows "brefines S P a C (go_bind m (\<lambda>x. go_ret (h x))) (abs_bind f (\<lambda>x. abs_ret (h x)))"
proof (rule brefinesI)
  fix w b assume w: "wf w" "P w" "mem (hp w) a = Some (CBytes b)" "C b"
  from brefinesE [OF assms w]
  show "(\<exists>x w'. go_bind m (\<lambda>x. go_ret (h x)) w = (Ret x, w') \<and> in_block S a (length b) w w' \<and>
      (x, nview w') \<in> abs_bind f (\<lambda>x. abs_ret (h x)) (nview w)) \<or>
    (\<exists>e w'. go_bind m (\<lambda>x. go_ret (h x)) w = (Crash e, w') \<and> oom w)"
    by cases (auto simp: go_run intro: abs_bindI)
qed

text \<open>A call that may write into the block; afterwards only the module handle is known to be there.\<close>

lemma brefines_call:
  fixes P :: "'m world \<Rightarrow> bool"
  assumes io: "list_all input_arg as" and md: "\<And>w. P w \<Longrightarrow> modl w = Some m" and vs: "\<And>w. P w \<Longrightarrow> sees as vs w"
    and n: "\<And>b. C b \<Longrightarrow> unat n \<le> length b"
    and K: "\<And>r. brefines S (\<lambda>w. modl w = Some m) a
       (\<lambda>b. \<exists>b0. C b0 \<and> length (obytes r) \<le> unat n \<and> b = obytes r @ drop (length (obytes r)) b0) (K r) (G r)"
  shows "brefines S P a C (go_bind (ck m f (as @ [AOut (Ptr a) n])) K) (abs_bind (abs_ck m f (vs @ [SOut True n])) G)"
proof (rule brefinesI)
  fix w :: "'m world" and b assume w: "wf w" "P w" and a: "mem (hp w) a = Some (CBytes b)" and C: "C b"
  let ?m = "go_bind (ck m f (as @ [AOut (Ptr a) n])) K" and ?f = "abs_bind (abs_ck m f (vs @ [SOut True n])) G"
  note nb = n [OF C]
  obtain r w1 where c: "ck m f (as @ [AOut (Ptr a) n]) w = (Ret r, w1)" "length (obytes r) \<le> unat n"
    "mem (hp w1) = (mem (hp w))(a \<mapsto> CBytes (obytes r @ drop (length (obytes r)) b))"
    "frame S w (w1\<lparr>hp := (hp w1)\<lparr>mem := mem (hp w)\<rparr>\<rparr>)"
    "(r, nview w1) \<in> abs_ck m f (vs @ [SOut True n]) (nview w)"
    by (rule ck_writes [OF w(1) md [OF w(2)] io vs [OF w(2)] a nb])
  let ?b = "obytes r @ drop (length (obytes r)) b"
  have ib: "in_block S a (length b) w w1" using c nb by (auto simp: in_block_def intro!: exI [of _ ?b])
  have lb: "length ?b = length b" using c(2) nb by simp
  have w1: "wf w1" "modl w1 = Some m" "mem (hp w1) a = Some (CBytes ?b)"
    using in_block_wf [OF ib w(1) a] in_block_keeps [OF ib] md [OF w(2)] c(3) by simp_all
  have "\<exists>b0. C b0 \<and> length (obytes r) \<le> unat n \<and> ?b = obytes r @ drop (length (obytes r)) b0" using C c(2) by blast
  from brefinesE [OF K w1 this]
  show "(\<exists>x w'. ?m w = (Ret x, w') \<and> in_block S a (length b) w w' \<and> (x, nview w') \<in> ?f (nview w)) \<or>
    (\<exists>e w'. ?m w = (Crash e, w') \<and> oom w)"
  proof cases
    case (1 x w2)
    then have "in_block S a (length b) w w2" "(x, nview w2) \<in> ?f (nview w)"
      using in_block_trans [OF ib] lb c(5) by (auto intro: abs_bindI)
    then show ?thesis using c(1) 1(1) by (simp add: go_run)
  next
    case (2 e w2)
    then show ?thesis using c(1) in_block_keeps(2) [OF ib] by (simp add: go_run)
  qed
qed

section \<open>The scope of a buffer\<close>

lemma refines_buffer:
  assumes P: "stable P" and body: "\<And>a. brefines (released pub) P a (\<lambda>b. length b = N) (body (Ptr a)) f"
    and rel: "\<And>J a b. length b = N \<Longrightarrow> releases (released pub) J [a \<mapsto> CBytes b] (rel (Ptr a))"
  shows "refines (released pub) P (go_scoped (cMalloc N) rel body) f"
proof (rule refinesI)
  fix w assume w: "wf w" "P w"
  let ?S = "released pub" and ?m = "go_scoped (cMalloc N) rel body" and ?a = "brk (hp w)"
  let ?b = "map (junk (hp w) ?a) [0..<N]"
  let ?w1 = "heap_grow [?a \<mapsto> CBytes ?b] (Suc ?a) w"
  have h: "heap_ok (hp w)" using w(1) by (simp add: wf_def)
  note g = heap_grow_ok [OF h fresh_one, of "CBytes ?b"]
  show "(\<exists>x w'. ?m w = (Ret x, w') \<and> frame ?S w w' \<and> (x, nview w') \<in> f (nview w)) \<or>
    (\<exists>e w'. ?m w = (Crash e, w') \<and> oom w)"
  proof (cases "grants (hp w) ?a N")
    case False
    then show ?thesis using refused_oom by (auto simp: go_run cMalloc_run cgo_malloc_run Let_def)
  next
    case True
    then have m: "cMalloc N w = (Ret (Ptr ?a), ?w1)" by (simp add: cMalloc_run cgo_malloc_run Let_def)
    have w1: "wf ?w1" "P ?w1" "mem (hp ?w1) ?a = Some (CBytes ?b)" "length ?b = N"
      using g w by (auto intro: ext_wf stableD [OF P])
    from brefinesE [OF body w1] show ?thesis
    proof cases
      case (1 x w2)
      obtain b' where b': "length b' = N" "mem (hp w2) = (mem (hp ?w1))(?a \<mapsto> CBytes b')"
        "frame ?S ?w1 (w2\<lparr>hp := (hp w2)\<lparr>mem := mem (hp ?w1)\<rparr>\<rparr>)"
        using 1(2) by (auto simp: in_block_def)
      obtain w3 where "rel (Ptr ?a) w2 = (Ret (), w3)" "frame ?S w w3" "nview w3 = nview w2"
        using allocated_frame [OF h allocated_one [OF rel [OF b'(1)]] frame_regrow [OF b'(3,2)]]
        by (auto simp: silent_def)
      then show ?thesis using m 1 by (simp add: go_run)
    qed (use m in \<open>simp_all add: go_run\<close>)
  qed
qed

end
