(* ===== verification/Slots.thy ===== *)
theory Slots
  imports Buffers
begin

text \<open>
  \<^verbatim>\<open>cryptoki/slot.go\<close>: slots, tokens, mechanisms, PINs and slot events, with their contracts.
\<close>

section \<open>Information records\<close>

record SlotInfo =
  slot_Description :: "byte list"
  slot_ManufacturerID :: "byte list"
  slot_Flags :: uint
  slot_HardwareVersion :: Version
  slot_FirmwareVersion :: Version

record TokenInfo =
  tok_Label :: "byte list"
  tok_ManufacturerID :: "byte list"
  tok_Model :: "byte list"
  tok_SerialNumber :: "byte list"
  tok_Flags :: uint
  tok_Counts :: "uint list" \<comment> \<open>MaxSessionCount to FreePrivateMemory\<close>
  tok_HardwareVersion :: Version
  tok_FirmwareVersion :: Version
  tok_UTCTime :: "byte list"

record MechanismInfo =
  mi_MinKeySize :: uint
  mi_MaxKeySize :: uint
  mi_Flags :: uint

definition zero_slot_info :: ck_slot_info where
  "zero_slot_info = \<lparr>slotDescription = replicate 64 0, sl_manufacturerID = replicate 32 0, sl_flags = 0,
     sl_hardwareVersion = Version 0 0, sl_firmwareVersion = Version 0 0\<rparr>"

definition zero_token_info :: ck_token_info where
  "zero_token_info = \<lparr>tk_label = replicate 32 0, tk_manufacturerID = replicate 32 0,
     tk_model = replicate 16 0, tk_serialNumber = replicate 16 0, tk_flags = 0,
     tk_counts = replicate 10 0, tk_hardwareVersion = Version 0 0, tk_firmwareVersion = Version 0 0,
     tk_utcTime = replicate 16 0\<rparr>"

definition go_slot_info :: "ck_reply \<Rightarrow> goerror + SlotInfo" where
  "go_slot_info r = (case toError (rv r) of Some e \<Rightarrow> Inl e | None \<Rightarrow>
     (let i = (case oinfo r of SlotI x \<Rightarrow> x | _ \<Rightarrow> zero_slot_info) in Inr
       \<lparr>slot_Description = goPaddedString (slotDescription i),
        slot_ManufacturerID = goPaddedString (sl_manufacturerID i), slot_Flags = sl_flags i,
        slot_HardwareVersion = sl_hardwareVersion i, slot_FirmwareVersion = sl_firmwareVersion i\<rparr>))"

text \<open>
  Of the ten counters all but the PIN lengths (numbers 4 and 5) go through \<open>infoULong\<close>.
\<close>

definition go_token_info :: "ck_reply \<Rightarrow> goerror + TokenInfo" where
  "go_token_info r = (case toError (rv r) of Some e \<Rightarrow> Inl e | None \<Rightarrow>
     (let i = (case oinfo r of TokenI x \<Rightarrow> x | _ \<Rightarrow> zero_token_info); c = tk_counts i in Inr
       \<lparr>tok_Label = goPaddedString (tk_label i),
        tok_ManufacturerID = goPaddedString (tk_manufacturerID i),
        tok_Model = goPaddedString (tk_model i),
        tok_SerialNumber = goPaddedString (tk_serialNumber i), tok_Flags = tk_flags i,
        tok_Counts = map (infoULong lp64) (take 4 c) @ take 2 (drop 4 c) @ map (infoULong lp64) (drop 6 c),
        tok_HardwareVersion = tk_hardwareVersion i, tok_FirmwareVersion = tk_firmwareVersion i,
        tok_UTCTime = goPaddedString (tk_utcTime i)\<rparr>))"

definition go_mechanism_info :: "ck_reply \<Rightarrow> goerror + MechanismInfo" where
  "go_mechanism_info r = (case toError (rv r) of Some e \<Rightarrow> Inl e | None \<Rightarrow> Inr (case oinfo r of
      MechI a b c \<Rightarrow> \<lparr>mi_MinKeySize = a, mi_MaxKeySize = b, mi_Flags = c\<rparr>
    | _ \<Rightarrow> \<lparr>mi_MinKeySize = 0, mi_MaxKeySize = 0, mi_Flags = 0\<rparr>))"

section \<open>Lists the module fills in\<close>

text \<open>
  A call with a Go slice of \<open>n\<close> zeros (or \<open>nil\<close>) for the module to fill in; storing more than its
  length is undefined.  A copy of \<open>count\<close> entries is made with \<open>make\<close>, which panics beyond the
  address space, and filled by indexing the slice, which panics beyond its length.
\<close>

definition ck_arr :: "'m ckModule \<Rightarrow> ck_fn \<Rightarrow> carg list \<Rightarrow> bool \<Rightarrow> uint \<Rightarrow> ('m world, ck_reply \<times> uint list) go" where
  "ck_arr md f as b n = go_bind (ck md f (as @ [AArr b n])) (\<lambda>r. let hs = ohandles r; k = (if b then unat n else 0) in
     if length hs > k then go_fault ''the module wrote outside its buffers''
     else go_ret (r, hs @ replicate (k - length hs) 0))"

definition copy_list :: "uint list \<Rightarrow> uint \<Rightarrow> ('m world, goerror + uint list) go" where
  "copy_list list count = (if unat count > 2 ^ 45 then go_panic ''makeslice: len out of range''
     else if unat count > length list then go_panic ''index out of range''
     else go_ret (Inr (take (unat count) list)))"

text \<open>The common body of \<open>GetSlotList\<close> and \<open>GetMechanismList\<close>.\<close>

definition two_pass_list :: "string \<Rightarrow> 'm ckModule \<Rightarrow> ck_fn \<Rightarrow> uint \<Rightarrow> ('m world, goerror + uint list) go" where
  "two_pass_list msg md f x = go_bind (ck_arr md f [AULong x] False 0) (\<lambda>(r, _). case toError (rv r) of
      Some e \<Rightarrow> go_ret (Inl e)
    | None \<Rightarrow> (let count = olen r in
        if count = 0 then go_ret (Inr [])
        else if unat count > maxListLen then go_ret (Inl (Errf msg [unat count, maxListLen]))
        else go_bind (ck_arr md f [AULong x] True count) (\<lambda>(r', list). case toError (rv r') of
            Some e \<Rightarrow> go_ret (Inl e)
          | None \<Rightarrow> copy_list list (olen r'))))"

definition GetSlotList :: "bool \<Rightarrow> ('m world, goerror + uint list) go" where
  "GetSlotList tokenPresent = with_ctx (\<lambda>md.
     two_pass_list ''cryptoki: GetSlotList: module reported %d slots, exceeds limit %d'' md
       (Slot C_GetSlotList) (if tokenPresent then 1 else 0))"

definition GetMechanismList :: "uint \<Rightarrow> ('m world, goerror + uint list) go" where
  "GetMechanismList slot = with_ctx (\<lambda>md.
     two_pass_list ''cryptoki: GetMechanismList: module reported %d mechanisms, exceeds limit %d'' md
       (Slot C_GetMechanismList) slot)"

section \<open>Slots and tokens\<close>

definition GetSlotInfo :: "uint \<Rightarrow> ('m world, goerror + SlotInfo) go" where
  "GetSlotInfo slot = with_ctx (\<lambda>md.
     ck_then go_slot_info md (Slot C_GetSlotInfo) [AULong slot])"

definition GetTokenInfo :: "uint \<Rightarrow> ('m world, goerror + TokenInfo) go" where
  "GetTokenInfo slot = with_ctx (\<lambda>md.
     ck_then go_token_info md (Slot C_GetTokenInfo) [AULong slot])"

definition GetMechanismInfo :: "uint \<Rightarrow> uint \<Rightarrow> ('m world, goerror + MechanismInfo) go" where
  "GetMechanismInfo slot mech = with_ctx (\<lambda>md.
     ck_then go_mechanism_info md (Slot C_GetMechanismInfo) [AULong slot, AULong mech])"

definition InitPIN :: "uint \<Rightarrow> byte list \<Rightarrow> ('m world, goerror + unit) go" where
  "InitPIN sh pin = with_ctx (\<lambda>md.
     go_scoped (cBytes pin) (\<lambda>(p, n). zfree p n) (\<lambda>(p, n).
     ck_then err_only md (Slot C_InitPIN) [AULong sh, AIn p n]))"

definition SetPIN :: "uint \<Rightarrow> byte list \<Rightarrow> byte list \<Rightarrow> ('m world, goerror + unit) go" where
  "SetPIN sh oldPin newPin = with_ctx (\<lambda>md.
     go_scoped (cBytes oldPin) (\<lambda>(p, n). zfree p n) (\<lambda>(op, oln).
     go_scoped (cBytes newPin) (\<lambda>(p, n). zfree p n) (\<lambda>(np, nln).
     ck_then err_only md (Slot C_SetPIN) [AULong sh, AIn op oln, AIn np nln])))"

definition padded_label :: "byte list \<Rightarrow> byte list" where
  "padded_label label = label @ replicate (32 - length label) 32"

definition InitToken :: "uint \<Rightarrow> byte list \<Rightarrow> byte list \<Rightarrow> ('m world, goerror + unit) go" where
  "InitToken slot soPin label =
     (if length label > 32 then
        go_ret (Inl (Errf ''cryptoki: token label must be at most 32 bytes, got %d'' [length label]))
      else with_ctx (\<lambda>md.
        go_scoped (cBytes soPin) (\<lambda>(p, n). zfree p n) (\<lambda>(pin, pinLen).
        go_scoped (cgo_CBytes (padded_label label)) (\<lambda>p. heap_op ''free'' (c_free p)) (\<lambda>clabel.
        ck_then err_only md (Slot C_InitToken) [AULong slot, AIn pin pinLen, AIn clabel 32]))))"

section \<open>Slot events\<close>

definition waiters_Add :: "('m world, unit) go" where
  "waiters_Add = go_modify (\<lambda>w. w\<lparr>waiters := waiters w + 1\<rparr>)"

definition waiters_Done :: "('m world, unit) go" where
  "waiters_Done = (\<lambda>w. if waiters w = 0 then (Panic ''sync: negative WaitGroup counter'', w)
     else (Ret (), w\<lparr>waiters := waiters w - 1\<rparr>))"

definition WaitForSlotEvent :: "uint \<Rightarrow> ('m world, goerror + uint) go" where
  "WaitForSlotEvent flags = go_try grab (\<lambda>m. go_bind waiters_Add (\<lambda>_. go_bind RUnlock (\<lambda>_.
     go_defer waiters_Done (ck_then handle m (Slot C_WaitForSlotEvent) [AULong flags]))))"

section \<open>Contracts\<close>

lemma GetSlotInfo_refines:
  "refines (released pub) (\<lambda>w. modl w = mo) (GetSlotInfo slot)
     (abs_ctx mo (\<lambda>md. abs_then go_slot_info md (Slot C_GetSlotInfo) [SULong slot]))"
  unfolding GetSlotInfo_def by (rule refine_op stable_intros | simp)+

lemma GetTokenInfo_refines:
  "refines (released pub) (\<lambda>w. modl w = mo) (GetTokenInfo slot)
     (abs_ctx mo (\<lambda>md. abs_then go_token_info md (Slot C_GetTokenInfo) [SULong slot]))"
  unfolding GetTokenInfo_def by (rule refine_op stable_intros | simp)+

lemma GetMechanismInfo_refines:
  "refines (released pub) (\<lambda>w. modl w = mo) (GetMechanismInfo slot mech)
     (abs_ctx mo (\<lambda>md. abs_then go_mechanism_info md (Slot C_GetMechanismInfo) [SULong slot, SULong mech]))"
  unfolding GetMechanismInfo_def by (rule refine_op stable_intros | simp)+

lemma InitPIN_refines:
  assumes "fits64 pin"
  shows "refines (released pub) (\<lambda>w. modl w = mo) (InitPIN sh pin)
     (abs_ctx mo (\<lambda>md. abs_then err_only md (Slot C_InitPIN) [SULong sh, bytes_view pin]))"
  unfolding InitPIN_def by (rule refine_op stable_intros assms | simp)+

lemma SetPIN_refines:
  assumes "fits64 oldPin" and "fits64 newPin"
  shows "refines (released pub) (\<lambda>w. modl w = mo) (SetPIN sh oldPin newPin)
     (abs_ctx mo (\<lambda>md. abs_then err_only md (Slot C_SetPIN) [SULong sh, bytes_view oldPin, bytes_view newPin]))"
  unfolding SetPIN_def by (rule refine_op stable_intros assms | simp)+

lemma length_padded_label: "length label \<le> 32 \<Longrightarrow> length (padded_label label) = 32"
  by (simp add: padded_label_def)

text \<open>The label is not a secret; the PIN is scrubbed.\<close>

lemma InitToken_refines:
  assumes "fits64 soPin" and "padded_label label \<in> pub"
  shows "refines (released pub) (\<lambda>w. modl w = mo) (InitToken slot soPin label)
     (if length label > 32 then
        abs_ret (Inl (Errf ''cryptoki: token label must be at most 32 bytes, got %d'' [length label]))
      else abs_ctx mo (\<lambda>md. abs_then err_only md (Slot C_InitToken)
        [SULong slot, bytes_view soPin, data_view (padded_label label)]))"
proof (cases "length label > 32")
  case True
  then show ?thesis by (simp add: InitToken_def refines_ret)
next
  case False
  then have "ulong_len (padded_label label) = 32"
    using length_padded_label [of label] by (simp add: ulong_len_def)
  then show ?thesis using False unfolding InitToken_def
    by simp (rule refine_op stable_intros assms | simp)+
qed

section \<open>Lists from an honest module\<close>

text \<open>
  The specification says that a successful call leaves behind the count pointer the number of
  entries it stored, no more than it was offered.  The code relies on it: \<open>honest_count\<close>.
\<close>

definition honest_count :: "'m ckModule \<Rightarrow> ck_fn \<Rightarrow> bool" where
  "honest_count md f \<longleftrightarrow> (\<forall>N vs ms n r ms'. served md f = Inr N \<longrightarrow>
     N ms (Call f (vs @ [SArr True n])) = (r, ms') \<longrightarrow> rv r = CKR_OK \<longrightarrow> olen r \<le> n)"

definition abs_arr :: "'m ckModule \<Rightarrow> ck_fn \<Rightarrow> cview list \<Rightarrow> bool \<Rightarrow> uint \<Rightarrow> ('m, ck_reply \<times> uint list) protocol" where
  "abs_arr md f vs b n = abs_bind (abs_ck md f (vs @ [SArr b n])) (\<lambda>r. abs_ret
     (r, ohandles r @ replicate ((if b then unat n else 0) - length (ohandles r)) 0))"

definition abs_two_pass :: "string \<Rightarrow> 'm ckModule \<Rightarrow> ck_fn \<Rightarrow> uint \<Rightarrow> ('m, goerror + uint list) protocol" where
  "abs_two_pass msg md f x = abs_bind (abs_arr md f [SULong x] False 0) (\<lambda>(r, _). case toError (rv r) of
      Some e \<Rightarrow> abs_ret (Inl e)
    | None \<Rightarrow> (let count = olen r in
        if count = 0 then abs_ret (Inr [])
        else if unat count > maxListLen then abs_ret (Inl (Errf msg [unat count, maxListLen]))
        else abs_bind (abs_arr md f [SULong x] True count) (\<lambda>(r', list). case toError (rv r') of
            Some e \<Rightarrow> abs_ret (Inl e)
          | None \<Rightarrow> abs_ret (Inr (take (unat (olen r')) list)))))"

lemma fits_arr: "fits (vs @ [SArr b n]) r \<Longrightarrow> length (ohandles r) \<le> (if b then unat n else 0)"
  by (simp add: fits_def)

text \<open>A call with a slice never faults, and its reply is honest when the module is.\<close>

lemma ck_arr_refines:
  fixes P :: "'m world \<Rightarrow> bool"
  assumes P: "stable P" and io: "list_all input_arg as" and md: "\<And>w. P w \<Longrightarrow> modl w = Some m"
    and vs: "\<And>w. P w \<Longrightarrow> sees as vs w"
  shows "refines S P (ck_arr m f as b n) (abs_arr m f vs b n)"
  unfolding ck_arr_def abs_arr_def
proof (rule refines_bind_fact [OF P ck_refines, where Q = "\<lambda>r. length (ohandles r) \<le> (if b then unat n else 0)"])
  show "list_all input_arg (as @ [AArr b n])" using io by simp
  show "sees (as @ [AArr b n]) (vs @ [SArr b n]) w" if "P w" for w :: "'m world"
    by (rule sees_append [OF vs [OF that]]) simp
  show "length (ohandles r) \<le> (if b then unat n else 0)"
    if "wf w" "P w" "(r, s) \<in> abs_ck m f (vs @ [SArr b n]) (nview w)" for w r s
    by (rule fits_arr) (rule abs_ck_fits [OF that(1) md [OF that(2)] that(3)])
qed (use md in \<open>simp_all add: Let_def refines_ret\<close>)

lemma abs_arr_count:
  assumes "honest_count m f" and "((r, hs), s') \<in> abs_arr m f vs True n s" and "rv r = CKR_OK"
  shows "olen r \<le> n"
proof (cases "served m f")
  case (Inl e)
  then show ?thesis using assms(2) by (auto simp: abs_arr_def abs_ck_def abs_bind_def reply0_def)
next
  case (Inr N)
  then obtain ms where "N (fst s) (Call f (vs @ [SArr True n])) = (r, ms)"
    using assms(2) by (auto simp: abs_arr_def abs_ck_def abs_bind_def abs_call_in)
  then show ?thesis using assms(1,3) Inr unfolding honest_count_def by blast
qed

lemma abs_arr_length:
  assumes "wf w" and "modl w = Some m" and "((r, hs), s') \<in> abs_arr m f vs True n s"
  shows "length hs = unat n"
proof -
  obtain s1 where "(r, s1) \<in> abs_ck m f (vs @ [SArr True n]) s" "hs = ohandles r @ replicate (unat n - length (ohandles r)) 0"
    using assms(3) by (auto simp: abs_arr_def elim!: abs_bindE)
  then show ?thesis using fits_arr [OF abs_ck_fits [OF assms(1,2)]] by fastforce
qed

lemma copy_list_refines:
  assumes "unat count \<le> length list" and "length list \<le> 2 ^ 45"
  shows "refines S P (copy_list list count) (abs_ret (Inr (take (unat count) list)))"
  using assms by (simp add: copy_list_def refines_ret)

lemma list_pass_refines:
  fixes P :: "'m world \<Rightarrow> bool"
  assumes P: "stable P" and io: "list_all input_arg as" and md: "\<And>w. P w \<Longrightarrow> modl w = Some m"
    and vs: "\<And>w. P w \<Longrightarrow> sees as vs w" and h: "honest_count m f" and n: "unat n \<le> 2 ^ 45"
  shows "refines S P (go_bind (ck_arr m f as True n) (\<lambda>(r, list). case toError (rv r) of
            Some e \<Rightarrow> go_ret (Inl e) | None \<Rightarrow> copy_list list (olen r)))
      (abs_bind (abs_arr m f vs True n) (\<lambda>(r, list). case toError (rv r) of
            Some e \<Rightarrow> abs_ret (Inl e) | None \<Rightarrow> abs_ret (Inr (take (unat (olen r)) list))))"
proof (rule refines_bind_fact [OF P ck_arr_refines [OF P io md vs],
    where Q = "\<lambda>(r, l). length l = unat n \<and> (rv r = CKR_OK \<longrightarrow> olen r \<le> n)"], goal_cases)
  case (3 w z s)
  then show ?case using abs_arr_count [OF h] abs_arr_length [OF 3(1) md [OF 3(2)]] by (cases z) auto
next
  case (4 z)
  then show ?case using n
    by (cases z) (auto simp: refines_ret word_le_nat_alt toError_def intro!: copy_list_refines)
qed

lemma two_pass_list_refines:
  fixes P :: "'m world \<Rightarrow> bool"
  assumes P: "stable P" and md: "\<And>w. P w \<Longrightarrow> modl w = Some m" and h: "honest_count m f"
  shows "refines S P (two_pass_list msg m f x) (abs_two_pass msg m f x)"
  unfolding two_pass_list_def abs_two_pass_def
proof (rule refines_bind [OF P], goal_cases)
  case 1
  show ?case by (rule ck_arr_refines [OF P]) (use md in simp_all)
next
  case (2 y)
  obtain r l where y: "y = (r, l)" by (cases y)
  show ?case unfolding y using list_pass_refines [OF P _ md _ h, of "[AULong x]" "[SULong x]" "olen r"]
    by (auto simp: refines_ret Let_def toError_def maxListLen_def)
qed

lemma GetSlotList_refines:
  assumes "\<And>md. mo = Some md \<Longrightarrow> honest_count md (Slot C_GetSlotList)"
  shows "refines (released pub) (\<lambda>w. modl w = mo) (GetSlotList present)
     (abs_ctx mo (\<lambda>md. abs_two_pass ''cryptoki: GetSlotList: module reported %d slots, exceeds limit %d'' md
       (Slot C_GetSlotList) (if present then 1 else 0)))"
  unfolding GetSlotList_def
  by (rule with_ctx_refines [OF stable_modl], simp, rule two_pass_list_refines) (use assms in \<open>simp_all add: stable_modl\<close>)

lemma GetMechanismList_refines:
  assumes "\<And>md. mo = Some md \<Longrightarrow> honest_count md (Slot C_GetMechanismList)"
  shows "refines (released pub) (\<lambda>w. modl w = mo) (GetMechanismList slot)
     (abs_ctx mo (\<lambda>md. abs_two_pass ''cryptoki: GetMechanismList: module reported %d mechanisms, exceeds limit %d'' md
       (Slot C_GetMechanismList) slot))"
  unfolding GetMechanismList_def
  by (rule with_ctx_refines [OF stable_modl], simp, rule two_pass_list_refines) (use assms in \<open>simp_all add: stable_modl\<close>)

text \<open>
  \<open>WaitForSlotEvent\<close> makes its call without the read lock, counted as a waiter instead; afterwards both
  are as before.
\<close>

lemma WaitForSlotEvent_refines:
  "refines S (\<lambda>w. modl w = mo) (WaitForSlotEvent flags)
     (abs_ctx mo (\<lambda>md. abs_then handle md (Slot C_WaitForSlotEvent) [SULong flags]))"
proof (cases mo)
  case None
  then show ?thesis
    by (auto intro!: refinesI simp: WaitForSlotEvent_def grab_def RLock_def RUnlock_def go_run abs_ctx_def wf_def)
next
  case (Some md)
  have call: "refines S (\<lambda>w. modl w = mo) (ck_then handle md (Slot C_WaitForSlotEvent) [AULong flags])
      (abs_then handle md (Slot C_WaitForSlotEvent) [SULong flags])"
    by (rule ck_then_refines [OF stable_modl]) (use Some in simp_all)
  show ?thesis
  proof (rule refinesI)
    fix w :: "'a world" assume w: "wf w" "modl w = mo"
    let ?w1 = "w\<lparr>waiters := waiters w + 1\<rparr>"
    have w1: "wf ?w1" "modl ?w1 = mo" using w by (simp_all add: wf_def)
    have start: "WaitForSlotEvent flags w =
        go_defer waiters_Done (ck_then handle md (Slot C_WaitForSlotEvent) [AULong flags]) ?w1"
      using w Some by (cases w)
        (simp add: WaitForSlotEvent_def grab_def RLock_def RUnlock_def go_run waiters_Add_def wf_def)
    from refinesE [OF call w1]
    show "(\<exists>x w'. WaitForSlotEvent flags w = (Ret x, w') \<and> frame S w w' \<and>
        (x, nview w') \<in> abs_ctx mo (\<lambda>md. abs_then handle md (Slot C_WaitForSlotEvent) [SULong flags]) (nview w)) \<or>
      (\<exists>e w'. WaitForSlotEvent flags w = (Crash e, w') \<and> oom w)"
    proof cases
      case (1 x w2)
      then have "waiters w2 = waiters w + 1" by (simp add: frame_def ext_def)
      moreover have "frame S w (w2\<lparr>waiters := waiters w\<rparr>)"
        using 1(2) by (simp add: frame_def ext_def)
      moreover have "nview ?w1 = nview w" "nview (w2\<lparr>waiters := waiters w\<rparr>) = nview w2" by (simp_all add: nview_def)
      ultimately show ?thesis using 1 start Some
        by (simp add: go_run waiters_Done_def abs_ctx_def)
    next
      case (2 e w2)
      then show ?thesis using start by (simp add: go_run oom_def)
    qed
  qed
qed

end
