(* ===== verification/Objects.thy ===== *)
theory Objects
  imports Slots
begin

text \<open>
  \<^verbatim>\<open>cryptoki/object.go\<close>: creating, reading, changing and finding objects, with their contracts.
\<close>

definition object_size :: "ck_reply \<Rightarrow> goerror + uint" where
  "object_size r = (case toError (rv r) of Some e \<Rightarrow> Inl e | None \<Rightarrow> Inr (infoULong lp64 (stored 0 r)))"

definition CopyObject :: "uint \<Rightarrow> uint \<Rightarrow> Attribute option list \<Rightarrow> ('m world, goerror + uint) go" where
  "CopyObject sh obj tmpl = with_ctx (\<lambda>md.
     go_scoped (cAttributes tmpl) (\<lambda>(p, n, fr). fr) (\<lambda>(arr, n, fr).
     ck_then handle md (Obj C_CopyObject) [AULong sh, AULong obj, ATmpl arr n]))"

definition CreateObject :: "uint \<Rightarrow> Attribute option list \<Rightarrow> ('m world, goerror + uint) go" where
  "CreateObject sh tmpl = with_ctx (\<lambda>md.
     go_scoped (cAttributes tmpl) (\<lambda>(p, n, fr). fr) (\<lambda>(arr, n, fr).
     ck_then handle md (Obj C_CreateObject) [AULong sh, ATmpl arr n]))"

definition DestroyObject :: "uint \<Rightarrow> uint \<Rightarrow> ('m world, goerror + unit) go" where
  "DestroyObject sh obj = with_ctx (\<lambda>md.
     ck_then err_only md (Obj C_DestroyObject) [AULong sh, AULong obj])"

definition GetObjectSize :: "uint \<Rightarrow> uint \<Rightarrow> ('m world, goerror + uint) go" where
  "GetObjectSize sh obj = with_ctx (\<lambda>md.
     ck_then object_size md (Obj C_GetObjectSize) [AULong sh, AULong obj])"

definition SetAttributeValue :: "uint \<Rightarrow> uint \<Rightarrow> Attribute option list \<Rightarrow> ('m world, goerror + unit) go" where
  "SetAttributeValue sh obj tmpl = with_ctx (\<lambda>md.
     go_scoped (cAttributes tmpl) (\<lambda>(p, n, fr). fr) (\<lambda>(arr, n, fr).
     ck_then err_only md (Obj C_SetAttributeValue) [AULong sh, AULong obj, ATmpl arr n]))"

definition FindObjectsInit :: "uint \<Rightarrow> Attribute option list \<Rightarrow> ('m world, goerror + unit) go" where
  "FindObjectsInit sh tmpl = with_ctx (\<lambda>md.
     go_scoped (cAttributes tmpl) (\<lambda>(p, n, fr). fr) (\<lambda>(arr, n, fr).
     ck_then err_only md (Obj C_FindObjectsInit) [AULong sh, ATmpl arr n]))"

definition FindObjectsFinal :: "uint \<Rightarrow> ('m world, goerror + unit) go" where
  "FindObjectsFinal sh = with_ctx (\<lambda>md.
     ck_then err_only md (Obj C_FindObjectsFinal) [AULong sh])"

definition FindObjects :: "uint \<Rightarrow> int \<Rightarrow> ('m world, goerror + uint list) go" where
  "FindObjects sh maxObjects = (if maxObjects \<le> 0 then go_ret (Inr []) else with_ctx (\<lambda>md.
     if nat maxObjects > 2 ^ 45 then go_panic ''makeslice: len out of range''
     else go_bind (ck_arr md (Obj C_FindObjects) [AULong sh] True (of_int maxObjects)) (\<lambda>(r, buf). case toError (rv r) of
         Some e \<Rightarrow> go_ret (Inl e)
       | None \<Rightarrow> copy_list buf (olen r))))"

section \<open>Contracts\<close>

lemma CopyObject_refines:
  assumes "tmpl_ok tmpl"
  shows "refines (released pub) (\<lambda>w. modl w = mo) (CopyObject sh obj (map Some tmpl))
     (abs_ctx mo (\<lambda>md. abs_then handle md (Obj C_CopyObject) [SULong sh, SULong obj, tmpl_view tmpl]))"
  unfolding CopyObject_def by (rule refine_op stable_intros assms | simp)+

lemma CreateObject_refines:
  assumes "tmpl_ok tmpl"
  shows "refines (released pub) (\<lambda>w. modl w = mo) (CreateObject sh (map Some tmpl))
     (abs_ctx mo (\<lambda>md. abs_then handle md (Obj C_CreateObject) [SULong sh, tmpl_view tmpl]))"
  unfolding CreateObject_def by (rule refine_op stable_intros assms | simp)+

lemma DestroyObject_refines:
  "refines (released pub) (\<lambda>w. modl w = mo) (DestroyObject sh obj)
     (abs_ctx mo (\<lambda>md. abs_then err_only md (Obj C_DestroyObject) [SULong sh, SULong obj]))"
  unfolding DestroyObject_def by (rule refine_op stable_intros | simp)+

lemma GetObjectSize_refines:
  "refines (released pub) (\<lambda>w. modl w = mo) (GetObjectSize sh obj)
     (abs_ctx mo (\<lambda>md. abs_then object_size md (Obj C_GetObjectSize) [SULong sh, SULong obj]))"
  unfolding GetObjectSize_def by (rule refine_op stable_intros | simp)+

lemma SetAttributeValue_refines:
  assumes "tmpl_ok tmpl"
  shows "refines (released pub) (\<lambda>w. modl w = mo) (SetAttributeValue sh obj (map Some tmpl))
     (abs_ctx mo (\<lambda>md. abs_then err_only md (Obj C_SetAttributeValue) [SULong sh, SULong obj, tmpl_view tmpl]))"
  unfolding SetAttributeValue_def by (rule refine_op stable_intros assms | simp)+

lemma FindObjectsInit_refines:
  assumes "tmpl_ok tmpl"
  shows "refines (released pub) (\<lambda>w. modl w = mo) (FindObjectsInit sh (map Some tmpl))
     (abs_ctx mo (\<lambda>md. abs_then err_only md (Obj C_FindObjectsInit) [SULong sh, tmpl_view tmpl]))"
  unfolding FindObjectsInit_def by (rule refine_op stable_intros assms | simp)+

lemma FindObjectsFinal_refines:
  "refines (released pub) (\<lambda>w. modl w = mo) (FindObjectsFinal sh)
     (abs_ctx mo (\<lambda>md. abs_then err_only md (Obj C_FindObjectsFinal) [SULong sh]))"
  unfolding FindObjectsFinal_def by (rule refine_op stable_intros | simp)+

text \<open>A search step of an honest module: the handles it stored, at most \<open>maxObjects\<close> of them.\<close>

definition abs_find :: "'m ckModule \<Rightarrow> uint \<Rightarrow> uint \<Rightarrow> ('m, goerror + uint list) protocol" where
  "abs_find md sh n = abs_bind (abs_arr md (Obj C_FindObjects) [SULong sh] True n) (\<lambda>(r, buf). case toError (rv r) of
     Some e \<Rightarrow> abs_ret (Inl e) | None \<Rightarrow> abs_ret (Inr (take (unat (olen r)) buf)))"

lemma FindObjects_refines:
  assumes h: "\<And>md. mo = Some md \<Longrightarrow> honest_count md (Obj C_FindObjects)" and n: "n \<le> 2 ^ 45"
  shows "refines (released pub) (\<lambda>w. modl w = mo) (FindObjects sh n)
     (if n \<le> 0 then abs_ret (Inr []) else abs_ctx mo (\<lambda>md. abs_find md sh (of_int n)))"
proof (cases "n \<le> 0")
  case True
  then show ?thesis by (simp add: FindObjects_def refines_ret)
next
  case False
  then have "unat (of_int n :: uint) = nat n" using n by (simp add: unat_eq_nat_uint uint_word_of_int)
  then have un: "unat (of_int n :: uint) \<le> 2 ^ 45" using n by simp
  have "refines (released pub) (\<lambda>w. modl w = mo) (FindObjects sh n) (abs_ctx mo (\<lambda>md. abs_find md sh (of_int n)))"
    unfolding FindObjects_def if_not_P [OF False]
  proof (rule with_ctx_refines [OF stable_modl])
    fix md assume md: "mo = Some md"
    have "\<not> 2 ^ 45 < nat n" using n by (simp add: not_less nat_le_iff)
    then show "refines (released pub) (\<lambda>w. modl w = mo) (if nat n > 2 ^ 45 then go_panic ''makeslice: len out of range''
        else go_bind (ck_arr md (Obj C_FindObjects) [AULong sh] True (of_int n)) (\<lambda>(r, buf). case toError (rv r) of
           Some e \<Rightarrow> go_ret (Inl e) | None \<Rightarrow> copy_list buf (olen r))) (abs_find md sh (of_int n))"
      using list_pass_refines [OF stable_modl _ _ _ h [OF md] un, of "[AULong sh]" mo "[SULong sh]"] n md
      by (simp add: abs_find_def)
  qed simp
  then show ?thesis using False by simp
qed

end
