(* ===== verification/Keys.thy ===== *)
theory Keys
  imports Crypto Objects
begin

text \<open>
  \<^verbatim>\<open>cryptoki/key.go\<close>, \<^verbatim>\<open>wrap.go\<close> and \<^verbatim>\<open>v32.go\<close>: generating, wrapping, deriving and encapsulating keys, and
  the signature verification of version 3.2, with their contracts.
\<close>

definition handle2 :: "ck_reply \<Rightarrow> goerror + uint \<times> uint" where
  "handle2 r = (case toError (rv r) of Some e \<Rightarrow> Inl e | None \<Rightarrow> Inr (stored 0 r, stored 1 r))"

section \<open>Keys\<close>

definition GenerateKey :: "uint \<Rightarrow> Mechanism option \<Rightarrow> Attribute option list \<Rightarrow> ('m world, goerror + uint) go" where
  "GenerateKey sh m tmpl = with_ctx (\<lambda>md.
     go_try_scoped (cMechanism m) (\<lambda>(p, fr). fr) (\<lambda>(mech, fr).
     go_scoped (cAttributes tmpl) (\<lambda>(p, n, fr). fr) (\<lambda>(arr, n, fr).
     ck_then handle md (Key C_GenerateKey) [AULong sh, AMech mech, ATmpl arr n])))"

definition GenerateKeyPair :: "uint \<Rightarrow> Mechanism option \<Rightarrow> Attribute option list \<Rightarrow> Attribute option list \<Rightarrow> ('m world, goerror + uint \<times> uint) go" where
  "GenerateKeyPair sh m public private = with_ctx (\<lambda>md.
     go_try_scoped (cMechanism m) (\<lambda>(p, fr). fr) (\<lambda>(mech, fr).
     go_scoped (cAttributes public) (\<lambda>(p, n, fr). fr) (\<lambda>(pub, pubN, fr).
     go_scoped (cAttributes private) (\<lambda>(p, n, fr). fr) (\<lambda>(priv, privN, fr).
     ck_then handle2 md (Key C_GenerateKeyPair) [AULong sh, AMech mech, ATmpl pub pubN, ATmpl priv privN]))))"

definition WrapKey :: "uint \<Rightarrow> Mechanism option \<Rightarrow> uint \<Rightarrow> uint \<Rightarrow> ('m world, goerror + byte list) go" where
  "WrapKey sh m wrappingKey key = with_ctx (\<lambda>md.
     go_try_scoped (cMechanism m) (\<lambda>(p, fr). fr) (\<lambda>(mech, fr).
     outOp (ck_out md (Key C_WrapKey) [AULong sh, AMech mech, AULong wrappingKey, AULong key])))"

definition UnwrapKey :: "uint \<Rightarrow> Mechanism option \<Rightarrow> uint \<Rightarrow> byte list \<Rightarrow> Attribute option list \<Rightarrow> ('m world, goerror + uint) go" where
  "UnwrapKey sh m unwrappingKey wrapped tmpl = with_ctx (\<lambda>md.
     go_try_scoped (cMechanism m) (\<lambda>(p, fr). fr) (\<lambda>(mech, fr).
     go_scoped (cInput wrapped) (\<lambda>(p, n). free p) (\<lambda>(wp, wn).
     go_scoped (cAttributes tmpl) (\<lambda>(p, n, fr). fr) (\<lambda>(arr, n, fr).
     ck_then handle md (Key C_UnwrapKey) [AULong sh, AMech mech, AULong unwrappingKey, AIn wp wn, ATmpl arr n]))))"

definition DeriveKey :: "uint \<Rightarrow> Mechanism option \<Rightarrow> uint \<Rightarrow> Attribute option list \<Rightarrow> ('m world, goerror + uint) go" where
  "DeriveKey sh m baseKey tmpl = with_ctx (\<lambda>md.
     go_try_scoped (cMechanism m) (\<lambda>(p, fr). fr) (\<lambda>(mech, fr).
     go_scoped (cAttributes tmpl) (\<lambda>(p, n, fr). fr) (\<lambda>(arr, n, fr).
     ck_then handle md (Key C_DeriveKey) [AULong sh, AMech mech, AULong baseKey, ATmpl arr n])))"

section \<open>Version 3.2\<close>

definition DecapsulateKey :: "uint \<Rightarrow> Mechanism option \<Rightarrow> uint \<Rightarrow> Attribute option list \<Rightarrow> byte list \<Rightarrow> ('m world, goerror + uint) go" where
  "DecapsulateKey sh m privKey tmpl ciphertext = with_ctx (\<lambda>md.
     go_try_scoped (cMechanism m) (\<lambda>(p, fr). fr) (\<lambda>(mech, fr).
     go_scoped (cAttributes tmpl) (\<lambda>(p, n, fr). fr) (\<lambda>(arr, n, fr).
     go_scoped (cInput ciphertext) (\<lambda>(p, n). free p) (\<lambda>(ct, ctLen).
     ck_then handle md (V32 C_DecapsulateKey) [AULong sh, AMech mech, AULong privKey, ATmpl arr n, AIn ct ctLen]))))"

definition VerifySignatureInit :: "uint \<Rightarrow> Mechanism option \<Rightarrow> uint \<Rightarrow> byte list \<Rightarrow> ('m world, goerror + unit) go" where
  "VerifySignatureInit sh m key signature = with_ctx (\<lambda>md.
     go_try_scoped (cMechanism m) (\<lambda>(p, fr). fr) (\<lambda>(mech, fr).
     go_scoped (cInput signature) (\<lambda>(p, n). free p) (\<lambda>(sig, sn).
     ck_then err_only md (V32 C_VerifySignatureInit) [AULong sh, AMech mech, AULong key, AIn sig sn])))"

definition VerifySignature :: "uint \<Rightarrow> byte list \<Rightarrow> ('m world, goerror + unit) go" where
  "VerifySignature sh data = with_ctx (\<lambda>md.
     go_scoped (cInput data) (\<lambda>(p, n). zfree p n) (\<lambda>(p, n).
     ck_then err_only md (V32 C_VerifySignature) [AULong sh, AIn p n]))"

definition VerifySignatureUpdate :: "uint \<Rightarrow> byte list \<Rightarrow> ('m world, goerror + unit) go" where
  "VerifySignatureUpdate sh part = with_ctx (\<lambda>md.
     go_scoped (cInput part) (\<lambda>(p, n). zfree p n) (\<lambda>(p, n).
     ck_then err_only md (V32 C_VerifySignatureUpdate) [AULong sh, AIn p n]))"

definition VerifySignatureFinal :: "uint \<Rightarrow> ('m world, goerror + unit) go" where
  "VerifySignatureFinal sh = with_ctx (\<lambda>md.
     ck_then err_only md (V32 C_VerifySignatureFinal) [AULong sh])"

definition GetSessionValidationFlags :: "uint \<Rightarrow> uint \<Rightarrow> ('m world, goerror + uint) go" where
  "GetSessionValidationFlags sh flagType = with_ctx (\<lambda>md.
     ck_then handle md (V32 C_GetSessionValidationFlags) [AULong sh, AULong flagType])"

definition WrapKeyAuthenticated :: "uint \<Rightarrow> Mechanism option \<Rightarrow> uint \<Rightarrow> uint \<Rightarrow> byte list \<Rightarrow> ('m world, goerror + byte list) go" where
  "WrapKeyAuthenticated sh m wrappingKey key aad_data = with_ctx (\<lambda>md.
     go_try_scoped (cMechanism m) (\<lambda>(p, fr). fr) (\<lambda>(mech, fr).
     go_scoped (cInput aad_data) (\<lambda>(p, n). free p) (\<lambda>(ad, adLen).
     outOp (ck_out md (V32 C_WrapKeyAuthenticated) [AULong sh, AMech mech, AULong wrappingKey, AULong key, AIn ad adLen]))))"

definition UnwrapKeyAuthenticated :: "uint \<Rightarrow> Mechanism option \<Rightarrow> uint \<Rightarrow> byte list \<Rightarrow> byte list \<Rightarrow> Attribute option list \<Rightarrow> ('m world, goerror + uint) go" where
  "UnwrapKeyAuthenticated sh m unwrappingKey wrapped aad_data tmpl = with_ctx (\<lambda>md.
     go_try_scoped (cMechanism m) (\<lambda>(p, fr). fr) (\<lambda>(mech, fr).
     go_scoped (cInput wrapped) (\<lambda>(p, n). free p) (\<lambda>(wp, wn).
     go_scoped (cInput aad_data) (\<lambda>(p, n). free p) (\<lambda>(ad, adLen).
     go_scoped (cAttributes tmpl) (\<lambda>(p, n, fr). fr) (\<lambda>(arr, n, fr).
     ck_then handle md (V32 C_UnwrapKeyAuthenticated) [AULong sh, AMech mech, AULong unwrappingKey, AIn wp wn, ATmpl arr n, AIn ad adLen])))))"

section \<open>Encapsulation\<close>

text \<open>
  The handle is a variable the two calls share; a call that stores nothing leaves it as it was.
  The first call asks for the size of the ciphertext; without one the second gets no buffer either.
\<close>

definition last_key :: "uint \<Rightarrow> ck_reply \<Rightarrow> uint" where
  "last_key key r = (if ohandles r = [] then key else ohandles r ! 0)"

definition err_ct_limit :: "uint \<Rightarrow> goerror" where
  "err_ct_limit n = Errf ''cryptoki: EncapsulateKey: ciphertext size %d exceeds limit %d'' [unat n, maxOutBuf]"

definition err_ct_range :: "uint \<Rightarrow> goerror" where
  "err_ct_range n = Errf ''cryptoki: EncapsulateKey: ciphertext size %d exceeds C.int range'' [unat n]"

definition err_ct_buffer :: "uint \<Rightarrow> uint \<Rightarrow> goerror" where
  "err_ct_buffer n c = Errf ''cryptoki: EncapsulateKey: module reported ciphertext size %d exceeding buffer %d'' [unat n, unat c]"

definition encap_data :: "'m ckModule \<Rightarrow> carg list \<Rightarrow> uint \<Rightarrow> uint \<Rightarrow> uint \<Rightarrow> ptr \<Rightarrow> ('m world, goerror + byte list \<times> uint) go" where
  "encap_data md as sh key allocLen buf = go_bind (ck md (V32 C_EncapsulateKey) (as @ [AOut buf allocLen])) (\<lambda>r.
     case toError (rv r) of
       Some e \<Rightarrow> go_ret (Inl e)
     | None \<Rightarrow> (let ctLen = olen r; key = last_key key r in
         if ctLen > allocLen then
           go_bind (ck md (Obj C_DestroyObject) [AULong sh, AULong key]) (\<lambda>_. go_ret (Inl (err_ct_buffer ctLen allocLen)))
         else if ctLen > 0 then go_bind (cgo_GoBytes buf (c_int ctLen)) (\<lambda>ct. go_ret (Inr (ct, key)))
         else go_ret (Inr ([], key))))"

definition EncapsulateKey :: "uint \<Rightarrow> Mechanism option \<Rightarrow> uint \<Rightarrow> Attribute option list \<Rightarrow> ('m world, goerror + byte list \<times> uint) go" where
  "EncapsulateKey sh m pubKey tmpl = with_ctx (\<lambda>md.
     go_try_scoped (cMechanism m) (\<lambda>(p, fr). fr) (\<lambda>(mech, fr).
     go_scoped (cAttributes tmpl) (\<lambda>(p, n, fr). fr) (\<lambda>(arr, n, fr).
     let as = [AULong sh, AMech mech, AULong pubKey, ATmpl arr n] in
     go_bind (ck md (V32 C_EncapsulateKey) (as @ [AOut Null 0])) (\<lambda>r. case toError (rv r) of
       Some e \<Rightarrow> go_ret (Inl e)
     | None \<Rightarrow> (let ctLen = olen r; key = last_key 0 r in
         if ctLen > 0 then
           if unat ctLen > maxOutBuf then go_ret (Inl (err_ct_limit ctLen))
           else if unat ctLen > 2 ^ 31 - 1 then go_ret (Inl (err_ct_range ctLen))
           else go_scoped (cMalloc (unat ctLen)) (\<lambda>buf. heap_op ''free'' (c_free buf)) (encap_data md as sh key ctLen)
         else encap_data md as sh key ctLen Null)))))"

section \<open>Contracts\<close>

lemma GenerateKey_refines:
  assumes "tmpl_ok tmpl"
  shows "refines (released pub) (\<lambda>w. modl w = mo \<and> mech_pre pub pol m V w) (GenerateKey sh m (map Some tmpl))
     (abs_ctx mo (\<lambda>md. abs_mech pol m V (\<lambda>v. abs_then handle md (Key C_GenerateKey) [SULong sh, SMech v, tmpl_view tmpl])))"
  unfolding GenerateKey_def by (rule refine_op stable_intros assms | simp)+

lemma GenerateKeyPair_refines:
  assumes "tmpl_ok public" and "tmpl_ok private"
  shows "refines (released pub) (\<lambda>w. modl w = mo \<and> mech_pre pub pol m V w) (GenerateKeyPair sh m (map Some public) (map Some private))
     (abs_ctx mo (\<lambda>md. abs_mech pol m V (\<lambda>v. abs_then handle2 md (Key C_GenerateKeyPair) [SULong sh, SMech v, tmpl_view public, tmpl_view private])))"
  unfolding GenerateKeyPair_def by (rule refine_op stable_intros assms | simp)+

lemma WrapKey_refines:
  "refines (released pub) (\<lambda>w. modl w = mo \<and> mech_pre pub pol m V w) (WrapKey sh m wrappingKey key)
     (abs_ctx mo (\<lambda>md. abs_mech pol m V (\<lambda>v. abs_outOp (abs_out md (Key C_WrapKey) [SULong sh, SMech v, SULong wrappingKey, SULong key]))))"
  unfolding WrapKey_def by (rule refine_op stable_intros | simp)+

lemma UnwrapKey_refines:
  assumes "tmpl_ok tmpl" and "wrapped \<in> pub"
  shows "refines (released pub) (\<lambda>w. modl w = mo \<and> mech_pre pub pol m V w) (UnwrapKey sh m unwrappingKey wrapped (map Some tmpl))
     (abs_ctx mo (\<lambda>md. abs_mech pol m V (\<lambda>v. abs_then handle md (Key C_UnwrapKey) [SULong sh, SMech v, SULong unwrappingKey, data_view wrapped, tmpl_view tmpl])))"
  unfolding UnwrapKey_def by (rule refine_op stable_intros assms | simp)+

lemma DeriveKey_refines:
  assumes "tmpl_ok tmpl"
  shows "refines (released pub) (\<lambda>w. modl w = mo \<and> mech_pre pub pol m V w) (DeriveKey sh m baseKey (map Some tmpl))
     (abs_ctx mo (\<lambda>md. abs_mech pol m V (\<lambda>v. abs_then handle md (Key C_DeriveKey) [SULong sh, SMech v, SULong baseKey, tmpl_view tmpl])))"
  unfolding DeriveKey_def by (rule refine_op stable_intros assms | simp)+

lemma DecapsulateKey_refines:
  assumes "tmpl_ok tmpl" and "ciphertext \<in> pub"
  shows "refines (released pub) (\<lambda>w. modl w = mo \<and> mech_pre pub pol m V w) (DecapsulateKey sh m privKey (map Some tmpl) ciphertext)
     (abs_ctx mo (\<lambda>md. abs_mech pol m V (\<lambda>v. abs_then handle md (V32 C_DecapsulateKey) [SULong sh, SMech v, SULong privKey, tmpl_view tmpl, data_view ciphertext])))"
  unfolding DecapsulateKey_def by (rule refine_op stable_intros assms | simp)+

lemma VerifySignatureInit_refines:
  assumes "signature \<in> pub"
  shows "refines (released pub) (\<lambda>w. modl w = mo \<and> mech_pre pub pol m V w) (VerifySignatureInit sh m key signature)
     (abs_ctx mo (\<lambda>md. abs_mech pol m V (\<lambda>v. abs_then err_only md (V32 C_VerifySignatureInit) [SULong sh, SMech v, SULong key, data_view signature])))"
  unfolding VerifySignatureInit_def by (rule refine_op stable_intros assms | simp)+

lemma VerifySignature_refines:
  assumes "fits64 data"
  shows "refines (released pub) (\<lambda>w. modl w = mo) (VerifySignature sh data)
     (abs_ctx mo (\<lambda>md. abs_then err_only md (V32 C_VerifySignature) [SULong sh, data_view data]))"
  unfolding VerifySignature_def by (rule refine_op stable_intros assms | simp)+

lemma VerifySignatureUpdate_refines:
  assumes "fits64 part"
  shows "refines (released pub) (\<lambda>w. modl w = mo) (VerifySignatureUpdate sh part)
     (abs_ctx mo (\<lambda>md. abs_then err_only md (V32 C_VerifySignatureUpdate) [SULong sh, data_view part]))"
  unfolding VerifySignatureUpdate_def by (rule refine_op stable_intros assms | simp)+

lemma VerifySignatureFinal_refines:
  "refines (released pub) (\<lambda>w. modl w = mo) (VerifySignatureFinal sh)
     (abs_ctx mo (\<lambda>md. abs_then err_only md (V32 C_VerifySignatureFinal) [SULong sh]))"
  unfolding VerifySignatureFinal_def by (rule refine_op stable_intros | simp)+

lemma GetSessionValidationFlags_refines:
  "refines (released pub) (\<lambda>w. modl w = mo) (GetSessionValidationFlags sh flagType)
     (abs_ctx mo (\<lambda>md. abs_then handle md (V32 C_GetSessionValidationFlags) [SULong sh, SULong flagType]))"
  unfolding GetSessionValidationFlags_def by (rule refine_op stable_intros | simp)+

lemma WrapKeyAuthenticated_refines:
  assumes "aad_data \<in> pub"
  shows "refines (released pub) (\<lambda>w. modl w = mo \<and> mech_pre pub pol m V w) (WrapKeyAuthenticated sh m wrappingKey key aad_data)
     (abs_ctx mo (\<lambda>md. abs_mech pol m V (\<lambda>v. abs_outOp (abs_out md (V32 C_WrapKeyAuthenticated) [SULong sh, SMech v, SULong wrappingKey, SULong key, data_view aad_data]))))"
  unfolding WrapKeyAuthenticated_def by (rule refine_op stable_intros assms | simp)+

lemma UnwrapKeyAuthenticated_refines:
  assumes "tmpl_ok tmpl" and "wrapped \<in> pub" and "aad_data \<in> pub"
  shows "refines (released pub) (\<lambda>w. modl w = mo \<and> mech_pre pub pol m V w) (UnwrapKeyAuthenticated sh m unwrappingKey wrapped aad_data (map Some tmpl))
     (abs_ctx mo (\<lambda>md. abs_mech pol m V (\<lambda>v. abs_then handle md (V32 C_UnwrapKeyAuthenticated) [SULong sh, SMech v, SULong unwrappingKey, data_view wrapped, tmpl_view tmpl, data_view aad_data])))"
  unfolding UnwrapKeyAuthenticated_def by (rule refine_op stable_intros assms | simp)+

text \<open>
  \<open>EncapsulateKey\<close>: a ciphertext within the size announced and the handle, or an error; a module that
  claims more ciphertext than the buffer holds has its new key destroyed.  The ciphertext buffer is
  released as it is.
\<close>

definition abs_encap_data :: "'m ckModule \<Rightarrow> cview list \<Rightarrow> uint \<Rightarrow> uint \<Rightarrow> uint \<Rightarrow> bool \<Rightarrow> ('m, goerror + byte list \<times> uint) protocol" where
  "abs_encap_data md vs sh key cap b = abs_bind (abs_ck md (V32 C_EncapsulateKey) (vs @ [SOut b cap])) (\<lambda>r.
     case toError (rv r) of
       Some e \<Rightarrow> abs_ret (Inl e)
     | None \<Rightarrow> (let n = olen r; key = last_key key r in
         if n > cap then
           abs_bind (abs_ck md (Obj C_DestroyObject) [SULong sh, SULong key]) (\<lambda>_. abs_ret (Inl (err_ct_buffer n cap)))
         else abs_bind (abs_bytes n (obytes r)) (\<lambda>ct. abs_ret (map_sum id (\<lambda>ct. (ct, key)) ct))))"

definition abs_encap :: "'m ckModule \<Rightarrow> cview list \<Rightarrow> uint \<Rightarrow> ('m, goerror + byte list \<times> uint) protocol" where
  "abs_encap md vs sh = abs_bind (abs_ck md (V32 C_EncapsulateKey) (vs @ [SOut False 0])) (\<lambda>r.
     case toError (rv r) of
       Some e \<Rightarrow> abs_ret (Inl e)
     | None \<Rightarrow> (let n = olen r; key = last_key 0 r in
         if n > 0 then
           if unat n > maxOutBuf then abs_ret (Inl (err_ct_limit n))
           else abs_encap_data md vs sh key n True
         else abs_encap_data md vs sh key n False))"

lemma destroy_refines:
  fixes P :: "'m world \<Rightarrow> bool"
  assumes P: "stable P" and md: "\<And>w. P w \<Longrightarrow> modl w = Some m"
  shows "refines S P (go_bind (ck m (Obj C_DestroyObject) [AULong sh, AULong key]) (\<lambda>_. go_ret x))
    (abs_bind (abs_ck m (Obj C_DestroyObject) [SULong sh, SULong key]) (\<lambda>_. abs_ret x))"
  by (rule refines_bind [OF P ck_refines refines_ret]) (use md in simp_all)

lemma encap_data_buffer:
  fixes P :: "'m world \<Rightarrow> bool"
  assumes io: "list_all input_arg as" and md: "\<And>w. P w \<Longrightarrow> modl w = Some m" and vs: "\<And>w. P w \<Longrightarrow> sees as vs w"
    and n: "unat n \<le> maxOutBuf"
  shows "brefines S P a (\<lambda>b. length b = unat n) (encap_data m as sh key n (Ptr a)) (abs_encap_data m vs sh key n True)"
  unfolding encap_data_def abs_encap_data_def
proof (rule brefines_call [OF io md vs], assumption, assumption, goal_cases)
  case (2 r)
  show ?case
  proof (cases "toError (rv r)")
    case (Some e) then show ?thesis by (simp add: brefines_refines refines_ret)
  next
    case None
    let ?k = "last_key key r" and ?n = "olen r"
    show ?thesis
    proof (cases "?n > n")
      case True
      then show ?thesis using None by (simp add: Let_def) (rule brefines_refines, rule destroy_refines, auto simp: stable_modl)
    next
      case False
      then have le: "unat ?n \<le> unat n" by (simp add: word_le_nat_alt not_less)
      then have small: "unat ?n < 2 ^ 31" using n by (simp add: maxOutBuf_def)
      have eq: "(if ?n > 0 then go_bind (cgo_GoBytes (Ptr a) (c_int ?n)) (\<lambda>ct. go_ret (Inr (ct, ?k))) else go_ret (Inr ([], ?k))) =
          go_bind (if ?n > 0 then go_bind (cgo_GoBytes (Ptr a) (c_int ?n)) (\<lambda>x. go_ret (Inr x)) else go_ret (Inr []))
            (\<lambda>ct. go_ret (map_sum id (\<lambda>ct. (ct, ?k)) ct))"
        by (simp add: go_bind_assoc)
      have "brefines S (\<lambda>w. modl w = Some m) a
          (\<lambda>b. \<exists>b0. length b0 = unat n \<and> length (obytes r) \<le> unat n \<and> b = obytes r @ drop (length (obytes r)) b0)
          (if ?n > 0 then go_bind (cgo_GoBytes (Ptr a) (c_int ?n)) (\<lambda>x. go_ret (Inr x)) else go_ret (Inr []))
          (abs_bytes ?n (obytes r))"
      proof (cases "?n > 0")
        case True
        then show ?thesis by simp (rule brefines_bytes [OF _ small], use le in auto)
      next
        case False
        then have "?n = 0" by (simp add: word_gt_0)
        then show ?thesis by (simp add: brefines_ret abs_bytes_def)
      qed
      from brefines_then_ret [OF this, of "map_sum id (\<lambda>ct. (ct, ?k))"] show ?thesis
        unfolding None option.case Let_def if_not_P [OF False] eq .
    qed
  qed
qed simp

lemma encap_data_null:
  fixes P :: "'m world \<Rightarrow> bool"
  assumes P: "stable P" and io: "list_all input_arg as" and md: "\<And>w. P w \<Longrightarrow> modl w = Some m" and vs: "\<And>w. P w \<Longrightarrow> sees as vs w"
  shows "refines S P (encap_data m as sh key 0 Null) (abs_encap_data m vs sh key 0 False)"
  unfolding encap_data_def abs_encap_data_def
proof (rule refines_bind [OF P ck_sizing_refines [OF io md vs]], assumption, assumption, goal_cases)
  case (1 r)
  show ?case
  proof (cases "toError (rv r)")
    case (Some e) then show ?thesis by (simp add: refines_ret)
  next
    case None
    have "refines S P (go_ret (Inr ([], k))) (abs_bind (abs_bytes 0 bs) (\<lambda>ct. abs_ret (map_sum id (\<lambda>ct. (ct, k)) ct)))" for k bs
      by (auto intro!: refinesI abs_bindI simp: go_run abs_bytes_def)
    then show ?thesis using None destroy_refines [OF P md] by (cases "olen r = 0") (auto simp: Let_def word_gt_0)
  qed
qed

lemma EncapsulateKey_refines:
  assumes "tmpl_ok tmpl"
  shows "refines (released UNIV) (\<lambda>w. modl w = mo \<and> mech_pre UNIV pol m V w) (EncapsulateKey sh m pubKey (map Some tmpl))
     (abs_ctx mo (\<lambda>md. abs_mech pol m V (\<lambda>v. abs_encap md [SULong sh, SMech v, SULong pubKey, tmpl_view tmpl] sh)))"
  unfolding EncapsulateKey_def
proof (rule with_ctx_refines, goal_cases)
  case (3 md)
  show ?case
  proof (rule refines_cMechanism, goal_cases)
    case (3 mech)
    show ?case
    proof (rule refines_cAttributes, goal_cases)
      case (3 arr n)
      let ?P = "\<lambda>w. ((modl w = mo \<and> mech_pre UNIV pol m V w) \<and> view_arg (hp w) (AMech mech) = Some (SMech V)) \<and>
          view_arg (hp w) (ATmpl arr n) = Some (tmpl_view tmpl)"
      let ?as = "[AULong sh, AMech mech, AULong pubKey, ATmpl arr n]"
        and ?vs = "[SULong sh, SMech V, SULong pubKey, tmpl_view tmpl]"
      have P: "stable ?P" by (intro stable_intros)
      have io: "list_all input_arg ?as" by simp
      have md: "modl w = Some md" and vs: "sees ?as ?vs w" if "?P w" for w :: "'a world"
        using that \<open>mo = Some md\<close> by simp_all
      have free: "releases (released UNIV) J [a \<mapsto> CBytes b] (heap_op ''free'' (c_free (Ptr a)))" for J a b
        by (rule releases_free) simp
      show ?case unfolding abs_encap_def Let_def
      proof (rule refines_bind [OF P ck_sizing_refines [OF io md vs]], assumption, assumption, goal_cases)
        case (1 r)
        show ?case
        proof (cases "toError (rv r)")
          case (Some e) then show ?thesis by (simp add: refines_ret)
        next
          case None
          show ?thesis
          proof (cases "olen r > 0 \<and> unat (olen r) \<le> maxOutBuf")
            case True
            then have b: "\<not> 2 ^ 31 - 1 < unat (olen r)" "\<not> maxOutBuf < unat (olen r)" by (simp_all add: maxOutBuf_def)
            have "refines (released UNIV) ?P (go_scoped (cMalloc (unat (olen r))) (\<lambda>buf. heap_op ''free'' (c_free buf))
                (encap_data md ?as sh (last_key 0 r) (olen r))) (abs_encap_data md ?vs sh (last_key 0 r) (olen r) True)"
              by (rule refines_buffer [OF P encap_data_buffer [OF io md vs] free]) (use True in simp_all)
            then show ?thesis
              unfolding None option.case if_P [OF conjunct1 [OF True]] if_not_P [OF b(1)] if_not_P [OF b(2)] .
          next
            case False
            show ?thesis
            proof (cases "olen r = 0")
              case True
              have "\<not> 0 < olen r" using True by simp
              then show ?thesis
                unfolding None option.case if_not_P [OF \<open>\<not> 0 < olen r\<close>] unfolding True
                by (intro encap_data_null [OF P io md vs])
            next
              case z: False
              then have "olen r > 0" "maxOutBuf < unat (olen r)" using False by (simp_all add: word_gt_0)
              then show ?thesis using None by (simp add: refines_ret)
            qed
          qed
        qed
      qed
    qed (use assms in \<open>intro stable_intros | simp\<close>)+
  qed (intro stable_intros | simp)+
qed (intro stable_intros | simp)+

end
