(* ===== verification/Sessions.thy ===== *)
theory Sessions
  imports Buffers
begin

text \<open>
  \<^verbatim>\<open>cryptoki/session.go\<close>, \<^verbatim>\<open>state.go\<close> and \<^verbatim>\<open>random.go\<close>: sessions, login, the saved operation state
  and the token's random numbers, with their contracts.
\<close>

record SessionInfo =
  si_SlotID :: uint
  si_State :: uint
  si_Flags :: uint
  si_DeviceError :: uint

definition go_session_info :: "ck_reply \<Rightarrow> goerror + SessionInfo" where
  "go_session_info r = (case toError (rv r) of Some e \<Rightarrow> Inl e | None \<Rightarrow> Inr (case oinfo r of
      SessI a b c d \<Rightarrow> \<lparr>si_SlotID = a, si_State = b, si_Flags = c, si_DeviceError = d\<rparr>
    | _ \<Rightarrow> \<lparr>si_SlotID = 0, si_State = 0, si_Flags = 0, si_DeviceError = 0\<rparr>))"

section \<open>Sessions\<close>

definition OpenSession :: "uint \<Rightarrow> uint \<Rightarrow> ('m world, goerror + uint) go" where
  "OpenSession slot flags = with_ctx (\<lambda>md.
     ck_then handle md (Sess C_OpenSession) [AULong slot, AULong flags])"

definition CloseSession :: "uint \<Rightarrow> ('m world, goerror + unit) go" where
  "CloseSession sh = with_ctx (\<lambda>md.
     ck_then err_only md (Sess C_CloseSession) [AULong sh])"

definition CloseAllSessions :: "uint \<Rightarrow> ('m world, goerror + unit) go" where
  "CloseAllSessions slot = with_ctx (\<lambda>md.
     ck_then err_only md (Sess C_CloseAllSessions) [AULong slot])"

definition GetSessionInfo :: "uint \<Rightarrow> ('m world, goerror + SessionInfo) go" where
  "GetSessionInfo sh = with_ctx (\<lambda>md.
     ck_then go_session_info md (Sess C_GetSessionInfo) [AULong sh])"

definition Login :: "uint \<Rightarrow> uint \<Rightarrow> byte list \<Rightarrow> ('m world, goerror + unit) go" where
  "Login sh userType pin = with_ctx (\<lambda>md.
     go_scoped (cBytes pin) (\<lambda>(p, n). zfree p n) (\<lambda>(p, n).
     ck_then err_only md (Sess C_Login) [AULong sh, AULong userType, AIn p n]))"

definition Logout :: "uint \<Rightarrow> ('m world, goerror + unit) go" where
  "Logout sh = with_ctx (\<lambda>md.
     ck_then err_only md (Sess C_Logout) [AULong sh])"

section \<open>Operation state\<close>

definition GetOperationState :: "uint \<Rightarrow> ('m world, goerror + byte list) go" where
  "GetOperationState sh = with_ctx (\<lambda>md.
     outOp (ck_out md (Sess C_GetOperationState) [AULong sh]))"

definition SetOperationState :: "uint \<Rightarrow> byte list \<Rightarrow> uint \<Rightarrow> uint \<Rightarrow> ('m world, goerror + unit) go" where
  "SetOperationState sh state encKey authKey = with_ctx (\<lambda>md.
     go_scoped (cInput state) (\<lambda>(p, n). zfree p n) (\<lambda>(sp, slen).
     ck_then err_only md (Sess C_SetOperationState) [AULong sh, AIn sp slen, AULong encKey, AULong authKey]))"

section \<open>Random numbers\<close>

definition SeedRandom :: "uint \<Rightarrow> byte list \<Rightarrow> ('m world, goerror + unit) go" where
  "SeedRandom sh seed = with_ctx (\<lambda>md.
     go_scoped (cInput seed) (\<lambda>(p, n). zfree p n) (\<lambda>(p, n).
     ck_then err_only md (Dig C_SeedRandom) [AULong sh, AIn p n]))"

definition GenerateRandom :: "uint \<Rightarrow> int \<Rightarrow> ('m world, goerror + byte list) go" where
  "GenerateRandom sh len =
     (if len \<le> 0 then go_ret (Inr [])
      else if len > int maxOutBuf then
        go_ret (Inl (Errf ''cryptoki: GenerateRandom: length %d exceeds limit %d'' [nat len, maxOutBuf]))
      else with_ctx (\<lambda>md. go_scoped (cMalloc (nat len)) (\<lambda>buf. zfree buf (of_int len)) (\<lambda>buf.
        go_bind (ck md (Dig C_GenerateRandom) [AULong sh, AOut buf (of_int len)]) (\<lambda>r.
        case toError (rv r) of
          Some e \<Rightarrow> go_ret (Inl e)
        | None \<Rightarrow> go_bind (cgo_GoBytes buf (c_int (of_int len))) (\<lambda>b. go_ret (Inr b))))))"

section \<open>Contracts\<close>

lemma OpenSession_refines:
  "refines (released pub) (\<lambda>w. modl w = mo) (OpenSession slot flags)
     (abs_ctx mo (\<lambda>md. abs_then handle md (Sess C_OpenSession) [SULong slot, SULong flags]))"
  unfolding OpenSession_def by (rule refine_op stable_intros | simp)+

lemma CloseSession_refines:
  "refines (released pub) (\<lambda>w. modl w = mo) (CloseSession sh)
     (abs_ctx mo (\<lambda>md. abs_then err_only md (Sess C_CloseSession) [SULong sh]))"
  unfolding CloseSession_def by (rule refine_op stable_intros | simp)+

lemma CloseAllSessions_refines:
  "refines (released pub) (\<lambda>w. modl w = mo) (CloseAllSessions slot)
     (abs_ctx mo (\<lambda>md. abs_then err_only md (Sess C_CloseAllSessions) [SULong slot]))"
  unfolding CloseAllSessions_def by (rule refine_op stable_intros | simp)+

lemma GetSessionInfo_refines:
  "refines (released pub) (\<lambda>w. modl w = mo) (GetSessionInfo sh)
     (abs_ctx mo (\<lambda>md. abs_then go_session_info md (Sess C_GetSessionInfo) [SULong sh]))"
  unfolding GetSessionInfo_def by (rule refine_op stable_intros | simp)+

lemma Login_refines:
  assumes "fits64 pin"
  shows "refines (released pub) (\<lambda>w. modl w = mo) (Login sh userType pin)
     (abs_ctx mo (\<lambda>md. abs_then err_only md (Sess C_Login) [SULong sh, SULong userType, bytes_view pin]))"
  unfolding Login_def by (rule refine_op stable_intros assms | simp)+

lemma Logout_refines:
  "refines (released pub) (\<lambda>w. modl w = mo) (Logout sh)
     (abs_ctx mo (\<lambda>md. abs_then err_only md (Sess C_Logout) [SULong sh]))"
  unfolding Logout_def by (rule refine_op stable_intros | simp)+

lemma GetOperationState_refines:
  "refines (released pub) (\<lambda>w. modl w = mo) (GetOperationState sh)
     (abs_ctx mo (\<lambda>md. abs_outOp (abs_out md (Sess C_GetOperationState) [SULong sh])))"
  unfolding GetOperationState_def by (rule refine_op stable_intros | simp)+

lemma SetOperationState_refines:
  assumes "fits64 state"
  shows "refines (released pub) (\<lambda>w. modl w = mo) (SetOperationState sh state encKey authKey)
     (abs_ctx mo (\<lambda>md. abs_then err_only md (Sess C_SetOperationState) [SULong sh, data_view state, SULong encKey, SULong authKey]))"
  unfolding SetOperationState_def by (rule refine_op stable_intros assms | simp)+

lemma SeedRandom_refines:
  assumes "fits64 seed"
  shows "refines (released pub) (\<lambda>w. modl w = mo) (SeedRandom sh seed)
     (abs_ctx mo (\<lambda>md. abs_then err_only md (Dig C_SeedRandom) [SULong sh, data_view seed]))"
  unfolding SeedRandom_def by (rule refine_op stable_intros assms | simp)+

text \<open>
  \<open>GenerateRandom\<close>: the result has the length asked for, and its bytes are those the module wrote.
\<close>

lemma unat_of_int_small: "0 \<le> i \<Longrightarrow> i \<le> int maxOutBuf \<Longrightarrow> unat (of_int i :: uint) = nat i"
  by (simp add: maxOutBuf_def unat_eq_nat_uint uint_word_of_int)

lemma GenerateRandom_refines:
  "refines (released pub) (\<lambda>w. modl w = mo) (GenerateRandom sh len)
     (if len \<le> 0 then abs_ret (Inr [])
      else if len > int maxOutBuf then
        abs_ret (Inl (Errf ''cryptoki: GenerateRandom: length %d exceeds limit %d'' [nat len, maxOutBuf]))
      else abs_ctx mo (\<lambda>md. abs_bind (abs_ck md (Dig C_GenerateRandom) [SULong sh, SOut True (of_int len)]) (\<lambda>r.
        case toError (rv r) of Some e \<Rightarrow> abs_ret (Inl e) | None \<Rightarrow> abs_bytes (of_int len) (obytes r))))"
  unfolding GenerateRandom_def
proof (intro refines_if refines_ret with_ctx_refines [OF stable_modl])
  fix md assume len: "\<not> len \<le> 0" "\<not> len > int maxOutBuf" and md: "mo = Some md"
  let ?n = "of_int len :: uint"
  have n: "unat ?n = nat len" using len by (intro unat_of_int_small) simp_all
  have small: "unat ?n < 2 ^ 31" using len unfolding n by (simp add: maxOutBuf_def nat_less_iff)
  show "refines (released pub) (\<lambda>w. modl w = mo) (go_scoped (cMalloc (nat len)) (\<lambda>buf. zfree buf ?n)
      (\<lambda>buf. go_bind (ck md (Dig C_GenerateRandom) [AULong sh, AOut buf ?n]) (\<lambda>r. case toError (rv r) of
          Some e \<Rightarrow> go_ret (Inl e) | None \<Rightarrow> go_bind (cgo_GoBytes buf (c_int ?n)) (\<lambda>b. go_ret (Inr b)))))
      (abs_bind (abs_ck md (Dig C_GenerateRandom) [SULong sh, SOut True ?n]) (\<lambda>r.
        case toError (rv r) of Some e \<Rightarrow> abs_ret (Inl e) | None \<Rightarrow> abs_bytes ?n (obytes r)))"
  proof (rule refines_buffer [OF stable_modl], goal_cases)
    case (1 a)
    show ?case
    proof (rule brefines_call [where as = "[AULong sh]" and vs = "[SULong sh]", simplified append.simps], goal_cases)
      case (5 r)
      show ?case by (cases "toError (rv r)")
        (auto intro!: brefines_refines refines_ret brefines_bytes [OF _ small] simp: n)
    qed (use md n in auto)
  next
    case (2 J a b) then show ?case by (intro releases_zfree) (simp_all add: n del: scrubbed.simps)
  qed
qed simp

end
