(* ===== verification/AttrValues.thy ===== *)
theory AttrValues
  imports Objects
begin

text \<open>
  \<open>GetAttributeValue\<close> of \<^verbatim>\<open>cryptoki/object.go\<close>.  It passes the module an array of attributes twice:
  first without value buffers, to learn the lengths, then with a zeroed buffer for each length that is
  available and positive.  The module may change the lengths again in the second call, so the code keeps
  the size of each allocation apart and scrubs by that.  The contract says so: whatever the module
  reports, every value buffer is zero over its whole length when it is released, and a value that is
  returned lies within its buffer.
\<close>

section \<open>The operation\<close>

definition partialOK :: "uint \<Rightarrow> bool" where
  "partialOK r \<longleftrightarrow> r = CKR_OK \<or> r = CKR_ATTRIBUTE_SENSITIVE \<or> r = CKR_ATTRIBUTE_TYPE_INVALID"

primrec check_flat :: "Attribute option list \<Rightarrow> ('m world, goerror + unit) go" where
  "check_flat [] = go_ret (Inr ())"
| "check_flat (a # as) = (case a of
      None \<Rightarrow> go_panic ''nil pointer dereference''
    | Some a \<Rightarrow> if isArrayAttribute (Type a)
        then go_ret (Inl (Errf ''cryptoki: GetAttributeValue: array attribute 0x%x is not supported'' [unat (Type a)]))
        else check_flat as)"

text \<open>Unlike \<open>C.malloc\<close>, \<open>C.calloc\<close> returns \<open>NULL\<close> to Go.\<close>

definition cgo_calloc :: "nat \<Rightarrow> ('m world, ptr) go" where
  "cgo_calloc n = (\<lambda>w. case c_calloc n (hp w) of (p, h) \<Rightarrow> (Ret p, w\<lparr>hp := h\<rparr>))"

definition empty_attr :: "Attribute option \<Rightarrow> ck_attr" where
  "empty_attr a = \<lparr>atype = (case a of Some a \<Rightarrow> Type a | None \<Rightarrow> 0), pValue = Null, ulValueLen = 0\<rparr>"

definition attr_array :: "Attribute option list \<Rightarrow> ('m world, ptr) go" where
  "attr_array tmpl = go_bind (cgo_malloc (length tmpl * 24)) (\<lambda>arr.
     go_bind (heap_op ''store'' (c_store arr (CAttrs (map empty_attr tmpl)))) (\<lambda>_. go_ret arr))"

definition with_attrs :: "ptr \<Rightarrow> (ck_attr list \<Rightarrow> ('m world, 'a) go) \<Rightarrow> ('m world, 'a) go" where
  "with_attrs p k = (\<lambda>w. case c_load (hp w) p of Some (CAttrs l) \<Rightarrow> k l w | _ \<Rightarrow> (Fault ''read'', w))"

text \<open>A buffer per available, positive length; the second list is \<open>allocs\<close>.\<close>

primrec alloc_values :: "ck_attr list \<Rightarrow> ('m world, ck_attr list \<times> (ptr \<times> uint) list) go" where
  "alloc_values [] = go_ret ([], [])"
| "alloc_values (a # as) =
     (if ulValueLen a \<noteq> CK_UNAVAILABLE_INFORMATION \<and> ulValueLen a > 0 then
        go_bind (cgo_calloc (unat (ulValueLen a))) (\<lambda>p.
        if p = Null then go_panic ''cryptoki: C.calloc failed (out of memory)''
        else go_bind (alloc_values as) (\<lambda>(list, allocs).
          go_ret (a\<lparr>pValue := p\<rparr> # list, (p, ulValueLen a) # allocs)))
      else go_bind (alloc_values as) (\<lambda>(list, allocs). go_ret (a # list, (Null, 0) # allocs)))"

definition read_value :: "ck_attr \<Rightarrow> ptr \<times> uint \<Rightarrow> ('m world, Attribute) go" where
  "read_value a al = (if fst al \<noteq> Null \<and> ulValueLen a \<noteq> CK_UNAVAILABLE_INFORMATION \<and> ulValueLen a \<le> snd al \<and>
        c_int (ulValueLen a) > 0
     then go_bind (cgo_GoBytes (pValue a) (c_int (ulValueLen a))) (\<lambda>b. go_ret \<lparr>Type = atype a, Value = Some b\<rparr>)
     else go_ret \<lparr>Type = atype a, Value = None\<rparr>)"

fun read_values :: "ck_attr list \<Rightarrow> (ptr \<times> uint) list \<Rightarrow> ('m world, Attribute list) go" where
  "read_values (a # as) (al # als) = go_bind (read_value a al) (\<lambda>x. go_bind (read_values as als) (\<lambda>xs. go_ret (x # xs)))"
| "read_values as als = go_ret []"

text \<open>The data call, after which the value buffers are released, and both calls together.\<close>

definition data_call :: "'m ckModule \<Rightarrow> uint \<Rightarrow> uint \<Rightarrow> uint \<Rightarrow> ptr \<Rightarrow> (ptr \<times> uint) list \<Rightarrow>
    ('m world, goerror + Attribute list \<times> goerror option) go" where
  "data_call md sh obj n arr allocs = go_defer (zfree_all allocs)
     (go_bind (ck md (Obj C_GetAttributeValue) [AULong sh, AULong obj, AAttrs arr n]) (\<lambda>r.
      if \<not> partialOK (rv r) then go_ret (Inl (Error (rv r)))
      else with_attrs arr (\<lambda>list. go_bind (read_values list allocs) (\<lambda>out.
        go_ret (Inr (out, toError (rv r)))))))"

definition get_attrs :: "'m ckModule \<Rightarrow> uint \<Rightarrow> uint \<Rightarrow> uint \<Rightarrow> ptr \<Rightarrow> ('m world, goerror + Attribute list \<times> goerror option) go" where
  "get_attrs md sh obj n arr =
     go_bind (ck md (Obj C_GetAttributeValue) [AULong sh, AULong obj, AAttrs arr n]) (\<lambda>r.
     if \<not> partialOK (rv r) then go_ret (Inl (Error (rv r)))
     else with_attrs arr (\<lambda>list. go_bind (alloc_values list) (\<lambda>(list, allocs).
       go_bind (heap_op ''store'' (c_store arr (CAttrs list))) (\<lambda>_. data_call md sh obj n arr allocs))))"

definition GetAttributeValue ::
  "uint \<Rightarrow> uint \<Rightarrow> Attribute option list \<Rightarrow> ('m world, goerror + Attribute list \<times> goerror option) go" where
  "GetAttributeValue sh obj tmpl = with_ctx (\<lambda>md.
     if tmpl = [] then go_ret (Inr ([], None))
     else go_try (check_flat tmpl) (\<lambda>_.
       go_scoped (attr_array tmpl) (\<lambda>arr. heap_op ''free'' (c_free arr)) (get_attrs md sh obj (ulong_len tmpl))))"

section \<open>Holding blocks\<close>

text \<open>
  \<open>held S w D v\<close>: \<open>v\<close> has the blocks of \<open>w\<close> and the newer blocks \<open>D\<close>, and is otherwise framed by \<open>w\<close>.
\<close>

definition held :: "release_rule \<Rightarrow> 'm world \<Rightarrow> (nat \<Rightarrow> cobj option) \<Rightarrow> 'm world \<Rightarrow> bool" where
  "held S w D v \<longleftrightarrow> fresh D (brk (hp w)) (brk (hp v)) \<and> mem (hp v) = mem (hp w) ++ D \<and>
     frame S w (v\<lparr>hp := (hp v)\<lparr>mem := mem (hp w)\<rparr>\<rparr>)"

lemma heldD:
  assumes "held S w D v"
  shows "mem (hp v) = mem (hp w) ++ D" "modl v = modl w" "oom v = oom w" "junk (hp v) = junk (hp w)"
    "grants (hp v) = grants (hp w)" "fresh D (brk (hp w)) (brk (hp v))"
  using assms by (auto simp: held_def frame_def ext_def oom_def)

lemma held_at: "held S w D v \<Longrightarrow> D a = Some x \<Longrightarrow> mem (hp v) a = Some x"
  by (simp add: held_def)

lemma held_refl: "held S w Map.empty w"
  by (simp add: held_def fresh_def)

lemma held_frame: "held S w Map.empty v \<Longrightarrow> frame S w v"
  by (simp add: held_def frame_def ext_def)

lemma held_wf:
  assumes "held S w D v" and "wf w"
  shows "wf v"
proof -
  have f: "fresh D (brk (hp w)) (brk (hp v))" and m: "mem (hp v) = mem (hp w) ++ D"
    and fr: "frame S w (v\<lparr>hp := (hp v)\<lparr>mem := mem (hp w)\<rparr>\<rparr>)"
    using assms(1) by (auto simp: held_def)
  have h: "heap_ok (hp w)" using assms(2) by (simp add: wf_def)
  have wv: "wf (v\<lparr>hp := (hp v)\<lparr>mem := mem (hp w)\<rparr>\<rparr>)" by (rule frame_wf [OF fr assms(2)])
  have "a < brk (hp v)" if a: "a \<in> dom (mem (hp v))" for a :: nat
  proof (cases "a \<in> dom D")
    case True
    then show ?thesis by (rule freshD(2) [OF f])
  next
    case False
    then have "a \<in> dom (mem (hp w))" using a m by auto
    with h have "a < brk (hp w)" unfolding heap_ok_def by (rule bspec)
    then show ?thesis using freshD(3) [OF f] by (rule less_le_trans)
  qed
  moreover have "mem (hp v) a = mem (hp w) a" if "mem (hp w) a = Some b" for a b
  proof -
    have "a < brk (hp w)" using h that by (auto simp: heap_ok_def)
    then have "D a = None" using freshD(1) [OF f, of a] by (meson domIff leD)
    then show ?thesis using m by (simp add: map_add_dom_app_simps(3) domIff)
  qed
  ultimately show ?thesis using wv unfolding wf_def heap_ok_def by (auto dest: domI)
qed

text \<open>Letting go of some of the blocks.\<close>

lemma map_add_drop:
  assumes "dom D \<inter> dom E = {}" and "dom E \<inter> dom M = {}"
  shows "(M ++ (D ++ E)) |` (- dom E) = M ++ D"
proof
  fix x show "((M ++ (D ++ E)) |` (- dom E)) x = (M ++ D) x"
  proof (cases "x \<in> dom E")
    case True
    then have "D x = None" "M x = None" using assms by auto
    then show ?thesis using True by (simp add: map_add_def)
  next
    case False
    then show ?thesis by (simp add: restrict_map_def map_add_def domIff)
  qed
qed

lemma held_drop:
  assumes h: "heap_ok (hp w)" and v: "held S w (D ++ E) v" and d: "dom D \<inter> dom E = {}" and r: "releases S (junk (hp w)) E rel"
  shows "\<exists>v'. rel v = (Ret (), v') \<and> held S w D v' \<and> nview v' = nview v"
proof -
  have m: "mem (hp v) = mem (hp w) ++ (D ++ E)" and f: "fresh (D ++ E) (brk (hp w)) (brk (hp v))"
    and fr: "frame S w (v\<lparr>hp := (hp v)\<lparr>mem := mem (hp w)\<rparr>\<rparr>)"
    using v by (auto simp: held_def)
  have "E \<subseteq>\<^sub>m mem (hp v)" unfolding m by (metis map_add_assoc map_le_map_add)
  then obtain fs where run: "rel v = (Ret (), heap_drop (dom E) fs v)" and fs: "\<forall>y \<in> set fs. S (junk (hp w)) y"
    using r unfolding releases_def by blast
  let ?v = "heap_drop (dom E) fs v"
  have "dom E \<inter> dom (mem (hp w)) = {}"
  proof -
    have "dom (D ++ E) \<inter> dom (mem (hp w)) = {}"
      by (rule fresh_disjoint [OF f]) (use h in \<open>simp add: heap_ok_def\<close>)
    then show ?thesis by auto
  qed
  then have "mem (hp ?v) = mem (hp w) ++ D"
    using m map_add_drop [OF d] by (simp add: heap_drop_def)
  moreover have "fresh D (brk (hp w)) (brk (hp ?v))" using f by (auto simp: fresh_def heap_drop_def)
  moreover have "frame S w (?v\<lparr>hp := (hp ?v)\<lparr>mem := mem (hp w)\<rparr>\<rparr>)"
    using fr fs by (auto simp: frame_def ext_def heap_drop_def)
  ultimately have "held S w D ?v" by (simp add: held_def)
  then show ?thesis using run by (auto simp: heap_drop_def nview_def)
qed

section \<open>The blocks of an attribute array\<close>

text \<open>
  \<open>vmap l bs\<close>: the value buffers of the entries of \<open>l\<close>, with contents \<open>bs\<close>.  \<open>set_lens\<close> and
  \<open>set_vals\<close> are what a reply does to the lengths and the contents.
\<close>

fun vmap :: "ck_attr list \<Rightarrow> byte list list \<Rightarrow> nat \<Rightarrow> cobj option" where
  "vmap (x # xs) (b # bs) = (case pValue x of Null \<Rightarrow> vmap xs bs | Ptr p \<Rightarrow> (vmap xs bs)(p \<mapsto> CBytes b))"
| "vmap xs bs = Map.empty"

fun addrs :: "ck_attr list \<Rightarrow> nat list" where
  "addrs [] = []"
| "addrs (x # xs) = (case pValue x of Null \<Rightarrow> addrs xs | Ptr p \<Rightarrow> p # addrs xs)"

fun set_lens :: "ck_attr list \<Rightarrow> (uint \<times> byte list) list \<Rightarrow> ck_attr list" where
  "set_lens (x # xs) ((n, b) # rs) = x\<lparr>ulValueLen := n\<rparr> # set_lens xs rs"
| "set_lens xs rs = xs"

fun set_vals :: "byte list list \<Rightarrow> (uint \<times> byte list) list \<Rightarrow> byte list list" where
  "set_vals (b # bs) ((n, x) # rs) = (x @ drop (length x) b) # set_vals bs rs"
| "set_vals bs rs = bs"

definition buf_size :: "ck_attr \<Rightarrow> nat" where
  "buf_size x = (if pValue x = Null then 0 else unat (ulValueLen x))"

lemma dom_vmap: "length bs = length l \<Longrightarrow> dom (vmap l bs) = set (addrs l)"
proof (induction l arbitrary: bs)
  case (Cons x l)
  then obtain b bs' where "bs = b # bs'" "length bs' = length l" by (cases bs) auto
  then show ?case using Cons.IH [of bs'] by (cases "pValue x") (simp_all del: fun_upd_apply)
qed simp

lemma map_add_sub: "f \<subseteq>\<^sub>m m \<Longrightarrow> m ++ f = m"
proof
  fix x assume "f \<subseteq>\<^sub>m m"
  then show "(m ++ f) x = m x" by (cases "f x") (simp_all add: map_add_def map_leD)
qed

lemma set_lens_shape [simp]:
  "length (set_lens l rs) = length l" "map pValue (set_lens l rs) = map pValue l"
  "map atype (set_lens l rs) = map atype l"
  by (induction l rs rule: set_lens.induct) simp_all

lemma length_set_vals [simp]: "length (set_vals bs rs) = length bs"
  by (induction bs rs rule: set_vals.induct) simp_all

lemma same_ptrs:
  "map pValue l = map pValue m \<Longrightarrow> addrs l = addrs m \<and> vmap l bs = vmap m bs"
proof (induction l arbitrary: m bs)
  case (Cons x l)
  then obtain y k where m: "m = y # k" and "pValue x = pValue y" "map pValue l = map pValue k" by auto
  then show ?case using Cons.IH [of k] by (cases bs; cases "pValue y") auto
qed simp

lemma store_attr_values_run:
  assumes "vmap l bs \<subseteq>\<^sub>m mem h" and "distinct (addrs l)" and "length bs = length l"
    and "fits_attrs (map buf_size l) rs" and "list_all2 (\<lambda>x b. buf_size x \<le> length b) l bs"
  shows "store_attr_values l rs h = Some (set_lens l rs, h\<lparr>mem := mem h ++ vmap l (set_vals bs rs)\<rparr>)"
  using assms
proof (induction l arbitrary: bs rs h)
  case Nil
  then show ?case by simp
next
  case (Cons x l)
  then obtain b bs' where bs: "bs = b # bs'" by (cases bs) auto
  show ?case
  proof (cases rs)
    case Nil
    then show ?thesis using map_add_sub [OF Cons.prems(1)] by simp
  next
    case r: (Cons r rs')
    obtain n y where ny: "r = (n, y)" by (cases r)
    have fit: "length y \<le> buf_size x" "fits_attrs (map buf_size l) rs'" "buf_size x \<le> length b"
      "list_all2 (\<lambda>x b. buf_size x \<le> length b) l bs'"
      using Cons.prems(4,5) bs r ny by auto
    show ?thesis
    proof (cases "pValue x")
      case Null
      then have "y = []" using fit(1) by (simp add: buf_size_def)
      moreover have "vmap l bs' \<subseteq>\<^sub>m mem h" using Cons.prems(1) bs Null by simp
      ultimately show ?thesis using Cons.IH [of bs' h rs'] Cons.prems bs r ny Null fit by simp
    next
      case (Ptr p)
      let ?h = "h\<lparr>mem := (mem h)(p \<mapsto> CBytes (y @ drop (length y) b))\<rparr>"
      have p: "p \<notin> dom (vmap l bs')" "p \<notin> dom (vmap l (set_vals bs' rs'))"
        using Cons.prems(2,3) bs Ptr by (simp_all add: dom_vmap)
      have at: "mem h p = Some (CBytes b)" by (rule map_leD [OF Cons.prems(1)]) (simp add: bs Ptr)
      have sub: "vmap l bs' \<subseteq>\<^sub>m (mem h)(p \<mapsto> z)" for z
        unfolding map_le_def
      proof
        fix a assume "a \<in> dom (vmap l bs')"
        then obtain c where c: "vmap l bs' a = Some c" and "a \<noteq> p" using p(1) by auto
        then show "vmap l bs' a = ((mem h)(p \<mapsto> z)) a"
          using map_leD [OF Cons.prems(1), of a c] by (simp add: bs Ptr)
      qed
      have w: "c_write (pValue x) y h = Some ?h" using at fit(1,3) Ptr by simp
      have "store_attr_values l rs' ?h = Some (set_lens l rs', ?h\<lparr>mem := mem ?h ++ vmap l (set_vals bs' rs')\<rparr>)"
        by (rule Cons.IH) (use sub Cons.prems(2,3) bs Ptr fit in \<open>simp_all del: fun_upd_apply\<close>)
      moreover have "mem ?h ++ vmap l (set_vals bs' rs') =
          mem h ++ (vmap l (set_vals bs' rs'))(p \<mapsto> CBytes (y @ drop (length y) b))"
        using p(2) by (auto simp: map_add_def fun_eq_iff domIff split: option.splits)
      ultimately show ?thesis using w bs r ny Ptr by (simp del: fun_upd_apply c_write.simps)
    qed
  qed
qed

text \<open>The array and its value buffers.\<close>

definition arr_blocks :: "nat \<Rightarrow> ck_attr list \<Rightarrow> byte list list \<Rightarrow> nat \<Rightarrow> cobj option" where
  "arr_blocks a l bs = [a \<mapsto> CAttrs l] ++ vmap l bs"

definition attrs_view :: "ck_attr list \<Rightarrow> cview" where
  "attrs_view l = SAttrs (map (\<lambda>x. (atype x, pValue x \<noteq> Null, ulValueLen x)) l)"

lemma attr_caps_view: "attr_caps [SULong x, SULong y, attrs_view l] = map buf_size l"
  by (simp add: attrs_view_def buf_size_def o_def)

lemma held_upd:
  assumes "held S w D v" and "dom D' = dom D"
  shows "held S w D' (v\<lparr>hp := (hp v)\<lparr>mem := mem (hp w) ++ D'\<rparr>\<rparr>)"
  using assms by (simp add: held_def fresh_def)

lemma held_step: "held S w D v \<Longrightarrow> held S w D (v\<lparr>nat_st := s, calls := c, at_calls := l\<rparr>)"
  by (simp add: held_def frame_def ext_def)

text \<open>One call of \<open>C_GetAttributeValue\<close>: the module sets lengths and fills in buffers.\<close>

definition good_arr :: "nat \<Rightarrow> ck_attr list \<Rightarrow> byte list list \<Rightarrow> bool" where
  "good_arr a l bs \<longleftrightarrow> a \<notin> set (addrs l) \<and> distinct (addrs l) \<and> length bs = length l"

lemma arr_blocks_at: "good_arr a l bs \<Longrightarrow> arr_blocks a l bs a = Some (CAttrs l)"
  using dom_vmap [of bs l] by (auto simp: arr_blocks_def good_arr_def map_add_def domIff split: option.splits)

lemma call_attrs:
  fixes w :: "'m world"
  assumes v: "held S w (arr_blocks a l bs) v" and w: "wf w" "modl w = Some md"
    and g: "good_arr a l bs" and fit: "list_all2 (\<lambda>x b. buf_size x \<le> length b) l bs" and n: "unat n = length l"
  shows "\<exists>r v'. ck md f [AULong x, AULong y, AAttrs (Ptr a) n] v = (Ret r, v') \<and>
    (r, nview v') \<in> abs_ck md f [SULong x, SULong y, attrs_view l] (nview v) \<and>
    held S w (arr_blocks a (set_lens l (oattrs r)) (set_vals bs (oattrs r))) v'"
proof (cases "served md f")
  case (Inl e)
  have "set_lens l [] = l" "set_vals bs [] = bs" by (cases l; simp) (cases bs; simp)
  then show ?thesis using v by (simp add: ck_run Inl go_run abs_ck_def reply0_def)
next
  case (Inr N)
  have wv: "wf v" "modl v = Some md" using held_wf [OF v w(1)] heldD(2) [OF v] w(2) by simp_all
  have N: "conforming N" by (rule served_conforming [OF wv Inr])
  let ?as = "[AULong x, AULong y, AAttrs (Ptr a) n]" and ?vs = "[SULong x, SULong y, attrs_view l]"
  obtain r ms where r: "N (nat_st v) (Call f ?vs) = (r, ms)" by (cases "N (nat_st v) (Call f ?vs)")
  have ft: "fits ?vs r" by (rule conformingD [OF N r])
  then have ob: "obytes r = []" "owrites r = []" by (simp_all add: fits_def attrs_view_def)
  have fa: "fits_attrs (map buf_size l) (oattrs r)" using ft unfolding fits_def attr_caps_view by blast
  have m: "mem (hp v) = mem (hp w) ++ arr_blocks a l bs" using heldD(1) [OF v] .
  have at: "mem (hp v) a = Some (CAttrs l)" by (rule held_at [OF v arr_blocks_at [OF g]])
  have view: "those (map (view_arg (hp v)) ?as) = Some ?vs" using at n by (simp add: attrs_view_def view_arg.simps)
  have "vmap l bs \<subseteq>\<^sub>m mem (hp v)" unfolding m arr_blocks_def by (metis map_add_assoc map_le_map_add)
  from store_attr_values_run [OF this _ _ fa fit]
  have st: "store_attr_values l (oattrs r) (hp v) = Some (set_lens l (oattrs r),
      (hp v)\<lparr>mem := mem (hp v) ++ vmap l (set_vals bs (oattrs r))\<rparr>)" using g by (simp add: good_arr_def)
  let ?l = "set_lens l (oattrs r)" and ?bs = "set_vals bs (oattrs r)"
  have sp: "vmap ?l ?bs = vmap l ?bs" "addrs ?l = addrs l" using same_ptrs [of ?l l] by simp_all
  have dm: "dom (vmap l ?bs) = dom (vmap l bs)" using g by (simp add: dom_vmap good_arr_def)
  have "a \<notin> dom (vmap l ?bs)" using g by (simp add: dom_vmap good_arr_def)
  then have a: "vmap l ?bs a = None" by (simp add: domIff)
  have same: "(mem (hp v) ++ vmap l ?bs)(a \<mapsto> CAttrs ?l) = mem (hp w) ++ arr_blocks a ?l ?bs"
  proof
    fix z
    have "vmap l bs z = None \<longleftrightarrow> vmap l ?bs z = None" using dm by (metis domIff)
    then show "((mem (hp v) ++ vmap l ?bs)(a \<mapsto> CAttrs ?l)) z = (mem (hp w) ++ arr_blocks a ?l ?bs) z"
      using a unfolding m arr_blocks_def sp by (cases "z = a") (auto simp: map_add_def split: option.splits)
  qed
  have sr: "store_reply ?as r (hp v) = Some ((hp v)\<lparr>mem := mem (hp w) ++ arr_blocks a ?l ?bs\<rparr>)"
    unfolding same [symmetric] using at st a ob by (simp add: store_reply_def map_add_def del: fun_upd_apply)
  have "dom (arr_blocks a ?l ?bs) = dom (arr_blocks a l bs)" unfolding arr_blocks_def sp using dm by simp
  from held_upd [OF held_step [OF v] this] show ?thesis using r view sr
    by (auto simp: ck_run Inr native_call_def abs_ck_def abs_call_in nview_def Let_def simp del: fun_upd_apply map_add_def)
qed

section \<open>Allocating the buffers\<close>

definition avail :: "uint \<Rightarrow> bool" where
  "avail n \<longleftrightarrow> n \<noteq> CK_UNAVAILABLE_INFORMATION \<and> n > 0"

definition zeros_of :: "ck_attr list \<Rightarrow> byte list list" where
  "zeros_of l = map (\<lambda>x. replicate (buf_size x) 0) l"

definition alloc_of :: "ck_attr \<Rightarrow> ptr \<times> uint" where
  "alloc_of x = (pValue x, if pValue x = Null then 0 else ulValueLen x)"

lemma calloc_run:
  assumes "held S w D v" and "\<not> oom w" and "wf w"
  shows "\<exists>v'. cgo_calloc n v = (Ret (Ptr (brk (hp v))), v') \<and> nview v' = nview v \<and> brk (hp v') = Suc (brk (hp v)) \<and>
    held S w (D(brk (hp v) \<mapsto> CBytes (replicate n 0))) v'"
proof -
  have "grants (hp v) (brk (hp v)) n" using assms(2) heldD(3) [OF assms(1)] by (auto simp: oom_def)
  then have run: "cgo_calloc n v = (Ret (Ptr (brk (hp v))),
      v\<lparr>hp := (hp v)\<lparr>mem := (mem (hp v))(brk (hp v) \<mapsto> CBytes (replicate n 0)), brk := Suc (brk (hp v))\<rparr>\<rparr>)"
    by (simp add: cgo_calloc_def c_calloc_def)
  have "held S w (D(brk (hp v) \<mapsto> CBytes (replicate n 0)))
      (v\<lparr>hp := (hp v)\<lparr>mem := (mem (hp v))(brk (hp v) \<mapsto> CBytes (replicate n 0)), brk := Suc (brk (hp v))\<rparr>\<rparr>)"
    using assms(1) by (auto simp: held_def fresh_def frame_def ext_def less_Suc_eq)
  then show ?thesis using run by (auto simp: nview_def)
qed

lemma alloc_values_run:
  fixes w :: "'m world"
  assumes "held S w D v" and "\<not> oom w" and "wf w" and "list_all (\<lambda>x. pValue x = Null) l"
  shows "\<exists>l' v'. alloc_values l v = (Ret (l', map alloc_of l'), v') \<and> nview v' = nview v \<and>
    brk (hp v) \<le> brk (hp v') \<and> held S w (D ++ vmap l' (zeros_of l')) v' \<and> map atype l' = map atype l \<and>
    map ulValueLen l' = map ulValueLen l \<and> list_all (\<lambda>x. pValue x \<noteq> Null \<longleftrightarrow> avail (ulValueLen x)) l' \<and>
    distinct (addrs l') \<and> (\<forall>p \<in> set (addrs l'). brk (hp v) \<le> p)"
  using assms(1,4)
proof (induction l arbitrary: D v)
  case Nil
  then show ?case by (simp add: go_run)
next
  case (Cons x l)
  show ?case
  proof (cases "avail (ulValueLen x)")
    case True
    obtain v1 where c: "cgo_calloc (unat (ulValueLen x)) v = (Ret (Ptr (brk (hp v))), v1)" "nview v1 = nview v"
      "brk (hp v1) = Suc (brk (hp v))"
      and h: "held S w (D(brk (hp v) \<mapsto> CBytes (replicate (unat (ulValueLen x)) 0))) v1"
      using calloc_run [OF Cons.prems(1) assms(2,3)] by blast
    let ?x = "x\<lparr>pValue := Ptr (brk (hp v))\<rparr>"
    have "list_all (\<lambda>x. pValue x = Null) l" using Cons.prems(2) by simp
    from Cons.IH [OF h this] obtain l' v' where l': "alloc_values l v1 = (Ret (l', map alloc_of l'), v')" "nview v' = nview v1"
      "brk (hp v1) \<le> brk (hp v')"
      "held S w (D(brk (hp v) \<mapsto> CBytes (replicate (unat (ulValueLen x)) 0)) ++ vmap l' (zeros_of l')) v'"
      "map atype l' = map atype l" "map ulValueLen l' = map ulValueLen l"
      "list_all (\<lambda>x. pValue x \<noteq> Null \<longleftrightarrow> avail (ulValueLen x)) l'" "distinct (addrs l')"
      "\<forall>p \<in> set (addrs l'). brk (hp v1) \<le> p" by blast
    have "brk (hp v) \<notin> set (addrs l')" using l'(9) c(3) by auto
    moreover have "brk (hp v) \<notin> dom (vmap l' (zeros_of l'))"
      using calculation by (simp add: dom_vmap zeros_of_def)
    then have "D(brk (hp v) \<mapsto> z) ++ vmap l' (zeros_of l') = D ++ (vmap l' (zeros_of l'))(brk (hp v) \<mapsto> z)" for z
      by (auto simp: map_add_def fun_eq_iff domIff split: option.splits)
    ultimately show ?thesis using True c l'
      by (intro exI [of _ "?x # l'"] exI [of _ v'])
        (auto simp: go_run avail_def alloc_of_def zeros_of_def buf_size_def simp del: fun_upd_apply)
  next
    case False
    have "list_all (\<lambda>x. pValue x = Null) l" using Cons.prems(2) by simp
    from Cons.IH [OF Cons.prems(1) this] show ?thesis using False Cons.prems(2)
      by (elim exE conjE, intro exI [of _ "x # _"] exI)
        (auto simp: go_run avail_def alloc_of_def zeros_of_def buf_size_def simp del: fun_upd_apply)
  qed
qed

text \<open>Releasing them: each is zeroed over the length it was allocated with.\<close>

lemma releases_vmap:
  assumes "list_all2 (\<lambda>x b. length b = buf_size x) l bs" and "distinct (addrs l)"
  shows "releases (released pub) J (vmap l bs) (zfree_all (map alloc_of l) :: ('m world, unit) go)"
  using assms
proof (induction rule: list_all2_induct)
  case Nil
  then show ?case by (simp add: releases_none)
next
  case (Cons x l b bs)
  have len: "length bs = length l" using Cons.hyps(2) by (simp add: list_all2_lengthD)
  show ?case
  proof (cases "pValue x")
    case Null
    then show ?thesis using Cons by (simp add: alloc_of_def zfree_all_Cons)
  next
    case (Ptr p)
    have b: "unat (ulValueLen x) = length b" using Cons.hyps(1) Ptr by (simp add: buf_size_def)
    have "releases (released pub) J [p \<mapsto> CBytes b] (zfree (Ptr p) (ulValueLen x) :: ('m world, unit) go)"
      by (rule releases_zfree) (simp_all add: b del: scrubbed.simps)
    moreover have p: "p \<notin> dom (vmap l bs)" using Cons.prems Ptr len by (simp add: dom_vmap)
    moreover have "releases (released pub) J (vmap l bs) (zfree_all (map alloc_of l) :: ('m world, unit) go)"
      using Cons Ptr by simp
    ultimately have "releases (released pub) J ([p \<mapsto> CBytes b] ++ vmap l bs)
        (go_bind (zfree (Ptr p) (ulValueLen x)) (\<lambda>_. zfree_all (map alloc_of l) :: ('m world, unit) go))"
      by (intro releases_seq) auto
    moreover have "[p \<mapsto> CBytes b] ++ vmap l bs = (vmap l bs)(p \<mapsto> CBytes b)"
      using p by (auto simp: map_add_def fun_eq_iff domIff split: option.splits)
    ultimately show ?thesis using Ptr by (simp add: alloc_of_def [of x] zfree_all_Cons del: fun_upd_apply)
  qed
qed

section \<open>Reading the values\<close>

text \<open>
  \<open>value_of c n b\<close>: from a buffer of \<open>c\<close> bytes holding \<open>b\<close>, for which the module now reports the
  length \<open>n\<close>.
\<close>

definition value_of :: "uint \<Rightarrow> uint \<Rightarrow> byte list \<Rightarrow> byte list option" where
  "value_of c n b = (if avail c \<and> n \<noteq> CK_UNAVAILABLE_INFORMATION \<and> n \<le> c \<and> c_int n > 0
     then Some (take (nat (c_int n)) b) else None)"

lemma c_int_le: "c_int n > 0 \<Longrightarrow> nat (c_int n) \<le> unat n"
proof -
  have "- (2 ^ 31) \<le> uint (ucast n :: 32 word)" by (rule order_trans [OF _ uint_ge_0]) simp
  then have "sint (ucast n :: 32 word) \<le> uint (ucast n :: 32 word)"
    by (simp add: sint_uint signed_take_bit_int_less_eq_self_iff)
  moreover have "uint (ucast n :: 32 word) \<le> uint n" by (simp add: unsigned_ucast_eq take_bit_int_less_eq_self_iff)
  ultimately show ?thesis by (simp add: c_int_def nat_le_iff)
qed

lemma read_values_run:
  assumes "list_all2 (\<lambda>x b. length b = buf_size x) l bs" and "map pValue m = map pValue l"
    and "list_all (\<lambda>x. pValue x \<noteq> Null \<longleftrightarrow> avail (ulValueLen x)) l" and "vmap l bs \<subseteq>\<^sub>m mem (hp v)"
    and "distinct (addrs l)"
  shows "read_values m (map alloc_of l) v = (Ret (map (\<lambda>(t, c, n, b). \<lparr>Type = t, Value = value_of c n b\<rparr>)
     (zip (map atype m) (zip (map ulValueLen l) (zip (map ulValueLen m) bs)))), v)"
  using assms
proof (induction arbitrary: m rule: list_all2_induct)
  case Nil
  then show ?case by (simp add: go_run)
next
  case (Cons x l b bs)
  then obtain y k where m: "m = y # k" and y: "pValue y = pValue x" and k: "map pValue k = map pValue l" by auto
  have len: "length bs = length l" using Cons.hyps(2) by (simp add: list_all2_lengthD)
  have tl: "vmap l bs \<subseteq>\<^sub>m mem (hp v)"
  proof (cases "pValue x")
    case (Ptr p)
    then have "p \<notin> dom (vmap l bs)" using Cons.prems(4) len by (simp add: dom_vmap)
    then have "vmap l bs \<subseteq>\<^sub>m (vmap l bs)(p \<mapsto> CBytes b)" by (rule map_le_fresh)
    then show ?thesis using Cons.prems(3) Ptr by (auto intro: map_le_trans simp del: fun_upd_apply)
  qed (use Cons.prems(3) in simp)
  have "read_values k (map alloc_of l) v = (Ret (map (\<lambda>(t, c, n, b). \<lparr>Type = t, Value = value_of c n b\<rparr>)
     (zip (map atype k) (zip (map ulValueLen l) (zip (map ulValueLen k) bs)))), v)"
    by (rule Cons.IH [OF k _ tl]) (use Cons.prems in \<open>simp_all split: ptr.splits\<close>)
  moreover have "read_value y (alloc_of x) v = (Ret \<lparr>Type = atype y, Value = value_of (ulValueLen x) (ulValueLen y) b\<rparr>, v)"
  proof (cases "pValue x")
    case Null
    then show ?thesis using Cons.prems(2) by (simp add: read_value_def alloc_of_def value_of_def go_run)
  next
    case (Ptr p)
    have at: "mem (hp v) p = Some (CBytes b)" by (rule map_leD [OF Cons.prems(3)]) (simp add: Ptr)
    have "unat (ulValueLen x) = length b" "avail (ulValueLen x)"
      using Cons.hyps(1) Cons.prems(2) Ptr by (simp_all add: buf_size_def)
    then show ?thesis using Ptr y at c_int_le [of "ulValueLen y"]
      by (auto simp: read_value_def alloc_of_def value_of_def go_run cgo_GoBytes_def word_le_nat_alt)
  qed
  ultimately show ?case by (simp add: m go_run)
qed

section \<open>The contract\<close>

fun new_lens :: "uint list \<Rightarrow> (uint \<times> byte list) list \<Rightarrow> uint list" where
  "new_lens (c # cs) ((n, b) # rs) = n # new_lens cs rs"
| "new_lens cs rs = cs"

definition abs_values ::
  "'m ckModule \<Rightarrow> uint \<Rightarrow> uint \<Rightarrow> uint list \<Rightarrow> uint list \<Rightarrow> ('m, goerror + Attribute list \<times> goerror option) protocol" where
  "abs_values md sh obj ts cs = abs_bind
     (abs_ck md (Obj C_GetAttributeValue) [SULong sh, SULong obj, SAttrs (zip ts (map (\<lambda>c. (avail c, c)) cs))]) (\<lambda>r.
     if \<not> partialOK (rv r) then abs_ret (Inl (Error (rv r)))
     else let zs = map (\<lambda>c. replicate (if avail c then unat c else 0) 0) cs in
       abs_ret (Inr (map (\<lambda>(t, c, n, b). \<lparr>Type = t, Value = value_of c n b\<rparr>)
         (zip ts (zip cs (zip (new_lens cs (oattrs r)) (set_vals zs (oattrs r))))), toError (rv r))))"

definition abs_get :: "'m ckModule \<Rightarrow> uint \<Rightarrow> uint \<Rightarrow> uint list \<Rightarrow> ('m, goerror + Attribute list \<times> goerror option) protocol" where
  "abs_get md sh obj ts = abs_bind
     (abs_ck md (Obj C_GetAttributeValue) [SULong sh, SULong obj, SAttrs (map (\<lambda>t. (t, False, 0)) ts)]) (\<lambda>r.
     if \<not> partialOK (rv r) then abs_ret (Inl (Error (rv r)))
     else abs_values md sh obj ts (new_lens (map (\<lambda>t. 0) ts) (oattrs r)))"

lemma set_lens_lens: "map ulValueLen (set_lens l rs) = new_lens (map ulValueLen l) rs"
  by (induction l rs rule: set_lens.induct) simp_all

lemma null_vmap: "list_all (\<lambda>x. pValue x = Null) l \<Longrightarrow> vmap l bs = Map.empty \<and> addrs l = []"
proof (induction l arbitrary: bs)
  case (Cons x l)
  then show ?case by (cases bs) simp_all
qed simp

lemma null_set_lens: "list_all (\<lambda>x. pValue x = Null) l \<Longrightarrow> list_all (\<lambda>x. pValue x = Null) (set_lens l rs)"
  by (induction l rs rule: set_lens.induct) simp_all

lemma attrs_view_null:
  "list_all (\<lambda>x. pValue x = Null) l \<Longrightarrow> list_all (\<lambda>x. ulValueLen x = 0) l \<Longrightarrow>
     attrs_view l = SAttrs (map (\<lambda>t. (t, False, 0)) (map atype l))"
  by (simp add: attrs_view_def list_all_iff o_def)

lemma attrs_view_avail:
  "list_all (\<lambda>x. pValue x \<noteq> Null \<longleftrightarrow> avail (ulValueLen x)) l \<Longrightarrow>
     attrs_view l = SAttrs (zip (map atype l) (map (\<lambda>c. (avail c, c)) (map ulValueLen l)))"
  unfolding attrs_view_def by (induction l) simp_all

lemma zeros_of_avail:
  "list_all (\<lambda>x. pValue x \<noteq> Null \<longleftrightarrow> avail (ulValueLen x)) l \<Longrightarrow>
     zeros_of l = map (\<lambda>c. replicate (if avail c then unat c else 0) 0) (map ulValueLen l)"
  by (induction l) (auto simp: zeros_of_def buf_size_def)

lemma buf_size_set_vals:
  assumes "list_all2 (\<lambda>x b. length b = buf_size x) l bs" and "fits_attrs (map buf_size l) rs"
  shows "list_all2 (\<lambda>x b. length b = buf_size x) l (set_vals bs rs)"
  using assms
proof (induction arbitrary: rs rule: list_all2_induct)
  case (Cons x l b bs)
  then show ?case by (cases rs) auto
qed simp

lemma with_attrs_at: "held S w D v \<Longrightarrow> D a = Some (CAttrs l) \<Longrightarrow> with_attrs (Ptr a) k v = k l v"
  using held_at [of S w D v a "CAttrs l"] by (simp add: with_attrs_def)

lemma store_at:
  assumes "held S w D v" and "D a = Some ob" and "csizeof ob' = csizeof ob"
  shows "\<exists>v'. heap_op e (c_store (Ptr a) ob') v = (Ret (), v') \<and> held S w (D(a \<mapsto> ob')) v' \<and> nview v' = nview v"
proof -
  have "mem (hp v) a = Some ob" by (rule held_at [OF assms(1,2)])
  then have "heap_op e (c_store (Ptr a) ob') v = (Ret (), v\<lparr>hp := (hp v)\<lparr>mem := (mem (hp v))(a \<mapsto> ob')\<rparr>\<rparr>)"
    using assms(3) by (simp add: heap_op_def)
  moreover have "(mem (hp v))(a \<mapsto> ob') = mem (hp w) ++ D(a \<mapsto> ob')" using heldD(1) [OF assms(1)] by simp
  moreover have "dom (D(a \<mapsto> ob')) = dom D" using assms(2) by auto
  ultimately show ?thesis using held_upd [OF assms(1)] by (simp add: nview_def del: fun_upd_apply map_add_upd)
qed

text \<open>The second call, in the buffers the first one made necessary, and the release of these.\<close>

lemma data_call_run:
  fixes w :: "'m world"
  assumes w: "wf w" "modl w = Some md" and n: "unat n = length l"
    and v: "held (released pub) w (arr_blocks a l (zeros_of l)) v"
    and a: "a \<notin> set (addrs l)" and d: "distinct (addrs l)" and av: "list_all (\<lambda>x. pValue x \<noteq> Null \<longleftrightarrow> avail (ulValueLen x)) l"
  shows "\<exists>x v' m. data_call md sh obj n (Ptr a) (map alloc_of l) v = (Ret x, v') \<and> held (released pub) w [a \<mapsto> CAttrs m] v' \<and>
    (x, nview v') \<in> abs_values md sh obj (map atype l) (map ulValueLen l) (nview v)"
proof -
  let ?S = "released pub" and ?f = "Obj C_GetAttributeValue"
  have zs: "list_all2 (\<lambda>x b. length b = buf_size x) l (zeros_of l)" by (simp add: zeros_of_def list_all2_conv_all_nth)
  have g: "good_arr a l (zeros_of l)" using a d by (simp add: good_arr_def zeros_of_def)
  have fit: "list_all2 (\<lambda>x b. buf_size x \<le> length b) l (zeros_of l)" by (rule list_all2_mono [OF zs]) simp
  obtain r v1 where c: "ck md ?f [AULong sh, AULong obj, AAttrs (Ptr a) n] v = (Ret r, v1)"
    "(r, nview v1) \<in> abs_ck md ?f [SULong sh, SULong obj, attrs_view l] (nview v)"
    and h: "held ?S w (arr_blocks a (set_lens l (oattrs r)) (set_vals (zeros_of l) (oattrs r))) v1"
    using call_attrs [OF v w g fit n, of ?f sh obj] by blast
  let ?m = "set_lens l (oattrs r)" and ?bs = "set_vals (zeros_of l) (oattrs r)"
  have wv: "wf v1" "modl v1 = Some md" using held_wf [OF h w(1)] heldD(2) [OF h] w(2) by simp_all
  have fa: "fits_attrs (map buf_size l) (oattrs r)" using abs_ck_fits [OF wv c(2)] unfolding fits_def attr_caps_view by blast
  have same: "vmap ?m ?bs = vmap l ?bs" using same_ptrs [of ?m l] by simp
  have D: "held ?S w ([a \<mapsto> CAttrs ?m] ++ vmap l ?bs) v1" using h by (simp add: arr_blocks_def same)
  have sz: "list_all2 (\<lambda>x b. length b = buf_size x) l ?bs" by (rule buf_size_set_vals [OF zs fa])
  have dj: "dom [a \<mapsto> CAttrs ?m] \<inter> dom (vmap l ?bs) = {}" using a by (simp add: dom_vmap zeros_of_def)
  have "heap_ok (hp w)" using w(1) by (simp add: wf_def)
  from held_drop [OF this D dj releases_vmap [OF sz d]]
  obtain v2 where z: "zfree_all (map alloc_of l) v1 = (Ret (), v2)" "held ?S w [a \<mapsto> CAttrs ?m] v2" "nview v2 = nview v1" by blast
  have at: "arr_blocks a ?m ?bs a = Some (CAttrs ?m)"
    using a d same_ptrs [of ?m l] by (intro arr_blocks_at) (simp add: good_arr_def zeros_of_def)
  have this: "vmap l ?bs \<subseteq>\<^sub>m mem (hp v1)" using heldD(1) [OF D] by (metis map_add_assoc map_le_map_add)
  note rd = read_values_run [OF sz _ av this d, of ?m]
  let ?x = "if partialOK (rv r) then Inr (map (\<lambda>(t, c, n, b). \<lparr>Type = t, Value = value_of c n b\<rparr>)
     (zip (map atype ?m) (zip (map ulValueLen l) (zip (map ulValueLen ?m) ?bs))), toError (rv r)) else Inl (Error (rv r))"
  have run: "data_call md sh obj n (Ptr a) (map alloc_of l) v = (Ret ?x, v2)"
    using c(1) rd z(1) by (simp add: data_call_def go_run with_attrs_at [OF h at])
  have "(?x, nview v2) \<in> abs_values md sh obj (map atype l) (map ulValueLen l) (nview v)"
    unfolding abs_values_def
  proof (rule abs_bindI)
    show "(r, nview v1) \<in> abs_ck md ?f [SULong sh, SULong obj,
        SAttrs (zip (map atype l) (map (\<lambda>c. (avail c, c)) (map ulValueLen l)))] (nview v)"
      using c(2) by (simp only: attrs_view_avail [OF av])
  qed (simp add: Let_def z(3) zeros_of_avail [OF av] set_lens_lens)
  then show ?thesis using run z(2) by blast
qed

text \<open>Between the calls: buffers for the lengths reported, and their addresses into the array.\<close>

lemma alloc_store_run:
  fixes w :: "'m world"
  assumes w: "wf w" "\<not> oom w" and h: "held (released pub) w [a \<mapsto> CAttrs k] v" and null: "list_all (\<lambda>x. pValue x = Null) k"
  shows "\<exists>l v1 v2. alloc_values k v = (Ret (l, map alloc_of l), v1) \<and> heap_op ''store'' (c_store (Ptr a) (CAttrs l)) v1 = (Ret (), v2) \<and>
    held (released pub) w (arr_blocks a l (zeros_of l)) v2 \<and> nview v2 = nview v \<and> map atype l = map atype k \<and>
    map ulValueLen l = map ulValueLen k \<and> list_all (\<lambda>x. pValue x \<noteq> Null \<longleftrightarrow> avail (ulValueLen x)) l \<and>
    distinct (addrs l) \<and> a \<notin> set (addrs l)"
proof -
  obtain l v1 where al: "alloc_values k v = (Ret (l, map alloc_of l), v1)" "nview v1 = nview v"
    "held (released pub) w ([a \<mapsto> CAttrs k] ++ vmap l (zeros_of l)) v1" "map atype l = map atype k"
    "map ulValueLen l = map ulValueLen k" and av: "list_all (\<lambda>x. pValue x \<noteq> Null \<longleftrightarrow> avail (ulValueLen x)) l"
    and d: "distinct (addrs l)" and up: "\<forall>p \<in> set (addrs l). brk (hp v) \<le> p"
    using alloc_values_run [OF h w(2,1) null] by blast
  have "a < brk (hp v)" using freshD(2) [OF heldD(6) [OF h], of a] by simp
  then have a: "a \<notin> set (addrs l)" using up by auto
  then have "a \<notin> dom (vmap l (zeros_of l))" by (simp add: dom_vmap zeros_of_def)
  then have vn: "vmap l (zeros_of l) a = None" by (simp add: domIff)
  then have at: "([a \<mapsto> CAttrs k] ++ vmap l (zeros_of l)) a = Some (CAttrs k)" by (simp add: map_add_def)
  have eq: "([a \<mapsto> CAttrs k] ++ vmap l (zeros_of l))(a \<mapsto> CAttrs l) = arr_blocks a l (zeros_of l)"
    using vn by (auto simp: arr_blocks_def map_add_def fun_eq_iff split: option.splits)
  have "length l = length k" using arg_cong [OF al(4), of length] by simp
  then obtain v2 where "heap_op ''store'' (c_store (Ptr a) (CAttrs l)) v1 = (Ret (), v2)"
    "held (released pub) w (arr_blocks a l (zeros_of l)) v2" "nview v2 = nview v1"
    using store_at [OF al(3) at, of "CAttrs l" "''store''"] unfolding eq by auto
  then show ?thesis using al av d a by auto
qed

text \<open>Both calls and everything between them, from a state in which the array is there.\<close>

lemma get_attrs_run:
  fixes w :: "'m world"
  assumes w: "wf w" "modl w = Some md" "\<not> oom w" and n: "unat n = length l"
    and v: "held (released pub) w [a \<mapsto> CAttrs l] v"
    and l: "list_all (\<lambda>x. pValue x = Null) l" "list_all (\<lambda>x. ulValueLen x = 0) l"
  shows "\<exists>x v' l'. get_attrs md sh obj n (Ptr a) v = (Ret x, v') \<and> held (released pub) w [a \<mapsto> CAttrs l'] v' \<and>
    (x, nview v') \<in> abs_get md sh obj (map atype l) (nview v)"
proof -
  let ?S = "released pub" and ?f = "Obj C_GetAttributeValue"
  have e1: "arr_blocks a k bs = [a \<mapsto> CAttrs k]" if "list_all (\<lambda>x. pValue x = Null) k" for k bs
    using null_vmap [OF that] by (simp add: arr_blocks_def)
  have g: "good_arr a l (map (\<lambda>x. []) l)" using null_vmap [OF l(1)] by (simp add: good_arr_def)
  have fit: "list_all2 (\<lambda>x b. buf_size x \<le> length b) l (map (\<lambda>x. []) l :: byte list list)"
    using l(1) by (induction l) (simp_all add: buf_size_def)
  obtain r v1 where c1: "ck md ?f [AULong sh, AULong obj, AAttrs (Ptr a) n] v = (Ret r, v1)"
    "(r, nview v1) \<in> abs_ck md ?f [SULong sh, SULong obj, attrs_view l] (nview v)"
    and h1: "held ?S w [a \<mapsto> CAttrs (set_lens l (oattrs r))] v1"
    using call_attrs [OF _ w(1,2) g fit n, of ?S v ?f sh obj] v e1 [OF l(1)] e1 [OF null_set_lens [OF l(1)]] by auto
  define k where "k = set_lens l (oattrs r)"
  show ?thesis
  proof (cases "partialOK (rv r)")
    case False
    then have "(Inl (Error (rv r)), nview v1) \<in> abs_get md sh obj (map atype l) (nview v)"
      using c1(2) unfolding abs_get_def attrs_view_null [OF l] by (elim abs_bindI) simp
    then show ?thesis using False c1(1) h1 by (auto simp: get_attrs_def go_run)
  next
    case ok: True
    obtain l' v2 v3 where al: "alloc_values k v1 = (Ret (l', map alloc_of l'), v2)"
      "heap_op ''store'' (c_store (Ptr a) (CAttrs l')) v2 = (Ret (), v3)" "held ?S w (arr_blocks a l' (zeros_of l')) v3"
      "nview v3 = nview v1" "map atype l' = map atype k" "map ulValueLen l' = map ulValueLen k"
      "list_all (\<lambda>x. pValue x \<noteq> Null \<longleftrightarrow> avail (ulValueLen x)) l'" "distinct (addrs l')" "a \<notin> set (addrs l')"
      using alloc_store_run [OF w(1,3) h1 null_set_lens [OF l(1)]] unfolding k_def by blast
    have "unat n = length l'" using n arg_cong [OF al(5), of length] by (simp add: k_def)
    from data_call_run [OF w(1,2) this al(3,9,8,7), of sh obj]
    obtain x v' m where x: "data_call md sh obj n (Ptr a) (map alloc_of l') v3 = (Ret x, v')" "held ?S w [a \<mapsto> CAttrs m] v'"
      "(x, nview v') \<in> abs_values md sh obj (map atype l') (map ulValueLen l') (nview v3)" by blast
    have "[a \<mapsto> CAttrs k] a = Some (CAttrs k)" by simp
    then have run: "get_attrs md sh obj n (Ptr a) v = (Ret x, v')"
      using ok c1(1) al(1,2) x(1) by (simp add: get_attrs_def go_run with_attrs_at [OF h1 [folded k_def]])
    have ty: "map atype l' = map atype l" using al(5) by (simp add: k_def)
    have "map ulValueLen l = map (\<lambda>t. 0) (map atype l)" using l(2) by (simp add: list_all_iff)
    then have cs: "map ulValueLen l' = new_lens (map (\<lambda>t. 0) (map atype l)) (oattrs r)" using al(6) by (simp only: k_def set_lens_lens)
    have "(r, nview v1) \<in> abs_ck md ?f [SULong sh, SULong obj, SAttrs (map (\<lambda>t. (t, False, 0)) (map atype l))] (nview v)"
      using c1(2) by (simp only: attrs_view_null [OF l])
    moreover have "(x, nview v') \<in> (if \<not> partialOK (rv r) then abs_ret (Inl (Error (rv r)))
        else abs_values md sh obj (map atype l) (new_lens (map (\<lambda>t. 0) (map atype l)) (oattrs r))) (nview v1)"
      using x(3) ok by (simp only: ty cs al(4)) simp
    ultimately have "(x, nview v') \<in> abs_get md sh obj (map atype l) (nview v)" unfolding abs_get_def by (intro abs_bindI)
    then show ?thesis using run x(2) by blast
  qed
qed

text \<open>An array attribute is refused before anything is allocated; a missing entry panics.\<close>

lemma check_flat_run:
  "check_flat (map Some tmpl) = (case find (\<lambda>a. isArrayAttribute (Type a)) tmpl of
      Some a \<Rightarrow> go_ret (Inl (Errf ''cryptoki: GetAttributeValue: array attribute 0x%x is not supported'' [unat (Type a)]))
    | None \<Rightarrow> go_ret (Inr ()))"
  by (induction tmpl) auto

definition abs_attribute_values ::
  "'m ckModule \<Rightarrow> uint \<Rightarrow> uint \<Rightarrow> Attribute list \<Rightarrow> ('m, goerror + Attribute list \<times> goerror option) protocol" where
  "abs_attribute_values md sh obj tmpl = (if tmpl = [] then abs_ret (Inr ([], None))
     else case find (\<lambda>a. isArrayAttribute (Type a)) tmpl of
       Some a \<Rightarrow> abs_ret (Inl (Errf ''cryptoki: GetAttributeValue: array attribute 0x%x is not supported'' [unat (Type a)]))
     | None \<Rightarrow> abs_get md sh obj (map Type tmpl))"

lemma attr_array_run:
  fixes w :: "'m world"
  assumes "\<not> oom w"
  shows "\<exists>a v. attr_array tmpl w = (Ret (Ptr a), v) \<and> held S w [a \<mapsto> CAttrs (map empty_attr tmpl)] v \<and> nview v = nview w"
proof -
  have "grants (hp w) (brk (hp w)) (length tmpl * 24)" using assms by (auto simp: oom_def)
  then show ?thesis
    by (intro exI) (auto simp: attr_array_def go_run cgo_malloc_run Let_def heap_op_def held_def heap_grow_def
      fresh_def frame_def ext_def nview_def)
qed

lemma get_scope_refines:
  assumes "fits64 tmpl"
  shows "refines (released pub) (\<lambda>w. modl w = Some md \<and> \<not> oom w)
     (go_scoped (attr_array (map Some tmpl)) (\<lambda>arr. heap_op ''free'' (c_free arr)) (get_attrs md sh obj (ulong_len (map Some tmpl))))
     (abs_get md sh obj (map Type tmpl))"
proof (rule refinesI)
  fix w :: "'a world" assume wf: "wf w" and w: "modl w = Some md \<and> \<not> oom w"
  let ?S = "released pub" and ?l = "map empty_attr (map Some tmpl)"
  obtain a v where arr: "attr_array (map Some tmpl) w = (Ret (Ptr a), v)" "nview v = nview w" and h: "held ?S w [a \<mapsto> CAttrs ?l] v"
    using attr_array_run [of w "map Some tmpl" ?S] w by blast
  have n: "unat (ulong_len (map Some tmpl)) = length ?l" using assms by (simp add: fits64_def ulong_len_def)
  obtain x v' l' where g: "get_attrs md sh obj (ulong_len (map Some tmpl)) (Ptr a) v = (Ret x, v')"
    "held ?S w [a \<mapsto> CAttrs l'] v'" "(x, nview v') \<in> abs_get md sh obj (map atype ?l) (nview v)"
    using get_attrs_run [OF wf _ _ n h, of md sh obj] w by (auto simp: empty_attr_def list_all_iff)
  have "releases ?S (junk (hp w)) [a \<mapsto> CAttrs l'] (heap_op ''free'' (c_free (Ptr a)))" by (rule releases_free) simp
  moreover have "held ?S w (Map.empty ++ [a \<mapsto> CAttrs l']) v'" using g(2) by simp
  ultimately obtain v'' where "heap_op ''free'' (c_free (Ptr a)) v' = (Ret (), v'')" "held ?S w Map.empty v''" "nview v'' = nview v'"
    using held_drop [of w ?S Map.empty "[a \<mapsto> CAttrs l']" v'] wf unfolding wf_def by auto
  moreover have "(x, nview v') \<in> abs_get md sh obj (map Type tmpl) (nview w)"
    using g(3) arr(2) by (simp add: empty_attr_def o_def)
  ultimately show "(\<exists>x w'. go_scoped (attr_array (map Some tmpl)) (\<lambda>arr. heap_op ''free'' (c_free arr))
        (get_attrs md sh obj (ulong_len (map Some tmpl))) w = (Ret x, w') \<and> frame ?S w w' \<and>
      (x, nview w') \<in> abs_get md sh obj (map Type tmpl) (nview w)) \<or>
    (\<exists>e w'. go_scoped (attr_array (map Some tmpl)) (\<lambda>arr. heap_op ''free'' (c_free arr))
        (get_attrs md sh obj (ulong_len (map Some tmpl))) w = (Crash e, w') \<and> oom w)"
    using arr(1) g(1) held_frame [of ?S w v''] by (intro disjI1 exI [of _ x] exI [of _ v'']) (simp add: go_run)
qed

lemma stable_no_oom [stable_intros]: "stable (\<lambda>w. \<not> oom w)"
  by (simp add: stable_def ext_oom)

lemma GetAttributeValue_refines:
  assumes "fits64 tmpl"
  shows "refines (released pub) (\<lambda>w. modl w = mo \<and> \<not> oom w) (GetAttributeValue sh obj (map Some tmpl))
     (abs_ctx mo (\<lambda>md. abs_attribute_values md sh obj tmpl))"
  unfolding GetAttributeValue_def
proof (rule with_ctx_refines)
  show "stable (\<lambda>w. modl w = mo \<and> \<not> oom w)" by (intro stable_intros)
  fix md assume "mo = Some md"
  then show "refines (released pub) (\<lambda>w. modl w = mo \<and> \<not> oom w)
      (if map Some tmpl = [] then go_ret (Inr ([], None))
       else go_try (check_flat (map Some tmpl)) (\<lambda>_. go_scoped (attr_array (map Some tmpl))
         (\<lambda>arr. heap_op ''free'' (c_free arr)) (get_attrs md sh obj (ulong_len (map Some tmpl)))))
      (abs_attribute_values md sh obj tmpl)"
    using get_scope_refines [OF assms]
    by (auto simp: check_flat_run abs_attribute_values_def refines_ret split: option.splits)
qed simp

end
