(* ===== verification/P11.thy ===== *)
theory P11
  imports Keys Sessions AttrValues
begin

text \<open>
  The object-oriented layer \<^verbatim>\<open>p11/\<close>: a \<open>Module\<close> that owns one \<open>Ctx\<close>, its slots, \<open>Session\<close>s shared by
  reference with a mutex each, and objects and keys bound to a session.  A Go pointer to a \<open>Session\<close> is an
  index into the store \<open>sessions\<close>.  Taken by one goroutine at a time here, a mutex that is already held is a
  \<open>Fault\<close>.  The lemmas reduce every method to the operations of the \<open>Ctx\<close> it makes, so the contracts of
  the binding carry over.
\<close>

section \<open>State\<close>

record psession =
  ps_handle :: uint
  ps_mu :: bool
  ps_closed :: bool

record pobject =
  po_session :: nat
  po_handle :: uint

record 'm p11 =
  p11_ctx :: "'m world"
  sessions :: "nat \<Rightarrow> psession option"
  nsessions :: nat
  closeOnce :: bool
  closeErr :: "goerror option"

definition lift :: "('m world, 'a) go \<Rightarrow> ('m p11, 'a) go" where
  "lift m = (\<lambda>s. case m (p11_ctx s) of (r, w) \<Rightarrow> (r, s\<lparr>p11_ctx := w\<rparr>))"

definition of_outcome :: "'a outcome \<Rightarrow> ('s, 'a) go" where
  "of_outcome r = (\<lambda>s. (r, s))"

definition err_of :: "goerror + unit \<Rightarrow> goerror option" where
  "err_of r = (case r of Inl e \<Rightarrow> Some e | Inr _ \<Rightarrow> None)"

text \<open>\<open>x, err := m; if err != nil { return nil, err }; return f(x), nil\<close>\<close>

definition go_map :: "('a \<Rightarrow> 'b) \<Rightarrow> ('s, 'e + 'a) go \<Rightarrow> ('s, 'e + 'b) go" where
  "go_map f m = go_try m (\<lambda>x. go_ret (Inr (f x)))"

section \<open>Default attributes\<close>

definition bool_attr :: "uint \<Rightarrow> bool \<Rightarrow> Attribute" where
  "bool_attr t b = attr t (Some (ckBBool b))"

primrec hasAttribute :: "Attribute option list \<Rightarrow> uint \<Rightarrow> bool" where
  "hasAttribute [] typ \<longleftrightarrow> False"
| "hasAttribute (a # tmpl) typ \<longleftrightarrow> (case a of Some a \<Rightarrow> Type a = typ | None \<Rightarrow> False) \<or> hasAttribute tmpl typ"

definition withSecureDefaults :: "Attribute option list \<Rightarrow> bool \<Rightarrow> Attribute option list" where
  "withSecureDefaults tmpl private = tmpl @ (if \<not> private then [] else
     (if hasAttribute tmpl CKA_SENSITIVE then [] else [Some (bool_attr CKA_SENSITIVE True)]) @
     (if hasAttribute tmpl CKA_EXTRACTABLE then [] else [Some (bool_attr CKA_EXTRACTABLE False)]) @
     (if hasAttribute tmpl CKA_PRIVATE then [] else [Some (bool_attr CKA_PRIVATE True)]))"

lemma NewAttribute_bool: "NewAttribute pf t (VBool b) = Ret (bool_attr t b)"
  by (simp add: bool_attr_def)

section \<open>The session mutex\<close>

definition on_session :: "nat \<Rightarrow> (psession \<Rightarrow> ('m p11, 'a) go) \<Rightarrow> ('m p11, 'a) go" where
  "on_session i f = (\<lambda>s. case sessions s i of None \<Rightarrow> (Panic ''nil pointer dereference'', s) | Some p \<Rightarrow> f p s)"

definition set_session :: "nat \<Rightarrow> psession \<Rightarrow> ('m p11, unit) go" where
  "set_session i p = go_modify (\<lambda>s. s\<lparr>sessions := (sessions s)(i \<mapsto> p)\<rparr>)"

definition mu_Lock :: "nat \<Rightarrow> ('m p11, unit) go" where
  "mu_Lock i = on_session i (\<lambda>p. if ps_mu p then go_fault ''deadlock'' else set_session i (p\<lparr>ps_mu := True\<rparr>))"

definition mu_Unlock :: "nat \<Rightarrow> ('m p11, unit) go" where
  "mu_Unlock i = on_session i (\<lambda>p. if \<not> ps_mu p then go_fault ''sync: unlock of unlocked mutex''
     else set_session i (p\<lparr>ps_mu := False\<rparr>))"

definition err_closed :: goerror where
  "err_closed = Errf ''p11: session is closed'' []"

definition checkOpen :: "nat \<Rightarrow> ('m p11, goerror + unit) go" where
  "checkOpen i = on_session i (\<lambda>p. go_ret (if ps_closed p then Inl err_closed else Inr ()))"

text \<open>\<open>s.mu.Lock(); defer s.mu.Unlock()\<close>, with the handle the body uses, and the same with \<open>checkOpen\<close>.\<close>

definition with_mu :: "nat \<Rightarrow> (uint \<Rightarrow> ('m p11, 'a) go) \<Rightarrow> ('m p11, 'a) go" where
  "with_mu i body = go_scoped (mu_Lock i) (\<lambda>_. mu_Unlock i) (\<lambda>_. on_session i (\<lambda>p. body (ps_handle p)))"

definition with_open :: "nat \<Rightarrow> (uint \<Rightarrow> ('m p11, goerror + 'a) go) \<Rightarrow> ('m p11, goerror + 'a) go" where
  "with_open i body = with_mu i (\<lambda>h. go_try (checkOpen i) (\<lambda>_. body h))"

definition new_object :: "nat \<Rightarrow> uint \<Rightarrow> pobject" where
  "new_object i h = \<lparr>po_session = i, po_handle = h\<rparr>"

section \<open>Modules and slots\<close>

definition OpenModule :: "'m linker \<Rightarrow> string \<Rightarrow> ('m p11, goerror + unit) go" where
  "OpenModule ld path = go_try (lift (New ld path)) (\<lambda>_. go_bind (lift Initialize) (\<lambda>r. case r of
      Inl e \<Rightarrow> go_bind (lift Destroy) (\<lambda>_. go_ret (Inl e))
    | Inr _ \<Rightarrow> go_bind (go_modify (\<lambda>s. s\<lparr>closeOnce := False, closeErr := None\<rparr>)) (\<lambda>_. go_ret (Inr ()))))"

definition Module_Info :: "('m p11, goerror + Info) go" where
  "Module_Info = lift GetInfo"

definition Module_SupportsV32 :: "('m p11, bool) go" where
  "Module_SupportsV32 = lift SupportsV32"

text \<open>A slot is its identifier, as there is one \<open>Ctx\<close>.\<close>

definition Module_slots :: "bool \<Rightarrow> ('m p11, goerror + uint list) go" where
  "Module_slots tokenPresent = go_map (\<lambda>ids. ids) (lift (GetSlotList tokenPresent))"

definition Module_Slots :: "('m p11, goerror + uint list) go" where
  "Module_Slots = Module_slots True"

definition Module_AllSlots :: "('m p11, goerror + uint list) go" where
  "Module_AllSlots = Module_slots False"

text \<open>\<open>closeOnce.Do\<close> runs its function at most once; \<open>Once\<close> is marked done even when it panics.\<close>

definition Module_Close :: "('m p11, goerror option) go" where
  "Module_Close = go_bind (go_gets closeOnce) (\<lambda>once. go_bind
     (if once then go_ret () else
       go_defer (go_modify (\<lambda>s. s\<lparr>closeOnce := True\<rparr>))
         (go_bind (lift Finalize) (\<lambda>r. go_bind (go_modify (\<lambda>s. s\<lparr>closeErr := err_of r\<rparr>)) (\<lambda>_. lift Destroy))))
     (\<lambda>_. go_gets closeErr))"

definition Slot_Info :: "uint \<Rightarrow> ('m p11, goerror + SlotInfo) go" where
  "Slot_Info slot = lift (GetSlotInfo slot)"

definition Slot_TokenInfo :: "uint \<Rightarrow> ('m p11, goerror + TokenInfo) go" where
  "Slot_TokenInfo slot = lift (GetTokenInfo slot)"

definition Slot_InitToken :: "uint \<Rightarrow> byte list \<Rightarrow> byte list \<Rightarrow> ('m p11, goerror + unit) go" where
  "Slot_InitToken slot securityOfficerPIN label = lift (InitToken slot securityOfficerPIN label)"

text \<open>A mechanism of a slot is the slot's identifier and the mechanism's type.\<close>

definition Slot_Mechanisms :: "uint \<Rightarrow> ('m p11, goerror + (uint \<times> uint) list) go" where
  "Slot_Mechanisms slot = go_map (map (\<lambda>t. (slot, t))) (lift (GetMechanismList slot))"

definition Mechanism_Info :: "uint \<times> uint \<Rightarrow> ('m p11, goerror + MechanismInfo) go" where
  "Mechanism_Info m = lift (GetMechanismInfo (fst m) (snd m))"

definition Slot_OpenSessionWithFlags :: "uint \<Rightarrow> uint \<Rightarrow> ('m p11, goerror + nat) go" where
  "Slot_OpenSessionWithFlags slot flags = go_try (lift (OpenSession slot flags)) (\<lambda>sh.
     go_bind (go_gets nsessions) (\<lambda>i. go_bind
       (go_modify (\<lambda>s. s\<lparr>sessions := (sessions s)(i \<mapsto> \<lparr>ps_handle = sh, ps_mu = False, ps_closed = False\<rparr>),
          nsessions := i + 1\<rparr>)) (\<lambda>_. go_ret (Inr i))))"

unbundle bit_operations_syntax

definition Slot_OpenSession :: "uint \<Rightarrow> ('m p11, goerror + nat) go" where
  "Slot_OpenSession slot = Slot_OpenSessionWithFlags slot CKF_SERIAL_SESSION"

definition Slot_OpenWriteSession :: "uint \<Rightarrow> ('m p11, goerror + nat) go" where
  "Slot_OpenWriteSession slot = Slot_OpenSessionWithFlags slot (CKF_SERIAL_SESSION OR CKF_RW_SESSION)"

definition Slot_CloseAllSessions :: "uint \<Rightarrow> ('m p11, goerror + unit) go" where
  "Slot_CloseAllSessions slot = lift (CloseAllSessions slot)"

section \<open>Sessions\<close>

definition Session_Info :: "nat \<Rightarrow> ('m p11, goerror + SessionInfo) go" where
  "Session_Info i = on_session i (\<lambda>p. lift (GetSessionInfo (ps_handle p)))"

definition Session_Login :: "nat \<Rightarrow> byte list \<Rightarrow> ('m p11, goerror + unit) go" where
  "Session_Login i pin = with_mu i (\<lambda>h. lift (Login h CKU_USER pin))"

definition Session_LoginSecurityOfficer :: "nat \<Rightarrow> byte list \<Rightarrow> ('m p11, goerror + unit) go" where
  "Session_LoginSecurityOfficer i pin = with_mu i (\<lambda>h. lift (Login h CKU_SO pin))"

definition Session_LoginAs :: "nat \<Rightarrow> uint \<Rightarrow> byte list \<Rightarrow> ('m p11, goerror + unit) go" where
  "Session_LoginAs i userType pin = with_mu i (\<lambda>h. lift (Login h userType pin))"

definition Session_Logout :: "nat \<Rightarrow> ('m p11, goerror + unit) go" where
  "Session_Logout i = with_mu i (\<lambda>h. lift (Logout h))"

definition Session_InitPIN :: "nat \<Rightarrow> byte list \<Rightarrow> ('m p11, goerror + unit) go" where
  "Session_InitPIN i pin = with_mu i (\<lambda>h. lift (InitPIN h pin))"

definition Session_SetPIN :: "nat \<Rightarrow> byte list \<Rightarrow> byte list \<Rightarrow> ('m p11, goerror + unit) go" where
  "Session_SetPIN i oldPIN newPIN = with_mu i (\<lambda>h. lift (SetPIN h oldPIN newPIN))"

definition Session_GenerateRandom :: "nat \<Rightarrow> int \<Rightarrow> ('m p11, goerror + byte list) go" where
  "Session_GenerateRandom i len = with_mu i (\<lambda>h. lift (GenerateRandom h len))"

definition Session_Close :: "nat \<Rightarrow> ('m p11, goerror + unit) go" where
  "Session_Close i = with_mu i (\<lambda>h. on_session i (\<lambda>p. if ps_closed p then go_ret (Inr ())
     else go_bind (set_session i (p\<lparr>ps_closed := True\<rparr>)) (\<lambda>_. lift (CloseSession h))))"

definition Session_CreateObject :: "nat \<Rightarrow> Attribute option list \<Rightarrow> ('m p11, goerror + pobject) go" where
  "Session_CreateObject i template = with_open i (\<lambda>h.
     go_map (new_object i) (lift (CreateObject h (withSecureDefaults template True))))"

definition Session_GenerateKey :: "nat \<Rightarrow> Mechanism option \<Rightarrow> Attribute option list \<Rightarrow> ('m p11, goerror + pobject) go" where
  "Session_GenerateKey i m template = with_open i (\<lambda>h.
     go_map (new_object i) (lift (GenerateKey h m (withSecureDefaults template True))))"

definition Session_GenerateKeyPair ::
  "nat \<Rightarrow> Mechanism option \<Rightarrow> Attribute option list \<Rightarrow> Attribute option list \<Rightarrow> ('m p11, goerror + pobject \<times> pobject) go" where
  "Session_GenerateKeyPair i m publicTemplate privateTemplate = with_open i (\<lambda>h.
     go_map (map_prod (new_object i) (new_object i)) (lift (GenerateKeyPair h m
       (withSecureDefaults publicTemplate False) (withSecureDefaults privateTemplate True))))"

text \<open>The loop of \<open>FindObjects\<close> ends when a batch is empty; \<open>fuel\<close> bounds the batches it reads here.\<close>

primrec find_loop :: "nat \<Rightarrow> nat \<Rightarrow> uint \<Rightarrow> pobject list \<Rightarrow> ('m p11, goerror + pobject list) go" where
  "find_loop 0 i h found = go_fault ''does not return''"
| "find_loop (Suc fuel) i h found = go_bind (lift (FindObjects h 32)) (\<lambda>r. case r of
      Inl e \<Rightarrow> go_bind (lift (FindObjectsFinal h)) (\<lambda>_. go_ret (Inl e))
    | Inr batch \<Rightarrow> if batch = [] then go_ret (Inr found)
        else find_loop fuel i h (found @ map (new_object i) batch))"

text \<open>The found objects are returned together with an error of the final call.\<close>

definition Session_FindObjects ::
  "nat \<Rightarrow> nat \<Rightarrow> Attribute option list \<Rightarrow> ('m p11, pobject list \<times> goerror option) go" where
  "Session_FindObjects fuel i template = with_mu i (\<lambda>h. go_bind (lift (FindObjectsInit h template)) (\<lambda>r. case r of
      Inl e \<Rightarrow> go_ret ([], Some e)
    | Inr _ \<Rightarrow> go_bind (find_loop fuel i h []) (\<lambda>r. case r of
        Inl e \<Rightarrow> go_ret ([], Some e)
      | Inr found \<Rightarrow> go_bind (lift (FindObjectsFinal h)) (\<lambda>r. go_ret (found, err_of r)))))"

definition Session_FindObject :: "nat \<Rightarrow> nat \<Rightarrow> Attribute option list \<Rightarrow> ('m p11, goerror + pobject) go" where
  "Session_FindObject fuel i template = go_bind (Session_FindObjects fuel i template) (\<lambda>(objs, err). go_ret (case err of
      Some e \<Rightarrow> Inl e
    | None \<Rightarrow> (case objs of
        [] \<Rightarrow> Inl (Errf ''p11: no object matched the template'' [])
      | [ob] \<Rightarrow> Inr ob
      | _ \<Rightarrow> Inl (Errf ''p11: %d objects matched the template, expected one'' [length objs]))))"

definition findByClassAndLabel :: "nat \<Rightarrow> nat \<Rightarrow> uint \<Rightarrow> byte list \<Rightarrow> ('m p11, goerror + pobject) go" where
  "findByClassAndLabel fuel i cls label =
     go_bind (of_outcome (NewAttribute lp64 CKA_CLASS (VUint cls))) (\<lambda>c.
     go_bind (of_outcome (NewAttribute lp64 CKA_LABEL (VString label))) (\<lambda>l.
     Session_FindObject fuel i [Some c, Some l]))"

definition Session_FindSecretKey :: "nat \<Rightarrow> nat \<Rightarrow> byte list \<Rightarrow> ('m p11, goerror + pobject) go" where
  "Session_FindSecretKey fuel i label = findByClassAndLabel fuel i CKO_SECRET_KEY label"

definition Session_FindPublicKey :: "nat \<Rightarrow> nat \<Rightarrow> byte list \<Rightarrow> ('m p11, goerror + pobject) go" where
  "Session_FindPublicKey fuel i label = findByClassAndLabel fuel i CKO_PUBLIC_KEY label"

definition Session_FindPrivateKey :: "nat \<Rightarrow> nat \<Rightarrow> byte list \<Rightarrow> ('m p11, goerror + pobject) go" where
  "Session_FindPrivateKey fuel i label = findByClassAndLabel fuel i CKO_PRIVATE_KEY label"

section \<open>Objects\<close>

text \<open>A soft failure of \<open>GetAttributeValue\<close> is an error here, and a missing value is one too.\<close>

definition Object_Attribute :: "pobject \<Rightarrow> uint \<Rightarrow> ('m p11, goerror + byte list) go" where
  "Object_Attribute ob attributeType = with_open (po_session ob) (\<lambda>h.
     go_try (lift (GetAttributeValue h (po_handle ob) [Some (attr attributeType None)])) (\<lambda>(attrs, err). go_ret (case err of
        Some e \<Rightarrow> Inl e
      | None \<Rightarrow> (case attrs of
          [] \<Rightarrow> Inl (Errf ''p11: attribute %#x unavailable'' [unat attributeType])
        | a # _ \<Rightarrow> (case Value a of
            None \<Rightarrow> Inl (Errf ''p11: attribute %#x unavailable'' [unat attributeType])
          | Some v \<Rightarrow> Inr v)))))"

definition Object_Attributes :: "pobject \<Rightarrow> uint list \<Rightarrow> ('m p11, goerror + Attribute list \<times> goerror option) go" where
  "Object_Attributes ob attributeTypes = with_open (po_session ob) (\<lambda>h.
     lift (GetAttributeValue h (po_handle ob) (map (\<lambda>t. Some (attr t None)) attributeTypes)))"

definition Object_Label :: "pobject \<Rightarrow> ('m p11, goerror + byte list) go" where
  "Object_Label ob = go_map (\<lambda>v. v) (Object_Attribute ob CKA_LABEL)"

definition Object_Value :: "pobject \<Rightarrow> ('m p11, goerror + byte list) go" where
  "Object_Value ob = Object_Attribute ob CKA_VALUE"

definition Object_SetAttribute :: "pobject \<Rightarrow> uint \<Rightarrow> byte list option \<Rightarrow> ('m p11, goerror + unit) go" where
  "Object_SetAttribute ob attributeType val = with_open (po_session ob) (\<lambda>h.
     lift (SetAttributeValue h (po_handle ob) [Some \<lparr>Type = attributeType, Value = val\<rparr>]))"

definition Object_Copy :: "pobject \<Rightarrow> Attribute option list \<Rightarrow> ('m p11, goerror + pobject) go" where
  "Object_Copy ob tmpl = with_open (po_session ob) (\<lambda>h.
     go_map (new_object (po_session ob)) (lift (CopyObject h (po_handle ob) tmpl)))"

definition Object_Destroy :: "pobject \<Rightarrow> ('m p11, goerror + unit) go" where
  "Object_Destroy ob = with_open (po_session ob) (\<lambda>h. lift (DestroyObject h (po_handle ob)))"

section \<open>Keys\<close>

definition SecretKey_Encrypt :: "pobject \<Rightarrow> Mechanism option \<Rightarrow> byte list \<Rightarrow> ('m p11, goerror + byte list) go" where
  "SecretKey_Encrypt k m plaintext = with_open (po_session k) (\<lambda>h.
     go_try (lift (EncryptInit h m (po_handle k))) (\<lambda>_. lift (Encrypt h plaintext)))"

definition SecretKey_Decrypt :: "pobject \<Rightarrow> Mechanism option \<Rightarrow> byte list \<Rightarrow> ('m p11, goerror + byte list) go" where
  "SecretKey_Decrypt k m ciphertext = with_open (po_session k) (\<lambda>h.
     go_try (lift (DecryptInit h m (po_handle k))) (\<lambda>_. lift (Decrypt h ciphertext)))"

definition SecretKey_Wrap :: "pobject \<Rightarrow> Mechanism option \<Rightarrow> pobject \<Rightarrow> ('m p11, goerror + byte list) go" where
  "SecretKey_Wrap k m key = with_open (po_session k) (\<lambda>h. lift (WrapKey h m (po_handle k) (po_handle key)))"

definition SecretKey_Unwrap ::
  "pobject \<Rightarrow> Mechanism option \<Rightarrow> byte list \<Rightarrow> Attribute option list \<Rightarrow> ('m p11, goerror + pobject) go" where
  "SecretKey_Unwrap k m wrapped template = with_open (po_session k) (\<lambda>h. go_map (new_object (po_session k))
     (lift (UnwrapKey h m (po_handle k) wrapped (withSecureDefaults template True))))"

definition PublicKey_Encrypt :: "pobject \<Rightarrow> Mechanism option \<Rightarrow> byte list \<Rightarrow> ('m p11, goerror + byte list) go" where
  "PublicKey_Encrypt k m plaintext = with_open (po_session k) (\<lambda>h.
     go_try (lift (EncryptInit h m (po_handle k))) (\<lambda>_. lift (Encrypt h plaintext)))"

definition PublicKey_Verify :: "pobject \<Rightarrow> Mechanism option \<Rightarrow> byte list \<Rightarrow> byte list \<Rightarrow> ('m p11, goerror + unit) go" where
  "PublicKey_Verify k m message signature = with_open (po_session k) (\<lambda>h.
     go_try (lift (VerifyInit h m (po_handle k))) (\<lambda>_. lift (Verify h message signature)))"

definition PublicKey_VerifyStateless ::
  "pobject \<Rightarrow> Mechanism option \<Rightarrow> byte list \<Rightarrow> byte list \<Rightarrow> ('m p11, goerror + unit) go" where
  "PublicKey_VerifyStateless k m message signature = with_open (po_session k) (\<lambda>h.
     go_try (lift (VerifySignatureInit h m (po_handle k) signature)) (\<lambda>_. lift (VerifySignature h message)))"

definition PublicKey_Encapsulate ::
  "pobject \<Rightarrow> Mechanism option \<Rightarrow> Attribute option list \<Rightarrow> ('m p11, goerror + byte list \<times> pobject) go" where
  "PublicKey_Encapsulate k m derivedKeyTemplate = with_open (po_session k) (\<lambda>h. go_map (map_prod id (new_object (po_session k)))
     (lift (EncapsulateKey h m (po_handle k) (withSecureDefaults derivedKeyTemplate True))))"

definition PrivateKey_Sign :: "pobject \<Rightarrow> Mechanism option \<Rightarrow> byte list \<Rightarrow> ('m p11, goerror + byte list) go" where
  "PrivateKey_Sign k m message = with_open (po_session k) (\<lambda>h.
     go_try (lift (SignInit h m (po_handle k))) (\<lambda>_. lift (Sign h message)))"

definition PrivateKey_Decrypt :: "pobject \<Rightarrow> Mechanism option \<Rightarrow> byte list \<Rightarrow> ('m p11, goerror + byte list) go" where
  "PrivateKey_Decrypt k m ciphertext = with_open (po_session k) (\<lambda>h.
     go_try (lift (DecryptInit h m (po_handle k))) (\<lambda>_. lift (Decrypt h ciphertext)))"

definition PrivateKey_Derive :: "pobject \<Rightarrow> Mechanism option \<Rightarrow> Attribute option list \<Rightarrow> ('m p11, goerror + pobject) go" where
  "PrivateKey_Derive k m template = with_open (po_session k) (\<lambda>h. go_map (new_object (po_session k))
     (lift (DeriveKey h m (po_handle k) (withSecureDefaults template True))))"

definition PrivateKey_Decapsulate ::
  "pobject \<Rightarrow> Mechanism option \<Rightarrow> byte list \<Rightarrow> Attribute option list \<Rightarrow> ('m p11, goerror + pobject) go" where
  "PrivateKey_Decapsulate k m ciphertext derivedKeyTemplate = with_open (po_session k) (\<lambda>h. go_map (new_object (po_session k))
     (lift (DecapsulateKey h m (po_handle k) (withSecureDefaults derivedKeyTemplate True) ciphertext)))"

end
