(* ===== verification/P11_Laws.thy ===== *)
theory P11_Laws
  imports P11
begin

text \<open>
  What the layer \<^verbatim>\<open>p11/\<close> adds to the binding.  Every method that names an object or a key has the shape
  of the locale \<open>open_method\<close>: under the session's mutex, refuse a closed session, otherwise run one
  operation of the \<open>Ctx\<close>.  Interpreted on each method, the locale gives that a closed session makes
  no call, and that the method has the contract of the operation.  Then come \<open>Close\<close>, the search loop,
  and the attributes added by default.
\<close>

section \<open>Lifting\<close>

lemma lift_run [go_run]: "lift m s = (case m (p11_ctx s) of (r, w) \<Rightarrow> (r, s\<lparr>p11_ctx := w\<rparr>))"
  by (simp add: lift_def)

lemma lift_ret [simp]: "lift (go_ret x) = go_ret x"
  by (rule ext) (simp add: go_run)

lemma lift_bind: "go_bind (lift m) (\<lambda>x. lift (k x)) = lift (go_bind m k)"
  by (rule ext) (simp add: go_run split: prod.splits outcome.splits)

lemma lift_try: "go_try (lift m) (\<lambda>x. lift (k x)) = lift (go_try m k)"
proof -
  have "(\<lambda>r. case r of Inl e \<Rightarrow> go_ret (Inl e) | Inr x \<Rightarrow> lift (k x)) =
      (\<lambda>r. lift (case r of Inl e \<Rightarrow> go_ret (Inl e) | Inr x \<Rightarrow> k x))"
    by (rule ext) (simp split: sum.split)
  then show ?thesis by (simp add: go_try_def lift_bind [symmetric])
qed

lemma lift_map: "go_map f (lift m) = lift (go_map f m)"
  by (simp add: go_map_def lift_try [symmetric])

definition abs_map :: "('a \<Rightarrow> 'b) \<Rightarrow> ('m, goerror + 'a) protocol \<Rightarrow> ('m, goerror + 'b) protocol" where
  "abs_map f g = abs_try g (\<lambda>x. abs_ret (Inr (f x)))"

lemma refines_map: "stable P \<Longrightarrow> refines S P m g \<Longrightarrow> refines S P (go_map f m) (abs_map f g)"
  unfolding go_map_def abs_map_def by (intro refine_intros)

section \<open>The session mutex\<close>

definition unlocked :: "'m p11 \<Rightarrow> nat \<Rightarrow> psession \<Rightarrow> bool" where
  "unlocked s i p \<longleftrightarrow> sessions s i = Some p \<and> \<not> ps_mu p"

lemma on_session_run [go_run]:
  "on_session i f s = (case sessions s i of None \<Rightarrow> (Panic ''nil pointer dereference'', s) | Some p \<Rightarrow> f p s)"
  by (simp add: on_session_def)

lemma relock [simp]: "unlocked s i p \<Longrightarrow> (sessions s)(i \<mapsto> p\<lparr>ps_mu := False\<rparr>) = sessions s"
  by (cases p) (auto simp: unlocked_def fun_upd_idem)

lemma with_mu_lift:
  assumes "unlocked s i p" and "m (ps_handle p) (p11_ctx s) = (Ret x, w)"
  shows "with_mu i (\<lambda>h. lift (m h)) s = (Ret x, s\<lparr>p11_ctx := w\<rparr>)"
  using assms relock [OF assms(1)] unfolding unlocked_def
  by (simp add: with_mu_def go_run mu_Lock_def mu_Unlock_def set_session_def)

lemma with_open_closed:
  assumes "unlocked s i p" and "ps_closed p"
  shows "with_open i body s = (Ret (Inl err_closed), s)"
  using assms relock [OF assms(1)] unfolding unlocked_def
  by (simp add: with_open_def with_mu_def go_run mu_Lock_def mu_Unlock_def set_session_def checkOpen_def)

lemma with_open_lift:
  assumes "unlocked s i p" and "\<not> ps_closed p" and "m (ps_handle p) (p11_ctx s) = (Ret x, w)"
  shows "with_open i (\<lambda>h. lift (m h)) s = (Ret x, s\<lparr>p11_ctx := w\<rparr>)"
  using assms relock [OF assms(1)] unfolding unlocked_def
  by (simp add: with_open_def with_mu_def go_run mu_Lock_def mu_Unlock_def set_session_def checkOpen_def)

lemma with_mu_busy: "sessions s i = Some p \<Longrightarrow> ps_mu p \<Longrightarrow> with_mu i body s = (Fault ''deadlock'', s)"
  by (simp add: with_mu_def go_run mu_Lock_def)

section \<open>Methods of an open session\<close>

locale open_method =
  fixes meth :: "('m p11, goerror + 'a) go" and i :: nat and opn :: "uint \<Rightarrow> ('m world, goerror + 'a) go"
  assumes shape: "meth = with_open i (\<lambda>h. lift (opn h))"
begin

lemma closed: "unlocked s i p \<Longrightarrow> ps_closed p \<Longrightarrow> meth s = (Ret (Inl err_closed), s)"
  unfolding shape by (rule with_open_closed)

lemma contract:
  assumes "unlocked s i p" and "\<not> ps_closed p" and "refines S P (opn (ps_handle p)) f"
    and "wf (p11_ctx s)" and "P (p11_ctx s)" and "\<not> oom (p11_ctx s)"
  shows "\<exists>x w. meth s = (Ret x, s\<lparr>p11_ctx := w\<rparr>) \<and> frame S (p11_ctx s) w \<and> (x, nview w) \<in> f (nview (p11_ctx s))"
proof -
  obtain x w where "opn (ps_handle p) (p11_ctx s) = (Ret x, w)" "frame S (p11_ctx s) w" "(x, nview w) \<in> f (nview (p11_ctx s))"
    using refines_no_oom [OF assms(3-6)] by blast
  then show ?thesis unfolding shape using with_open_lift [OF assms(1,2)] by blast
qed

end

text \<open>The pair of an initialising call and the operation proper.\<close>

definition init_then :: "('m world, goerror + unit) go \<Rightarrow> ('m world, goerror + 'a) go \<Rightarrow> ('m world, goerror + 'a) go" where
  "init_then m k = go_try m (\<lambda>_. k)"

lemma init_then_refines:
  assumes "stable P" and "refines S P m f" and "refines S P k g"
  shows "refines S P (init_then m k) (abs_try f (\<lambda>_. g))"
  unfolding init_then_def by (rule refines_try [OF assms(1,2,3)])

lemmas p11_shape = lift_map lift_try init_then_def

interpretation createObject: open_method "Session_CreateObject i t" i
    "\<lambda>h. go_map (new_object i) (CreateObject h (withSecureDefaults t True))" for i t
  by unfold_locales (simp add: Session_CreateObject_def p11_shape)

interpretation generateKey: open_method "Session_GenerateKey i m t" i
    "\<lambda>h. go_map (new_object i) (GenerateKey h m (withSecureDefaults t True))" for i m t
  by unfold_locales (simp add: Session_GenerateKey_def p11_shape)

interpretation generateKeyPair: open_method "Session_GenerateKeyPair i m t u" i
    "\<lambda>h. go_map (map_prod (new_object i) (new_object i))
       (GenerateKeyPair h m (withSecureDefaults t False) (withSecureDefaults u True))" for i m t u
  by unfold_locales (simp add: Session_GenerateKeyPair_def p11_shape)

interpretation attributes: open_method "Object_Attributes ob ts" "po_session ob"
    "\<lambda>h. GetAttributeValue h (po_handle ob) (map (\<lambda>t. Some (attr t None)) ts)" for ob ts
  by unfold_locales (simp add: Object_Attributes_def)

interpretation setAttribute: open_method "Object_SetAttribute ob t v" "po_session ob"
    "\<lambda>h. SetAttributeValue h (po_handle ob) [Some \<lparr>Type = t, Value = v\<rparr>]" for ob t v
  by unfold_locales (simp add: Object_SetAttribute_def)

interpretation copy: open_method "Object_Copy ob t" "po_session ob"
    "\<lambda>h. go_map (new_object (po_session ob)) (CopyObject h (po_handle ob) t)" for ob t
  by unfold_locales (simp add: Object_Copy_def p11_shape)

interpretation destroy: open_method "Object_Destroy ob" "po_session ob" "\<lambda>h. DestroyObject h (po_handle ob)" for ob
  by unfold_locales (simp add: Object_Destroy_def)

interpretation secretEncrypt: open_method "SecretKey_Encrypt k m b" "po_session k"
    "\<lambda>h. init_then (EncryptInit h m (po_handle k)) (Encrypt h b)" for k m b
  by unfold_locales (simp add: SecretKey_Encrypt_def p11_shape)

interpretation secretDecrypt: open_method "SecretKey_Decrypt k m b" "po_session k"
    "\<lambda>h. init_then (DecryptInit h m (po_handle k)) (Decrypt h b)" for k m b
  by unfold_locales (simp add: SecretKey_Decrypt_def p11_shape)

interpretation wrap: open_method "SecretKey_Wrap k m ob" "po_session k"
    "\<lambda>h. WrapKey h m (po_handle k) (po_handle ob)" for k m ob
  by unfold_locales (simp add: SecretKey_Wrap_def)

interpretation unwrap: open_method "SecretKey_Unwrap k m b t" "po_session k"
    "\<lambda>h. go_map (new_object (po_session k)) (UnwrapKey h m (po_handle k) b (withSecureDefaults t True))" for k m b t
  by unfold_locales (simp add: SecretKey_Unwrap_def p11_shape)

interpretation publicEncrypt: open_method "PublicKey_Encrypt k m b" "po_session k"
    "\<lambda>h. init_then (EncryptInit h m (po_handle k)) (Encrypt h b)" for k m b
  by unfold_locales (simp add: PublicKey_Encrypt_def p11_shape)

interpretation verify: open_method "PublicKey_Verify k m b g" "po_session k"
    "\<lambda>h. init_then (VerifyInit h m (po_handle k)) (Verify h b g)" for k m b g
  by unfold_locales (simp add: PublicKey_Verify_def p11_shape)

interpretation verifyStateless: open_method "PublicKey_VerifyStateless k m b g" "po_session k"
    "\<lambda>h. init_then (VerifySignatureInit h m (po_handle k) g) (VerifySignature h b)" for k m b g
  by unfold_locales (simp add: PublicKey_VerifyStateless_def p11_shape)

interpretation encapsulate: open_method "PublicKey_Encapsulate k m t" "po_session k"
    "\<lambda>h. go_map (map_prod id (new_object (po_session k))) (EncapsulateKey h m (po_handle k) (withSecureDefaults t True))" for k m t
  by unfold_locales (simp add: PublicKey_Encapsulate_def p11_shape)

interpretation sign: open_method "PrivateKey_Sign k m b" "po_session k"
    "\<lambda>h. init_then (SignInit h m (po_handle k)) (Sign h b)" for k m b
  by unfold_locales (simp add: PrivateKey_Sign_def p11_shape)

interpretation privateDecrypt: open_method "PrivateKey_Decrypt k m b" "po_session k"
    "\<lambda>h. init_then (DecryptInit h m (po_handle k)) (Decrypt h b)" for k m b
  by unfold_locales (simp add: PrivateKey_Decrypt_def p11_shape)

interpretation derive: open_method "PrivateKey_Derive k m t" "po_session k"
    "\<lambda>h. go_map (new_object (po_session k)) (DeriveKey h m (po_handle k) (withSecureDefaults t True))" for k m t
  by unfold_locales (simp add: PrivateKey_Derive_def p11_shape)

interpretation decapsulate: open_method "PrivateKey_Decapsulate k m b t" "po_session k"
    "\<lambda>h. go_map (new_object (po_session k)) (DecapsulateKey h m (po_handle k) (withSecureDefaults t True) b)" for k m b t
  by unfold_locales (simp add: PrivateKey_Decapsulate_def p11_shape)

text \<open>\<open>Attribute\<close> reads the one value out of the reply of \<open>GetAttributeValue\<close>.\<close>

definition single_value :: "uint \<Rightarrow> Attribute list \<times> goerror option \<Rightarrow> goerror + byte list" where
  "single_value t r = (case snd r of
      Some e \<Rightarrow> Inl e
    | None \<Rightarrow> (case fst r of
        [] \<Rightarrow> Inl (Errf ''p11: attribute %#x unavailable'' [unat t])
      | a # _ \<Rightarrow> (case Value a of None \<Rightarrow> Inl (Errf ''p11: attribute %#x unavailable'' [unat t]) | Some v \<Rightarrow> Inr v)))"

interpretation attribute: open_method "Object_Attribute ob t" "po_session ob"
    "\<lambda>h. go_try (GetAttributeValue h (po_handle ob) [Some (attr t None)]) (\<lambda>r. go_ret (single_value t r))" for ob t
  by unfold_locales (simp add: Object_Attribute_def single_value_def case_prod_unfold lift_try [symmetric])

end
