(* ===== verification/Lifecycle.thy ===== *)
theory Lifecycle
  imports Ctx
begin

text \<open>
  Loading and unloading a module: \<open>New\<close> (\<^verbatim>\<open>cryptoki/binding.go\<close>) with the loader of \<^verbatim>\<open>cryptoki/shim.c\<close>, and
  \<open>Destroy\<close>.  A failed load leaves no block and no library behind; a successful one is undone by
  \<open>Destroy\<close>; once a module is gone every method answers with \<open>ErrClosed\<close>.  What a library hands out is not
  in the repository: \<open>linker_ok\<close> says that every function list it gives is conforming.
\<close>

definition library_ok :: "'m library \<Rightarrow> bool" where
  "library_ok L \<longleftrightarrow> (\<forall>r N. C_GetFunctionList L = Some (r, Some N) \<longrightarrow> conforming N) \<and>
     (\<forall>gi v r i w N. C_GetInterface L = Some gi \<longrightarrow> gi v = (r, Some i) \<longrightarrow> pFunctionList i = Some (w, N) \<longrightarrow> conforming N)"

definition linker_ok :: "'m linker \<Rightarrow> bool" where
  "linker_ok ld \<longleftrightarrow> (\<forall>path L. ld path = Inr L \<longrightarrow> library_ok L)"

lemma get_iface_conforming:
  assumes "library_ok L" and "C_GetInterface L = Some gi" and "get_iface gi v = Some i" and "pFunctionList i = Some (w, N)"
  shows "conforming N"
  using assms unfolding library_ok_def get_iface_def by (auto split: prod.splits if_splits)

lemma resolve_conforming: "library_ok L \<Longrightarrow> ck_resolve_v32 L = Some N \<Longrightarrow> conforming N"
  unfolding ck_resolve_v32_def by (auto split: option.splits prod.splits if_splits intro: get_iface_conforming)

text \<open>A list is only taken when its version is at least 3.2.\<close>

lemma resolve_version:
  assumes "ck_resolve_v32 L = Some N"
  shows "\<exists>gi v i w. C_GetInterface L = Some gi \<and> get_iface gi v = Some i \<and> pFunctionList i = Some (w, N) \<and> Version 3 2 \<le> w"
  using assms unfolding ck_resolve_v32_def less_eq_Version_def
  by (fastforce split: option.splits prod.splits if_splits)

lemma resolve_newest:
  assumes "C_GetInterface L = Some gi" and "get_iface gi (Some (Version 3 2)) = Some i" and "pFunctionList i = Some (v, N)"
    and "Version 3 2 \<le> v"
  shows "ck_resolve_v32 L = Some N"
  using assms by (auto simp: ck_resolve_v32_def less_eq_Version_def)

section \<open>The loader\<close>

text \<open>\<open>loaded_as L a\<close>: the module structure filled in for the library \<open>L\<close> in block \<open>a\<close>.\<close>

definition loaded_as :: "'m library \<Rightarrow> nat \<Rightarrow> 'm ckModule" where
  "loaded_as L a = (let f32 = ck_resolve_v32 L; list = (case C_GetFunctionList L of None \<Rightarrow> None | Some (r, l) \<Rightarrow> l) in
     \<lparr>mblk = Ptr a, dl = lib_dl L, fns = list, fns32 = f32, fnsBase = (if f32 \<noteq> None then f32 else list)\<rparr>)"

definition usable :: "'m linker \<Rightarrow> string \<Rightarrow> 'm library \<Rightarrow> bool" where
  "usable ld path L \<longleftrightarrow> ld path = Inr L \<and> (\<exists>N. C_GetFunctionList L = Some (CKR_OK, Some N))"

lemma ck_load_ok:
  assumes "\<not> oom w" and "usable ld path L"
  shows "ck_load ld path w = (Ret (Inr (loaded_as L (brk (hp w)))),
     (heap_grow [brk (hp w) \<mapsto> CBytes (replicate 32 0)] (Suc (brk (hp w))) w)\<lparr>libs := insert (lib_dl L) (libs w)\<rparr>)"
proof -
  have "grants (hp w) (brk (hp w)) 32" using assms(1) by (auto simp: oom_def)
  then show ?thesis using assms(2)
    by (auto simp: ck_load_def c_calloc_def usable_def go_run loaded_as_def Let_def heap_grow_def)
qed

text \<open>The library the linker finds at a path, if any.\<close>

definition lib_of :: "'m linker \<Rightarrow> string \<Rightarrow> nat set" where
  "lib_of ld path = (case ld path of Inl _ \<Rightarrow> {} | Inr L \<Rightarrow> {lib_dl L})"

text \<open>A failed load gives its block back and closes the library it opened.\<close>

definition same_but_freed :: "'m world \<Rightarrow> 'm world \<Rightarrow> bool" where
  "same_but_freed w w' \<longleftrightarrow> mem (hp w') = mem (hp w) \<and> brk (hp w) \<le> brk (hp w') \<and> junk (hp w') = junk (hp w) \<and>
     grants (hp w') = grants (hp w) \<and> modl w' = modl w \<and> readers w' = readers w \<and> writer w' = writer w \<and>
     waiters w' = waiters w \<and> policy w' = policy w \<and> gcms w' = gcms w \<and> nview w' = nview w"

lemma ck_load_fails:
  assumes "heap_ok (hp w)" and "\<not> oom w" and "\<forall>L. \<not> usable ld path L"
  shows "\<exists>r msg w'. ck_load ld path w = (Ret (Inl (r, msg)), w') \<and> same_but_freed w w' \<and> libs w' = libs w - lib_of ld path"
proof -
  have g: "grants (hp w) (brk (hp w)) 32" using assms(2) by (auto simp: oom_def)
  have fresh: "brk (hp w) \<notin> dom (mem (hp w))" using heap_ok_fresh [OF assms(1)] by (simp add: domIff)
  have u: "ld path = Inr L \<Longrightarrow> C_GetFunctionList L = Some (r, l) \<Longrightarrow> r \<noteq> CKR_OK \<or> l = None" for L r l
    using assms(3) by (auto simp: usable_def)
  show ?thesis
  proof (cases "ld path")
    case (Inl reason)
    then show ?thesis using g fresh
      by (auto simp: ck_load_def c_calloc_def go_run heap_op_def load_fail_def same_but_freed_def nview_def lib_of_def)
  next
    case (Inr L)
    show ?thesis
    proof (cases "C_GetFunctionList L")
      case None
      then show ?thesis using g fresh Inr
        by (auto simp: ck_load_def c_calloc_def go_run heap_op_def load_fail_def same_but_freed_def nview_def ck_close_def lib_of_def)
    next
      case (Some x)
      obtain r l where x: "x = (r, l)" by (cases x)
      have "r \<noteq> CKR_OK \<or> l = None" using u [OF Inr] Some x by blast
      then show ?thesis using g fresh Inr Some x
        by (auto simp: ck_load_def c_calloc_def go_run heap_op_def load_fail_def same_but_freed_def nview_def ck_close_def lib_of_def)
    qed
  qed
qed

section \<open>New and Destroy\<close>

lemma loaded_module_ok:
  assumes "library_ok L" and "C_GetFunctionList L = Some (CKR_OK, Some N)" and "lib_dl L \<in> D"
  shows "module_ok D (loaded_as L a)"
proof -
  have "conforming N" using assms(1,2) by (auto simp: library_ok_def)
  moreover have "ck_resolve_v32 L = Some M \<Longrightarrow> conforming M" for M by (rule resolve_conforming [OF assms(1)])
  ultimately show ?thesis using assms(2,3)
    by (auto simp: module_ok_def loaded_as_def Let_def split: if_splits)
qed

lemma New_relative: "\<not> IsAbs path \<Longrightarrow>
    New ld path w = (Ret (Inl (Errf (''cryptoki: module path must be absolute, got '' @ path) [])), w)"
  by (simp add: New_def go_run)

text \<open>The copy of the path is one block; the module's own block comes next.\<close>

lemma New_loads:
  assumes "wf w" and "\<not> oom w" and "IsAbs path" and "usable ld path L" and "linker_ok ld"
  shows "\<exists>w'. New ld path w = (Ret (Inr ()), w') \<and> wf w' \<and> modl w' = Some (loaded_as L (Suc (brk (hp w)))) \<and>
    mem (hp w') = (mem (hp w))(Suc (brk (hp w)) \<mapsto> CBytes (replicate 32 0)) \<and> libs w' = insert (lib_dl L) (libs w) \<and>
    nview w' = nview w \<and> readers w' = readers w \<and> waiters w' = waiters w \<and> grants (hp w') = grants (hp w)"
proof -
  let ?b = "brk (hp w)"
  have h: "heap_ok (hp w)" "\<not> writer w" using assms(1) by (simp_all add: wf_def)
  have fresh: "mem (hp w) ?b = None" by (rule heap_ok_fresh [OF h(1)])
  have g: "grants (hp w) a n" for a n using assms(2) by (auto simp: oom_def)
  let ?w1 = "heap_grow [?b \<mapsto> CBytes (cstring path)] (Suc ?b) w"
  have c1: "cgo_CBytes (cstring path) w = (Ret (Ptr ?b), ?w1)" by (simp add: cgo_CBytes_run Let_def g)
  have "\<not> oom ?w1" using assms(2) by simp
  note ld = ck_load_ok [OF this assms(4)]
  obtain N where N: "C_GetFunctionList L = Some (CKR_OK, Some N)" and L: "ld path = Inr L"
    using assms(4) by (auto simp: usable_def)
  let ?w' = "w\<lparr>hp := (hp w)\<lparr>mem := (mem (hp w))(Suc ?b \<mapsto> CBytes (replicate 32 0)), brk := Suc (Suc ?b),
      freed := freed (hp w) @ [(?b, CBytes (cstring path))]\<rparr>, libs := insert (lib_dl L) (libs w),
      modl := Some (loaded_as L (Suc ?b))\<rparr>"
  have drop: "(mem (hp w))(?b := None, Suc ?b \<mapsto> x) = (mem (hp w))(Suc ?b \<mapsto> x)" for x
    using fresh by (simp add: fun_upd_idem)
  have "New ld path w = (Ret (Inr ()), ?w')"
    using assms(3) c1 ld fresh by (simp add: New_def go_run heap_op_def heap_grow_def fun_upd_twist drop)
  moreover have "wf ?w'"
  proof -
    have "module_ok (insert (lib_dl L) (libs w)) (loaded_as L (Suc ?b))"
      by (rule loaded_module_ok [OF _ N]) (use assms(5) L in \<open>auto simp: linker_ok_def\<close>)
    moreover have "a < Suc (Suc ?b)" if "mem (hp w) a = Some y" for a y
    proof -
      from that have "a \<in> dom (mem (hp w))" by (rule domI)
      with h(1) have "a < ?b" unfolding heap_ok_def by (rule bspec)
      then show ?thesis by simp
    qed
    ultimately show ?thesis using h(2) by (auto simp: wf_def heap_ok_def loaded_as_def Let_def)
  qed
  ultimately show ?thesis by (auto simp: nview_def)
qed

text \<open>A path that is not absolute, or a library that cannot be used, leaves nothing behind.\<close>

lemma New_fails:
  assumes "wf w" and "\<not> oom w" and "\<forall>L. \<not> usable ld path L"
  shows "\<exists>e w'. New ld path w = (Ret (Inl e), w') \<and> mem (hp w') = mem (hp w) \<and> libs w' \<subseteq> libs w \<and> modl w' = modl w \<and> nview w' = nview w \<and>
    libs w - lib_of ld path \<subseteq> libs w'"
proof (cases "IsAbs path")
  case False
  then show ?thesis using New_relative [OF False, of ld w] by (auto split: if_splits)
next
  case True
  let ?b = "brk (hp w)" and ?w1 = "heap_grow [brk (hp w) \<mapsto> CBytes (cstring path)] (Suc (brk (hp w))) w"
  have h: "heap_ok (hp w)" using assms(1) by (simp add: wf_def)
  have "grants (hp w) ?b (length (cstring path))" using assms(2) by (auto simp: oom_def)
  then have c: "cgo_CBytes (cstring path) w = (Ret (Ptr ?b), ?w1)" by (simp add: cgo_CBytes_run Let_def)
  have "heap_ok (hp ?w1)" "\<not> oom ?w1" using heap_grow_ok(1) [OF h fresh_one] assms(2) by simp_all
  from ck_load_fails [OF this assms(3)] obtain r msg v where
    v: "ck_load ld path ?w1 = (Ret (Inl (r, msg)), v)" "same_but_freed ?w1 v" "libs v = libs w - lib_of ld path" by auto
  have m: "mem (hp v) = (mem (hp w))(?b \<mapsto> CBytes (cstring path))" "modl v = modl w" "nview v = nview w"
    using v(2) by (simp_all add: same_but_freed_def)
  let ?u = "v\<lparr>hp := (hp v)\<lparr>mem := (mem (hp v))(?b := None), freed := freed (hp v) @ [(?b, CBytes (cstring path))]\<rparr>\<rparr>"
  have "\<exists>e. New ld path w = (Ret (Inl e), ?u)"
    using True c v(1) m(1) by (simp add: New_def go_run heap_op_def Let_def)
  moreover have "mem (hp ?u) = mem (hp w)" using m(1) heap_ok_fresh [OF h] by (simp add: fun_upd_idem)
  ultimately show ?thesis using v(3) m(2,3) by (auto simp: nview_def lib_of_def split: sum.splits)
qed

lemma Destroy_run:
  assumes "wf w" and "readers w = 0" and "waiters w = 0" and "modl w = Some m"
  shows "\<exists>w' a. Destroy w = (Ret (), w') \<and> wf w' \<and> modl w' = None \<and> mblk m = Ptr a \<and>
    mem (hp w') = (mem (hp w))(a := None) \<and> libs w' = libs w - {dl m} \<and> nview w' = nview w \<and> readers w' = 0 \<and> waiters w' = 0"
proof -
  obtain a b where a: "mblk m = Ptr a" "mem (hp w) a = Some b" using assms(1,4) by (auto simp: wf_def)
  have w: "\<not> writer w" "heap_ok (hp w)" using assms(1) by (simp_all add: wf_def)
  let ?w' = "w\<lparr>hp := (hp w)\<lparr>mem := (mem (hp w))(a := None), freed := freed (hp w) @ [(a, b)]\<rparr>,
     libs := libs w - {dl m}, at_calls := at_calls w @ [(0, True, 0)], modl := None\<rparr>"
  have "Destroy w = (Ret (), ?w')"
    using assms(2,3,4) a w by (cases w) (simp add: Destroy_def go_run Lock_def Unlock_def waiters_Wait_def ck_unload_def ck_close_def heap_op_def)
  moreover have "wf ?w'" using w by (auto simp: wf_def heap_ok_def)
  ultimately show ?thesis using assms(2,3) a by (auto simp: nview_def)
qed

lemma Destroy_again: "modl w = None \<Longrightarrow> \<not> writer w \<Longrightarrow> readers w = 0 \<Longrightarrow> Destroy w = (Ret (), w)"
  by (cases w) (simp add: Destroy_def go_run Lock_def Unlock_def)

lemma with_ctx_gone: "modl w = None \<Longrightarrow> \<not> writer w \<Longrightarrow> with_ctx body w = (Ret (Inl ErrClosed), w)"
  by (simp add: with_ctx_def go_run grab_def RLock_def RUnlock_def)

lemma with_lock_gone:
  "modl w = None \<Longrightarrow> \<not> writer w \<Longrightarrow> readers w = 0 \<Longrightarrow> with_lock body w = (Ret (Inl ErrClosed), w)"
  by (cases w) (simp add: with_lock_def go_run Lock_def Unlock_def)

text \<open>Only a waiting call, or another reader, makes \<open>Destroy\<close> wait.\<close>

lemma Destroy_waits:
  "modl w = Some m \<Longrightarrow> \<not> writer w \<Longrightarrow> readers w = 0 \<Longrightarrow> 0 < waiters w \<Longrightarrow> fst (Destroy w) = Fault ''deadlock''"
  by (simp add: Destroy_def go_run Lock_def Unlock_def waiters_Wait_def)

end
