(* ===== verification/P11_Search.thy ===== *)
theory P11_Search
  imports P11_Laws Lifecycle
begin

text \<open>
  The operations of \<^verbatim>\<open>p11/\<close> with a life of their own: the attributes added to a template by default,
  \<open>Session.Close\<close>, the search loop of \<open>Session.FindObjects\<close>, and \<open>Module.Close\<close>.
\<close>

section \<open>Default attributes\<close>

lemma hasAttribute_iff: "hasAttribute tmpl t \<longleftrightarrow> (\<exists>a. Some a \<in> set tmpl \<and> Type a = t)"
  by (induction tmpl) (auto split: option.splits)

lemma hasAttribute_append [simp]: "hasAttribute (xs @ ys) t \<longleftrightarrow> hasAttribute xs t \<or> hasAttribute ys t"
  by (auto simp: hasAttribute_iff)

definition secure_types :: "uint list" where
  "secure_types = [CKA_SENSITIVE, CKA_EXTRACTABLE, CKA_PRIVATE]"

lemma secure_types_distinct: "distinct secure_types"
  by (simp add: secure_types_def ck_consts)

lemma defaults_present: "t \<in> set secure_types \<Longrightarrow> hasAttribute (withSecureDefaults tmpl True) t"
  by (auto simp: secure_types_def withSecureDefaults_def bool_attr_def attr_def)

lemma defaults_idem: "withSecureDefaults (withSecureDefaults tmpl p) p = withSecureDefaults tmpl p"
proof (cases p)
  case True
  have "hasAttribute (withSecureDefaults tmpl True) CKA_SENSITIVE" "hasAttribute (withSecureDefaults tmpl True) CKA_EXTRACTABLE"
    "hasAttribute (withSecureDefaults tmpl True) CKA_PRIVATE" using defaults_present [of _ tmpl] by (simp_all add: secure_types_def)
  then show ?thesis using True by (simp add: withSecureDefaults_def [of "withSecureDefaults tmpl True"])
qed (simp add: withSecureDefaults_def)

text \<open>An attribute with several entries for one type is decided by them alone: nothing is added for it.\<close>

definition entries :: "uint \<Rightarrow> Attribute option list \<Rightarrow> Attribute list" where
  "entries t tmpl = [a. Some a \<leftarrow> tmpl, Type a = t]"

lemma entries_append [simp]: "entries t (xs @ ys) = entries t xs @ entries t ys"
  by (simp add: entries_def)

lemma entries_simps [simp]: "entries t [] = []"
  "entries t (Some a # xs) = (if Type a = t then a # entries t xs else entries t xs)"
  by (simp_all add: entries_def)

lemma hasAttribute_entries: "hasAttribute tmpl t \<longleftrightarrow> entries t tmpl \<noteq> []"
  by (induction tmpl) (auto simp: entries_def split: option.splits)

definition default_value :: "uint \<Rightarrow> bool" where
  "default_value t \<longleftrightarrow> t \<noteq> CKA_EXTRACTABLE"

lemma default_entries:
  "entries t (withSecureDefaults tmpl True) =
    (if t \<in> set secure_types \<and> entries t tmpl = [] then [bool_attr t (default_value t)] else entries t tmpl)"
  using secure_types_distinct
  by (auto simp: withSecureDefaults_def secure_types_def hasAttribute_entries bool_attr_def attr_def default_value_def)

section \<open>Closing a session\<close>

lemma Session_Close_closed:
  assumes "unlocked s i p" and "ps_closed p"
  shows "Session_Close i s = (Ret (Inr ()), s)"
  using assms relock [OF assms(1)] unfolding unlocked_def
  by (simp add: Session_Close_def with_mu_def go_run mu_Lock_def mu_Unlock_def set_session_def)

text \<open>The session is closed whatever \<open>C_CloseSession\<close> answers.\<close>

lemma Session_Close_open:
  assumes u: "unlocked s i p" and o: "\<not> ps_closed p" and w: "wf (p11_ctx s)" "\<not> oom (p11_ctx s)"
  shows "\<exists>x w. Session_Close i s = (Ret x, s\<lparr>p11_ctx := w, sessions := (sessions s)(i \<mapsto> p\<lparr>ps_closed := True\<rparr>)\<rparr>) \<and>
    frame (released {}) (p11_ctx s) w \<and>
    (x, nview w) \<in> abs_ctx (modl (p11_ctx s)) (\<lambda>md. abs_then err_only md (Sess C_CloseSession) [SULong (ps_handle p)]) (nview (p11_ctx s))"
proof -
  obtain x v where v: "CloseSession (ps_handle p) (p11_ctx s) = (Ret x, v)" "frame (released {}) (p11_ctx s) v"
    "(x, nview v) \<in> abs_ctx (modl (p11_ctx s)) (\<lambda>md. abs_then err_only md (Sess C_CloseSession) [SULong (ps_handle p)]) (nview (p11_ctx s))"
    using refines_no_oom [OF CloseSession_refines w(1) refl w(2)] by blast
  have "p\<lparr>ps_mu := False, ps_closed := True\<rparr> = p\<lparr>ps_closed := True\<rparr>" using u by (cases p) (simp add: unlocked_def)
  then have "Session_Close i s = (Ret x, s\<lparr>p11_ctx := v, sessions := (sessions s)(i \<mapsto> p\<lparr>ps_closed := True\<rparr>)\<rparr>)"
    using u o v(1) unfolding unlocked_def
    by (cases p) (simp add: Session_Close_def with_mu_def go_run mu_Lock_def mu_Unlock_def set_session_def)
  then show ?thesis using v(2,3) by blast
qed

section \<open>Searching\<close>

text \<open>The search as a relation on the module's state: batches until one is empty or a call fails.\<close>

inductive finds :: "'m ckModule \<Rightarrow> uint \<Rightarrow> uint list \<Rightarrow> 'm \<times> ck_call list \<Rightarrow> goerror + uint list \<Rightarrow> 'm \<times> ck_call list \<Rightarrow> bool"
  for md h where
  finds_done: "(Inr [], s') \<in> abs_find md h 32 s \<Longrightarrow> finds md h acc s (Inr acc) s'"
| finds_more: "(Inr b, s1) \<in> abs_find md h 32 s \<Longrightarrow> b \<noteq> [] \<Longrightarrow> finds md h (acc @ b) s1 x s' \<Longrightarrow> finds md h acc s x s'"
| finds_error: "(Inl e, s1) \<in> abs_find md h 32 s \<Longrightarrow>
    (r, s') \<in> abs_then err_only md (Obj C_FindObjectsFinal) [SULong h] s1 \<Longrightarrow> finds md h acc s (Inl e) s'"

text \<open>
  A search ends when each nonempty batch uses something up: \<open>searching md h m\<close> asks for a measure \<open>m\<close> of the
  module's state that every nonempty batch decreases.
\<close>

definition searching :: "'m ckModule \<Rightarrow> uint \<Rightarrow> ('m \<Rightarrow> nat) \<Rightarrow> bool" where
  "searching md h m \<longleftrightarrow> (\<forall>s b s'. (Inr b, s') \<in> abs_find md h 32 s \<longrightarrow> b \<noteq> [] \<longrightarrow> m (fst s') < m (fst s))"

lemma FindObjects_batch:
  assumes "wf w" and "modl w = Some md" and "\<not> oom w" and "honest_count md (Obj C_FindObjects)"
  shows "\<exists>x v. FindObjects h 32 w = (Ret x, v) \<and> frame (released {}) w v \<and> (x, nview v) \<in> abs_find md h 32 (nview w)"
proof -
  have "refines (released {}) (\<lambda>w. modl w = Some md) (FindObjects h 32)
     (if (32 :: int) \<le> 0 then abs_ret (Inr []) else abs_ctx (Some md) (\<lambda>md. abs_find md h (of_int 32)))"
    by (rule FindObjects_refines) (use assms(4) in simp_all)
  from refines_no_oom [OF this assms(1-3)] show ?thesis by (simp add: abs_ctx_def)
qed

lemma FindObjectsFinal_run:
  assumes "wf w" and "modl w = Some md" and "\<not> oom w"
  shows "\<exists>x v. FindObjectsFinal h w = (Ret x, v) \<and> frame (released {}) w v \<and>
    (x, nview v) \<in> abs_then err_only md (Obj C_FindObjectsFinal) [SULong h] (nview w)"
  using refines_no_oom [OF FindObjectsFinal_refines [of "{}"] assms] by (simp add: abs_ctx_def)

lemma frame_keeps: "frame S w v \<Longrightarrow> wf w \<Longrightarrow> modl w = Some md \<Longrightarrow> \<not> oom w \<Longrightarrow> wf v \<and> modl v = Some md \<and> \<not> oom v"
  by (simp add: frame_wf frame_oom frame_obs)

lemma find_loop_run:
  fixes s :: "'m p11"
  assumes "wf (p11_ctx s)" and "modl (p11_ctx s) = Some md" and "\<not> oom (p11_ctx s)"
    and h: "honest_count md (Obj C_FindObjects)" and m: "searching md h m" and "m (nat_st (p11_ctx s)) < fuel"
  shows "\<exists>x w. find_loop fuel i h (map (new_object i) acc) s = (Ret (map_sum (\<lambda>e. e) (map (new_object i)) x), s\<lparr>p11_ctx := w\<rparr>) \<and>
    frame (released {}) (p11_ctx s) w \<and> finds md h acc (nview (p11_ctx s)) x (nview w)"
  using assms(1-3,6)
proof (induction fuel arbitrary: s acc)
  case 0
  then show ?case by simp
next
  case (Suc fuel)
  obtain x v where f: "FindObjects h 32 (p11_ctx s) = (Ret x, v)" "frame (released {}) (p11_ctx s) v"
    "(x, nview v) \<in> abs_find md h 32 (nview (p11_ctx s))" using FindObjects_batch [OF Suc.prems(1-3) h] by blast
  have v: "wf v" "modl v = Some md" "\<not> oom v" using frame_keeps [OF f(2) Suc.prems(1-3)] by simp_all
  show ?case
  proof (cases x)
    case (Inl e)
    obtain y u where "FindObjectsFinal h v = (Ret y, u)" "frame (released {}) v u"
      "(y, nview u) \<in> abs_then err_only md (Obj C_FindObjectsFinal) [SULong h] (nview v)"
      using FindObjectsFinal_run [OF v] by blast
    then show ?thesis using f Inl frame_trans [OF f(2)]
      by (intro exI [of _ "Inl e"] exI [of _ u]) (auto simp: go_run intro: finds_error)
  next
    case (Inr b)
    show ?thesis
    proof (cases "b = []")
      case True
      then show ?thesis using f Inr by (intro exI [of _ "Inr acc"] exI [of _ v]) (auto simp: go_run intro: finds_done)
    next
      case False
      have "m (fst (nview v)) < m (fst (nview (p11_ctx s)))" using m f(3) Inr False unfolding searching_def by blast
      then have "m (nat_st v) < m (nat_st (p11_ctx s))" by (simp add: nview_def)
      then have "m (nat_st (p11_ctx (s\<lparr>p11_ctx := v\<rparr>))) < fuel" using Suc.prems(4) by simp
      from Suc.IH [OF _ _ _ this, of "acc @ b"] v obtain y u where
        "find_loop fuel i h (map (new_object i) (acc @ b)) (s\<lparr>p11_ctx := v\<rparr>) =
          (Ret (map_sum (\<lambda>e. e) (map (new_object i)) y), s\<lparr>p11_ctx := v, p11_ctx := u\<rparr>)"
        "frame (released {}) v u" "finds md h (acc @ b) (nview v) y (nview u)" by auto
      then show ?thesis using f Inr False frame_trans [OF f(2)]
        by (intro exI [of _ y] exI [of _ u]) (auto simp: go_run intro: finds_more)
    qed
  qed
qed

text \<open>More fuel than a search needs changes nothing.\<close>

lemma find_loop_more:
  "find_loop fuel i h found s = (Ret x, s') \<Longrightarrow> fuel \<le> fuel' \<Longrightarrow> find_loop fuel' i h found s = (Ret x, s')"
proof (induction fuel arbitrary: fuel' found s)
  case (Suc fuel)
  obtain k where k: "fuel' = Suc k" "fuel \<le> k" using Suc.prems(2) by (cases fuel') auto
  then show ?case using Suc.prems(1) Suc.IH [OF _ k(2)]
    by (auto simp: go_run split: prod.splits outcome.splits sum.splits if_splits)
qed (simp add: go_run)

text \<open>The whole of \<open>FindObjects\<close>: start, search, finish; the objects found survive an error of the last call.\<close>

definition abs_search ::
  "'m ckModule \<Rightarrow> uint \<Rightarrow> Attribute list \<Rightarrow> 'm \<times> ck_call list \<Rightarrow> uint list \<Rightarrow> goerror option \<Rightarrow> 'm \<times> ck_call list \<Rightarrow> bool" where
  "abs_search md h t s hs err s' \<longleftrightarrow> (\<exists>x s1. (x, s1) \<in> abs_then err_only md (Obj C_FindObjectsInit) [SULong h, tmpl_view t] s \<and>
     (case x of Inl e \<Rightarrow> hs = [] \<and> err = Some e \<and> s' = s1
      | Inr _ \<Rightarrow> (\<exists>y s2. finds md h [] s1 y s2 \<and> (case y of
          Inl e \<Rightarrow> hs = [] \<and> err = Some e \<and> s' = s2
        | Inr found \<Rightarrow> hs = found \<and>
            (\<exists>r. (r, s') \<in> abs_then err_only md (Obj C_FindObjectsFinal) [SULong h] s2 \<and> err = err_of r)))))"

lemma abs_searchI:
  "(Inl e, s') \<in> abs_then err_only md (Obj C_FindObjectsInit) [SULong h, tmpl_view t] s \<Longrightarrow> abs_search md h t s [] (Some e) s'"
  "(Inr z, s1) \<in> abs_then err_only md (Obj C_FindObjectsInit) [SULong h, tmpl_view t] s \<Longrightarrow> finds md h [] s1 (Inl e) s' \<Longrightarrow>
     abs_search md h t s [] (Some e) s'"
  "(Inr z, s1) \<in> abs_then err_only md (Obj C_FindObjectsInit) [SULong h, tmpl_view t] s \<Longrightarrow> finds md h [] s1 (Inr hs) s2 \<Longrightarrow>
     (r, s') \<in> abs_then err_only md (Obj C_FindObjectsFinal) [SULong h] s2 \<Longrightarrow> abs_search md h t s hs (err_of r) s'"
proof goal_cases
  case 1
  then show ?case unfolding abs_search_def by (intro exI [of _ "Inl e"] exI [of _ s']) simp
next
  case 2
  then show ?case unfolding abs_search_def
    by (intro exI [of _ "Inr z"] exI [of _ s1] conjI, simp) (auto intro!: exI [of _ "Inl e"] exI [of _ "fst s'"] exI [of _ "snd s'"])
next
  case 3
  then show ?case unfolding abs_search_def
    by (intro exI [of _ "Inr z"] exI [of _ s1] conjI, simp) (auto intro!: exI [of _ "Inr hs"] exI [of _ "fst s2"] exI [of _ "snd s2"])
qed

definition search_body :: "nat \<Rightarrow> nat \<Rightarrow> uint \<Rightarrow> Attribute option list \<Rightarrow> ('m p11, pobject list \<times> goerror option) go" where
  "search_body fuel i h template = go_bind (lift (FindObjectsInit h template)) (\<lambda>r. case r of
      Inl e \<Rightarrow> go_ret ([], Some e)
    | Inr _ \<Rightarrow> go_bind (find_loop fuel i h []) (\<lambda>r. case r of
        Inl e \<Rightarrow> go_ret ([], Some e)
      | Inr found \<Rightarrow> go_bind (lift (FindObjectsFinal h)) (\<lambda>r. go_ret (found, err_of r))))"

lemma search_body_run:
  fixes s :: "'m p11"
  assumes w: "wf (p11_ctx s)" "modl (p11_ctx s) = Some md" "\<not> oom (p11_ctx s)"
    and h: "honest_count md (Obj C_FindObjects)" and m: "searching md h m" and t: "tmpl_ok t"
  shows "\<exists>fuel hs err w. search_body fuel i h (map Some t) s = (Ret (map (new_object i) hs, err), s\<lparr>p11_ctx := w\<rparr>) \<and>
    frame (released {}) (p11_ctx s) w \<and> abs_search md h t (nview (p11_ctx s)) hs err (nview w)"
proof -
  obtain x v where f: "FindObjectsInit h (map Some t) (p11_ctx s) = (Ret x, v)" "frame (released {}) (p11_ctx s) v"
    "(x, nview v) \<in> abs_then err_only md (Obj C_FindObjectsInit) [SULong h, tmpl_view t] (nview (p11_ctx s))"
    using refines_no_oom [OF FindObjectsInit_refines [OF t, where sh = h and pub = "{}"] w] by (auto simp: abs_ctx_def)
  have v: "wf v" "modl v = Some md" "\<not> oom v" using frame_keeps [OF f(2) w] by simp_all
  show ?thesis
  proof (cases x)
    case (Inl e)
    then have "search_body 0 i h (map Some t) s = (Ret (map (new_object i) [], Some e), s\<lparr>p11_ctx := v\<rparr>)"
      using f(1) by (simp add: search_body_def go_run)
    moreover have "abs_search md h t (nview (p11_ctx s)) [] (Some e) (nview v)"
      using f(3) Inl by (auto intro: abs_searchI(1))
    ultimately show ?thesis using f(2) by blast
  next
    case (Inr z)
    let ?fuel = "Suc (m (nat_st v))"
    obtain y u where l: "find_loop ?fuel i h [] (s\<lparr>p11_ctx := v\<rparr>) = (Ret (map_sum (\<lambda>e. e) (map (new_object i)) y), s\<lparr>p11_ctx := u\<rparr>)"
      "frame (released {}) v u" "finds md h [] (nview v) y (nview u)"
      using find_loop_run [of "s\<lparr>p11_ctx := v\<rparr>" md h m ?fuel i "[]"] v h m by auto
    have u: "wf u" "modl u = Some md" "\<not> oom u" using frame_keeps [OF l(2) v] by simp_all
    show ?thesis
    proof (cases y)
      case (Inl e)
      then have "search_body ?fuel i h (map Some t) s = (Ret (map (new_object i) [], Some e), s\<lparr>p11_ctx := u\<rparr>)"
        using f(1) l(1) Inr by (simp add: search_body_def go_run)
      moreover have "abs_search md h t (nview (p11_ctx s)) [] (Some e) (nview u)"
        using abs_searchI(2) f(3) l(3) unfolding Inr Inl by blast
      ultimately show ?thesis using frame_trans [OF f(2) l(2)] by blast
    next
      case found: (Inr hs)
      obtain r q where g: "FindObjectsFinal h u = (Ret r, q)" "frame (released {}) u q"
        "(r, nview q) \<in> abs_then err_only md (Obj C_FindObjectsFinal) [SULong h] (nview u)"
        using FindObjectsFinal_run [OF u] by blast
      then have "search_body ?fuel i h (map Some t) s = (Ret (map (new_object i) hs, err_of r), s\<lparr>p11_ctx := q\<rparr>)"
        using f(1) l(1) Inr found by (simp add: search_body_def go_run)
      moreover have "abs_search md h t (nview (p11_ctx s)) hs (err_of r) (nview q)"
        using abs_searchI(3) f(3) l(3) g(3) unfolding Inr found by blast
      ultimately show ?thesis using frame_trans [OF f(2) frame_trans [OF l(2) g(2)]] by blast
    qed
  qed
qed

lemma search_body_locked:
  fixes s :: "'m p11"
  assumes "search_body fuel i h t s = (Ret x, s\<lparr>p11_ctx := w\<rparr>)"
  shows "search_body fuel i h t (s\<lparr>sessions := S\<rparr>) = (Ret x, s\<lparr>p11_ctx := w, sessions := S\<rparr>)"
proof -
  have swap: "s\<lparr>sessions := S, p11_ctx := v\<rparr> = s\<lparr>p11_ctx := v, sessions := S\<rparr>" for v and s :: "'m p11" by simp
  have loop: "find_loop n i h found (s\<lparr>sessions := S\<rparr>) =
      (case find_loop n i h found s of (r, v) \<Rightarrow> (r, v\<lparr>sessions := S\<rparr>))" for n found and s :: "'m p11"
  proof (induction n arbitrary: found s)
    case 0
    then show ?case by (simp add: go_run)
  next
    case (Suc n)
    show ?case
      by (auto simp: go_run swap Suc.IH split: prod.splits outcome.splits sum.splits)
  qed
  show ?thesis using assms
    by (auto simp: search_body_def go_run loop swap split: prod.splits outcome.splits sum.splits)
qed

lemma Session_FindObjects_run:
  assumes u: "unlocked s i p" and b: "search_body fuel i (ps_handle p) t s = (Ret x, s\<lparr>p11_ctx := w\<rparr>)"
  shows "Session_FindObjects fuel i t s = (Ret x, s\<lparr>p11_ctx := w\<rparr>)"
proof -
  have eq: "Session_FindObjects fuel i t = with_mu i (\<lambda>h. search_body fuel i h t)"
    by (simp add: Session_FindObjects_def search_body_def)
  show ?thesis unfolding eq using u relock [OF u] search_body_locked [OF b] unfolding unlocked_def
    by (simp add: with_mu_def go_run mu_Lock_def mu_Unlock_def set_session_def)
qed

end
