(* ===== verification/P11_Module.thy ===== *)
theory P11_Module
  imports P11_Search
begin

text \<open>
  \<open>OpenModule\<close> and \<open>Module.Close\<close> of \<^verbatim>\<open>p11/module.go\<close>.  Opening loads the library and initialises it; when
  \<open>C_Initialize\<close> fails the library is unloaded again, and nothing is left behind.  Closing finalises and
  unloads once; later calls only repeat the error of the first.
\<close>

text \<open>The state no method is running in: no reader, no waiting call.\<close>

definition idle :: "'m world \<Rightarrow> bool" where
  "idle w \<longleftrightarrow> wf w \<and> \<not> oom w \<and> readers w = 0 \<and> waiters w = 0"

lemma Finalize_refines:
  "refines S (\<lambda>w. modl w = md \<and> readers w = 0) Finalize (abs_ctx md (\<lambda>m. abs_then err_only m (Life C_Finalize) []))"
  unfolding Finalize_def by (rule locked_call_refines) (simp_all add: sees_def)

lemma InitializeWithFlags_refines:
  "refines S (\<lambda>w. modl w = md \<and> readers w = 0) (InitializeWithFlags flags)
     (abs_ctx md (\<lambda>m. abs_then err_only m (Life C_Initialize) [SULong flags]))"
  unfolding InitializeWithFlags_def by (rule locked_call_refines) (simp_all add: sees_def view_arg.simps)

lemmas Initialize_refines = InitializeWithFlags_refines [where flags = CKF_OS_LOCKING_OK, folded Initialize_def]

lemma locked_call_run:
  assumes r: "refines (released {}) (\<lambda>w. modl w = Some m \<and> readers w = 0) call (abs_ctx (Some m) f)"
    and w: "idle w" "modl w = Some m"
  shows "\<exists>x v. call w = (Ret x, v) \<and> idle v \<and> modl v = Some m \<and> mem (hp v) = mem (hp w) \<and> libs v = libs w \<and>
    (x, nview v) \<in> f m (nview w)"
proof -
  have "modl w = Some m \<and> readers w = 0" "wf w" "\<not> oom w" using w by (simp_all add: idle_def)
  from refines_no_oom [OF r this(2,1,3)] obtain x v where v: "call w = (Ret x, v)" "frame (released {}) w v"
    "(x, nview v) \<in> abs_ctx (Some m) f (nview w)" by blast
  have "idle v" using frame_wf [OF v(2)] frame_oom [OF v(2)] frame_obs [OF v(2)] w(1) by (simp add: idle_def)
  then show ?thesis using v frame_obs [OF v(2)] w(2) by (simp add: abs_ctx_def)
qed

lemma Destroy_idle:
  assumes "idle w" and "modl w = Some m"
  shows "\<exists>v a. Destroy w = (Ret (), v) \<and> wf v \<and> modl v = None \<and> mblk m = Ptr a \<and> mem (hp v) = (mem (hp w))(a := None) \<and>
    libs v = libs w - {dl m} \<and> nview v = nview w"
  using Destroy_run [OF _ _ _ assms(2)] assms(1) by (auto simp: idle_def)

section \<open>Close\<close>

lemma Module_Close_again: "closeOnce s \<Longrightarrow> Module_Close s = (Ret (closeErr s), s)"
  by (simp add: Module_Close_def go_run)

lemma Module_Close_first:
  assumes o: "\<not> closeOnce s" and w: "idle (p11_ctx s)" "modl (p11_ctx s) = Some m"
  shows "\<exists>x v u a. Finalize (p11_ctx s) = (Ret x, v) \<and> Destroy v = (Ret (), u) \<and>
    Module_Close s = (Ret (err_of x), s\<lparr>p11_ctx := u, closeOnce := True, closeErr := err_of x\<rparr>) \<and>
    (x, nview u) \<in> abs_then err_only m (Life C_Finalize) [] (nview (p11_ctx s)) \<and> wf u \<and> modl u = None \<and>
    libs u = libs (p11_ctx s) - {dl m} \<and> mblk m = Ptr a \<and> mem (hp u) = (mem (hp (p11_ctx s)))(a := None)"
proof -
  obtain x v where f: "Finalize (p11_ctx s) = (Ret x, v)" "idle v" "modl v = Some m" "mem (hp v) = mem (hp (p11_ctx s))"
    "libs v = libs (p11_ctx s)" "(x, nview v) \<in> abs_then err_only m (Life C_Finalize) [] (nview (p11_ctx s))"
    using locked_call_run [OF Finalize_refines w] by blast
  obtain u a where d: "Destroy v = (Ret (), u)" "wf u" "modl u = None" "mblk m = Ptr a" "mem (hp u) = (mem (hp v))(a := None)"
    "libs u = libs v - {dl m}" "nview u = nview v" using Destroy_idle [OF f(2,3)] by blast
  have "Module_Close s = (Ret (err_of x), s\<lparr>p11_ctx := u, closeOnce := True, closeErr := err_of x\<rparr>)"
    using o f(1) d(1) by (simp add: Module_Close_def go_run)
  then show ?thesis using f d by (intro exI [of _ x] exI [of _ v] exI [of _ u] exI [of _ a]) simp
qed

section \<open>Open\<close>

lemma New_idle:
  assumes w: "idle w" and l: "IsAbs path" "usable ld path L" "linker_ok ld"
  shows "\<exists>v. New ld path w = (Ret (Inr ()), v) \<and> idle v \<and> modl v = Some (loaded_as L (Suc (brk (hp w)))) \<and>
    mem (hp v) = (mem (hp w))(Suc (brk (hp w)) \<mapsto> CBytes (replicate 32 0)) \<and> libs v = insert (lib_dl L) (libs w) \<and> nview v = nview w"
proof -
  have w': "wf w" "\<not> oom w" using w by (simp_all add: idle_def)
  obtain v where v: "New ld path w = (Ret (Inr ()), v)" "wf v" "modl v = Some (loaded_as L (Suc (brk (hp w))))"
    "mem (hp v) = (mem (hp w))(Suc (brk (hp w)) \<mapsto> CBytes (replicate 32 0))" "libs v = insert (lib_dl L) (libs w)"
    "nview v = nview w" "readers v = readers w" "waiters v = waiters w"
    and g: "grants (hp v) = grants (hp w)"
    using New_loads [OF w' l] by blast
  have "idle v" using v g w by (simp add: idle_def oom_def)
  then show ?thesis using v by blast
qed

lemma OpenModule_load_fails:
  "New ld path (p11_ctx s) = (Ret (Inl e), v) \<Longrightarrow> OpenModule ld path s = (Ret (Inl e), s\<lparr>p11_ctx := v\<rparr>)"
  by (simp add: OpenModule_def go_run)

text \<open>Both ways the initialisation can end.\<close>

lemma OpenModule_run:
  assumes w: "idle (p11_ctx s)" and l: "IsAbs path" "usable ld path L" "linker_ok ld" and new: "lib_dl L \<notin> libs (p11_ctx s)"
  shows "\<exists>x u. fst (OpenModule ld path s) = Ret x \<and> p11_ctx (snd (OpenModule ld path s)) = u \<and> wf u \<and>
    (x, nview u) \<in> abs_then err_only (loaded_as L (Suc (brk (hp (p11_ctx s))))) (Life C_Initialize) [SULong CKF_OS_LOCKING_OK]
      (nview (p11_ctx s)) \<and>
    (case x of Inr _ \<Rightarrow> modl u = Some (loaded_as L (Suc (brk (hp (p11_ctx s))))) \<and> idle u
     | Inl e \<Rightarrow> modl u = None \<and> mem (hp u) = mem (hp (p11_ctx s)) \<and> libs u = libs (p11_ctx s))"
proof -
  let ?w = "p11_ctx s" and ?m = "loaded_as L (Suc (brk (hp (p11_ctx s))))"
  obtain v where v: "New ld path ?w = (Ret (Inr ()), v)" "idle v" "modl v = Some ?m"
    "mem (hp v) = (mem (hp ?w))(Suc (brk (hp ?w)) \<mapsto> CBytes (replicate 32 0))" "libs v = insert (lib_dl L) (libs ?w)"
    "nview v = nview ?w" using New_idle [OF w l] by blast
  obtain x t where t: "Initialize v = (Ret x, t)" "idle t" "modl t = Some ?m" "mem (hp t) = mem (hp v)" "libs t = libs v"
    "(x, nview t) \<in> abs_then err_only ?m (Life C_Initialize) [SULong CKF_OS_LOCKING_OK] (nview v)"
    using locked_call_run [OF Initialize_refines v(2,3)] by blast
  show ?thesis
  proof (cases x)
    case (Inr z)
    then have "OpenModule ld path s = (Ret x, s\<lparr>p11_ctx := t, closeOnce := False, closeErr := None\<rparr>)"
      using v(1) t(1) by (simp add: OpenModule_def go_run)
    then show ?thesis using Inr t v(6) by (simp add: idle_def)
  next
    case (Inl e)
    obtain u a where d: "Destroy t = (Ret (), u)" "wf u" "modl u = None" "mblk ?m = Ptr a"
      "mem (hp u) = (mem (hp t))(a := None)" "libs u = libs t - {dl ?m}" "nview u = nview t"
      using Destroy_idle [OF t(2,3)] by blast
    have a: "a = Suc (brk (hp ?w))" "dl ?m = lib_dl L" using d(4) by (simp_all add: loaded_as_def Let_def)
    have "heap_ok (hp ?w)" using w by (simp add: idle_def wf_def)
    then have "mem (hp ?w) a = None" unfolding a heap_ok_def by (metis domIff lessI not_less_iff_gr_or_eq not_less_eq)
    then have "mem (hp u) = mem (hp ?w)" "libs u = libs ?w" using d t v a new by (auto simp: fun_upd_idem)
    moreover have "OpenModule ld path s = (Ret x, s\<lparr>p11_ctx := u\<rparr>)"
      using v(1) t(1) Inl d(1) by (simp add: OpenModule_def go_run)
    ultimately show ?thesis using Inl t(6) v(6) d by simp
  qed
qed

end
