(* ===== verification/Programs.thy ===== *)
theory Programs
  imports P11_Module
begin

text \<open>
  Programs that use one \<open>Ctx\<close>: any sequence of its methods, between \<open>Initialize\<close> and \<open>Finalize\<close>, these two
  included.  \<open>ctx_call\<close> collects the methods with what they ask of their arguments, relative to the state the
  sequence starts in: slices a Go program can hold, templates without nil elements that fit the limit, a mechanism whose parameters
  are alive.  Of the module the three calls that return lists ask one thing more, \<open>counts_honestly\<close>: that it counts no more
  handles than it was given room for.
\<close>

section \<open>Methods without a contract so far\<close>

lemma GetInfo_refines:
  "refines (released pub) (\<lambda>w. modl w = mo) GetInfo (abs_ctx mo (\<lambda>md. abs_then go_info md (Life C_GetInfo) []))"
  unfolding GetInfo_def by (rule refine_op stable_intros | simp)+

lemma SupportsV32_refines:
  fixes mo :: "'m ckModule option"
  shows "refines (released pub) (\<lambda>w. modl w = mo) SupportsV32
     (abs_ret (case mo of None \<Rightarrow> False | Some m \<Rightarrow> ck_has_v32 m))"
proof (rule refinesI, rule disjI1)
  fix w :: "'m world"
  assume "wf w" "modl w = mo"
  then have "SupportsV32 w = (Ret (case mo of None \<Rightarrow> False | Some m \<Rightarrow> ck_has_v32 m), w)"
    by (cases w) (simp add: SupportsV32_def go_run RLock_def RUnlock_def wf_def)
  then show "\<exists>x w'. SupportsV32 w = (Ret x, w') \<and> frame (released pub) w w' \<and>
      (x, nview w') \<in> abs_ret (case mo of None \<Rightarrow> False | Some m \<Rightarrow> ck_has_v32 m) (nview w)"
    by (simp add: abs_ret_def)
qed

section \<open>Calls\<close>

text \<open>A call whose result the program has no further use for.\<close>

abbreviation call_of :: "('s, 'a) go \<Rightarrow> ('s, unit) go" where
  "call_of m \<equiv> go_bind m (\<lambda>_. go_ret ())"

text \<open>What \<open>GetSlotList\<close>, \<open>GetMechanismList\<close> and \<open>FindObjects\<close> rely on and do not check.\<close>

definition counts_honestly :: "'m world \<Rightarrow> bool" where
  "counts_honestly w \<longleftrightarrow> (\<forall>md. modl w = Some md \<longrightarrow> honest_count md (Slot C_GetSlotList) \<and>
     honest_count md (Slot C_GetMechanismList) \<and> honest_count md (Obj C_FindObjects))"

lemma toy_counts: "counts_honestly toy_world"
  by (auto simp: counts_honestly_def honest_count_def toy_world_def toy_module_def served_def CK_FNS_def toy_def reply0_def)

inductive session_call :: "'m world \<Rightarrow> ('m world, unit) go \<Rightarrow> bool" for w where
  "session_call w (call_of (OpenSession slot flags))"
| "session_call w (call_of (CloseSession sh))"
| "session_call w (call_of (CloseAllSessions slot))"
| "session_call w (call_of (GetSessionInfo sh))"
| "fits64 pin \<Longrightarrow> session_call w (call_of (Login sh userType pin))"
| "session_call w (call_of (Logout sh))"
| "session_call w (call_of (GetOperationState sh))"
| "fits64 state \<Longrightarrow> session_call w (call_of (SetOperationState sh state encKey authKey))"
| "fits64 seed \<Longrightarrow> session_call w (call_of (SeedRandom sh seed))"
| "session_call w (call_of (GenerateRandom sh len))"
| "readers w = 0 \<Longrightarrow> session_call w (call_of Initialize)"
| "readers w = 0 \<Longrightarrow> session_call w (call_of (InitializeWithFlags flags))"
| "readers w = 0 \<Longrightarrow> session_call w (call_of Finalize)"
| "session_call w (call_of GetInfo)"
| "session_call w (call_of SupportsV32)"

inductive slot_call :: "'m world \<Rightarrow> ('m world, unit) go \<Rightarrow> bool" for w where
  "slot_call w (call_of (GetSlotList present))"
| "slot_call w (call_of (GetSlotInfo slot))"
| "slot_call w (call_of (GetTokenInfo slot))"
| "slot_call w (call_of (GetMechanismList slot))"
| "slot_call w (call_of (GetMechanismInfo slot typ))"
| "fits64 soPin \<Longrightarrow> slot_call w (call_of (InitToken slot soPin label))"
| "fits64 pin \<Longrightarrow> slot_call w (call_of (InitPIN sh pin))"
| "fits64 oldPin \<Longrightarrow> fits64 newPin \<Longrightarrow> slot_call w (call_of (SetPIN sh oldPin newPin))"
| "slot_call w (call_of (WaitForSlotEvent flags))"

inductive object_call :: "'m world \<Rightarrow> ('m world, unit) go \<Rightarrow> bool" for w where
  "tmpl_ok t \<Longrightarrow> object_call w (call_of (CreateObject sh (map Some t)))"
| "tmpl_ok t \<Longrightarrow> object_call w (call_of (CopyObject sh obj (map Some t)))"
| "object_call w (call_of (DestroyObject sh obj))"
| "object_call w (call_of (GetObjectSize sh obj))"
| "fits64 t \<Longrightarrow> object_call w (call_of (GetAttributeValue sh obj (map Some t)))"
| "tmpl_ok t \<Longrightarrow> object_call w (call_of (SetAttributeValue sh obj (map Some t)))"
| "tmpl_ok t \<Longrightarrow> object_call w (call_of (FindObjectsInit sh (map Some t)))"
| "n \<le> 2 ^ 45 \<Longrightarrow> object_call w (call_of (FindObjects sh n))"
| "object_call w (call_of (FindObjectsFinal sh))"

inductive crypt_call :: "'m world \<Rightarrow> ('m world, unit) go \<Rightarrow> bool" for w where
  "mech_sees m V w \<Longrightarrow> crypt_call w (call_of (EncryptInit sh m key))"
| "fits64 b \<Longrightarrow> crypt_call w (call_of (Encrypt sh b))"
| "fits64 b \<Longrightarrow> crypt_call w (call_of (EncryptUpdate sh b))"
| "crypt_call w (call_of (EncryptFinal sh))"
| "mech_sees m V w \<Longrightarrow> crypt_call w (call_of (DecryptInit sh m key))"
| "crypt_call w (call_of (Decrypt sh b))"
| "crypt_call w (call_of (DecryptUpdate sh b))"
| "crypt_call w (call_of (DecryptFinal sh))"
| "mech_sees m V w \<Longrightarrow> crypt_call w (call_of (DigestInit sh m))"
| "fits64 b \<Longrightarrow> crypt_call w (call_of (Digest sh b))"
| "fits64 b \<Longrightarrow> crypt_call w (call_of (DigestUpdate sh b))"
| "crypt_call w (call_of (DigestKey sh key))"
| "crypt_call w (call_of (DigestFinal sh))"
| "fits64 b \<Longrightarrow> crypt_call w (call_of (DigestEncryptUpdate sh b))"
| "fits64 b \<Longrightarrow> crypt_call w (call_of (DecryptDigestUpdate sh b))"
| "fits64 b \<Longrightarrow> crypt_call w (call_of (SignEncryptUpdate sh b))"
| "fits64 b \<Longrightarrow> crypt_call w (call_of (DecryptVerifyUpdate sh b))"

inductive sign_call :: "'m world \<Rightarrow> ('m world, unit) go \<Rightarrow> bool" for w where
  "mech_sees m V w \<Longrightarrow> sign_call w (call_of (SignInit sh m key))"
| "fits64 b \<Longrightarrow> sign_call w (call_of (Sign sh b))"
| "fits64 b \<Longrightarrow> sign_call w (call_of (SignUpdate sh b))"
| "sign_call w (call_of (SignFinal sh))"
| "mech_sees m V w \<Longrightarrow> sign_call w (call_of (VerifyInit sh m key))"
| "fits64 b \<Longrightarrow> sign_call w (call_of (Verify sh b c))"
| "fits64 b \<Longrightarrow> sign_call w (call_of (VerifyUpdate sh b))"
| "sign_call w (call_of (VerifyFinal sh c))"
| "mech_sees m V w \<Longrightarrow> sign_call w (call_of (VerifySignatureInit sh m key c))"
| "fits64 b \<Longrightarrow> sign_call w (call_of (VerifySignature sh b))"
| "fits64 b \<Longrightarrow> sign_call w (call_of (VerifySignatureUpdate sh b))"
| "sign_call w (call_of (VerifySignatureFinal sh))"

inductive key_call :: "'m world \<Rightarrow> ('m world, unit) go \<Rightarrow> bool" for w where
  "mech_sees m V w \<Longrightarrow> tmpl_ok t \<Longrightarrow> key_call w (call_of (GenerateKey sh m (map Some t)))"
| "mech_sees m V w \<Longrightarrow> tmpl_ok t \<Longrightarrow> tmpl_ok u \<Longrightarrow> key_call w (call_of (GenerateKeyPair sh m (map Some t) (map Some u)))"
| "mech_sees m V w \<Longrightarrow> key_call w (call_of (WrapKey sh m wrappingKey key))"
| "mech_sees m V w \<Longrightarrow> tmpl_ok t \<Longrightarrow> key_call w (call_of (UnwrapKey sh m unwrappingKey b (map Some t)))"
| "mech_sees m V w \<Longrightarrow> tmpl_ok t \<Longrightarrow> key_call w (call_of (DeriveKey sh m baseKey (map Some t)))"
| "mech_sees m V w \<Longrightarrow> tmpl_ok t \<Longrightarrow> key_call w (call_of (EncapsulateKey sh m pubKey (map Some t)))"
| "mech_sees m V w \<Longrightarrow> tmpl_ok t \<Longrightarrow> key_call w (call_of (DecapsulateKey sh m privKey (map Some t) b))"
| "key_call w (call_of (GetSessionValidationFlags sh flagType))"
| "mech_sees m V w \<Longrightarrow> key_call w (call_of (WrapKeyAuthenticated sh m wrappingKey key b))"
| "mech_sees m V w \<Longrightarrow> tmpl_ok t \<Longrightarrow> key_call w (call_of (UnwrapKeyAuthenticated sh m unwrappingKey b c (map Some t)))"

definition ctx_call :: "'m world \<Rightarrow> ('m world, unit) go \<Rightarrow> bool" where
  "ctx_call w m \<longleftrightarrow> session_call w m \<or> slot_call w m \<or> object_call w m \<or> crypt_call w m \<or> sign_call w m \<or> key_call w m"

primrec program :: "('m world, unit) go list \<Rightarrow> ('m world, unit) go" where
  "program [] = go_ret ()"
| "program (m # ms) = go_bind m (\<lambda>_. program ms)"

section \<open>Every call keeps the state\<close>

text \<open>The state of a program is related by \<open>frame\<close> to the one it started in, so what \<open>ctx_call\<close> asks still holds.\<close>

definition safe :: "'m world \<Rightarrow> ('m world, unit) go \<Rightarrow> bool" where
  "safe w m \<longleftrightarrow> refines (released UNIV) (frame (released UNIV) w) m (\<lambda>s. UNIV)"

lemma safeI:
  assumes "refines (released UNIV) P m f" and "\<And>v. frame (released UNIV) w v \<Longrightarrow> P v"
  shows "safe w (call_of m)"
proof -
  have "refines (released UNIV) (frame (released UNIV) w) m f" by (rule refines_pre [OF assms(1)]) (rule assms(2))
  then show ?thesis unfolding safe_def refines_def
    by (fastforce simp: go_run split: prod.splits outcome.splits)
qed

lemma safe_plain: "refines (released UNIV) (\<lambda>v. modl v = modl w) m f \<Longrightarrow> safe w (call_of m)"
  by (erule safeI) (simp add: frame_obs)

lemma safe_locked: "refines (released UNIV) (\<lambda>v. modl v = modl w \<and> readers v = 0) m f \<Longrightarrow> readers w = 0 \<Longrightarrow> safe w (call_of m)"
  by (erule safeI) (simp add: frame_obs)

lemma safe_attr: "refines (released UNIV) (\<lambda>v. modl v = modl w \<and> \<not> oom v) m f \<Longrightarrow> \<not> oom w \<Longrightarrow> safe w (call_of m)"
  by (erule safeI) (simp add: frame_obs frame_oom)

lemma safe_mech:
  assumes "mech_sees mech V w" and "refines (released UNIV) (\<lambda>v. modl v = modl w \<and> mech_pre UNIV (policy w) mech V v) m f"
  shows "safe w (call_of m)"
proof (rule safeI [OF assms(2)])
  fix v assume v: "frame (released UNIV) w v"
  have "mech_pre UNIV (policy w) mech V w" using assms(1) by (simp add: mech_pre_def)
  then have "mech_pre UNIV (policy w) mech V v" by (rule stableD [OF stable_mech_pre frame_ext [OF v]])
  then show "modl v = modl w \<and> mech_pre UNIV (policy w) mech V v" using frame_obs [OF v] by simp
qed

lemmas plain_refines = OpenSession_refines CloseSession_refines CloseAllSessions_refines GetSessionInfo_refines Login_refines
  Logout_refines GetOperationState_refines SetOperationState_refines SeedRandom_refines GenerateRandom_refines GetInfo_refines
  SupportsV32_refines GetSlotList_refines GetSlotInfo_refines GetTokenInfo_refines GetMechanismList_refines
  GetMechanismInfo_refines InitToken_refines InitPIN_refines SetPIN_refines WaitForSlotEvent_refines CreateObject_refines
  CopyObject_refines DestroyObject_refines GetObjectSize_refines SetAttributeValue_refines FindObjectsInit_refines
  FindObjects_refines FindObjectsFinal_refines Encrypt_refines EncryptUpdate_refines EncryptFinal_refines Decrypt_refines
  DecryptUpdate_refines DecryptFinal_refines Digest_refines DigestUpdate_refines DigestKey_refines DigestFinal_refines
  DigestEncryptUpdate_refines DecryptDigestUpdate_refines SignEncryptUpdate_refines DecryptVerifyUpdate_refines Sign_refines
  SignUpdate_refines SignFinal_refines Verify_refines VerifyUpdate_refines VerifyFinal_refines VerifySignature_refines
  VerifySignatureUpdate_refines VerifySignatureFinal_refines GetSessionValidationFlags_refines

lemmas mech_refines = EncryptInit_refines DecryptInit_refines DigestInit_refines SignInit_refines VerifyInit_refines
  VerifySignatureInit_refines GenerateKey_refines GenerateKeyPair_refines WrapKey_refines UnwrapKey_refines DeriveKey_refines
  EncapsulateKey_refines DecapsulateKey_refines WrapKeyAuthenticated_refines UnwrapKeyAuthenticated_refines

lemma session_call_safe: "session_call w m \<Longrightarrow> safe w m"
  by (induction rule: session_call.induct)
    (rule safe_plain safe_locked plain_refines Initialize_refines InitializeWithFlags_refines Finalize_refines UNIV_I | assumption)+

lemma honest_counts:
  assumes "counts_honestly w" and "modl w = Some md"
  shows "honest_count md (Slot C_GetSlotList)" "honest_count md (Slot C_GetMechanismList)" "honest_count md (Obj C_FindObjects)"
  using assms by (simp_all add: counts_honestly_def)

lemma slot_call_safe: "slot_call w m \<Longrightarrow> counts_honestly w \<Longrightarrow> safe w m"
  by (induction rule: slot_call.induct) (rule safe_plain plain_refines UNIV_I honest_counts | assumption | simp)+

lemma object_call_safe: "object_call w m \<Longrightarrow> \<not> oom w \<Longrightarrow> counts_honestly w \<Longrightarrow> safe w m"
  by (induction rule: object_call.induct)
    (erule safe_attr [OF GetAttributeValue_refines] | rule safe_plain plain_refines UNIV_I honest_counts | assumption | simp)+

lemma crypt_call_safe: "crypt_call w m \<Longrightarrow> safe w m"
  by (induction rule: crypt_call.induct) (erule safe_mech | rule safe_plain plain_refines mech_refines UNIV_I | assumption)+

lemma sign_call_safe: "sign_call w m \<Longrightarrow> safe w m"
  by (induction rule: sign_call.induct) (erule safe_mech | rule safe_plain plain_refines mech_refines UNIV_I | assumption)+

lemma key_call_safe: "key_call w m \<Longrightarrow> safe w m"
  by (induction rule: key_call.induct) (erule safe_mech | rule safe_plain plain_refines mech_refines UNIV_I | assumption)+

lemma ctx_call_safe: "ctx_call w m \<Longrightarrow> \<not> oom w \<Longrightarrow> counts_honestly w \<Longrightarrow> safe w m"
  unfolding ctx_call_def
  by (elim disjE) (simp_all add: session_call_safe slot_call_safe object_call_safe crypt_call_safe sign_call_safe key_call_safe)

lemma program_safe:
  assumes "list_all (ctx_call w0) ms" and "wf w" and "\<not> oom w0" and "counts_honestly w0" and "frame (released UNIV) w0 w"
  shows "\<exists>w'. program ms w = (Ret (), w') \<and> frame (released UNIV) w w'"
  using assms
proof (induction ms arbitrary: w)
  case Nil
  then show ?case by (simp add: go_run)
next
  case (Cons m ms)
  have "safe w0 m" using Cons.prems by (simp add: ctx_call_safe)
  moreover have "\<not> oom w" using Cons.prems frame_oom by blast
  ultimately obtain v where v: "m w = (Ret (), v)" "frame (released UNIV) w v"
    unfolding safe_def using refines_no_oom Cons.prems(2,5) by (metis (full_types) old.unit.exhaust)
  have "\<exists>w'. program ms v = (Ret (), w') \<and> frame (released UNIV) v w'"
    by (rule Cons.IH) (use Cons.prems v frame_trans frame_wf in \<open>auto\<close>)
  then show ?case using v frame_trans [OF v(2)] by (auto simp: go_run)
qed

end
