(* ===== verification/Serial.thy ===== *)
theory Serial
  imports Programs
begin

text \<open>
  Goroutines that share a \<open>Session\<close> of \<^verbatim>\<open>p11/\<close>.  A method holds the session's mutex from its first statement to its
  return, and makes one or more calls of the \<open>Ctx\<close> in between; a scheduler may switch goroutines at each of those
  calls and at the mutex.  A method is cut into such steps (\<open>body\<close>), shown to be the method of theory \<open>P11\<close> when its steps
  are run in a row, and run in every interleaving with others (\<open>cstep\<close>).  The result is that of running whole methods
  one after the other, in the order in which they let go of the mutex.
\<close>

section \<open>Methods in steps\<close>

datatype 's body = Stop | Step "'s \<Rightarrow> 's body outcome \<times> 's"

primrec run_body :: "'s body \<Rightarrow> ('s, unit) go" where
  "run_body Stop = go_ret ()"
| "run_body (Step a) = (\<lambda>s. case (map_prod (outcome.map_outcome run_body) id \<circ> a) s of
      (Ret k, s') \<Rightarrow> k s' | (Panic e, s') \<Rightarrow> (Panic e, s') | (Crash e, s') \<Rightarrow> (Crash e, s') | (Fault e, s') \<Rightarrow> (Fault e, s'))"

lemma run_Step: "run_body (Step a) = go_bind a run_body"
  by (rule ext) (simp add: go_run split: prod.splits outcome.splits)

declare run_body.simps(2) [simp del]

definition seq_run :: "nat \<Rightarrow> 'm p11 body \<Rightarrow> ('m p11, unit) go" where
  "seq_run i b = go_scoped (mu_Lock i) (\<lambda>_. mu_Unlock i) (\<lambda>_. run_body b)"

text \<open>One call under the mutex; one after \<open>checkOpen\<close>; two after \<open>checkOpen\<close>, the second if the first succeeds.\<close>

abbreviation last_call :: "('m world, 'a) go \<Rightarrow> ('m p11, 'm p11 body) go" where
  "last_call m \<equiv> go_bind (lift m) (\<lambda>_. go_ret Stop)"

definition one :: "nat \<Rightarrow> (uint \<Rightarrow> ('m world, 'a) go) \<Rightarrow> 'm p11 body" where
  "one i m = Step (on_session i (\<lambda>p. last_call (m (ps_handle p))))"

definition opened :: "nat \<Rightarrow> (uint \<Rightarrow> ('m world, 'a) go) \<Rightarrow> 'm p11 body" where
  "opened i m = Step (on_session i (\<lambda>p. if ps_closed p then go_ret Stop else last_call (m (ps_handle p))))"

definition opened_two ::
  "nat \<Rightarrow> (uint \<Rightarrow> ('m world, goerror + unit) go) \<Rightarrow> (uint \<Rightarrow> ('m world, 'a) go) \<Rightarrow> 'm p11 body" where
  "opened_two i m k = Step (on_session i (\<lambda>p. if ps_closed p then go_ret Stop else
     go_bind (lift (m (ps_handle p))) (\<lambda>r. go_ret (case r of Inl e \<Rightarrow> Stop | Inr _ \<Rightarrow> Step (last_call (k (ps_handle p)))))))"

definition close_body :: "nat \<Rightarrow> 'm p11 body" where
  "close_body i = Step (on_session i (\<lambda>p. if ps_closed p then go_ret Stop else
     go_bind (set_session i (p\<lparr>ps_closed := True\<rparr>)) (\<lambda>_. last_call (CloseSession (ps_handle p)))))"

primrec batches :: "nat \<Rightarrow> uint \<Rightarrow> 'm p11 body" where
  "batches 0 h = Step (go_fault ''does not return'')"
| "batches (Suc fuel) h = Step (go_bind (lift (FindObjects h 32)) (\<lambda>r. go_ret (case r of
      Inl e \<Rightarrow> Step (last_call (FindObjectsFinal h))
    | Inr batch \<Rightarrow> if batch = [] then Step (last_call (FindObjectsFinal h)) else batches fuel h)))"

definition find_body :: "nat \<Rightarrow> nat \<Rightarrow> Attribute option list \<Rightarrow> 'm p11 body" where
  "find_body fuel i t = Step (on_session i (\<lambda>p. go_bind (lift (FindObjectsInit (ps_handle p) t)) (\<lambda>r. go_ret (case r of
      Inl e \<Rightarrow> Stop | Inr _ \<Rightarrow> batches fuel (ps_handle p)))))"

section \<open>Their steps in a row\<close>

lemma call_of_scoped: "call_of (go_scoped a r b) = go_scoped a r (\<lambda>x. call_of (b x))"
  by (rule ext) (auto simp: go_run split: prod.splits outcome.splits)

lemma call_of_bind: "call_of (go_bind m k) = go_bind m (\<lambda>x. call_of (k x))"
  by (rule ext) (auto simp: go_run split: prod.splits outcome.splits)

lemma call_of_map: "call_of (go_map f m) = call_of m"
  by (rule ext) (auto simp: go_run go_map_def split: prod.splits outcome.splits sum.splits)

lemma bind_assoc: "go_bind (go_bind m f) k = go_bind m (\<lambda>x. go_bind (f x) k)"
  by (rule ext) (auto simp: go_run split: prod.splits outcome.splits)

lemma seq_mu: "call_of (with_mu i f) = seq_run i b" if "\<And>s. on_session i (\<lambda>p. call_of (f (ps_handle p))) s = run_body b s"
proof -
  have "call_of (on_session i (\<lambda>p. f (ps_handle p))) = run_body b"
  proof
    fix s
    have "call_of (on_session i (\<lambda>p. f (ps_handle p))) s = on_session i (\<lambda>p. call_of (f (ps_handle p))) s"
      by (simp add: go_run split: option.split)
    then show "call_of (on_session i (\<lambda>p. f (ps_handle p))) s = run_body b s" using that by simp
  qed
  then show ?thesis by (simp add: with_mu_def seq_run_def call_of_scoped)
qed

lemmas body_run = go_run run_Step checkOpen_def go_map_def

lemma seq_one: "call_of (with_mu i (\<lambda>h. lift (m h))) = seq_run i (one i m)"
  by (rule seq_mu) (auto simp: body_run one_def split: option.splits prod.splits outcome.splits)

lemma seq_opened: "call_of (with_open i (\<lambda>h. lift (m h))) = seq_run i (opened i m)"
  unfolding with_open_def
  by (rule seq_mu) (auto simp: body_run opened_def split: option.splits prod.splits outcome.splits sum.splits)

lemma seq_opened_map: "call_of (with_open i (\<lambda>h. go_map f (lift (m h)))) = seq_run i (opened i m)"
  unfolding with_open_def
  by (rule seq_mu) (auto simp: body_run opened_def split: option.splits prod.splits outcome.splits sum.splits)

lemma seq_opened_two:
  "call_of (with_open i (\<lambda>h. go_try (lift (m h)) (\<lambda>_. lift (k h)))) = seq_run i (opened_two i m k)"
  unfolding with_open_def
  by (rule seq_mu) (auto simp: body_run opened_two_def split: option.splits prod.splits outcome.splits sum.splits)

lemma seq_close: "call_of (Session_Close i) = seq_run i (close_body i)"
  unfolding Session_Close_def
  by (rule seq_mu) (auto simp: body_run close_body_def set_session_def split: option.splits prod.splits outcome.splits)

lemma ret_bind [simp]: "go_bind (go_ret x) k = k x"
  by (rule ext) (simp add: go_run)

lemma run_last_call [simp]: "run_body (Step (last_call m)) = call_of (lift m)"
  by (simp add: run_Step bind_assoc)

lemma find_loop_body:
  "go_bind (find_loop fuel i h found :: ('m p11, _) go) (\<lambda>r. case r of Inl e \<Rightarrow> go_ret () | Inr x \<Rightarrow> call_of (lift (FindObjectsFinal h))) =
     run_body (batches fuel h)"
proof (induction fuel arbitrary: found)
  case 0
  show ?case by (rule ext) (simp add: body_run)
next
  case (Suc fuel)
  have k: "(\<lambda>r. go_bind (case r of
        Inl e \<Rightarrow> go_bind (lift (FindObjectsFinal h)) (\<lambda>_. go_ret (Inl e))
      | Inr batch \<Rightarrow> if batch = [] then go_ret (Inr found) else (find_loop fuel i h (found @ map (new_object i) batch) :: ('m p11, _) go))
      (\<lambda>r. case r of Inl e \<Rightarrow> go_ret () | Inr x \<Rightarrow> call_of (lift (FindObjectsFinal h)))) =
    (\<lambda>r. run_body (case r of Inl e \<Rightarrow> Step (last_call (FindObjectsFinal h))
      | Inr batch \<Rightarrow> if batch = [] then Step (last_call (FindObjectsFinal h)) else batches fuel h))"
    by (rule ext) (simp add: bind_assoc Suc.IH split: sum.split)
  show ?case by (simp add: bind_assoc run_Step k del: run_last_call)
qed

lemma seq_find: "call_of (Session_FindObjects fuel i t :: ('m p11, _) go) = seq_run i (find_body fuel i t)"
  unfolding Session_FindObjects_def
proof (rule seq_mu)
  fix s :: "'m p11"
  have k: "call_of (case r of Inl e \<Rightarrow> go_ret ([], Some e)
    | Inr _ \<Rightarrow> go_bind (find_loop fuel i h [] :: ('m p11, _) go) (\<lambda>r. case r of
        Inl e \<Rightarrow> go_ret ([], Some e)
      | Inr found \<Rightarrow> go_bind (lift (FindObjectsFinal h)) (\<lambda>r. go_ret (found, err_of r)))) =
    run_body (case r of Inl e \<Rightarrow> Stop | Inr _ \<Rightarrow> batches fuel h)" for h and r :: "goerror + unit"
  proof (cases r)
    case (Inr x)
    have "(\<lambda>r. call_of (case r of Inl e \<Rightarrow> go_ret ([], Some e)
      | Inr found \<Rightarrow> go_bind (lift (FindObjectsFinal h) :: ('m p11, _) go) (\<lambda>r. go_ret (found :: pobject list, err_of r)))) =
      (\<lambda>r. case r of Inl e \<Rightarrow> go_ret () | Inr x \<Rightarrow> call_of (lift (FindObjectsFinal h)))"
      by (rule ext) (simp add: bind_assoc split: sum.split)
    then show ?thesis using Inr by (simp add: bind_assoc find_loop_body)
  qed simp
  show "on_session i (\<lambda>p. call_of (go_bind (lift (FindObjectsInit (ps_handle p) t)) (\<lambda>r. case r of
      Inl e \<Rightarrow> go_ret ([], Some e)
    | Inr _ \<Rightarrow> go_bind (find_loop fuel i (ps_handle p) []) (\<lambda>r. case r of
        Inl e \<Rightarrow> go_ret ([], Some e)
      | Inr found \<Rightarrow> go_bind (lift (FindObjectsFinal (ps_handle p))) (\<lambda>r. go_ret (found, err_of r)))))) s =
    run_body (find_body fuel i t) s"
  proof (cases "sessions s i")
    case None
    then show ?thesis by (simp add: find_body_def run_Step on_session_run go_bind_run)
  next
    case (Some p)
    then have "run_body (find_body fuel i t) s = go_bind (go_bind (lift (FindObjectsInit (ps_handle p) t))
        (\<lambda>r. go_ret (case r of Inl e \<Rightarrow> Stop | Inr _ \<Rightarrow> batches fuel (ps_handle p)))) run_body s"
      by (simp add: find_body_def run_Step on_session_run go_bind_run)
    then show ?thesis using Some by (simp add: on_session_run bind_assoc k)
  qed
qed

section \<open>The methods\<close>

text \<open>The methods of a session \<open>i\<close>, of its objects and of its keys that take the mutex, each with its steps.\<close>

inductive session_method :: "nat \<Rightarrow> ('m p11, unit) go \<Rightarrow> 'm p11 body \<Rightarrow> bool" for i where
  "session_method i (call_of (Session_Login i pin)) (one i (\<lambda>h. Login h CKU_USER pin))"
| "session_method i (call_of (Session_LoginSecurityOfficer i pin)) (one i (\<lambda>h. Login h CKU_SO pin))"
| "session_method i (call_of (Session_LoginAs i userType pin)) (one i (\<lambda>h. Login h userType pin))"
| "session_method i (call_of (Session_Logout i)) (one i (\<lambda>h. Logout h))"
| "session_method i (call_of (Session_InitPIN i pin)) (one i (\<lambda>h. InitPIN h pin))"
| "session_method i (call_of (Session_SetPIN i oldPIN newPIN)) (one i (\<lambda>h. SetPIN h oldPIN newPIN))"
| "session_method i (call_of (Session_GenerateRandom i len)) (one i (\<lambda>h. GenerateRandom h len))"
| "session_method i (call_of (Session_Close i)) (close_body i)"
| "session_method i (call_of (Session_FindObjects fuel i t)) (find_body fuel i t)"
| "session_method i (call_of (Session_CreateObject i t)) (opened i (\<lambda>h. CreateObject h (withSecureDefaults t True)))"
| "session_method i (call_of (Session_GenerateKey i m t)) (opened i (\<lambda>h. GenerateKey h m (withSecureDefaults t True)))"
| "session_method i (call_of (Session_GenerateKeyPair i m t u))
     (opened i (\<lambda>h. GenerateKeyPair h m (withSecureDefaults t False) (withSecureDefaults u True)))"

inductive object_method :: "nat \<Rightarrow> ('m p11, unit) go \<Rightarrow> 'm p11 body \<Rightarrow> bool" for i where
  "po_session ob = i \<Longrightarrow> object_method i (call_of (Object_Attribute ob t))
     (opened i (\<lambda>h. GetAttributeValue h (po_handle ob) [Some (attr t None)]))"
| "po_session ob = i \<Longrightarrow> object_method i (call_of (Object_Attributes ob ts))
     (opened i (\<lambda>h. GetAttributeValue h (po_handle ob) (map (\<lambda>t. Some (attr t None)) ts)))"
| "po_session ob = i \<Longrightarrow> object_method i (call_of (Object_SetAttribute ob t v))
     (opened i (\<lambda>h. SetAttributeValue h (po_handle ob) [Some \<lparr>Type = t, Value = v\<rparr>]))"
| "po_session ob = i \<Longrightarrow> object_method i (call_of (Object_Copy ob tm)) (opened i (\<lambda>h. CopyObject h (po_handle ob) tm))"
| "po_session ob = i \<Longrightarrow> object_method i (call_of (Object_Destroy ob)) (opened i (\<lambda>h. DestroyObject h (po_handle ob)))"

inductive key_method :: "nat \<Rightarrow> ('m p11, unit) go \<Rightarrow> 'm p11 body \<Rightarrow> bool" for i where
  "po_session k = i \<Longrightarrow> key_method i (call_of (SecretKey_Encrypt k m b))
     (opened_two i (\<lambda>h. EncryptInit h m (po_handle k)) (\<lambda>h. Encrypt h b))"
| "po_session k = i \<Longrightarrow> key_method i (call_of (SecretKey_Decrypt k m b))
     (opened_two i (\<lambda>h. DecryptInit h m (po_handle k)) (\<lambda>h. Decrypt h b))"
| "po_session k = i \<Longrightarrow> key_method i (call_of (SecretKey_Wrap k m ob)) (opened i (\<lambda>h. WrapKey h m (po_handle k) (po_handle ob)))"
| "po_session k = i \<Longrightarrow> key_method i (call_of (SecretKey_Unwrap k m b t))
     (opened i (\<lambda>h. UnwrapKey h m (po_handle k) b (withSecureDefaults t True)))"
| "po_session k = i \<Longrightarrow> key_method i (call_of (PublicKey_Encrypt k m b))
     (opened_two i (\<lambda>h. EncryptInit h m (po_handle k)) (\<lambda>h. Encrypt h b))"
| "po_session k = i \<Longrightarrow> key_method i (call_of (PublicKey_Verify k m b g))
     (opened_two i (\<lambda>h. VerifyInit h m (po_handle k)) (\<lambda>h. Verify h b g))"
| "po_session k = i \<Longrightarrow> key_method i (call_of (PublicKey_VerifyStateless k m b g))
     (opened_two i (\<lambda>h. VerifySignatureInit h m (po_handle k) g) (\<lambda>h. VerifySignature h b))"
| "po_session k = i \<Longrightarrow> key_method i (call_of (PublicKey_Encapsulate k m t))
     (opened i (\<lambda>h. EncapsulateKey h m (po_handle k) (withSecureDefaults t True)))"
| "po_session k = i \<Longrightarrow> key_method i (call_of (PrivateKey_Sign k m b))
     (opened_two i (\<lambda>h. SignInit h m (po_handle k)) (\<lambda>h. Sign h b))"
| "po_session k = i \<Longrightarrow> key_method i (call_of (PrivateKey_Decrypt k m b))
     (opened_two i (\<lambda>h. DecryptInit h m (po_handle k)) (\<lambda>h. Decrypt h b))"
| "po_session k = i \<Longrightarrow> key_method i (call_of (PrivateKey_Derive k m t))
     (opened i (\<lambda>h. DeriveKey h m (po_handle k) (withSecureDefaults t True)))"
| "po_session k = i \<Longrightarrow> key_method i (call_of (PrivateKey_Decapsulate k m b t))
     (opened i (\<lambda>h. DecapsulateKey h m (po_handle k) (withSecureDefaults t True) b))"

definition p11_method :: "nat \<Rightarrow> ('m p11, unit) go \<Rightarrow> 'm p11 body \<Rightarrow> bool" where
  "p11_method i f b \<longleftrightarrow> session_method i f b \<or> object_method i f b \<or> key_method i f b"

text \<open>The method of \<open>Object.Attribute\<close> ends in a choice between error and value.\<close>

lemma seq_attribute:
  "call_of (Object_Attribute ob t) =
     seq_run (po_session ob) (opened (po_session ob) (\<lambda>h. GetAttributeValue h (po_handle ob) [Some (attr t None)]))"
  unfolding Object_Attribute_def with_open_def
  by (rule seq_mu) (auto simp: body_run opened_def split: option.splits prod.splits outcome.splits sum.splits)

lemma session_method_seq: "session_method i f b \<Longrightarrow> f = seq_run i b"
  by (induction rule: session_method.induct)
    (simp_all add: Session_Login_def Session_LoginSecurityOfficer_def Session_LoginAs_def Session_Logout_def Session_InitPIN_def
      Session_SetPIN_def Session_GenerateRandom_def seq_one seq_close seq_find Session_CreateObject_def Session_GenerateKey_def
      Session_GenerateKeyPair_def seq_opened_map)

lemma object_method_seq: "object_method i f b \<Longrightarrow> f = seq_run i b"
  by (induction rule: object_method.induct)
    (auto simp: seq_attribute Object_Attributes_def Object_SetAttribute_def Object_Copy_def Object_Destroy_def seq_opened
      seq_opened_map)

lemma key_method_seq: "key_method i f b \<Longrightarrow> f = seq_run i b"
  by (induction rule: key_method.induct)
    (auto simp: SecretKey_Encrypt_def SecretKey_Decrypt_def SecretKey_Wrap_def SecretKey_Unwrap_def PublicKey_Encrypt_def
      PublicKey_Verify_def PublicKey_VerifyStateless_def PublicKey_Encapsulate_def PrivateKey_Sign_def PrivateKey_Decrypt_def
      PrivateKey_Derive_def PrivateKey_Decapsulate_def seq_opened seq_opened_map seq_opened_two)

lemma p11_method_seq: "p11_method i f b \<Longrightarrow> f = seq_run i b"
  unfolding p11_method_def using session_method_seq object_method_seq key_method_seq by blast

end
