(* ===== verification/Interleaving.thy ===== *)
theory Interleaving
  imports Serial
begin

text \<open>
  Any number of goroutines, each running a list of methods of one shared session step by step (theory \<open>Serial\<close>).
  What a method does before it has the mutex and after it has let it go changes nothing, so a goroutine is either
  between two methods or inside one.  A step that does not return (a panic of the binding, or an end of the process)
  has no successor.
\<close>

datatype 's thread =
    Todo "(('s, unit) go \<times> 's body) list"
  | Inside "('s, unit) go" "'s body" "(('s, unit) go \<times> 's body) list"

record 'm conf =
  shared :: "'m p11"
  threads :: "nat \<Rightarrow> 'm p11 thread"
  finished :: "(nat \<times> ('m p11, unit) go) list"

inductive cstep :: "nat \<Rightarrow> nat \<Rightarrow> 'm conf \<Rightarrow> 'm conf \<Rightarrow> bool" for i g where
  enter: "threads c g = Todo ((f, b) # ms) \<Longrightarrow> mu_Lock i (shared c) = (Ret (), s) \<Longrightarrow>
    cstep i g c (c\<lparr>shared := s, threads := (threads c)(g := Inside f b ms)\<rparr>)"
| work: "threads c g = Inside f (Step a) ms \<Longrightarrow> a (shared c) = (Ret b, s) \<Longrightarrow>
    cstep i g c (c\<lparr>shared := s, threads := (threads c)(g := Inside f b ms)\<rparr>)"
| leave: "threads c g = Inside f Stop ms \<Longrightarrow> mu_Unlock i (shared c) = (Ret (), s) \<Longrightarrow>
    cstep i g c (c\<lparr>shared := s, threads := (threads c)(g := Todo ms), finished := finished c @ [(g, f)]\<rparr>)"

definition initial :: "'m p11 \<Rightarrow> (nat \<Rightarrow> (('m p11, unit) go \<times> 'm p11 body) list) \<Rightarrow> 'm conf" where
  "initial s progs = \<lparr>shared = s, threads = (\<lambda>g. Todo (progs g)), finished = []\<rparr>"

inductive runs :: "nat \<Rightarrow> nat \<Rightarrow> 'm conf \<Rightarrow> 'm conf \<Rightarrow> bool" for i n where
  runs_refl: "runs i n c c"
| runs_step: "runs i n c d \<Longrightarrow> g < n \<Longrightarrow> cstep i g d e \<Longrightarrow> runs i n c e"

section \<open>The mutex\<close>

definition mutex :: "nat \<Rightarrow> 'm p11 \<Rightarrow> bool option" where
  "mutex i s = map_option ps_mu (sessions s i)"

lemma mu_Lock_iff: "mu_Lock i s = (Ret (), s') \<longleftrightarrow>
    mutex i s = Some False \<and> s' = s\<lparr>sessions := (sessions s)(i \<mapsto> (the (sessions s i))\<lparr>ps_mu := True\<rparr>)\<rparr>"
  by (auto simp: mu_Lock_def go_run set_session_def mutex_def split: option.splits)

lemma mu_Unlock_iff: "mu_Unlock i s = (Ret (), s') \<longleftrightarrow>
    mutex i s = Some True \<and> s' = s\<lparr>sessions := (sessions s)(i \<mapsto> (the (sessions s i))\<lparr>ps_mu := False\<rparr>)\<rparr>"
  by (auto simp: mu_Unlock_def go_run set_session_def mutex_def split: option.splits)

lemma held_Lock: "mu_Lock i s = (Ret (), s') \<Longrightarrow> mutex i s' = Some True"
  by (auto simp: mu_Lock_iff mutex_def)

lemma held_Unlock: "mu_Unlock i s = (Ret (), s') \<Longrightarrow> mutex i s' = Some False"
  by (auto simp: mu_Unlock_iff mutex_def)

text \<open>No step of a method touches the mutex.\<close>

inductive quiet :: "nat \<Rightarrow> 'm p11 body \<Rightarrow> bool" for i where
  quiet_Stop: "quiet i Stop"
| quiet_Step: "\<forall>s b s'. a s = (Ret b, s') \<longrightarrow> mutex i s' = mutex i s \<and> quiet i b \<Longrightarrow> quiet i (Step a)"

inductive_cases quiet_StepE: "quiet i (Step a)"

lemma lift_RetD: "lift m s = (Ret x, s') \<Longrightarrow> sessions s' = sessions s"
  by (auto simp: lift_run split: prod.splits)

lemma held_lift: "lift m s = (Ret x, s') \<Longrightarrow> mutex i s' = mutex i s"
  using lift_RetD [of m s x s'] by (simp add: mutex_def)

lemma bind_RetD: "go_bind m k s = (Ret y, s') \<Longrightarrow> \<exists>x t. m s = (Ret x, t) \<and> k x t = (Ret y, s')"
  by (auto simp: go_run split: prod.splits outcome.splits)

lemma quiet_lift: "(\<And>x. quiet i (k x)) \<Longrightarrow> quiet i (Step (go_bind (lift m) (\<lambda>x. go_ret (k x))))"
  by (rule quiet_Step) (auto dest!: bind_RetD held_lift simp: go_ret_run)

lemma quiet_on_session:
  assumes "\<And>p. quiet i (Step (f p))"
  shows "quiet i (Step (on_session j f))"
proof (rule quiet_Step, intro allI impI)
  fix s b s'
  assume r: "on_session j f s = (Ret b, s')"
  then obtain p where p: "f p s = (Ret b, s')" by (auto simp: on_session_run split: option.splits)
  from assms [of p] show "mutex i s' = mutex i s \<and> quiet i b" by (rule quiet_StepE) (use p in blast)
qed

lemma quiet_last [simp]: "quiet i (Step (last_call m))"
  by (rule quiet_lift) (rule quiet_Stop)

lemma quiet_ret [simp]: "quiet i (Step (go_ret Stop))"
  by (rule quiet_Step) (simp add: go_ret_run quiet_Stop)

lemma quiet_one: "quiet i (one j m)"
  unfolding one_def by (rule quiet_on_session) simp

lemma quiet_opened: "quiet i (opened j m)"
  unfolding opened_def by (rule quiet_on_session) simp

lemma quiet_opened_two: "quiet i (opened_two j m k)"
  unfolding opened_two_def
  by (rule quiet_on_session) (simp add: quiet_lift quiet_Stop split: sum.split)

lemma quiet_close: "quiet i (close_body i)"
proof -
  have "mutex i s' = mutex i s \<and> quiet i b"
    if b: "on_session i (\<lambda>p. if ps_closed p then go_ret Stop else
      go_bind (set_session i (p\<lparr>ps_closed := True\<rparr>)) (\<lambda>_. last_call (CloseSession (ps_handle p)))) s = (Ret b, s')" for s s' :: "'m p11" and b
  proof (cases "sessions s i")
    case (Some p)
    show ?thesis
    proof (cases "ps_closed p")
      case False
      let ?t = "s\<lparr>sessions := (sessions s)(i \<mapsto> p\<lparr>ps_closed := True\<rparr>)\<rparr>"
      have "last_call (CloseSession (ps_handle p)) ?t = (Ret b, s')"
        using b Some False by (simp add: on_session_run go_bind_run set_session_def go_modify_run)
      then have "mutex i s' = mutex i ?t" "b = Stop" by (auto dest!: bind_RetD held_lift simp: go_ret_run)
      then show ?thesis using Some by (simp add: mutex_def quiet_Stop)
    qed (use b Some in \<open>auto simp: on_session_run go_ret_run quiet_Stop\<close>)
  qed (use b in \<open>simp add: on_session_run\<close>)
  then show ?thesis unfolding close_body_def by (blast intro: quiet_Step)
qed

lemma quiet_batches: "quiet i (batches fuel h)"
proof (induction fuel)
  case 0
  show ?case by (simp add: go_fault_run quiet_Step)
next
  case (Suc fuel)
  show ?case unfolding batches.simps by (rule quiet_lift) (simp add: Suc.IH split: sum.split)
qed

lemma quiet_find: "quiet i (find_body fuel j t)"
  unfolding find_body_def
  by (rule quiet_on_session, rule quiet_lift) (simp add: quiet_batches quiet_Stop split: sum.split)

lemma p11_method_quiet: "p11_method i f b \<Longrightarrow> quiet i b"
  unfolding p11_method_def
  by (elim disjE session_method.cases object_method.cases key_method.cases)
    (simp_all add: quiet_one quiet_opened quiet_opened_two quiet_close quiet_find)

section \<open>Whole methods, one after the other\<close>

text \<open>\<open>in_order fs s\<close>: run the methods \<open>fs\<close> completely, in this order.\<close>

primrec in_order :: "('m p11, unit) go list \<Rightarrow> ('m p11, unit) go" where
  "in_order [] = go_ret ()"
| "in_order (f # fs) = go_bind f (\<lambda>_. in_order fs)"

lemma in_order_snoc: "in_order fs s = (Ret (), t) \<Longrightarrow> f t = (Ret (), u) \<Longrightarrow> in_order (fs @ [f]) s = (Ret (), u)"
  by (induction fs arbitrary: s) (auto simp: go_run split: prod.splits outcome.splits)

fun remaining :: "'s thread \<Rightarrow> (('s, unit) go \<times> 's body) list" where
  "remaining (Todo ms) = ms"
| "remaining (Inside f b ms) = ms"

fun running :: "'s thread \<Rightarrow> ('s, unit) go list" where
  "running (Todo ms) = []"
| "running (Inside f b ms) = [f]"

fun outside :: "'s thread \<Rightarrow> bool" where
  "outside (Todo ms) = True"
| "outside (Inside f b ms) = False"

text \<open>
  Either nobody is inside a method, and the shared state is that of the finished methods in their order; or one goroutine is,
  and what is left of its method completes it from that state.
\<close>

definition ends_at :: "nat \<Rightarrow> nat \<Rightarrow> 'm p11 \<Rightarrow> 'm conf \<Rightarrow> bool" where
  "ends_at i n t c \<longleftrightarrow> (\<forall>g < n. outside (threads c g)) \<and> shared c = t \<or>
     (\<exists>g < n. \<exists>f b ms. threads c g = Inside f b ms \<and> (\<forall>h < n. h \<noteq> g \<longrightarrow> outside (threads c h)) \<and> quiet i b \<and>
        mutex i (shared c) = Some True \<and> f t = go_defer (mu_Unlock i) (run_body b) (shared c))"

definition serial_inv :: "nat \<Rightarrow> nat \<Rightarrow> 'm p11 \<Rightarrow> 'm conf \<Rightarrow> bool" where
  "serial_inv i n s0 c \<longleftrightarrow> (\<exists>t. in_order (map snd (finished c)) s0 = (Ret (), t) \<and> ends_at i n t c) \<and>
     (\<forall>g < n. \<forall>(f, b) \<in> set (remaining (threads c g)). p11_method i f b)"

lemma outsideD: "outside x \<Longrightarrow> x \<noteq> Inside f b ms"
  by auto

lemma ends_at_inside:
  assumes "ends_at i n t c" and "g < n" and "threads c g = Inside f b ms"
  shows "(\<forall>h < n. h \<noteq> g \<longrightarrow> outside (threads c h)) \<and> quiet i b \<and> mutex i (shared c) = Some True \<and>
    f t = go_defer (mu_Unlock i) (run_body b) (shared c)"
proof -
  have "\<not> outside (threads c g)" using assms(3) by simp
  then obtain g' f' b' ms' where x: "g' < n" "threads c g' = Inside f' b' ms'" "\<forall>h < n. h \<noteq> g' \<longrightarrow> outside (threads c h)"
    "quiet i b'" "mutex i (shared c) = Some True" "f' t = go_defer (mu_Unlock i) (run_body b') (shared c)"
    using assms(1,2) unfolding ends_at_def by blast
  have "g = g'" using x(3) assms(2) \<open>\<not> outside (threads c g)\<close> by blast
  then show ?thesis using x assms(3) by auto
qed

lemma ends_at_free:
  assumes "ends_at i n t c" and "mutex i (shared c) \<noteq> Some True"
  shows "(\<forall>g < n. outside (threads c g)) \<and> shared c = t"
  using assms unfolding ends_at_def by blast

lemma step_remaining: "cstep i g c d \<Longrightarrow> set (remaining (threads d h)) \<subseteq> set (remaining (threads c h))"
  by (cases rule: cstep.cases) (auto split: if_splits)

lemma serial_step:
  assumes st: "cstep i g c d" and g: "g < n" and v: "serial_inv i n s0 c"
  shows "serial_inv i n s0 d"
proof -
  obtain t where t: "in_order (map snd (finished c)) s0 = (Ret (), t)" "ends_at i n t c"
    and m: "\<forall>h < n. \<forall>(f, b) \<in> set (remaining (threads c h)). p11_method i f b"
    using v unfolding serial_inv_def by blast
  have m': "\<forall>h < n. \<forall>(f, b) \<in> set (remaining (threads d h)). p11_method i f b"
    using m step_remaining [OF st] by blast
  show ?thesis using st
  proof cases
    case (enter f b ms s)
    have free: "(\<forall>h < n. outside (threads c h)) \<and> shared c = t"
      by (rule ends_at_free [OF t(2)]) (use enter(3) in \<open>simp add: mu_Lock_iff\<close>)
    have p: "p11_method i f b" using m g enter(2) by fastforce
    have "f t = go_defer (mu_Unlock i) (run_body b) s"
      using p11_method_seq [OF p] free enter(3) by (simp add: seq_run_def go_scoped_run go_bind_run)
    then have "ends_at i n t d"
      unfolding ends_at_def using free g held_Lock [OF enter(3)] p11_method_quiet [OF p] enter(1)
      by (intro disjI2 exI [of _ g] conjI exI [of _ f] exI [of _ b] exI [of _ ms]) auto
    moreover have "finished d = finished c" using enter(1) by simp
    ultimately show ?thesis using t(1) m' unfolding serial_inv_def by auto
  next
    case (work f a ms b s)
    note x = ends_at_inside [OF t(2) g work(2)]
    have q: "mutex i s = mutex i (shared c) \<and> quiet i b" using x work(3) by (auto elim: quiet_StepE)
    have "go_defer (mu_Unlock i) (run_body (Step a)) (shared c) = go_defer (mu_Unlock i) (run_body b) s"
      using work(3) by (simp add: run_Step go_defer_run go_bind_run)
    then have "ends_at i n t d"
      unfolding ends_at_def using x g q work(1)
      by (intro disjI2 exI [of _ g] conjI exI [of _ f] exI [of _ b] exI [of _ ms]) auto
    moreover have "finished d = finished c" using work(1) by simp
    ultimately show ?thesis using t(1) m' unfolding serial_inv_def by auto
  next
    case (leave f ms s)
    note x = ends_at_inside [OF t(2) g leave(2)]
    have "f t = (Ret (), s)" using x leave(3) by (simp add: go_defer_run go_ret_run)
    from in_order_snoc [where f = f, OF t(1) this] have "in_order (map snd (finished d)) s0 = (Ret (), s)" using leave(1) by simp
    moreover have "ends_at i n s d" unfolding ends_at_def using x leave(1) by auto
    ultimately show ?thesis using m' unfolding serial_inv_def by blast
  qed
qed

lemma runs_serial:
  assumes "runs i n (initial s0 progs) c" and "\<forall>g < n. \<forall>(f, b) \<in> set (progs g). p11_method i f b"
  shows "serial_inv i n s0 c"
  using assms(1)
proof (induction "initial s0 progs" c rule: runs.induct)
  case runs_refl
  then show ?case using assms(2) by (simp add: serial_inv_def ends_at_def initial_def go_ret_run)
qed (blast intro: serial_step)

text \<open>Each goroutine's methods finish in the order of its program.\<close>

definition done_by :: "nat \<Rightarrow> 'm conf \<Rightarrow> ('m p11, unit) go list" where
  "done_by g c = map snd (filter (\<lambda>(h, f). h = g) (finished c))"

lemma step_program:
  assumes "cstep i g c d"
  shows "done_by h d @ running (threads d h) @ map fst (remaining (threads d h)) =
    done_by h c @ running (threads c h) @ map fst (remaining (threads c h))"
  using assms by cases (auto simp: done_by_def)

lemma runs_program:
  "runs i n (initial s0 progs) c \<Longrightarrow> done_by h c @ running (threads c h) @ map fst (remaining (threads c h)) = map fst (progs h)"
proof (induction "initial s0 progs" c rule: runs.induct)
  case runs_refl
  then show ?case by (simp add: initial_def done_by_def)
next
  case (runs_step d g e)
  then show ?case using step_program by metis
qed

section \<open>Running a method alone\<close>

text \<open>Conversely a goroutine can run a method from the mutex to its end with nobody in between.\<close>

lemma runs_trans: "runs i n d e \<Longrightarrow> runs i n c d \<Longrightarrow> runs i n c e"
  by (induction rule: runs.induct) (auto intro: runs_step)

lemma runs_body:
  assumes "run_body b (shared c) = (Ret (), s)" and "threads c g = Inside f b ms" and "g < n"
  shows "runs i n c (c\<lparr>shared := s, threads := (threads c)(g := Inside f Stop ms)\<rparr>)"
  using assms
proof (induction b arbitrary: c)
  case Stop
  then have "c\<lparr>shared := s, threads := (threads c)(g := Inside f Stop ms)\<rparr> = c" by (cases c) (simp add: go_ret_run fun_upd_idem)
  then show ?case by (simp only: runs_refl)
next
  case (Step a)
  obtain b t where a: "a (shared c) = (Ret b, t)" "run_body b t = (Ret (), s)"
    using bind_RetD Step.prems(1) by (metis run_Step)
  let ?d = "c\<lparr>shared := t, threads := (threads c)(g := Inside f b ms)\<rparr>"
  have "runs i n c ?d" using runs_step [OF runs_refl Step.prems(3) work [OF Step.prems(2) a(1)]] .
  moreover have "runs i n ?d (?d\<lparr>shared := s, threads := (threads ?d)(g := Inside f Stop ms)\<rparr>)"
    by (rule Step.IH [OF rangeI [of a "shared c"], of "Ret b"]) (use a Step.prems in simp_all)
  ultimately show ?case using runs_trans by fastforce
qed

lemma runs_alone:
  assumes "seq_run i b (shared c) = (Ret (), s)" and "threads c g = Todo ((f, b) # ms)" and "g < n"
  shows "runs i n c (c\<lparr>shared := s, threads := (threads c)(g := Todo ms), finished := finished c @ [(g, f)]\<rparr>)"
proof -
  obtain t where t: "mu_Lock i (shared c) = (Ret (), t)" "go_defer (mu_Unlock i) (run_body b) t = (Ret (), s)"
    using assms(1) bind_RetD [of "mu_Lock i"] by (fastforce simp: seq_run_def go_scoped_def)
  obtain u where u: "run_body b t = (Ret (), u)" "mu_Unlock i u = (Ret (), s)"
    using t(2) by (auto simp: go_defer_run split: prod.splits outcome.splits)
  let ?d = "c\<lparr>shared := t, threads := (threads c)(g := Inside f b ms)\<rparr>"
  let ?e = "c\<lparr>shared := u, threads := (threads c)(g := Inside f Stop ms)\<rparr>"
  have d: "runs i n c ?d" using runs_step [OF runs_refl assms(3) enter [OF assms(2) t(1)]] .
  have "runs i n ?d ?e" using runs_body [of b ?d u g f ms n i] u(1) assms(3) by simp
  then have e: "runs i n c ?e" using runs_trans d by blast
  have "threads ?e g = Inside f Stop ms" "mu_Unlock i (shared ?e) = (Ret (), s)" using u(2) by simp_all
  from runs_step [OF e assms(3) leave [OF this]] show ?thesis by simp
qed

section \<open>Nobody is stuck\<close>

text \<open>Some step is possible until all are done, unless a call of the \<open>Ctx\<close> does not return.\<close>

lemma session_stays: "quiet i (Step a) \<Longrightarrow> a s = (Ret b, s') \<Longrightarrow> mutex i s' = mutex i s"
  by (blast elim: quiet_StepE)

definition free_inv :: "nat \<Rightarrow> nat \<Rightarrow> 'm conf \<Rightarrow> bool" where
  "free_inv i n c \<longleftrightarrow> (if \<forall>g < n. outside (threads c g) then mutex i (shared c) = Some False else mutex i (shared c) = Some True)"

lemma free_step:
  assumes st: "cstep i g c d" and g: "g < n" and v: "serial_inv i n s0 c" and f: "free_inv i n c"
  shows "free_inv i n d"
proof -
  obtain t where t: "ends_at i n t c" using v unfolding serial_inv_def by blast
  show ?thesis using st
  proof cases
    case (enter f b ms s)
    then show ?thesis using held_Lock [OF enter(3)] g by (auto simp: free_inv_def)
  next
    case (work f a ms b s)
    note x = ends_at_inside [OF t g work(2)]
    have "mutex i s = Some True" using x session_stays work(3) by metis
    then show ?thesis using work(1) g by (auto simp: free_inv_def)
  next
    case (leave f ms s)
    note x = ends_at_inside [OF t g leave(2)]
    have "\<forall>h < n. outside (threads d h)" using x leave(1) by auto
    then show ?thesis using held_Unlock [OF leave(3)] leave(1) by (simp add: free_inv_def)
  qed
qed

lemma runs_free:
  assumes "runs i n (initial s0 progs) c" and p: "\<forall>g < n. \<forall>(f, b) \<in> set (progs g). p11_method i f b"
    and "mutex i s0 = Some False"
  shows "free_inv i n c"
  using assms(1)
proof (induction "initial s0 progs" c rule: runs.induct)
  case runs_refl
  then show ?case using assms(3) by (simp add: free_inv_def initial_def)
next
  case (runs_step d g e)
  then show ?case using free_step runs_serial [OF runs_step(1) p] by blast
qed

lemma runs_progress:
  assumes r: "runs i n (initial s0 progs) c" and p: "\<forall>g < n. \<forall>(f, b) \<in> set (progs g). p11_method i f b"
    and m: "mutex i s0 = Some False" and g: "g < n" and busy: "threads c g \<noteq> Todo []"
  shows "(\<exists>h < n. \<exists>d. cstep i h c d) \<or>
    (\<exists>h < n. \<exists>f a ms. threads c h = Inside f (Step a) ms \<and> (\<forall>b s. a (shared c) \<noteq> (Ret b, s)))"
proof (cases "\<forall>h < n. outside (threads c h)")
  case True
  then obtain f b ms where t: "threads c g = Todo ((f, b) # ms)"
    using busy g by (cases "threads c g") (auto, metis list.exhaust prod.exhaust)
  have "mutex i (shared c) = Some False" using runs_free [OF r p m] True by (simp add: free_inv_def)
  then obtain s where "mu_Lock i (shared c) = (Ret (), s)" by (auto simp: mu_Lock_iff)
  from enter [OF t this] show ?thesis using g by blast
next
  case False
  then obtain h where h: "h < n" "\<not> outside (threads c h)" by blast
  then obtain f b ms where t: "threads c h = Inside f b ms" by (cases "threads c h") auto
  show ?thesis
  proof (cases b)
    case Stop
    have "mutex i (shared c) = Some True" using runs_free [OF r p m] False by (auto simp: free_inv_def)
    then obtain s where "mu_Unlock i (shared c) = (Ret (), s)" by (auto simp: mu_Unlock_iff)
    from leave [OF t [unfolded Stop] this] show ?thesis using h by blast
  next
    case (Step a)
    then show ?thesis using work [OF t [unfolded Step]] h t by blast
  qed
qed

end
