(* ===== verification/Two_Pass.thy ===== *)
theory Two_Pass
  imports Rules
begin

text \<open>
  What the two-pass protocol of \<open>outOp\<close> (\<^verbatim>\<open>cryptoki/marshal.go\<close>) gives its callers: how often the module is
  called and with which buffers, how long a result can be, and the result itself for a module that keeps to
  the specification's convention, for one that never finds its buffer large enough, and for one that claims too much.
\<close>

lemma stable_sees [stable_intros]: "stable (sees as vs)"
proof (induction as arbitrary: vs)
  case Nil
  show ?case by (simp add: stable_def)
next
  case (Cons a as)
  show ?case unfolding stable_def sees_Cons
    using stableD [OF stable_view] stableD [OF Cons.IH] by blast
qed

lemma abs_out_served:
  assumes "served m f = Inr N" and "N (fst s) (Call f (vs @ [SOut b k])) = (r, ms)"
  shows "abs_out m f vs b k s = {((rv r, olen r, if b then obytes r else []), (ms, snd s @ [Call f (vs @ [SOut b k])]))}"
  using assms by (simp add: abs_out_def abs_ck_def abs_call_def abs_bind_def abs_ret_def)

lemma abs_out_refused:
  "served m f = Inl e \<Longrightarrow> abs_out m f vs b k s = {((e, 0, []), s)}"
  by (simp add: abs_out_def abs_ck_def abs_bind_def abs_ret_def reply0_def)

lemma abs_out_calls:
  assumes "(x, s') \<in> abs_out m f vs b k s"
  shows "snd s' = snd s \<or> snd s' = snd s @ [Call f (vs @ [SOut b k])]"
proof (cases "served m f")
  case (Inl e)
  then show ?thesis using assms by (simp add: abs_out_refused)
next
  case (Inr N)
  obtain r ms where "N (fst s) (Call f (vs @ [SOut b k])) = (r, ms)" by fastforce
  then show ?thesis using assms abs_out_served [OF Inr] by simp
qed

section \<open>Bounds for any module\<close>

text \<open>The data calls: a buffer of at most \<open>maxOutBuf\<close> bytes each.\<close>

definition offered :: "ck_fn \<Rightarrow> cview list \<Rightarrow> ck_call list \<Rightarrow> bool" where
  "offered f vs cs \<longleftrightarrow> list_all (\<lambda>c. \<exists>k. c = Call f (vs @ [SOut True k]) \<and> unat k \<le> maxOutBuf) cs"

lemma abs_bytes_length: "(Inr b, s') \<in> abs_bytes n bs s \<Longrightarrow> length b = unat n \<and> s' = s"
  by (auto simp: abs_bytes_def)

lemma alloc_cap_bound: "unat n \<le> maxOutBuf \<Longrightarrow> n' \<le> alloc_cap n \<Longrightarrow> unat n' \<le> maxOutBuf"
  by (auto simp: alloc_cap_def maxOutBuf_def word_le_nat_alt split: if_splits)

lemma abs_loop_calls:
  assumes "(x, s') \<in> abs_outOp_loop k (abs_out m f vs) n s"
  shows "\<exists>cs. snd s' = snd s @ cs \<and> length cs \<le> k \<and> offered f vs cs \<and> (\<forall>b. x = Inr b \<longrightarrow> length b \<le> maxOutBuf)"
  using assms
proof (induction k arbitrary: n s)
  case 0
  then show ?case by (simp add: offered_def)
next
  case (Suc k)
  let ?goal = "\<lambda>s1. snd s1 = snd s \<or> snd s1 = snd s @ [Call f (vs @ [SOut True n])]"
  show ?case
  proof (cases "unat n > maxOutBuf")
    case True
    then show ?thesis using Suc.prems by (simp add: offered_def)
  next
    case False
    obtain r n' bs s1 where c: "((r, n', bs), s1) \<in> abs_out m f vs True n s"
      and rest: "(x, s') \<in> (if r = CKR_BUFFER_TOO_SMALL then
          (if unat n' > maxOutBuf then abs_ret (Inl (err_limit n')) else abs_outOp_loop k (abs_out m f vs) n')
        else (case toError r of Some err \<Rightarrow> abs_ret (Inl err)
          | None \<Rightarrow> if n' > alloc_cap n then abs_ret (Inl (err_alloc n' (alloc_cap n))) else abs_bytes n' bs)) s1"
      using Suc.prems False by (auto elim!: abs_bindE)
    have "\<exists>ds. snd s' = snd s1 @ ds \<and> length ds \<le> k \<and> offered f vs ds \<and> (\<forall>b. x = Inr b \<longrightarrow> length b \<le> maxOutBuf)"
    proof (cases "r = CKR_BUFFER_TOO_SMALL \<and> unat n' \<le> maxOutBuf")
      case True
      then show ?thesis using Suc.IH rest by simp
    next
      case nr: False
      have "snd s' = snd s1 \<and> (\<forall>b. x = Inr b \<longrightarrow> length b \<le> maxOutBuf)"
        using rest nr False alloc_cap_bound [of n n']
        by (cases x) (auto split: if_splits option.splits dest: abs_bytes_length simp: not_less abs_bytes_def)
      then show ?thesis by (simp add: offered_def)
    qed
    then obtain ds where ds: "snd s' = snd s1 @ ds" "length ds \<le> k" "offered f vs ds"
      "\<forall>b. x = Inr b \<longrightarrow> length b \<le> maxOutBuf" by blast
    from abs_out_calls [OF c] show ?thesis
    proof
      assume "snd s1 = snd s"
      then show ?thesis using ds by (intro exI [of _ ds]) simp
    next
      assume "snd s1 = snd s @ [Call f (vs @ [SOut True n])]"
      then show ?thesis using ds False
        by (intro exI [of _ "Call f (vs @ [SOut True n]) # ds"]) (simp add: offered_def)
    qed
  qed
qed

lemma abs_outOp_calls:
  assumes "(x, s') \<in> abs_outOp (abs_out m f vs) s"
  shows "\<exists>cs ds. snd s' = snd s @ cs @ ds \<and> (cs = [] \<or> cs = [Call f (vs @ [SOut False 0])]) \<and> length ds \<le> maxRetries \<and>
    offered f vs ds \<and> (\<forall>b. x = Inr b \<longrightarrow> length b \<le> maxOutBuf)"
proof -
  obtain r n bs s1 where c: "((r, n, bs), s1) \<in> abs_out m f vs False 0 s"
    and rest: "(x, s') \<in> (case toError r of Some err \<Rightarrow> abs_ret (Inl err)
      | None \<Rightarrow> abs_outOp_loop maxRetries (abs_out m f vs) n) s1"
    using assms unfolding abs_outOp_def by (auto elim!: abs_bindE)
  have "\<exists>ds. snd s' = snd s1 @ ds \<and> length ds \<le> maxRetries \<and> offered f vs ds \<and> (\<forall>b. x = Inr b \<longrightarrow> length b \<le> maxOutBuf)"
  proof (cases "toError r")
    case (Some e)
    then show ?thesis using rest by (simp add: offered_def)
  next
    case None
    then show ?thesis using rest abs_loop_calls by simp
  qed
  then obtain ds where "snd s' = snd s1 @ ds" "length ds \<le> maxRetries" "offered f vs ds"
    "\<forall>b. x = Inr b \<longrightarrow> length b \<le> maxOutBuf" by blast
  then show ?thesis using abs_out_calls [OF c]
    by (intro exI [of _ "drop (length (snd s)) (snd s1)"] exI [of _ ds]) auto
qed

text \<open>The code itself: any operation built on \<open>outOp\<close> and a library function.\<close>

lemma outOp_run:
  assumes "wf w" and "\<not> oom w" and "modl w = Some m" and "list_all input_arg as" and "sees as vs w"
  shows "\<exists>x w'. outOp (ck_out m f as) w = (Ret x, w') \<and> frame (released {}) w w' \<and>
    (x, nview w') \<in> abs_outOp (abs_out m f vs) (nview w)"
proof -
  have "stable (\<lambda>w. modl w = Some m \<and> sees as vs w)" by (intro stable_intros)
  moreover have "out_refines (released {}) (\<lambda>w. modl w = Some m \<and> sees as vs w) (ck_out m f as) (abs_out m f vs)"
    by (rule ck_out_refines [OF assms(4)]) simp_all
  ultimately show ?thesis using refines_no_oom [OF outOp_refines] assms by blast
qed

section \<open>Modules of particular behaviour\<close>

text \<open>The convention: the size first, then the data, no longer than the size announced.\<close>

definition two_pass :: "'m native \<Rightarrow> ck_fn \<Rightarrow> cview list \<Rightarrow> 'm \<Rightarrow> uint \<Rightarrow> byte list \<Rightarrow> 'm \<Rightarrow> bool" where
  "two_pass N f vs ms k out ms' \<longleftrightarrow> (\<exists>r ms1 r'. N ms (Call f (vs @ [SOut False 0])) = (r, ms1) \<and> rv r = CKR_OK \<and> olen r = k \<and>
     N ms1 (Call f (vs @ [SOut True k])) = (r', ms') \<and> rv r' = CKR_OK \<and> obytes r' = out \<and>
     unat (olen r') = length out \<and> length out \<le> unat k)"

lemma loop_delivers:
  assumes "served m f = Inr N" and "unat k \<le> maxOutBuf" and "N ms (Call f (vs @ [SOut True k])) = (r, ms')" and "rv r = CKR_OK"
    and "unat (olen r) = length (obytes r)" and "length (obytes r) \<le> unat k"
  shows "abs_outOp_loop (Suc n) (abs_out m f vs) k (ms, cs) = {(Inr (obytes r), (ms', cs @ [Call f (vs @ [SOut True k])]))}"
proof -
  have le: "\<not> olen r > alloc_cap k" using assms(5,6) by (auto simp: alloc_cap_def not_less word_le_nat_alt)
  have c: "abs_out m f vs True k (ms, cs) = {((rv r, olen r, obytes r), (ms', cs @ [Call f (vs @ [SOut True k])]))}"
    using abs_out_served [OF assms(1), of "(ms, cs)"] assms(3) by simp
  have "abs_bytes (olen r) (obytes r) s = {(Inr (obytes r), s)}" for s :: "'a \<times> ck_call list"
    using assms(5) by (auto simp: abs_bytes_def)
  then show ?thesis using assms(2,4) le c by (simp add: abs_bind_def toError_def ck_consts)
qed

lemma two_pass_delivers:
  assumes s: "served m f = Inr N" and t: "two_pass N f vs ms k out ms'" and k: "unat k \<le> maxOutBuf"
  shows "abs_outOp (abs_out m f vs) (ms, cs) =
    {(Inr out, (ms', cs @ [Call f (vs @ [SOut False 0]), Call f (vs @ [SOut True k])]))}"
proof -
  obtain r ms1 r' where r: "N ms (Call f (vs @ [SOut False 0])) = (r, ms1)" "rv r = CKR_OK" "olen r = k"
    "N ms1 (Call f (vs @ [SOut True k])) = (r', ms')" "rv r' = CKR_OK" "obytes r' = out" "unat (olen r') = length out"
    "length out \<le> unat k" using t by (auto simp: two_pass_def)
  have "maxRetries = Suc 7" by (simp add: maxRetries_def)
  then show ?thesis using loop_delivers [OF s k r(4,5), of 7] r abs_out_served [OF s, of "(ms, cs)"]
    by (simp add: abs_outOp_def abs_bind_def toError_def)
qed

text \<open>A module that finds every buffer too small.\<close>

definition never_enough :: "'m native \<Rightarrow> ck_fn \<Rightarrow> cview list \<Rightarrow> bool" where
  "never_enough N f vs \<longleftrightarrow> (\<forall>ms. rv (fst (N ms (Call f (vs @ [SOut False 0])))) = CKR_OK \<and>
       unat (olen (fst (N ms (Call f (vs @ [SOut False 0]))))) \<le> maxOutBuf) \<and>
     (\<forall>ms k. rv (fst (N ms (Call f (vs @ [SOut True k])))) = CKR_BUFFER_TOO_SMALL \<and>
       unat (olen (fst (N ms (Call f (vs @ [SOut True k]))))) \<le> maxOutBuf)"

lemma loop_gives_up:
  assumes "served m f = Inr N" and "never_enough N f vs" and "unat n \<le> maxOutBuf" and "(x, s') \<in> abs_outOp_loop k (abs_out m f vs) n s"
  shows "x = Inl err_retries \<and> length (snd s') = length (snd s) + k"
  using assms(3,4)
proof (induction k arbitrary: n s)
  case (Suc k)
  obtain r ms where r: "N (fst s) (Call f (vs @ [SOut True n])) = (r, ms)" by fastforce
  then have b: "rv r = CKR_BUFFER_TOO_SMALL" "unat (olen r) \<le> maxOutBuf"
    using assms(2) unfolding never_enough_def by (metis fst_conv)+
  have "(x, s') \<in> abs_outOp_loop k (abs_out m f vs) (olen r) (ms, snd s @ [Call f (vs @ [SOut True n])])"
    using Suc.prems b abs_out_served [OF assms(1) r] by (simp add: abs_bind_def)
  from Suc.IH [OF b(2) this] show ?case by simp
qed simp

lemma never_enough_gives_up:
  assumes "served m f = Inr N" and "never_enough N f vs" and "(x, s') \<in> abs_outOp (abs_out m f vs) s"
  shows "x = Inl err_retries \<and> length (snd s') = length (snd s) + 1 + maxRetries"
proof -
  obtain r ms where r: "N (fst s) (Call f (vs @ [SOut False 0])) = (r, ms)" by fastforce
  then have b: "rv r = CKR_OK" "unat (olen r) \<le> maxOutBuf" using assms(2) unfolding never_enough_def by (metis fst_conv)+
  have "(x, s') \<in> abs_outOp_loop maxRetries (abs_out m f vs) (olen r) (ms, snd s @ [Call f (vs @ [SOut False 0])])"
    using assms(3) b abs_out_served [OF assms(1) r] by (simp add: abs_outOp_def abs_bind_def toError_def)
  from loop_gives_up [OF assms(1,2) b(2) this] show ?thesis by simp
qed

end
