(* ===== verification/Gcm_Life.thy ===== *)
theory Gcm_Life
  imports Params
begin

text \<open>
  The life of a \<open>GCMParams\<close> object (\<^verbatim>\<open>cryptoki/params.go\<close>).  It owns up to three C blocks: the structure, the
  IV and the additional data.  Every \<open>build\<close> is matched by one call of the function it returns, \<open>Free\<close> may
  come at any time, and a module may write a nonce into the IV block.  An abstract machine of four
  operations says when the blocks go: at the first \<open>Free\<close> that finds no build outstanding, or else with the
  last outstanding build.  The code simulates it, so the blocks are released exactly once, and scrubbed.
\<close>

section \<open>The abstract machine\<close>

datatype gcm_op = GBuild | GDone | GFree | GNonce "byte list"

datatype gcm_state = GLive nat bool \<comment> \<open>outstanding builds, \<open>Free\<close> has been called\<close> | GFreed

text \<open>\<open>None\<close>: the operation is not possible (a build of a freed object panics, a build is finished once).\<close>

fun gstep :: "nat \<Rightarrow> gcm_op \<Rightarrow> gcm_state \<Rightarrow> gcm_state option" where
  "gstep k GBuild (GLive n p) = Some (GLive (Suc n) p)"
| "gstep k GDone (GLive (Suc n) p) = Some (if n = 0 \<and> p then GFreed else GLive n p)"
| "gstep k GFree (GLive n p) = Some (if n = 0 then GFreed else GLive n True)"
| "gstep k GFree GFreed = Some GFreed"
| "gstep k (GNonce b) (GLive n p) = (if length b \<le> k then Some (GLive n p) else None)"
| "gstep k op t = None"

fun gsteps :: "nat \<Rightarrow> gcm_op list \<Rightarrow> gcm_state \<Rightarrow> gcm_state option" where
  "gsteps k [] t = Some t"
| "gsteps k (op # ops) t = (case gstep k op t of None \<Rightarrow> None | Some t' \<Rightarrow> gsteps k ops t')"

text \<open>The same operations of the code; the nonce is written by the module through \<open>pIv\<close>.\<close>

definition write_nonce :: "nat \<Rightarrow> byte list \<Rightarrow> ('m world, unit) go" where
  "write_nonce i b = with_gcm i (\<lambda>g. heap_op ''write'' (c_write (iv g) b))"

fun gcm_run :: "nat \<Rightarrow> gcm_op \<Rightarrow> ('m world, unit) go" where
  "gcm_run i GBuild = go_bind (gcm_build i) (\<lambda>_. go_ret ())"
| "gcm_run i GDone = gcm_done i"
| "gcm_run i GFree = gcm_Free i"
| "gcm_run i (GNonce b) = write_nonce i b"

primrec gcm_runs :: "nat \<Rightarrow> gcm_op list \<Rightarrow> ('m world, unit) go" where
  "gcm_runs i [] = go_ret ()"
| "gcm_runs i (op # ops) = go_bind (gcm_run i op) (\<lambda>_. gcm_runs i ops)"

section \<open>The blocks of an object\<close>

fun piece :: "ptr \<Rightarrow> nat \<Rightarrow> (nat \<Rightarrow> cobj option) \<Rightarrow> bool" where
  "piece Null n D \<longleftrightarrow> n = 0 \<and> D = Map.empty"
| "piece (Ptr a) n D \<longleftrightarrow> (\<exists>b. D = [a \<mapsto> CBytes b] \<and> length b = n)"

definition layout :: "gcmobj \<Rightarrow> nat \<Rightarrow> nat \<Rightarrow> (nat \<Rightarrow> cobj option) \<Rightarrow> bool" where
  "layout g i k D \<longleftrightarrow> (\<exists>s I A. gp g = Ptr i \<and> pIv s = iv g \<and> unat (ulIvLen s) = k \<and>
     piece (iv g) k I \<and> piece (aad g) (unat (ulAADLen s)) A \<and>
     i \<notin> dom I \<and> i \<notin> dom A \<and> dom I \<inter> dom A = {} \<and> D = I ++ A ++ [i \<mapsto> CGcm s])"

definition gcm_inv :: "nat \<Rightarrow> nat \<Rightarrow> 'm world \<Rightarrow> gcm_state \<Rightarrow> 'm world \<Rightarrow> bool" where
  "gcm_inv i k w0 t w \<longleftrightarrow> junk (hp w) = junk (hp w0) \<and> (case t of
      GLive n p \<Rightarrow> \<exists>g D. gcms w i = Some g \<and> layout g i k D \<and> dom D \<inter> dom (mem (hp w0)) = {} \<and>
        mem (hp w) = mem (hp w0) ++ D \<and> freed (hp w) = freed (hp w0) \<and> inUse g = int n \<and> freePending g = p \<and>
        (p \<longrightarrow> 0 < n)
    | GFreed \<Rightarrow> \<exists>g fs. gcms w i = Some g \<and> gp g = Null \<and> mem (hp w) = mem (hp w0) \<and>
        freed (hp w) = freed (hp w0) @ fs \<and> (\<forall>x \<in> set fs. scrubbed (junk (hp w0)) x))"

lemma upd_gcm_run [go_run]: "upd_gcm i f w = (Ret (), w\<lparr>gcms := (gcms w)(i := map_option f (gcms w i))\<rparr>)"
  by (simp add: upd_gcm_def go_run)

lemma with_gcm_run [go_run]: "with_gcm i k w = (case gcms w i of
    None \<Rightarrow> (Panic ''nil pointer dereference'', w) | Some g \<Rightarrow> k g w)"
  by (simp add: with_gcm_def)

lemma releases_piece:
  fixes p :: ptr
  assumes "piece p (unat n) D"
  shows "releases scrubbed J D (zfree p n)"
proof (cases p)
  case Null
  then show ?thesis using assms releases_none by simp
next
  case (Ptr a)
  then obtain b where "D = [a \<mapsto> CBytes b]" "length b = unat n" using assms by auto
  then show ?thesis using Ptr releases_zfree [of n b scrubbed J a] zeroed [of J a "unat n"] by (simp del: scrubbed.simps)
qed

lemma releasesD:
  assumes "releases S J D r" and "D \<subseteq>\<^sub>m mem (hp v)"
  obtains fs where "r v = (Ret (), heap_drop (dom D) fs v)" "\<forall>y \<in> set fs. S J y"
  using assms unfolding releases_def by blast

lemma heap_drop_simps [simp]:
  "mem (hp (heap_drop A fs w)) = mem (hp w) |` (- A)" "freed (hp (heap_drop A fs w)) = freed (hp w) @ fs"
  "junk (hp (heap_drop A fs w)) = junk (hp w)" "gcms (heap_drop A fs w) = gcms w"
  by (simp_all add: heap_drop_def)

lemma drop_added:
  assumes "dom D \<inter> dom m = {}"
  shows "(m ++ D) |` (- dom D) = m"
proof
  fix a show "((m ++ D) |` (- dom D)) a = m a"
    using assms by (cases "a \<in> dom D") (auto simp: restrict_map_def map_add_dom_app_simps(3) disjoint_iff domIff)
qed

text \<open>\<open>freeLocked\<close> releases the blocks of the object, each scrubbed, and nothing else.\<close>

lemma freeLocked_run:
  assumes g: "gcms w i = Some g" and l: "layout g i k D" and d: "dom D \<inter> dom M = {}" and m: "mem (hp w) = M ++ D"
  shows "\<exists>fs w'. freeLocked i w = (Ret (), w') \<and> mem (hp w') = M \<and> freed (hp w') = freed (hp w) @ fs \<and>
    (\<forall>x \<in> set fs. scrubbed J x) \<and> junk (hp w') = junk (hp w) \<and> (\<exists>g'. gcms w' i = Some g' \<and> gp g' = Null)"
proof -
  obtain s I A where s: "gp g = Ptr i" "piece (iv g) (unat (ulIvLen s)) I" "piece (aad g) (unat (ulAADLen s)) A"
    "i \<notin> dom I" "i \<notin> dom A" "dom I \<inter> dom A = {}" "D = I ++ A ++ [i \<mapsto> CGcm s]"
    using l by (auto simp: layout_def)
  have si: "mem (hp w) i = Some (CGcm s)" using m s(7) by simp
  have dD: "dom D = insert i (dom I \<union> dom A)" using s(7) by auto
  have I: "I \<subseteq>\<^sub>m mem (hp w)" unfolding m s(7) using s(4,6)
    by (auto simp: map_le_def map_add_def split: option.splits)
  obtain f1 where r1: "zfree (iv g) (ulIvLen s) w = (Ret (), heap_drop (dom I) f1 w)" "\<forall>y \<in> set f1. scrubbed J y"
    using releasesD [OF releases_piece [OF s(2)] I] by blast
  define w1 where "w1 = (heap_drop (dom I) f1 w)\<lparr>gcms := (gcms w)(i := Some (g\<lparr>iv := Null\<rparr>))\<rparr>"
  have A: "A \<subseteq>\<^sub>m mem (hp w1)" unfolding w1_def using m s(5,6,7)
    by (auto simp: map_le_def map_add_def restrict_map_def split: option.splits)
  obtain f2 where r2: "zfree (aad g) (ulAADLen s) w1 = (Ret (), heap_drop (dom A) f2 w1)" "\<forall>y \<in> set f2. scrubbed J y"
    using releasesD [OF releases_piece [OF s(3)] A] by blast
  define w2 where "w2 = (heap_drop (dom A) f2 w1)\<lparr>gcms := (gcms w1)(i := Some (g\<lparr>iv := Null, aad := Null\<rparr>))\<rparr>"
  have i2: "mem (hp w2) i = Some (CGcm s)" using si s(4,5) by (simp add: w1_def w2_def restrict_map_def)
  define w3 where "w3 = w2\<lparr>hp := (hp w2)\<lparr>mem := (mem (hp w2))(i := None), freed := freed (hp w2) @ [(i, CGcm s)]\<rparr>,
      gcms := (gcms w2)(i := Some (g\<lparr>iv := Null, aad := Null, gp := Null, freePending := False\<rparr>))\<rparr>"
  have "freeLocked i w = (Ret (), w3)"
    using g s(1) si r1(1) r2(1) i2
    by (simp add: freeLocked_def go_run load_gcm_def heap_op_def w1_def w2_def w3_def)
  moreover have "mem (hp w3) = M"
  proof -
    have "mem (hp w3) = (M ++ D) |` (- dom D)"
      unfolding w3_def w2_def w1_def dD using m by (auto simp: restrict_map_def fun_eq_iff)
    then show ?thesis using drop_added [OF d] by simp
  qed
  moreover have "freed (hp w3) = freed (hp w) @ (f1 @ f2 @ [(i, CGcm s)])" "junk (hp w3) = junk (hp w)"
    "gcms w3 i = Some (g\<lparr>iv := Null, aad := Null, gp := Null, freePending := False\<rparr>)"
    by (simp_all add: w3_def w2_def w1_def)
  ultimately show ?thesis using r1(2) r2(2)
    by (intro exI [of _ "f1 @ f2 @ [(i, CGcm s)]"] exI [of _ w3]) auto
qed

text \<open>The nonce replaces the front of the IV block.\<close>

lemma nonce_run:
  assumes l: "layout g i k D" and b: "length b \<le> k" and m: "mem h = M ++ D" and d: "dom D \<inter> dom M = {}"
  shows "\<exists>h' D'. c_write (iv g) b h = Some h' \<and> layout g i k D' \<and> dom D' = dom D \<and> mem h' = M ++ D' \<and>
    junk h' = junk h \<and> freed h' = freed h"
proof -
  obtain s I A where s: "gp g = Ptr i" "pIv s = iv g" "unat (ulIvLen s) = k" "piece (iv g) k I" "piece (aad g) (unat (ulAADLen s)) A"
    "i \<notin> dom I" "i \<notin> dom A" "dom I \<inter> dom A = {}" "D = I ++ A ++ [i \<mapsto> CGcm s]"
    using l by (auto simp: layout_def)
  show ?thesis
  proof (cases "iv g")
    case Null
    then have "b = []" using s(4) b by simp
    then show ?thesis using l m Null by auto
  next
    case (Ptr a)
    then obtain c where c: "I = [a \<mapsto> CBytes c]" "length c = k" using s(4) by auto
    let ?I = "[a \<mapsto> CBytes (b @ drop (length b) c)]"
    have ne: "a \<noteq> i" "a \<notin> dom A" using s(6,8) c(1) by auto
    have ma: "mem h a = Some (CBytes c)" using m s(9) c(1) ne by (simp add: map_add_dom_app_simps(3))
    let ?D = "?I ++ A ++ [i \<mapsto> CGcm s]"
    have "layout g i k ?D" unfolding layout_def
      by (rule exI [of _ s], rule exI [of _ ?I], rule exI [of _ A]) (use s c b Ptr ne in auto)
    moreover have "(mem h)(a \<mapsto> CBytes (b @ drop (length b) c)) = M ++ ?D"
      unfolding m s(9) c(1) using ne by (auto simp: fun_eq_iff map_add_def split: option.splits)
    moreover have "dom ?D = dom D" using s(9) c(1) by auto
    ultimately show ?thesis using Ptr ma b c(2)
      by (intro exI [of _ "h\<lparr>mem := (mem h)(a \<mapsto> CBytes (b @ drop (length b) c))\<rparr>"] exI [of _ ?D]) simp
  qed
qed

section \<open>The simulation\<close>

lemma gcm_inv_live:
  assumes "gcms w i = Some g" and "layout g i k D" and "dom D \<inter> dom (mem (hp w0)) = {}"
    and "mem (hp w) = mem (hp w0) ++ D" and "freed (hp w) = freed (hp w0)" and "junk (hp w) = junk (hp w0)"
    and "inUse g = int n" and "freePending g \<longrightarrow> 0 < n"
  shows "gcm_inv i k w0 (GLive n (freePending g)) w"
  using assms unfolding gcm_inv_def by auto

lemma gcm_inv_freed:
  assumes "gcms v i = Some g" and "layout g i k D" and "dom D \<inter> dom (mem (hp w0)) = {}" and "mem (hp v) = mem (hp w0) ++ D"
    and "freed (hp v) = freed (hp w0)" and "junk (hp v) = junk (hp w0)"
  shows "\<exists>w'. freeLocked i v = (Ret (), w') \<and> gcm_inv i k w0 GFreed w'"
  using freeLocked_run [OF assms(1-4), of "junk (hp w0)"] assms(5,6) by (auto simp: gcm_inv_def)

lemma gcm_write_nonce:
  assumes g: "gcms w i = Some g" "layout g i k D" "dom D \<inter> dom (mem (hp w0)) = {}" "mem (hp w) = mem (hp w0) ++ D"
      "freed (hp w) = freed (hp w0)" "junk (hp w) = junk (hp w0)" "inUse g = int n" "freePending g \<longrightarrow> 0 < n"
    and b: "length b \<le> k"
  shows "\<exists>w'. gcm_run i (GNonce b) w = (Ret (), w') \<and> gcm_inv i k w0 (GLive n (freePending g)) w'"
proof -
  obtain h' D' where h: "c_write (iv g) b (hp w) = Some h'" "layout g i k D'" "dom D' = dom D" "mem h' = mem (hp w0) ++ D'"
    "junk h' = junk (hp w)" "freed h' = freed (hp w)" using nonce_run [OF g(2) b g(4,3)] by blast
  have "gcm_inv i k w0 (GLive n (freePending g)) (w\<lparr>hp := h'\<rparr>)"
    by (rule gcm_inv_live [of _ _ g _ D']) (use g h in auto)
  then show ?thesis using g(1) h(1) by (simp add: write_nonce_def go_run heap_op_def)
qed

lemma gcm_run_step:
  assumes inv: "gcm_inv i k w0 t w" and st: "gstep k op t = Some t'"
  shows "\<exists>w'. gcm_run i op w = (Ret (), w') \<and> gcm_inv i k w0 t' w'"
proof (cases t)
  case (GLive n p)
  obtain g D where g: "gcms w i = Some g" "layout g i k D" "dom D \<inter> dom (mem (hp w0)) = {}" "mem (hp w) = mem (hp w0) ++ D"
    "freed (hp w) = freed (hp w0)" "inUse g = int n" "freePending g = p" "p \<longrightarrow> 0 < n" and j: "junk (hp w) = junk (hp w0)"
    using inv GLive by (auto simp: gcm_inv_def)
  have gp: "gp g = Ptr i" using g(2) by (auto simp: layout_def)
  have lay: "layout (g\<lparr>inUse := u, freePending := q\<rparr>) i k D" "layout (g\<lparr>inUse := u\<rparr>) i k D" "layout (g\<lparr>freePending := q\<rparr>) i k D" for u q
    using g(2) by (simp_all add: layout_def)
  note live = gcm_inv_live [OF _ _ g(3)]
  have drop: "\<exists>w'. freeLocked i v = (Ret (), w') \<and> gcm_inv i k w0 GFreed w'"
    if "gcms v i = Some g'" "layout g' i k D" "hp v = hp w" for v g'
    by (rule gcm_inv_freed [OF that(1,2) g(3)]) (use that(3) g(4,5) j in simp_all)
  show ?thesis
  proof (cases op)
    case GBuild
    have "gcm_inv i k w0 (GLive (Suc n) (freePending (g\<lparr>inUse := inUse g + 1\<rparr>)))
        (w\<lparr>gcms := (gcms w)(i := Some (g\<lparr>inUse := inUse g + 1\<rparr>))\<rparr>)"
      by (rule live) (use g lay j in auto)
    then show ?thesis using st GLive GBuild g(1,7) gp by (simp add: gcm_build_def go_run)
  next
    case GDone
    then obtain l where n: "n = Suc l" using st GLive by (cases n) auto
    let ?g = "g\<lparr>inUse := int l\<rparr>" and ?w = "w\<lparr>gcms := (gcms w)(i := Some (g\<lparr>inUse := int l\<rparr>))\<rparr>"
    have run: "gcm_done i w = (if l = 0 \<and> p then freeLocked i ?w else (Ret (), ?w))"
      using g(1,6,7) n by (auto simp: gcm_done_def go_run)
    show ?thesis
    proof (cases "l = 0 \<and> p")
      case True
      then show ?thesis using drop [of ?w ?g] lay(2) st GLive GDone n run by simp
    next
      case False
      have "gcm_inv i k w0 (GLive l (freePending ?g)) ?w" by (rule live) (use g lay j n False in auto)
      moreover have "gcm_done i w = (Ret (), ?w)" using run False by simp
      moreover have "t' = GLive l (freePending ?g)" using st GLive GDone n False g(7) by auto
      ultimately show ?thesis using GDone by simp
    qed
  next
    case GFree
    show ?thesis
    proof (cases n)
      case 0
      then show ?thesis using drop [OF g(1,2) refl] st GLive GFree g(1,6) gp by (simp add: gcm_Free_def go_run)
    next
      case (Suc l)
      let ?g = "g\<lparr>freePending := True\<rparr>"
      have "gcm_inv i k w0 (GLive n (freePending ?g)) (w\<lparr>gcms := (gcms w)(i := Some ?g)\<rparr>)"
        by (rule live) (use g lay j Suc in auto)
      then show ?thesis using st GLive GFree Suc g(1,6) gp by (simp add: gcm_Free_def go_run)
    qed
  next
    case (GNonce b)
    then have b: "length b \<le> k" "t' = GLive n p" using st GLive by (simp_all split: if_splits)
    have "freePending g \<longrightarrow> 0 < n" using g(7,8) by simp
    from gcm_write_nonce [OF g(1-5) j g(6) this b(1)] show ?thesis using GNonce b(2) g(7) by simp
  qed
next
  case GFreed
  then have "op = GFree" "t' = GFreed" using st by (cases op; simp)+
  then show ?thesis using inv GFreed by (auto simp: gcm_inv_def gcm_Free_def go_run)
qed

lemma gcm_runs_sim:
  assumes "gcm_inv i k w0 t w" and "gsteps k ops t = Some t'"
  shows "\<exists>w'. gcm_runs i ops w = (Ret (), w') \<and> gcm_inv i k w0 t' w'"
  using assms
proof (induction ops arbitrary: t w)
  case (Cons op ops)
  obtain t1 where t1: "gstep k op t = Some t1" "gsteps k ops t1 = Some t'" using Cons.prems(2) by (auto split: option.splits)
  obtain w1 where w1: "gcm_run i op w = (Ret (), w1)" "gcm_inv i k w0 t1 w1" using gcm_run_step [OF Cons.prems(1) t1(1)] by blast
  then show ?case using Cons.IH [OF w1(2) t1(2)] by (simp add: go_run)
qed (simp add: go_run)

lemma build_after_Free: "gcm_inv i k w0 GFreed w \<Longrightarrow>
    gcm_build i w = (Panic ''cryptoki: GCMParams.build called after Free'', w)"
  by (auto simp: gcm_inv_def gcm_build_def go_run)

section \<open>Creation\<close>

lemma NewGCMParamsHSMIV_inv:
  assumes w: "heap_ok (hp w)" "\<not> oom w" and t: "gcm_tag_ok tagBits" and n: "0 < ivLen" "ivLen < 2 ^ 64" and a: "fits64 aadb"
  shows "\<exists>w'. NewGCMParamsHSMIV ivLen aadb tagBits w = (Ret (brk (hp w)), w') \<and>
    gcm_inv (brk (hp w)) (nat ivLen) w (GLive 0 False) w' \<and> nview w' = nview w"
proof -
  let ?b = "brk (hp w)"
  have gr: "grants (hp w) x y" for x y using w(2) by (auto simp: oom_def)
  have fr: "mem (hp w) x = None" if "?b \<le> x" for x using w(1) that unfolding heap_ok_def by (metis domI leD not_None_eq)
  have un: "unat (of_int ivLen :: uint) = nat ivLen" using n by (simp add: unat_eq_nat_uint uint_word_of_int)
  let ?iv = "[Suc ?b \<mapsto> CBytes (replicate (nat ivLen) 0)]"
  show ?thesis
  proof (cases "aadb = []")
    case True
    let ?s = "\<lparr>pIv = Ptr (Suc ?b), ulIvLen = of_int ivLen, ulIvBits = of_int (ivLen * 8), pAAD = Null, ulAADLen = 0,
      ulTagBits = of_int tagBits\<rparr>"
    let ?g = "\<lparr>gp = Ptr ?b, iv = Ptr (Suc ?b), aad = Null, inUse = 0, freePending = False\<rparr>"
    have l: "layout ?g ?b (nat ivLen) (?iv ++ Map.empty ++ [?b \<mapsto> CGcm ?s])" unfolding layout_def
      by (rule exI [of _ ?s], rule exI [of _ ?iv], rule exI [of _ Map.empty]) (use un in auto)
    show ?thesis using t n gr True l fr
      by (auto simp: NewGCMParamsHSMIV_def go_run cMalloc_run cgo_malloc_run Let_def heap_op_def cBytes_def new_gcm_def
          heap_grow_def gcm_inv_def nview_def fun_upd_twist map_add_def intro!: exI [of _ "?iv ++ Map.empty ++ [?b \<mapsto> CGcm ?s]"])
  next
    case False
    let ?aad = "[Suc (Suc ?b) \<mapsto> CBytes aadb]"
    let ?s = "\<lparr>pIv = Ptr (Suc ?b), ulIvLen = of_int ivLen, ulIvBits = of_int (ivLen * 8), pAAD = Ptr (Suc (Suc ?b)),
      ulAADLen = ulong_len aadb, ulTagBits = of_int tagBits\<rparr>"
    let ?g = "\<lparr>gp = Ptr ?b, iv = Ptr (Suc ?b), aad = Ptr (Suc (Suc ?b)), inUse = 0, freePending = False\<rparr>"
    have l: "layout ?g ?b (nat ivLen) (?iv ++ ?aad ++ [?b \<mapsto> CGcm ?s])" unfolding layout_def
      by (rule exI [of _ ?s], rule exI [of _ ?iv], rule exI [of _ ?aad]) (use un a in auto)
    show ?thesis using t n gr False l fr
      by (auto simp: NewGCMParamsHSMIV_def go_run cMalloc_run cgo_malloc_run cgo_CBytes_run Let_def heap_op_def cBytes_def new_gcm_def
          heap_grow_def gcm_inv_def nview_def fun_upd_twist map_add_def intro!: exI [of _ "?iv ++ ?aad ++ [?b \<mapsto> CGcm ?s]"])
  qed
qed

lemma cBytes_piece:
  assumes "\<not> oom w" and "fits64 b"
  shows "\<exists>p D k. cBytes b w = (Ret (p, ulong_len b), heap_grow D k w) \<and> piece p (length b) D \<and> fresh D (brk (hp w)) k"
proof (cases "b = []")
  case True
  then show ?thesis
    by (intro exI [of _ Null] exI [of _ Map.empty] exI [of _ "brk (hp w)"])
      (simp add: cBytes_def go_run heap_grow_def fresh_def ulong_len_def)
next
  case False
  have "grants (hp w) (brk (hp w)) (length b)" using assms(1) by (auto simp: oom_def)
  then show ?thesis using False
    by (intro exI [of _ "Ptr (brk (hp w))"] exI [of _ "[brk (hp w) \<mapsto> CBytes b]"] exI [of _ "Suc (brk (hp w))"])
      (auto simp: cBytes_def go_run cgo_CBytes_run Let_def fresh_def)
qed

lemma NewGCMParams_inv:
  assumes w: "heap_ok (hp w)" "\<not> oom w" and t: "gcm_tag_ok tagBits" and b: "fits64 ivb" "fits64 aadb"
  shows "\<exists>w'. NewGCMParams ivb aadb tagBits w = (Ret (brk (hp w)), w') \<and>
    gcm_inv (brk (hp w)) (length ivb) w (GLive 0 False) w' \<and> nview w' = nview w"
proof -
  let ?b = "brk (hp w)"
  have gr: "grants (hp w) ?b 48" using w(2) by (auto simp: oom_def)
  let ?w1 = "heap_grow [?b \<mapsto> CBytes (map (junk (hp w) ?b) [0..<48])] (Suc ?b) w"
  have "\<not> oom ?w1" using w(2) by simp
  from cBytes_piece [OF this b(1)] obtain p I k1 where I: "cBytes ivb ?w1 = (Ret (p, ulong_len ivb), heap_grow I k1 ?w1)"
    "piece p (length ivb) I" "fresh I (Suc ?b) k1" by auto
  have "\<not> oom (heap_grow I k1 ?w1)" using w(2) by simp
  from cBytes_piece [OF this b(2)] obtain q A k2 where
    A: "cBytes aadb (heap_grow I k1 ?w1) = (Ret (q, ulong_len aadb), heap_grow A k2 (heap_grow I k1 ?w1))"
    "piece q (length aadb) A" "fresh A k1 k2" by auto
  let ?s = "\<lparr>pIv = p, ulIvLen = ulong_len ivb, ulIvBits = of_nat (length ivb * 8), pAAD = q, ulAADLen = ulong_len aadb,
      ulTagBits = of_int tagBits\<rparr>"
  let ?g = "\<lparr>gp = Ptr ?b, iv = p, aad = q, inUse = 0, freePending = False\<rparr>" and ?D = "I ++ A ++ [?b \<mapsto> CGcm ?s]"
  have nb: "?b \<notin> dom I" "?b \<notin> dom A" and dIA: "dom I \<inter> dom A = {}"
    using freshD(1) [OF I(3), of ?b] freshD(1) [OF A(3), of ?b] freshD(3) [OF I(3)] fresh_disjoint(2) [OF A(3) freshD(2) [OF I(3)]]
    by auto
  have lay: "layout ?g ?b (length ivb) ?D" unfolding layout_def
    by (rule exI [of _ ?s], rule exI [of _ I], rule exI [of _ A]) (use I(2) A(2) nb dIA b in auto)
  have dis: "dom ?D \<inter> dom (mem (hp w)) = {}"
  proof -
    have "x < ?b" if "x \<in> dom (mem (hp w))" for x using w(1) that by (simp add: heap_ok_def)
    moreover have "?b \<le> x" if "x \<in> dom ?D" for x
    proof -
      have "x \<in> dom I \<or> x \<in> dom A \<or> x = ?b" using that by auto
      then show ?thesis using freshD(1) [OF I(3), of x] freshD(1) [OF A(3), of x] freshD(3) [OF I(3)] by linarith
    qed
    ultimately show ?thesis by (meson disjoint_iff leD)
  qed
  have mb: "((mem (hp w))(?b \<mapsto> x) ++ I ++ A) ?b = Some x" for x using nb by (simp add: map_add_dom_app_simps(3))
  have me: "((mem (hp w))(?b \<mapsto> x) ++ I ++ A)(?b \<mapsto> y) = mem (hp w) ++ ?D" if "y = CGcm ?s" for x y
    using that by (auto simp: fun_eq_iff map_add_def split: option.splits)
  let ?w' = "w\<lparr>hp := (hp w)\<lparr>mem := mem (hp w) ++ ?D, brk := k2\<rparr>, gcms := (gcms w)(?b \<mapsto> ?g)\<rparr>"
  have "NewGCMParams ivb aadb tagBits w = (Ret ?b, ?w')"
    using t gr I(1) A(1) mb me [OF refl]
    by (simp add: NewGCMParams_def go_run cMalloc_run cgo_malloc_run Let_def heap_op_def new_gcm_def heap_grow_def)
  moreover have "gcm_inv ?b (length ivb) w (GLive 0 (freePending ?g)) ?w'"
    by (rule gcm_inv_live [OF _ lay dis]) simp_all
  ultimately show ?thesis by (simp add: nview_def)
qed

section \<open>Reading the nonce back\<close>

lemma IV_reads_nonce:
  assumes inv: "gcm_inv i k w0 (GLive n p) w" and k: "length b = k" "0 < k" "k < 2 ^ 31"
  shows "\<exists>w'. write_nonce i b w = (Ret (), w') \<and> gcm_inv i k w0 (GLive n p) w' \<and> gcm_IV i w' = (Ret b, w')"
proof -
  have "gstep k (GNonce b) (GLive n p) = Some (GLive n p)" using k(1) by simp
  from gcm_run_step [OF inv this] obtain w' where w': "write_nonce i b w = (Ret (), w')" "gcm_inv i k w0 (GLive n p) w'" by auto
  obtain g D where g: "gcms w i = Some g" "layout g i k D" "mem (hp w) = mem (hp w0) ++ D"
    using inv by (auto simp: gcm_inv_def)
  obtain s I A where s: "gp g = Ptr i" "pIv s = iv g" "unat (ulIvLen s) = k" "piece (iv g) k I"
    "i \<notin> dom I" "i \<notin> dom A" "dom I \<inter> dom A = {}" "D = I ++ A ++ [i \<mapsto> CGcm s]" using g(2) unfolding layout_def by blast
  obtain a where a: "iv g = Ptr a" using s(4) k(2) by (cases "iv g") auto
  then obtain c where c: "I = [a \<mapsto> CBytes c]" "length c = k" using s(4) by auto
  have ne: "a \<noteq> i" "a \<notin> dom A" using s(5,7) c(1) by auto
  have ma: "mem (hp w) a = Some (CBytes c)" "mem (hp w) i = Some (CGcm s)"
    using g(3) s(8) c(1) ne by (simp_all add: map_add_dom_app_simps(3))
  have "w' = w\<lparr>hp := (hp w)\<lparr>mem := (mem (hp w))(a \<mapsto> CBytes b)\<rparr>\<rparr>"
    using w'(1) g(1) a ma c(2) k(1) by (simp add: write_nonce_def go_run heap_op_def)
  moreover have "c_int (ulIvLen s) = int k" using c_int_small [of "ulIvLen s"] s(3) k(3) by simp
  moreover have "ulIvLen s \<noteq> 0" using s(3) k(2) by auto
  ultimately have "gcm_IV i w' = (Ret b, w')" using g(1) s(1,2) a ma ne k(1)
    by (simp add: gcm_IV_def go_run load_gcm_def cgo_GoBytes_def)
  then show ?thesis using w' by blast
qed

end
