(* ===== verification/Binding_Properties.thy ===== *)
theory Binding_Properties
  imports Keys Sessions AttrValues Lifecycle Two_Pass Gcm_Life
begin

text \<open>
  The properties of the binding, \<^verbatim>\<open>cryptoki/\<close>: what its operations promise to a Go program, whatever
  the module does within its buffers.  Each is followed by the same statement at a concrete input.  In all of
  them \<open>wf w\<close> says that a conforming module is loaded and no exclusive operation is running, and \<open>\<not> oom w\<close>
  that the C library grants every allocation (without it the process ends, see \<open>refines\<close>).
\<close>

section \<open>Running a contract\<close>

lemma contract_run:
  assumes "refines S (\<lambda>w. modl w = mo) opn (abs_ctx mo f)" and "wf w" and "modl w = mo" and "mo = Some md" and "\<not> oom w"
  shows "\<exists>x w'. opn w = (Ret x, w') \<and> frame S w w' \<and> (x, nview w') \<in> f md (nview w)"
  using refines_no_oom [OF assms(1,2,3,5)] assms(4) by (simp add: abs_ctx_def)

lemma contract_mech:
  assumes "refines (released pub) (\<lambda>w. modl w = mo \<and> mech_pre pub pol m V w) opn (abs_ctx mo f)" and "wf w" and "modl w = mo"
    and "mo = Some md" and "mech_pre pub pol m V w" and "\<not> oom w"
  shows "\<exists>x w'. opn w = (Ret x, w') \<and> frame (released pub) w w' \<and> (x, nview w') \<in> f md (nview w)"
  using refines_no_oom [OF assms(1,2) conjI [OF assms(3,5)] assms(6)] assms(4) by (simp add: abs_ctx_def)

lemma toy_loaded: "modl toy_world = Some toy_module"
  by (simp add: toy_world_def)

lemma nviewD: "nview w' = (ms, cs) \<Longrightarrow> nat_st w' = ms \<and> calls w' = cs"
  by (simp add: nview_def)

lemma frame_mem: "frame S w w' \<Longrightarrow> mem (hp w') = mem (hp w) \<and> readers w' = readers w"
  by (simp add: frame_def)

section \<open>Data in, data out\<close>

text \<open>C6: Encrypting with a module that follows the two-pass convention makes exactly two calls, the first to learn
  the size and the second with a buffer of that size, and returns exactly the bytes of the second; the C heap and
  the lock are as before.\<close>

theorem Encrypt_delivers:
  fixes w :: "'m world"
  assumes "wf w" and "modl w = Some md" and "fits64 data" and "\<not> oom w" and "served md (Enc C_Encrypt) = Inr N"
    and "two_pass N (Enc C_Encrypt) [SULong sh, data_view data] (nat_st w) k out ms'" and "unat k \<le> maxOutBuf"
  shows "\<exists>w'. Encrypt sh data w = (Ret (Inr out), w') \<and> mem (hp w') = mem (hp w) \<and> readers w' = readers w \<and>
    nat_st w' = ms' \<and> calls w' = calls w @ [Call (Enc C_Encrypt) [SULong sh, data_view data, SOut False 0],
      Call (Enc C_Encrypt) [SULong sh, data_view data, SOut True k]]"
proof -
  obtain x w' where e: "Encrypt sh data w = (Ret x, w')" "frame (released {}) w w'"
    "(x, nview w') \<in> abs_outOp (abs_out md (Enc C_Encrypt) [SULong sh, data_view data]) (nview w)"
    using contract_run [OF Encrypt_refines [OF assms(3), of "{}" "Some md" sh] assms(1,2) refl assms(4)] by blast
  have "x = Inr out \<and> nview w' = (ms', calls w @ [Call (Enc C_Encrypt) ([SULong sh, data_view data] @ [SOut False 0]),
      Call (Enc C_Encrypt) ([SULong sh, data_view data] @ [SOut True k])])"
    using e(3) two_pass_delivers [OF assms(5,6,7)] by (simp add: nview_def)
  then show ?thesis using e(1) frame_mem [OF e(2)] by (auto simp: nview_def)
qed

lemma toy_two_pass: "two_pass toy f [SULong a, SIn b n] s 3 [1, 2, 3] (s + 2)"
  unfolding two_pass_def
  by (rule exI [of _ "(reply0 CKR_OK)\<lparr>olen := 3\<rparr>"], rule exI [of _ "s + 1"],
      rule exI [of _ "(reply0 CKR_OK)\<lparr>olen := 3, obytes := [1, 2, 3]\<rparr>"]) (simp add: toy_def reply0_def)

lemma toy_served: "\<not> is_v32 f \<Longrightarrow> served toy_module f = Inr toy"
  by (simp add: served_def toy_module_def CK_FNS_def)

theorem Encrypt_delivers_witness:
  "\<exists>w'. Encrypt 5 [9, 8] toy_world = (Ret (Inr [1, 2, 3]), w') \<and> mem (hp w') = mem toy_heap \<and> nat_st w' = 2 \<and> length (calls w') = 2"
proof -
  have f: "fits64 [9, 8 :: byte]" by (simp add: fits64_def)
  have n: "nat_st toy_world = 0" "hp toy_world = toy_heap" "calls toy_world = []" by (simp_all add: toy_world_def)
  have t: "two_pass toy (Enc C_Encrypt) [SULong 5, data_view [9, 8]] (nat_st toy_world) 3 [1, 2, 3] 2"
    using toy_two_pass [of "Enc C_Encrypt" 5 _ _ 0] by (simp add: n data_view_def numeral_2_eq_2)
  have s: "served toy_module (Enc C_Encrypt) = Inr toy" by (simp add: toy_served)
  have "unat (3 :: uint) \<le> maxOutBuf" by (simp add: maxOutBuf_def)
  from Encrypt_delivers [OF toy_wf toy_loaded f toy_no_oom s t this] show ?thesis using n by auto
qed

text \<open>C1: An operation that returns data always comes back, whatever sizes the module reports: it makes at most one
  sizing call and eight data calls, never offers more than 64 MiB, never returns more, and leaves the C heap and the
  lock as they were, with every block it released scrubbed.\<close>

theorem outOp_bounds:
  fixes w :: "'m world"
  assumes "wf w" and "\<not> oom w" and "modl w = Some md" and "list_all input_arg as" and "sees as vs w"
  shows "\<exists>x w' cs ds. outOp (ck_out md f as) w = (Ret x, w') \<and> frame (released {}) w w' \<and> calls w' = calls w @ cs @ ds \<and>
    (cs = [] \<or> cs = [Call f (vs @ [SOut False 0])]) \<and> length ds \<le> 8 \<and>
    list_all (\<lambda>c. \<exists>k. c = Call f (vs @ [SOut True k]) \<and> unat k \<le> 67108864) ds \<and>
    (\<forall>b. x = Inr b \<longrightarrow> length b \<le> 67108864)"
proof -
  obtain x w' where e: "outOp (ck_out md f as) w = (Ret x, w')" "frame (released {}) w w'"
    "(x, nview w') \<in> abs_outOp (abs_out md f vs) (nview w)" using outOp_run [OF assms] by blast
  from abs_outOp_calls [OF e(3)] obtain cs ds where "calls w' = calls w @ cs @ ds"
    "cs = [] \<or> cs = [Call f (vs @ [SOut False 0])]" "length ds \<le> maxRetries" "offered f vs ds"
    "\<forall>b. x = Inr b \<longrightarrow> length b \<le> maxOutBuf" by (auto simp: nview_def)
  then show ?thesis using e(1,2) unfolding offered_def maxOutBuf_def maxRetries_def by blast
qed

theorem outOp_bounds_witness:
  "\<exists>x w'. outOp (ck_out toy_module (Sig C_SignFinal) [AULong 4]) toy_world = (Ret x, w') \<and> length (calls w') \<le> 9 \<and>
    (case x of Inl _ \<Rightarrow> True | Inr b \<Rightarrow> length b \<le> 67108864)"
proof -
  have i: "list_all input_arg [AULong 4]" "sees [AULong 4] [SULong 4] toy_world" "calls toy_world = []"
    by (simp_all add: toy_world_def)
  from outOp_bounds [OF toy_wf toy_no_oom toy_loaded i(1,2), of "Sig C_SignFinal"] i(3) show ?thesis
    by (fastforce split: sum.split)
qed

text \<open>C22: A module that answers every data call with \<open>CKR_BUFFER_TOO_SMALL\<close> does not keep the caller in a loop:
  after the sizing call and eight data calls, signing gives up with the error for it.\<close>

theorem Sign_gives_up:
  fixes w :: "'m world"
  assumes "wf w" and "modl w = Some md" and "fits64 data" and "\<not> oom w" and "served md (Sig C_Sign) = Inr N"
    and "never_enough N (Sig C_Sign) [SULong sh, data_view data]"
  shows "\<exists>w'. Sign sh data w = (Ret (Inl err_retries), w') \<and> mem (hp w') = mem (hp w) \<and> length (calls w') = length (calls w) + 9"
proof -
  obtain x w' where e: "Sign sh data w = (Ret x, w')" "frame (released {}) w w'"
    "(x, nview w') \<in> abs_outOp (abs_out md (Sig C_Sign) [SULong sh, data_view data]) (nview w)"
    using contract_run [OF Sign_refines [OF assms(3), of "{}" "Some md" sh] assms(1,2) refl assms(4)] by blast
  from never_enough_gives_up [OF assms(5,6) e(3)] show ?thesis
    using e(1) frame_mem [OF e(2)] by (auto simp: nview_def maxRetries_def)
qed

theorem Sign_gives_up_witness:
  "\<exists>w'. Sign 5 [1] (loaded_world stingy 0) = (Ret (Inl err_retries), w') \<and> mem (hp w') = mem toy_heap \<and> length (calls w') = 9"
proof -
  let ?w = "loaded_world stingy 0"
  have f: "fits64 [1 :: byte]" by (simp add: fits64_def)
  have s: "served (the (modl ?w)) (Sig C_Sign) = Inr stingy" by (simp add: served_def CK_FNS_def)
  have n: "never_enough stingy (Sig C_Sign) [SULong 5, data_view [1]]"
    by (simp add: never_enough_def stingy_def data_view_def reply0_def maxOutBuf_def)
  have m: "modl ?w = Some (the (modl ?w))" by simp
  from Sign_gives_up [OF loaded_wf [OF stingy_conforming] m f loaded_no_oom s n] show ?thesis by simp
qed
section \<open>Secrets\<close>

lemma frame_scrubbed: "frame (released {}) w w' \<Longrightarrow>
    \<exists>fs. freed (hp w') = freed (hp w) @ fs \<and> (\<forall>x \<in> set fs. scrubbed (junk (hp w)) x)"
  by (auto simp: frame_def released_def)

text \<open>C11: Logging in passes the PIN to the module once, as it is, and leaves no trace of it in the C heap: the blocks are
  those from before, and every block released in between was all zeros or as \<open>malloc\<close> returned it.\<close>

theorem Login_scrubs_pin:
  fixes w :: "'m world"
  assumes "wf w" and "modl w = Some md" and "fits64 pin" and "\<not> oom w" and "served md (Sess C_Login) = Inr N"
    and "N (nat_st w) (Call (Sess C_Login) [SULong sh, SULong userType, bytes_view pin]) = (r, ms)"
  shows "\<exists>w' fs. Login sh userType pin w = (Ret (if rv r = CKR_OK then Inr () else Inl (Error (rv r))), w') \<and>
    nat_st w' = ms \<and> calls w' = calls w @ [Call (Sess C_Login) [SULong sh, SULong userType, bytes_view pin]] \<and>
    mem (hp w') = mem (hp w) \<and> freed (hp w') = freed (hp w) @ fs \<and> (\<forall>x \<in> set fs. scrubbed (junk (hp w)) x)"
proof -
  obtain x w' where e: "Login sh userType pin w = (Ret x, w')" "frame (released {}) w w'"
    "(x, nview w') \<in> abs_then err_only md (Sess C_Login) [SULong sh, SULong userType, bytes_view pin] (nview w)"
    using contract_run [OF Login_refines [OF assms(3), of "{}" "Some md" sh userType] assms(1,2) refl assms(4)] by blast
  have "x = err_only r \<and> nview w' = (ms, calls w @ [Call (Sess C_Login) [SULong sh, SULong userType, bytes_view pin]])"
    using e(3) assms(5,6) by (auto simp: abs_then_def abs_ck_def abs_bind_def abs_call_in nview_def)
  then show ?thesis using e(1) frame_mem [OF e(2)] frame_scrubbed [OF e(2)]
    by (auto simp: nview_def err_only_def toError_def)
qed

theorem Login_scrubs_pin_witness:
  "\<exists>w'. Login 5 1 [49, 50, 51] toy_world = (Ret (Inr ()), w') \<and> mem (hp w') = mem toy_heap \<and>
    list_all (scrubbed (\<lambda>a i. 170)) (freed (hp w')) \<and> length (calls w') = 1"
proof -
  have f: "fits64 [49, 50, 51 :: byte]" by (simp add: fits64_def)
  have s: "served toy_module (Sess C_Login) = Inr toy" by (simp add: toy_served)
  have n: "toy (nat_st toy_world) (Call (Sess C_Login) [SULong 5, SULong 1, bytes_view [49, 50, 51]]) = (reply0 CKR_OK, 1)"
    by (simp add: toy_def toy_world_def bytes_view_def data_view_def)
  have h: "hp toy_world = toy_heap" "calls toy_world = []" "freed toy_heap = []" "junk toy_heap = (\<lambda>a i. 170)"
    by (simp_all add: toy_world_def toy_heap_def)
  have z: "rv (reply0 CKR_OK) = CKR_OK" by (simp add: reply0_def)
  from Login_scrubs_pin [OF toy_wf toy_loaded f toy_no_oom s n] obtain w' fs where
    "Login 5 1 [49, 50, 51] toy_world = (Ret (Inr ()), w')"
    "calls w' = calls toy_world @ [Call (Sess C_Login) [SULong 5, SULong 1, bytes_view [49, 50, 51]]]"
    "mem (hp w') = mem (hp toy_world)" "freed (hp w') = freed (hp toy_world) @ fs"
    "\<forall>x \<in> set fs. scrubbed (junk (hp toy_world)) x" unfolding z if_P [OF refl] by blast
  then show ?thesis using h by (intro exI [of _ w']) (simp add: list_all_iff)
qed

text \<open>C7: Reading attributes implements its two-pass specification whatever lengths the module reports in either pass:
  a value that is returned lies within the buffer allocated for it, the others are \<open>nil\<close>, a soft failure comes
  with the values, and every value buffer is scrubbed over its whole length before it is released.\<close>

theorem GetAttributeValue_contract:
  fixes w :: "'m world"
  assumes "wf w" and "modl w = Some md" and "fits64 tmpl" and "\<not> oom w"
  shows "\<exists>x w' fs. GetAttributeValue sh obj (map Some tmpl) w = (Ret x, w') \<and> mem (hp w') = mem (hp w) \<and>
    freed (hp w') = freed (hp w) @ fs \<and> (\<forall>y \<in> set fs. scrubbed (junk (hp w)) y) \<and>
    (x, nview w') \<in> abs_attribute_values md sh obj tmpl (nview w)"
proof -
  have "modl w = Some md \<and> \<not> oom w" using assms by simp
  from refines_no_oom [OF GetAttributeValue_refines [OF assms(3), of "{}" "Some md" sh obj] assms(1) this assms(4)]
  obtain x w' where "GetAttributeValue sh obj (map Some tmpl) w = (Ret x, w')" "frame (released {}) w w'"
    "(x, nview w') \<in> abs_attribute_values md sh obj tmpl (nview w)" by (auto simp: abs_ctx_def)
  then show ?thesis using frame_mem frame_scrubbed by blast
qed

theorem GetAttributeValue_contract_witness:
  "\<exists>x w'. GetAttributeValue 5 6 (map Some [\<lparr>Type = CKA_VALUE, Value = None\<rparr>]) toy_world = (Ret x, w') \<and> mem (hp w') = mem toy_heap"
proof -
  have f: "fits64 [\<lparr>Type = CKA_VALUE, Value = None\<rparr>]" by (simp add: fits64_def)
  have h: "hp toy_world = toy_heap" by (simp add: toy_world_def)
  from GetAttributeValue_contract [OF toy_wf toy_loaded f toy_no_oom, of 5 6] show ?thesis unfolding h by blast
qed

section \<open>Keys\<close>

text \<open>C18: Generating a key pair passes the module the mechanism and both templates as the caller gave them, in one call, and
  returns the two handles it stored, unless the policy refuses the mechanism; then no call is made.\<close>

theorem GenerateKeyPair_contract:
  fixes w :: "'m world"
  assumes "wf w" and "modl w = Some md" and "\<not> oom w" and "tmpl_ok public" and "tmpl_ok private"
    and "mech_sees m V w" and "mech_public m \<subseteq> pub"
  shows "\<exists>x w'. GenerateKeyPair sh m (map Some public) (map Some private) w = (Ret x, w') \<and> frame (released pub) w w' \<and>
    (case mech_error (policy w) m of
       Some e \<Rightarrow> x = Inl e \<and> nview w' = nview w
     | None \<Rightarrow> (x, nview w') \<in> abs_then handle2 md (Key C_GenerateKeyPair)
         [SULong sh, SMech V, tmpl_view public, tmpl_view private] (nview w))"
proof -
  have p: "mech_pre pub (policy w) m V w" using assms(6,7) by (simp add: mech_pre_def)
  from contract_mech [OF GenerateKeyPair_refines [OF assms(4,5), of pub "Some md"] assms(1,2) refl p assms(3), of sh]
  show ?thesis by (auto simp: abs_mech_def split: option.splits)
qed

theorem GenerateKeyPair_contract_witness:
  "\<exists>x w'. GenerateKeyPair 5 (Some \<lparr>mechanism = CKM_EC_KEY_PAIR_GEN, Parameter = [], params = None\<rparr>)
     (map Some [\<lparr>Type = CKA_TOKEN, Value = Some [1]\<rparr>]) (map Some []) toy_world = (Ret x, w') \<and> mem (hp w') = mem toy_heap"
proof -
  let ?m = "\<lparr>mechanism = CKM_EC_KEY_PAIR_GEN, Parameter = [], params = None\<rparr>"
  have t: "tmpl_ok [\<lparr>Type = CKA_TOKEN, Value = Some [1]\<rparr>]" "tmpl_ok []"
    by (simp_all add: tmpl_ok_def attr_ok_def fits64_def cAttributesFits_def maxOutBuf_def)
  have m: "mech_sees (Some ?m) (Some (CKM_EC_KEY_PAIR_GEN, PNone)) toy_world" "mech_public (Some ?m) \<subseteq> {}"
    by (simp_all add: mech_sees_def mech_public_def fits64_def raw_view_def)
  have h: "hp toy_world = toy_heap" by (simp add: toy_world_def)
  from GenerateKeyPair_contract [OF toy_wf toy_loaded toy_no_oom t m, of 5] show ?thesis
    unfolding h [symmetric] using frame_mem by blast
qed

lemma abs_encap_data_length:
  "(Inr (ct, k), s') \<in> abs_encap_data md vs sh key n b s \<Longrightarrow> length ct \<le> unat n"
  unfolding abs_encap_data_def
  by (auto elim!: abs_bindE simp: Let_def abs_bytes_def not_less word_le_nat_alt split: option.splits if_splits)

lemma abs_encap_length: "(Inr (ct, k), s') \<in> abs_encap md vs sh s \<Longrightarrow> length ct \<le> maxOutBuf"
  unfolding abs_encap_def
  by (auto elim!: abs_bindE simp: Let_def not_less dest!: abs_encap_data_length split: option.splits if_splits)

text \<open>C17: Encapsulating a key gives the caller a ciphertext no longer than the size the module announced, and a handle;
  a module that claims more has its new key destroyed again and the caller gets an error.\<close>

theorem EncapsulateKey_contract:
  fixes w :: "'m world"
  assumes "wf w" and "modl w = Some md" and "\<not> oom w" and "tmpl_ok tmpl" and "mech_sees m V w"
  shows "\<exists>x w'. EncapsulateKey sh m pubKey (map Some tmpl) w = (Ret x, w') \<and> mem (hp w') = mem (hp w) \<and> readers w' = readers w \<and>
    (x, nview w') \<in> abs_mech (policy w) m V (\<lambda>v. abs_encap md [SULong sh, SMech v, SULong pubKey, tmpl_view tmpl] sh) (nview w) \<and>
    (\<forall>ct k. x = Inr (ct, k) \<longrightarrow> length ct \<le> 67108864)"
proof -
  have p: "mech_pre UNIV (policy w) m V w" using assms(5) by (simp add: mech_pre_def)
  from contract_mech [OF EncapsulateKey_refines [OF assms(4), of "Some md"] assms(1,2) refl p assms(3), of sh pubKey]
  obtain x w' where e: "EncapsulateKey sh m pubKey (map Some tmpl) w = (Ret x, w')" "frame (released UNIV) w w'"
    "(x, nview w') \<in> abs_mech (policy w) m V (\<lambda>v. abs_encap md [SULong sh, SMech v, SULong pubKey, tmpl_view tmpl] sh) (nview w)"
    by blast
  have "\<forall>ct k. x = Inr (ct, k) \<longrightarrow> length ct \<le> 67108864"
    using e(3) abs_encap_length by (fastforce simp: abs_mech_def maxOutBuf_def split: option.splits)
  then show ?thesis using e frame_mem by blast
qed

theorem EncapsulateKey_contract_witness:
  "\<exists>x w'. EncapsulateKey 5 (Some \<lparr>mechanism = CKM_ML_KEM, Parameter = [], params = None\<rparr>) 8 (map Some []) toy_world = (Ret x, w') \<and>
     mem (hp w') = mem toy_heap"
proof -
  let ?m = "\<lparr>mechanism = CKM_ML_KEM, Parameter = [], params = None\<rparr>"
  have t: "tmpl_ok []" by (simp add: tmpl_ok_def cAttributesFits_def)
  have m: "mech_sees (Some ?m) (Some (CKM_ML_KEM, PNone)) toy_world" by (simp add: mech_sees_def fits64_def raw_view_def)
  have h: "hp toy_world = toy_heap" by (simp add: toy_world_def)
  from EncapsulateKey_contract [OF toy_wf toy_loaded toy_no_oom t m, of 5 8] show ?thesis unfolding h by blast
qed

text \<open>A module that has no ciphertext to announce: asked for the size, it reports zero and makes no key.\<close>

definition sizes_to_zero :: "'m native \<Rightarrow> bool" where
  "sizes_to_zero N \<longleftrightarrow> (\<forall>ms vs. N ms (Call (V32 C_EncapsulateKey) (vs @ [SOut False 0])) = (reply0 CKR_OK, ms))"

text \<open>C31: Where the sizing call reports a ciphertext of zero bytes, the second call has no buffer either, which asks for the size
  once more: the method makes two sizing calls and returns success, with no ciphertext and a handle of zero, while the
  module has made no key.\<close>

theorem EncapsulateKey_sizes_twice:
  fixes w :: "'m world"
  assumes "wf w" and "modl w = Some md" and "\<not> oom w" and "tmpl_ok tmpl" and "mech_sees m V w"
    and "mech_error (policy w) m = None" and "fns32 md = Some N" and "sizes_to_zero N"
  shows "\<exists>w' c. EncapsulateKey sh m pubKey (map Some tmpl) w = (Ret (Inr ([], 0)), w') \<and>
    c = Call (V32 C_EncapsulateKey) [SULong sh, SMech V, SULong pubKey, tmpl_view tmpl, SOut False 0] \<and>
    calls w' = calls w @ [c, c] \<and> nat_st w' = nat_st w"
proof -
  obtain x w' where e: "EncapsulateKey sh m pubKey (map Some tmpl) w = (Ret x, w')"
    "(x, nview w') \<in> abs_mech (policy w) m V (\<lambda>v. abs_encap md [SULong sh, SMech v, SULong pubKey, tmpl_view tmpl] sh) (nview w)"
    using EncapsulateKey_contract [OF assms(1-5), of sh pubKey] by blast
  have s: "served md (V32 C_EncapsulateKey) = Inr N"
    using assms(1,2,7) by (auto simp: served_def wf_def module_ok_def)
  have z: "N ms (Call (V32 C_EncapsulateKey) [a, b, c, d, SOut False 0]) = (reply0 CKR_OK, ms)" for ms a b c d
    using assms(8) unfolding sizes_to_zero_def by (metis append_Cons append_Nil)
  show ?thesis using e
    by (auto simp: assms(6) abs_mech_def abs_encap_def abs_encap_data_def abs_ck_def s abs_call_in z toError_def reply0_def
        CKR_OK_def last_key_def abs_bytes_def nview_def elim!: abs_bindE split: if_splits)
qed

definition zero_sizer :: "nat native" where
  "zero_sizer n c = (reply0 CKR_OK, n)"

definition sizer_world :: "nat world" where
  "sizer_world = (loaded_world zero_sizer 0)\<lparr>modl := Some \<lparr>mblk = Ptr 0, dl = 7, fns = Some zero_sizer, fns32 = Some zero_sizer,
     fnsBase = Some zero_sizer\<rparr>\<rparr>"

theorem EncapsulateKey_sizes_twice_witness:
  "\<exists>w'. EncapsulateKey 5 (Some \<lparr>mechanism = CKM_ML_KEM, Parameter = [], params = None\<rparr>) 8 (map Some []) sizer_world =
     (Ret (Inr ([], 0)), w') \<and> length (calls w') = 2"
proof -
  let ?m = "\<lparr>mechanism = CKM_ML_KEM, Parameter = [], params = None\<rparr>"
  have c: "conforming zero_sizer" by (simp add: conforming_def zero_sizer_def)
  have w: "wf sizer_world" "\<not> oom sizer_world" "sizes_to_zero zero_sizer"
    using loaded_wf [OF c, of 0] loaded_no_oom [of zero_sizer 0] c
    by (auto simp: sizer_world_def wf_def oom_def sizes_to_zero_def zero_sizer_def module_ok_def)
  have md: "modl sizer_world = Some \<lparr>mblk = Ptr 0, dl = 7, fns = Some zero_sizer, fns32 = Some zero_sizer, fnsBase = Some zero_sizer\<rparr>"
    "policy sizer_world = None" "calls sizer_world = []" by (simp_all add: sizer_world_def)
  have t: "tmpl_ok []" by (simp add: tmpl_ok_def cAttributesFits_def)
  have m: "mech_sees (Some ?m) (Some (CKM_ML_KEM, PNone)) sizer_world" by (simp add: mech_sees_def fits64_def raw_view_def)
  have p: "mech_error (policy sizer_world) (Some ?m) = None" by (simp add: md mech_error_def checkMechanismUse_def checkMechanism_def)
  from EncapsulateKey_sizes_twice [OF w(1) md(1) w(2) t m p, of zero_sizer 5 8] w(3) show ?thesis by (auto simp: md)
qed

section \<open>The mechanism policy\<close>

text \<open>A refusing policy ends a method that builds a mechanism first, before anything is allocated.\<close>

lemma with_ctx_run:
  assumes "wf w" and "modl w = Some md" and "body md (w\<lparr>readers := readers w + 1\<rparr>) = (Ret x, w\<lparr>readers := readers w + 1\<rparr>)"
  shows "with_ctx body w = (Ret x, w)"
  using assms by (cases w) (simp add: with_ctx_def go_run grab_def RLock_def RUnlock_def wf_def)

lemma mech_scope_refused:
  assumes "wf w" and "modl w = Some md" and "mech_error (policy w) m = Some e"
  shows "with_ctx (\<lambda>md. go_try_scoped (cMechanism m) r (k md)) w = (Ret (Inl e), w)"
proof (rule with_ctx_run [OF assms(1,2)])
  have "mech_error (policy (w\<lparr>readers := readers w + 1\<rparr>)) m = Some e" using assms(3) by simp
  from cMechanism_error [OF this]
  show "go_try_scoped (cMechanism m) r (k md) (w\<lparr>readers := readers w + 1\<rparr>) = (Ret (Inl e), w\<lparr>readers := readers w + 1\<rparr>)"
    by (simp add: go_run)
qed

lemma checkMechanismUse_involved: "checkMechanismUse pol m = None \<longleftrightarrow> (\<forall>h. involved m h \<longrightarrow> checkMechanism pol h = None)"
  by (auto simp: checkMechanismUse_firstError firstError_None list_all_iff consulted_involved)

lemma weak_named:
  assumes "involved m h" and "h \<in> set (map fst weakMechanisms)"
  shows "\<exists>e. mech_error (Some RejectWeakMechanisms) (Some m) = Some e"
proof -
  obtain name where "map_of weakMechanisms h = Some name" using assms(2) by (metis map_of_eq_None_iff not_None_eq list.set_map)
  then have "checkMechanism (Some RejectWeakMechanisms) h \<noteq> None" by (simp add: checkMechanism_def RejectWeakMechanisms_def)
  then have "checkMechanismUse (Some RejectWeakMechanisms) m \<noteq> None" unfolding checkMechanismUse_involved using assms(1) by auto
  then show ?thesis by (auto simp: mech_error_def)
qed

text \<open>C8: Under \<open>RejectWeakMechanisms\<close> a mechanism on the list, or one whose OAEP, PSS or ECDH1 parameters name a digest on the
  list (directly, as the hash of the mask generation function, or as that of the key derivation function), never reaches the
  module, even if it was built before the policy was set: every method that takes a mechanism returns an error, makes no call and
  changes nothing.\<close>

theorem weak_mechanism_refused:
  fixes w :: "'m world"
  assumes "wf w" and "modl w = Some md" and "policy w = Some RejectWeakMechanisms"
    and "involved m h" and "h \<in> set (map fst weakMechanisms)"
  shows "\<exists>e. EncryptInit sh (Some m) key w = (Ret (Inl e), w) \<and> DecryptInit sh (Some m) key w = (Ret (Inl e), w) \<and>
    DigestInit sh (Some m) w = (Ret (Inl e), w) \<and> SignInit sh (Some m) key w = (Ret (Inl e), w) \<and>
    VerifyInit sh (Some m) key w = (Ret (Inl e), w) \<and> VerifySignatureInit sh (Some m) key sig w = (Ret (Inl e), w) \<and>
    GenerateKey sh (Some m) tmpl w = (Ret (Inl e), w) \<and> GenerateKeyPair sh (Some m) tmpl tmpl' w = (Ret (Inl e), w) \<and>
    WrapKey sh (Some m) key other w = (Ret (Inl e), w) \<and> UnwrapKey sh (Some m) key data tmpl w = (Ret (Inl e), w) \<and>
    DeriveKey sh (Some m) key tmpl w = (Ret (Inl e), w) \<and> EncapsulateKey sh (Some m) key tmpl w = (Ret (Inl e), w) \<and>
    DecapsulateKey sh (Some m) key tmpl data w = (Ret (Inl e), w) \<and>
    WrapKeyAuthenticated sh (Some m) key other data w = (Ret (Inl e), w) \<and>
    UnwrapKeyAuthenticated sh (Some m) key data data' tmpl w = (Ret (Inl e), w)"
proof -
  obtain e where "mech_error (policy w) (Some m) = Some e" using weak_named [OF assms(4,5)] assms(3) by auto
  note r = mech_scope_refused [OF assms(1,2) this]
  show ?thesis
    by (rule exI [of _ e])
      (simp add: EncryptInit_def DecryptInit_def DigestInit_def SignInit_def VerifyInit_def VerifySignatureInit_def GenerateKey_def
        GenerateKeyPair_def WrapKey_def UnwrapKey_def DeriveKey_def EncapsulateKey_def DecapsulateKey_def
        WrapKeyAuthenticated_def UnwrapKeyAuthenticated_def r)
qed

theorem weak_mechanism_refused_witness:
  "\<exists>e. SignInit 5 (Some \<lparr>mechanism = CKM_RSA_PKCS_PSS, Parameter = [],
      params = Some (PSS \<lparr>pss_hashAlg = CKM_SHA256, pss_mgf = CKG_MGF1_SHA1, pss_saltLen = 20\<rparr>)\<rparr>) 9
     (toy_world\<lparr>policy := Some RejectWeakMechanisms\<rparr>) = (Ret (Inl e), toy_world\<lparr>policy := Some RejectWeakMechanisms\<rparr>)"
proof -
  let ?w = "toy_world\<lparr>policy := Some RejectWeakMechanisms\<rparr>"
  let ?m = "\<lparr>mechanism = CKM_RSA_PKCS_PSS, Parameter = [],
      params = Some (PSS \<lparr>pss_hashAlg = CKM_SHA256, pss_mgf = CKG_MGF1_SHA1, pss_saltLen = 20\<rparr>)\<rparr>"
  have w: "wf ?w" "modl ?w = Some toy_module" "policy ?w = Some RejectWeakMechanisms"
    using toy_wf toy_loaded by (simp_all add: wf_def)
  have h: "involved ?m CKM_SHA_1"
    by (rule pss_mask [of _ "\<lparr>pss_hashAlg = CKM_SHA256, pss_mgf = CKG_MGF1_SHA1, pss_saltLen = 20\<rparr>"]) (simp_all add: mgf_uses.intros)
  have "CKM_SHA_1 \<in> set (map fst weakMechanisms)" by (simp add: weakMechanisms_def)
  from weak_mechanism_refused [OF w h this, of 5 9] show ?thesis by blast
qed



section \<open>Loading and unloading\<close>

text \<open>C13: A module that could be loaded can be unloaded: \<open>New\<close> followed by \<open>Destroy\<close> leaves the C heap and the set of
  mapped libraries as they were, and no call was made.\<close>

theorem New_Destroy:
  fixes w :: "'m world"
  assumes "wf w" and "\<not> oom w" and "readers w = 0" and "waiters w = 0"
    and "IsAbs path" and "usable ld path L" and "linker_ok ld" and "lib_dl L \<notin> libs w"
  shows "\<exists>v u. New ld path w = (Ret (Inr ()), v) \<and> modl v = Some (loaded_as L (Suc (brk (hp w)))) \<and> lib_dl L \<in> libs v \<and>
    Destroy v = (Ret (), u) \<and> mem (hp u) = mem (hp w) \<and> libs u = libs w \<and> modl u = None \<and> wf u \<and> nview u = nview w"
proof -
  obtain v where v: "New ld path w = (Ret (Inr ()), v)" "wf v" "modl v = Some (loaded_as L (Suc (brk (hp w))))"
    "mem (hp v) = (mem (hp w))(Suc (brk (hp w)) \<mapsto> CBytes (replicate 32 0))" "libs v = insert (lib_dl L) (libs w)"
    "nview v = nview w" "readers v = readers w" "waiters v = waiters w" using New_loads [OF assms(1,2,5,6,7)] by blast
  obtain u a where u: "Destroy v = (Ret (), u)" "wf u" "modl u = None" "mblk (loaded_as L (Suc (brk (hp w)))) = Ptr a"
    "mem (hp u) = (mem (hp v))(a := None)" "libs u = libs v - {dl (loaded_as L (Suc (brk (hp w))))}" "nview u = nview v"
    using Destroy_run [OF v(2) _ _ v(3)] v(7,8) assms(3,4) by auto
  have fresh: "mem (hp w) (Suc (brk (hp w))) = None"
    using assms(1) unfolding wf_def heap_ok_def by (metis domI not_None_eq lessI less_asym)
  have "a = Suc (brk (hp w))" "dl (loaded_as L (Suc (brk (hp w)))) = lib_dl L" using u(4) by (simp_all add: loaded_as_def Let_def)
  then have "mem (hp u) = mem (hp w)" "libs u = libs w" using u(5,6) v(4,5) fresh assms(8) by auto
  then show ?thesis using v u by (intro exI [of _ v] exI [of _ u]) simp
qed

definition toy_library :: "nat library" where
  "toy_library = \<lparr>lib_dl = 3, C_GetFunctionList = Some (CKR_OK, Some toy), C_GetInterface = None\<rparr>"

lemma toy_library_ok: "library_ok toy_library"
  by (auto simp: library_ok_def toy_library_def toy_conforming)

lemma toy_usable: "usable (\<lambda>path. Inr toy_library) path toy_library" "linker_ok (\<lambda>path. Inr toy_library)"
  by (simp_all add: usable_def linker_ok_def toy_library_ok toy_library_def [THEN arg_cong, of C_GetFunctionList, simplified])

lemma unloaded_wf: "wf (toy_world\<lparr>modl := None\<rparr>)" "\<not> oom (toy_world\<lparr>modl := None\<rparr>)"
  using toy_wf toy_no_oom by (simp_all add: wf_def oom_def)

theorem New_Destroy_witness:
  "\<exists>v u. New (\<lambda>path. Inr toy_library) ''/lib/p11.so'' (toy_world\<lparr>modl := None\<rparr>) = (Ret (Inr ()), v) \<and> Destroy v = (Ret (), u) \<and>
     mem (hp u) = mem (hp toy_world) \<and> libs u = {7}"
proof -
  let ?w = "toy_world\<lparr>modl := None\<rparr>"
  have w: "readers ?w = 0" "waiters ?w = 0" "lib_dl toy_library \<notin> libs ?w" "libs ?w = {7}"
    by (simp_all add: toy_world_def toy_library_def)
  have p: "IsAbs ''/lib/p11.so''" by (simp add: IsAbs_def)
  from New_Destroy [OF unloaded_wf w(1,2) p toy_usable w(3)] w(4) show ?thesis by auto
qed

text \<open>C27: A module that cannot be loaded (the linker refuses it, it lacks the entry point, or the entry point fails) leaves
  nothing behind: \<open>New\<close> returns an error, every block it allocated is released, and no further library is mapped.\<close>

theorem New_failure_is_clean:
  fixes w :: "'m world"
  assumes "wf w" and "\<not> oom w" and "\<forall>L. \<not> usable ld path L"
  shows "\<exists>e w'. New ld path w = (Ret (Inl e), w') \<and> mem (hp w') = mem (hp w) \<and> libs w' \<subseteq> libs w \<and> modl w' = modl w \<and> nview w' = nview w"
  using New_fails [OF assms] by blast

theorem New_failure_is_clean_witness:
  "\<exists>e w'. New (\<lambda>path. Inl ''no such file'') ''/lib/none.so'' toy_world = (Ret (Inl e), w') \<and> mem (hp w') = mem toy_heap"
proof -
  have "\<forall>L. \<not> usable (\<lambda>path. Inl ''no such file'') ''/lib/none.so'' (L :: nat library)" by (simp add: usable_def)
  moreover have "hp toy_world = toy_heap" by (simp add: toy_world_def)
  ultimately show ?thesis using New_failure_is_clean [OF toy_wf toy_no_oom] by metis
qed

text \<open>After \<open>Destroy\<close> every method answers \<open>ErrClosed\<close>, changes nothing and reaches no library.\<close>

theorem closed_ctx_refuses:
  fixes w :: "'m world"
  assumes "modl w = None" and "\<not> writer w" and "readers w = 0"
  shows "Encrypt sh data w = (Ret (Inl ErrClosed), w) \<and> Login sh u pin w = (Ret (Inl ErrClosed), w) \<and>
    GetAttributeValue sh obj tmpl w = (Ret (Inl ErrClosed), w) \<and> GenerateKeyPair sh m t1 t2 w = (Ret (Inl ErrClosed), w) \<and>
    EncapsulateKey sh m k tmpl w = (Ret (Inl ErrClosed), w) \<and> GetSlotList b w = (Ret (Inl ErrClosed), w) \<and>
    WaitForSlotEvent f w = (Ret (Inl ErrClosed), w) \<and> Initialize w = (Ret (Inl ErrClosed), w) \<and>
    Finalize w = (Ret (Inl ErrClosed), w) \<and> Destroy w = (Ret (), w)"
  using assms Destroy_again [OF assms]
  by (cases b) (simp_all add: Encrypt_def Login_def GetAttributeValue_def GenerateKeyPair_def EncapsulateKey_def GetSlotList_def
      Initialize_def InitializeWithFlags_def Finalize_def WaitForSlotEvent_def grab_def RLock_def RUnlock_def go_run
      with_ctx_gone [OF assms(1,2)] with_lock_gone [OF assms])

theorem closed_ctx_refuses_witness:
  "Encrypt 5 [1] (toy_world\<lparr>modl := None\<rparr>) = (Ret (Inl ErrClosed), toy_world\<lparr>modl := None\<rparr>)"
proof -
  have "modl (toy_world\<lparr>modl := None\<rparr>) = None" "\<not> writer (toy_world\<lparr>modl := None\<rparr>)" "readers (toy_world\<lparr>modl := None\<rparr>) = 0"
    by (simp_all add: toy_world_def)
  from closed_ctx_refuses [OF this, of 5 "[1]"] show ?thesis by blast
qed

section \<open>Version 3.2\<close>

text \<open>\<open>unsupported m w\<close>: the method returns \<open>CKR_FUNCTION_NOT_SUPPORTED\<close>, without a call and with the C heap as before.\<close>

definition unsupported :: "('m world, goerror + 'a) go \<Rightarrow> 'm world \<Rightarrow> bool" where
  "unsupported m w \<longleftrightarrow> (\<exists>w'. m w = (Ret (Inl (Error CKR_FUNCTION_NOT_SUPPORTED)), w') \<and> nview w' = nview w \<and> mem (hp w') = mem (hp w))"

text \<open>What a method asks of a module that does not serve its function.\<close>

lemma not_served:
  assumes "served md f = Inl CKR_FUNCTION_NOT_SUPPORTED"
  shows "(x, s') \<in> abs_then err_only md f vs s \<Longrightarrow> x = Inl (Error CKR_FUNCTION_NOT_SUPPORTED) \<and> s' = s"
    "(y, s') \<in> abs_then handle md f vs s \<Longrightarrow> y = Inl (Error CKR_FUNCTION_NOT_SUPPORTED) \<and> s' = s"
  using assms by (auto simp: abs_then_def abs_ck_def abs_bind_def reply0_def err_only_def handle_def toError_def ck_consts)

lemma not_served_out:
  assumes "served md f = Inl CKR_FUNCTION_NOT_SUPPORTED" and "(x, s') \<in> abs_outOp (abs_out md f vs) s"
  shows "x = Inl (Error CKR_FUNCTION_NOT_SUPPORTED) \<and> s' = s"
  using assms by (auto simp: abs_outOp_def abs_out_def abs_ck_def abs_bind_def reply0_def toError_def ck_consts)

lemma not_served_encap:
  assumes "served md (V32 C_EncapsulateKey) = Inl CKR_FUNCTION_NOT_SUPPORTED" and "(x, s') \<in> abs_encap md vs sh s"
  shows "x = Inl (Error CKR_FUNCTION_NOT_SUPPORTED) \<and> s' = s"
  using assms by (auto simp: abs_encap_def abs_ck_def abs_bind_def reply0_def toError_def ck_consts)

lemma unsupportedI:
  assumes "refines S (\<lambda>w. modl w = mo) opn (abs_ctx mo f)" and "wf w" and "modl w = mo" and "mo = Some md" and "\<not> oom w"
    and "\<And>x s'. (x, s') \<in> f md (nview w) \<Longrightarrow> x = Inl (Error CKR_FUNCTION_NOT_SUPPORTED) \<and> s' = nview w"
  shows "unsupported opn w"
  using contract_run [OF assms(1-5)] assms(6) frame_mem unfolding unsupported_def by blast

lemma unsupported_mech:
  assumes "refines (released UNIV) (\<lambda>w. modl w = mo \<and> mech_pre UNIV (policy w') m V w) opn (abs_ctx mo (\<lambda>md. abs_mech (policy w') m V (g md)))"
    and "wf w'" and "modl w' = mo" and "mo = Some md" and "mech_sees m V w'" and "mech_error (policy w') m = None" and "\<not> oom w'"
    and "\<And>x s'. (x, s') \<in> g md V (nview w') \<Longrightarrow> x = Inl (Error CKR_FUNCTION_NOT_SUPPORTED) \<and> s' = nview w'"
  shows "unsupported opn w'"
proof -
  have "mech_pre UNIV (policy w') m V w'" using assms(5) by (simp add: mech_pre_def)
  from contract_mech [OF assms(1-4) this assms(7)] show ?thesis
    using assms(6,8) frame_mem unfolding unsupported_def by (fastforce simp: abs_mech_def)
qed

text \<open>C21: The 3.2 function list is only used when the module offers one of version 3.2 or newer; against any other module each of the
  nine methods of version 3.2 returns \<open>CKR_FUNCTION_NOT_SUPPORTED\<close> without a call, and \<open>SupportsV32\<close> says so.\<close>

theorem v32_only_when_offered:
  fixes w :: "'m world"
  assumes "wf w" and "\<not> oom w" and "modl w = Some (loaded_as L a)" and "C_GetFunctionList L = Some (CKR_OK, Some N)"
    and "\<forall>gi v i u M. C_GetInterface L = Some gi \<longrightarrow> get_iface gi v = Some i \<longrightarrow> pFunctionList i = Some (u, M) \<longrightarrow> u < Version 3 2"
    and "fits64 data" and "tmpl_ok tmpl" and "mech_sees m V w" and "mech_error (policy w) m = None"
  shows "unsupported (EncapsulateKey sh m key (map Some tmpl)) w \<and> unsupported (DecapsulateKey sh m key (map Some tmpl) ct) w \<and>
    unsupported (VerifySignatureInit sh m key sig) w \<and> unsupported (VerifySignature sh data) w \<and>
    unsupported (VerifySignatureUpdate sh data) w \<and> unsupported (VerifySignatureFinal sh) w \<and>
    unsupported (GetSessionValidationFlags sh flagType) w \<and> unsupported (WrapKeyAuthenticated sh m key other aad_data) w \<and>
    unsupported (UnwrapKeyAuthenticated sh m key ct aad_data (map Some tmpl)) w \<and> (\<exists>u. SupportsV32 w = (Ret False, u))"
proof -
  have r: "ck_resolve_v32 L = None"
  proof (rule ccontr)
    assume "ck_resolve_v32 L \<noteq> None"
    then obtain M where "ck_resolve_v32 L = Some M" by blast
    from resolve_version [OF this] assms(5) show False by (meson leD)
  qed
  have s: "served (loaded_as L a) (V32 f) = Inl CKR_FUNCTION_NOT_SUPPORTED" for f
    using r assms(4) by (simp add: served_def loaded_as_def Let_def)
  have "SupportsV32 w = (Ret False, w)"
    using assms(1,3) r by (cases w) (simp add: SupportsV32_def go_run RLock_def RUnlock_def wf_def ck_has_v32_def loaded_as_def Let_def)
  moreover note plain = unsupportedI [where S = "released UNIV", OF _ assms(1,3) refl assms(2)]
    and mech = unsupported_mech [OF _ assms(1,3) refl assms(8,9,2)]
  have "unsupported (VerifySignature sh data) w" "unsupported (VerifySignatureUpdate sh data) w" "unsupported (VerifySignatureFinal sh) w"
    "unsupported (GetSessionValidationFlags sh flagType) w"
    by (rule plain [OF VerifySignature_refines [OF assms(6)]] plain [OF VerifySignatureUpdate_refines [OF assms(6)]]
        plain [OF VerifySignatureFinal_refines] plain [OF GetSessionValidationFlags_refines], erule not_served [OF s])+
  moreover have "unsupported (EncapsulateKey sh m key (map Some tmpl)) w"
    by (rule mech [OF EncapsulateKey_refines [OF assms(7)]]) (erule not_served_encap [OF s])
  moreover have "unsupported (DecapsulateKey sh m key (map Some tmpl) ct) w"
    by (rule mech [OF DecapsulateKey_refines [OF assms(7) UNIV_I]]) (erule not_served [OF s])
  moreover have "unsupported (VerifySignatureInit sh m key sig) w"
    by (rule mech [OF VerifySignatureInit_refines [OF UNIV_I]]) (erule not_served [OF s])
  moreover have "unsupported (WrapKeyAuthenticated sh m key other aad_data) w"
    by (rule mech [OF WrapKeyAuthenticated_refines [OF UNIV_I]]) (erule not_served_out [OF s])
  moreover have "unsupported (UnwrapKeyAuthenticated sh m key ct aad_data (map Some tmpl)) w"
    by (rule mech [OF UnwrapKeyAuthenticated_refines [OF assms(7) UNIV_I UNIV_I]]) (erule not_served [OF s])
  ultimately show ?thesis by blast
qed

lemma toy_library_world: "wf (toy_world\<lparr>modl := Some (loaded_as toy_library 0), libs := {3}\<rparr>)"
  "\<not> oom (toy_world\<lparr>modl := Some (loaded_as toy_library 0), libs := {3}\<rparr>)"
  by (auto simp: wf_def toy_world_def heap_ok_def toy_heap_def module_ok_def loaded_as_def toy_library_def Let_def oom_def
      ck_resolve_v32_def toy_conforming)

theorem v32_only_when_offered_witness:
  "\<exists>w'. VerifySignature 5 [1] (toy_world\<lparr>modl := Some (loaded_as toy_library 0), libs := {3}\<rparr>) =
     (Ret (Inl (Error CKR_FUNCTION_NOT_SUPPORTED)), w') \<and> calls w' = []"
proof -
  let ?w = "toy_world\<lparr>modl := Some (loaded_as toy_library 0), libs := {3}\<rparr>"
  have m: "modl ?w = Some (loaded_as toy_library 0)" "nview ?w = (0, [])" by (simp_all add: toy_world_def nview_def)
  have l: "C_GetFunctionList toy_library = Some (CKR_OK, Some toy)" "C_GetInterface toy_library = None" by (simp_all add: toy_library_def)
  have i: "\<forall>gi v i u M. C_GetInterface toy_library = Some gi \<longrightarrow> get_iface gi v = Some i \<longrightarrow> pFunctionList i = Some (u, M) \<longrightarrow> u < Version 3 2"
    using l(2) by simp
  have f: "fits64 [1 :: byte]" by (simp add: fits64_def)
  have t: "tmpl_ok []" by (simp add: tmpl_ok_def cAttributesFits_def)
  have g: "mech_sees None None ?w" "mech_error (policy ?w) None = None" by (simp_all add: mech_sees_def mech_error_def)
  have "unsupported (VerifySignature 5 [1]) ?w"
    using v32_only_when_offered [OF toy_library_world m(1) l(1) i f t g, of 5] by blast
  then show ?thesis using m(2) by (auto simp: unsupported_def nview_def)
qed

section \<open>Lists of handles\<close>

text \<open>C29: Against a module that reports no more handles than it was offered room for, one step of a search returns at most
  as many as asked for, exactly the ones the module stored.\<close>

theorem FindObjects_contract:
  fixes w :: "'m world"
  assumes "wf w" and "modl w = Some md" and "\<not> oom w" and "honest_count md (Obj C_FindObjects)" and "0 < n" and "n \<le> 2 ^ 45"
  shows "\<exists>x w'. FindObjects sh n w = (Ret x, w') \<and> frame (released {}) w w' \<and> (x, nview w') \<in> abs_find md sh (of_int n) (nview w) \<and>
    (\<forall>hs. x = Inr hs \<longrightarrow> int (length hs) \<le> n)"
proof -
  have h: "\<And>m. Some md = Some m \<Longrightarrow> honest_count m (Obj C_FindObjects)" using assms(4) by simp
  obtain x w' where e: "FindObjects sh n w = (Ret x, w')" "frame (released {}) w w'" "(x, nview w') \<in> abs_find md sh (of_int n) (nview w)"
    using refines_no_oom [OF FindObjects_refines [OF h assms(6), where pub = "{}" and sh = sh] assms(1,2,3)] assms(5) by (auto simp: abs_ctx_def)
  have un: "unat (of_int n :: uint) = nat n" using assms(5,6) by (simp add: unat_eq_nat_uint uint_word_of_int)
  have "int (length hs) \<le> n" if x: "x = Inr hs" for hs
  proof -
    obtain r buf s where "((r, buf), s) \<in> abs_arr md (Obj C_FindObjects) [SULong sh] True (of_int n) (nview w)"
      "hs = take (unat (olen r)) buf"
      using e(3) x unfolding abs_find_def by (auto elim!: abs_bindE split: option.splits)
    moreover from this(1) have "length buf = nat n" using abs_arr_length [OF assms(1,2)] un by simp
    ultimately show ?thesis using assms(5) by simp
  qed
  then show ?thesis using e by blast
qed

lemma finder_honest: "honest_count \<lparr>mblk = Ptr 0, dl = 7, fns = Some finder, fns32 = None, fnsBase = Some finder\<rparr> (Obj C_FindObjects)"
  unfolding honest_count_def
proof (intro allI impI)
  fix N vs ms n r ms'
  assume s: "served \<lparr>mblk = Ptr 0, dl = 7, fns = Some finder, fns32 = None, fnsBase = Some finder\<rparr> (Obj C_FindObjects) = Inr N"
    and c: "N ms (Call (Obj C_FindObjects) (vs @ [SArr True n])) = (r, ms')"
  have N: "N = finder" using s by (simp add: served_def CK_FNS_def)
  show "olen r \<le> n"
  proof (cases "\<exists>h. vs = [SULong h]")
    case True
    then have "olen r = of_nat (min ms (unat n))" using c N by (auto simp: finder_def Let_def)
    moreover have "unat n < 2 ^ LENGTH(64)" by (rule unsigned_less)
    then have "min ms (unat n) < 2 ^ 64" by (simp add: min_less_iff_disj)
    ultimately show ?thesis by (simp add: word_le_nat_alt unat_of_nat)
  next
    case False
    then have "olen r = 0" using c N
      by (auto simp: finder_def reply0_def split: list.splits cview.splits bool.splits)
    then show ?thesis by simp
  qed
qed

theorem FindObjects_contract_witness:
  "\<exists>x w'. FindObjects 5 32 (loaded_world finder 40) = (Ret x, w') \<and> (case x of Inl _ \<Rightarrow> True | Inr hs \<Rightarrow> length hs \<le> 32)"
proof -
  have m: "modl (loaded_world finder 40) = Some \<lparr>mblk = Ptr 0, dl = 7, fns = Some finder, fns32 = None, fnsBase = Some finder\<rparr>" by simp
  have n: "(0 :: int) < 32" "(32 :: int) \<le> 2 ^ 45" by simp_all
  from FindObjects_contract [OF loaded_wf [OF finder_conforming] m loaded_no_oom finder_honest n, of 5] show ?thesis
    by (fastforce split: sum.split)
qed

text \<open>C30: The step relies on the count the module reports: one that claims more handles than it was given room for makes
  \<open>FindObjects\<close> panic on an index out of range, whatever the module loaded.\<close>

theorem FindObjects_overcount_panics:
  fixes w :: "'m world"
  assumes "wf w" and "modl w = Some md" and "served md (Obj C_FindObjects) = Inr N" and "0 < n" and "n \<le> 2 ^ 45"
    and "N (nat_st w) (Call (Obj C_FindObjects) [SULong sh, SArr True (of_int n)]) = (r, ms)" and "rv r = CKR_OK"
    and "nat n < unat (olen r)" and "unat (olen r) \<le> 2 ^ 45"
  shows "fst (FindObjects sh n w) = Panic ''index out of range''"
proof -
  have un: "unat (of_int n :: uint) = nat n" using assms(4,5) by (simp add: unat_eq_nat_uint uint_word_of_int)
  have c: "conforming N" by (rule served_conforming [OF assms(1-3)])
  have f: "fits [SULong sh, SArr True (of_int n)] r" by (rule conformingD [OF c assms(6)])
  then have h: "owrites r = []" "obytes r = []" "length (ohandles r) \<le> nat n" using un by (simp_all add: fits_def)
  have nn: "\<not> nat n > 2 ^ 45" "\<not> n \<le> 0" using assms(4,5) by (simp_all add: not_less nat_le_iff)
  show ?thesis using assms(2,3,6,7,8,9) h nn un assms(1)
    by (simp add: FindObjects_def with_ctx_def go_run grab_def RLock_def RUnlock_def wf_def ck_arr_def ck_run native_call_def
        store_reply_def Let_def toError_def copy_list_def)
qed

theorem FindObjects_overcount_panics_witness:
  "fst (FindObjects 5 32 (loaded_world boaster 0)) = Panic ''index out of range''"
proof -
  let ?md = "\<lparr>mblk = Ptr 0, dl = 7, fns = Some boaster, fns32 = None, fnsBase = Some boaster\<rparr>"
  have m: "modl (loaded_world boaster 0) = Some ?md" "served ?md (Obj C_FindObjects) = Inr boaster"
    by (simp_all add: served_def CK_FNS_def)
  have n: "(0 :: int) < 32" "(32 :: int) \<le> 2 ^ 45" by simp_all
  have r: "boaster (nat_st (loaded_world boaster 0)) (Call (Obj C_FindObjects) [SULong 5, SArr True (of_int 32)]) =
      ((reply0 CKR_OK)\<lparr>olen := 33\<rparr>, 0)" "rv ((reply0 CKR_OK)\<lparr>olen := 33\<rparr>) = CKR_OK"
    "nat 32 < unat (olen ((reply0 CKR_OK)\<lparr>olen := 33\<rparr>))" "unat (olen ((reply0 CKR_OK)\<lparr>olen := 33\<rparr>)) \<le> 2 ^ 45"
    by (simp_all add: boaster_def reply0_def)
  show ?thesis by (rule FindObjects_overcount_panics [OF loaded_wf [OF boaster_conforming] m n r])
qed

section \<open>The life of GCM parameters\<close>

text \<open>C9: However builds, \<open>Free\<close>s and nonces written by the module interleave, a \<open>GCMParams\<close> object never faults; its memory is
  there while a build is outstanding, and once it has been freed with no build outstanding the C heap is as before
  \<open>NewGCMParams\<close>, with the IV and the additional data scrubbed; any number of further \<open>Free\<close>s do nothing.\<close>

theorem GCMParams_life:
  fixes w :: "'m world"
  assumes "heap_ok (hp w)" and "\<not> oom w" and "gcm_tag_ok tagBits" and "fits64 ivb" and "fits64 aadb"
    and "gsteps (length ivb) ops (GLive 0 False) = Some t"
  shows "\<exists>v u i. NewGCMParams ivb aadb tagBits w = (Ret i, v) \<and> gcm_runs i ops v = (Ret (), u) \<and> gcm_inv i (length ivb) w t u \<and>
    (t = GFreed \<longrightarrow> mem (hp u) = mem (hp w) \<and>
      (\<exists>fs. freed (hp u) = freed (hp w) @ fs \<and> (\<forall>x \<in> set fs. scrubbed (junk (hp w)) x)))"
proof -
  obtain v where v: "NewGCMParams ivb aadb tagBits w = (Ret (brk (hp w)), v)" "gcm_inv (brk (hp w)) (length ivb) w (GLive 0 False) v"
    using NewGCMParams_inv [OF assms(1-5)] by blast
  from gcm_runs_sim [OF v(2) assms(6)] obtain u where
    u: "gcm_runs (brk (hp w)) ops v = (Ret (), u)" "gcm_inv (brk (hp w)) (length ivb) w t u" by blast
  have "t = GFreed \<longrightarrow> mem (hp u) = mem (hp w) \<and>
      (\<exists>fs. freed (hp u) = freed (hp w) @ fs \<and> (\<forall>x \<in> set fs. scrubbed (junk (hp w)) x))"
    using u(2) by (auto simp: gcm_inv_def)
  then show ?thesis using v(1) u by blast
qed

theorem GCMParams_life_witness:
  "\<exists>v u i. NewGCMParams [1, 2, 3] [4] 128 toy_world = (Ret i, v) \<and>
     gcm_runs i [GBuild, GFree, GNonce [9, 9, 9], GDone, GFree] v = (Ret (), u) \<and> mem (hp u) = mem toy_heap"
proof -
  have h: "heap_ok (hp toy_world)" "hp toy_world = toy_heap" using toy_wf by (simp_all add: wf_def toy_world_def)
  have t: "gcm_tag_ok 128" "fits64 [1, 2, 3 :: byte]" "fits64 [4 :: byte]" by (simp_all add: gcm_tag_ok_def fits64_def)
  have g: "gsteps (length [1, 2, 3 :: byte]) [GBuild, GFree, GNonce [9, 9, 9], GDone, GFree] (GLive 0 False) = Some GFreed" by simp
  from GCMParams_life [OF h(1) toy_no_oom t g] show ?thesis unfolding h(2) by blast
qed

text \<open>C25: A nonce the module writes into the buffer prepared by \<open>NewGCMParamsHSMIV\<close> is what \<open>IV\<close> returns, at any time before the
  memory goes, and until then a further build succeeds, also when \<open>Free\<close> has been called and waits for the outstanding builds.
  Once the memory is released, by \<open>Free\<close> or by the last of these builds, a build panics instead of handing out a dangling
  pointer.\<close>

theorem GCMParams_nonce:
  fixes w :: "'m world"
  assumes "heap_ok (hp w)" and "\<not> oom w" and "gcm_tag_ok tagBits" and "0 < length nonce" and "length nonce < 2 ^ 31" and "fits64 aadb"
    and "gsteps (length nonce) ops (GLive 0 False) = Some t"
  shows "\<exists>v u i. NewGCMParamsHSMIV (int (length nonce)) aadb tagBits w = (Ret i, v) \<and> gcm_runs i ops v = (Ret (), u) \<and>
    (case t of
       GLive n p \<Rightarrow> (\<exists>u'. gcm_run i (GNonce nonce) u = (Ret (), u') \<and> gcm_IV i u' = (Ret nonce, u')) \<and>
         (\<exists>u'. gcm_run i GBuild u = (Ret (), u'))
     | GFreed \<Rightarrow> gcm_build i u = (Panic ''cryptoki: GCMParams.build called after Free'', u))"
proof -
  have n: "0 < int (length nonce)" "int (length nonce) < 2 ^ 64" using assms(4,5) by simp_all
  obtain v where v: "NewGCMParamsHSMIV (int (length nonce)) aadb tagBits w = (Ret (brk (hp w)), v)"
    "gcm_inv (brk (hp w)) (length nonce) w (GLive 0 False) v"
    using NewGCMParamsHSMIV_inv [OF assms(1-3) n assms(6)] by auto
  from gcm_runs_sim [OF v(2) assms(7)] obtain u where
    u: "gcm_runs (brk (hp w)) ops v = (Ret (), u)" "gcm_inv (brk (hp w)) (length nonce) w t u" by blast
  show ?thesis
  proof (cases t)
    case (GLive n p)
    have "gstep (length nonce) GBuild (GLive n p) = Some (GLive (Suc n) p)" by simp
    from gcm_run_step [OF u(2) [unfolded GLive] this] obtain b where "gcm_run (brk (hp w)) GBuild u = (Ret (), b)" by blast
    then show ?thesis using IV_reads_nonce [OF u(2) [unfolded GLive] refl assms(4,5)] v u GLive by auto
  next
    case GFreed
    from build_after_Free [OF u(2) [unfolded GFreed]] show ?thesis using v u GFreed by auto
  qed
qed

theorem GCMParams_nonce_witness:
  "\<exists>v u u' i. NewGCMParamsHSMIV (int (length [7, 7, 7 :: byte])) [] 96 toy_world = (Ret i, v) \<and> gcm_runs i [GBuild] v = (Ret (), u) \<and>
     gcm_run i (GNonce [7, 7, 7]) u = (Ret (), u') \<and> gcm_IV i u' = (Ret [7, 7, 7], u')"
proof -
  have h: "heap_ok (hp toy_world)" using toy_wf by (simp add: wf_def)
  have t: "gcm_tag_ok 96" "0 < length [7, 7, 7 :: byte]" "length [7, 7, 7 :: byte] < 2 ^ 31" "fits64 ([] :: byte list)"
    by (simp_all add: gcm_tag_ok_def fits64_def)
  have g: "gsteps (length [7, 7, 7 :: byte]) [GBuild] (GLive 0 False) = Some (GLive 1 False)" by simp
  from GCMParams_nonce [OF h toy_no_oom t g] show ?thesis unfolding gcm_state.case by blast
qed

section \<open>Helpers\<close>

text \<open>Releasing a buffer of secret data with its length overwrites all of it first: the block is gone from the heap, and what
  the allocator got back is zeros only.\<close>

theorem zfree_scrubs:
  assumes "mem (hp w) a = Some (CBytes b)" and "length b < 2 ^ 64"
  shows "\<exists>w'. zfree (Ptr a) (ulong_len b) w = (Ret (), w') \<and> mem (hp w') = (mem (hp w))(a := None) \<and>
    freed (hp w') = freed (hp w) @ [(a, CBytes (replicate (length b) 0))]"
proof -
  have u: "unat (ulong_len b) = length b" using assms(2) by (simp add: fits64_def)
  then have "ulong_len b > 0 \<longleftrightarrow> b \<noteq> []" by (metis length_0_conv unat_eq_0 word_gt_0)
  then show ?thesis using assms(1) u by (cases "b = []") (simp_all add: zfree_def go_run heap_op_def)
qed

theorem zfree_scrubs_witness:
  "\<exists>w'. zfree (Ptr 0) (ulong_len [1, 2, 3 :: byte]) (toy_world\<lparr>hp := toy_heap\<lparr>mem := [0 \<mapsto> CBytes [1, 2, 3]]\<rparr>\<rparr>) = (Ret (), w') \<and>
     freed (hp w') = [(0, CBytes [0, 0, 0])]"
proof -
  let ?w = "toy_world\<lparr>hp := toy_heap\<lparr>mem := [0 \<mapsto> CBytes [1, 2, 3]]\<rparr>\<rparr>"
  have "mem (hp ?w) 0 = Some (CBytes [1, 2, 3])" "length [1, 2, 3 :: byte] < 2 ^ 64" "freed (hp ?w) = []"
    by (simp_all add: toy_heap_def)
  from zfree_scrubs [OF this(1,2)] this(3) show ?thesis by (auto simp: numeral_3_eq_3)
qed

text \<open>The check before an attribute array is allocated is exact: it accepts a template precisely when its array of 24-byte
  structures fits into 64 MiB, and the product is never computed where it could overflow.\<close>

theorem cAttributesFits_exact:
  "cAttributesFits n e \<longleftrightarrow> 0 \<le> n \<and> 0 < e \<and> n * int e \<le> 67108864"
proof (cases "0 \<le> n \<and> 0 < e")
  case True
  then obtain k where k: "n = int k" using nonneg_int_cases by blast
  have "k \<le> 67108864 div e \<longleftrightarrow> k * e \<le> 67108864" using True by (simp add: less_eq_div_iff_mult_less_eq)
  moreover have "int k * int e \<le> 67108864 \<longleftrightarrow> k * e \<le> 67108864" by (metis of_nat_le_iff of_nat_mult of_nat_numeral)
  ultimately show ?thesis using True k by (simp add: cAttributesFits_def maxOutBuf_def)
qed (auto simp: cAttributesFits_def)

lemma dropWhile_replicate: "P x \<Longrightarrow> dropWhile P (replicate n x @ ys) = dropWhile P ys"
  by (induction n) simp_all

text \<open>A label is padded with blanks to the 32 bytes the module expects, and reading it back removes the padding: a label
  that does not itself end in a blank or a NUL comes back as it was.\<close>

theorem label_round_trip:
  assumes "length label \<le> 32" and "label = [] \<or> last label \<noteq> 32 \<and> last label \<noteq> 0"
  shows "length (padded_label label) = 32 \<and> goPaddedString (padded_label label) = label"
proof -
  have "goPaddedString (padded_label label) = rev (dropWhile (\<lambda>x. x = 32 \<or> x = 0) (rev label))"
    by (simp add: goPaddedString_def trim_right_def padded_label_def dropWhile_replicate)
  moreover have "dropWhile (\<lambda>x. x = 32 \<or> x = 0) (rev label) = rev label"
    using assms(2) by (cases label rule: rev_cases) simp_all
  ultimately show ?thesis using length_padded_label [OF assms(1)] by simp
qed

theorem label_round_trip_witness: "goPaddedString (padded_label [72, 83, 77]) = [72, 83, 77]"
  using label_round_trip [of "[72, 83, 77]"] by simp

end
