(* ===== verification/P11_Properties.thy ===== *)
theory P11_Properties
  imports Interleaving Binding_Properties
begin

text \<open>
  The properties of the object-oriented layer \<^verbatim>\<open>p11/\<close>: what opening and closing a module or a session
  guarantees, what its methods add to the operations of the binding, and that a search returns.
\<close>

definition toy_p11 :: "nat p11" where
  "toy_p11 = \<lparr>p11_ctx = toy_world, sessions = [0 \<mapsto> \<lparr>ps_handle = 5, ps_mu = False, ps_closed = False\<rparr>], nsessions = 1,
     closeOnce = False, closeErr = None\<rparr>"

definition closed_p11 :: "nat p11" where
  "closed_p11 = toy_p11\<lparr>sessions := [0 \<mapsto> \<lparr>ps_handle = 5, ps_mu = False, ps_closed = True\<rparr>]\<rparr>"

lemma toy_unlocked:
  "unlocked toy_p11 0 \<lparr>ps_handle = 5, ps_mu = False, ps_closed = False\<rparr>"
  "unlocked closed_p11 0 \<lparr>ps_handle = 5, ps_mu = False, ps_closed = True\<rparr>"
  by (simp_all add: unlocked_def toy_p11_def closed_p11_def)

lemma toy_p11_ctx [simp]: "p11_ctx toy_p11 = toy_world" "p11_ctx closed_p11 = toy_world"
  by (simp_all add: toy_p11_def closed_p11_def)

section \<open>Programs\<close>

text \<open>C2: A program that makes any sequence of calls on an open \<open>Ctx\<close>, in any order, always comes to its end: no call panics,
  reads or writes outside a C object, uses one after its release or leaves a lock held.  Afterwards the state is well formed,
  the C heap, the parameters objects, the lock, the module and the mapped libraries are as they were, and every block released
  in between was scrubbed or held public data.  It holds under these conditions.  The calls are those of \<open>ctx_call\<close>: every
  method but \<open>Destroy\<close>, with slices a Go program can hold, templates without nil elements whose array fits 64 MiB, mechanisms
  whose GCM parameters are not freed, \<open>FindObjects\<close> for at most \<open>2 ^ 45\<close> handles, and \<open>Initialize\<close> and \<open>Finalize\<close> with no
  other call running.  The module stays within the memory it is given and writes no GCM nonce in a call (\<open>wf\<close>); it answers
  what it likes, but in the three calls that return lists it counts no more entries than it had room for (\<open>counts_honestly\<close>).
  The C library refuses no allocation (\<open>oom\<close>).\<close>

theorem programs_are_safe:
  fixes w :: "'m world"
  assumes "wf w" and "\<not> oom w" and "counts_honestly w" and "list_all (ctx_call w) ms"
  shows "\<exists>w'. program ms w = (Ret (), w') \<and> wf w' \<and> frame (released UNIV) w w' \<and> mem (hp w') = mem (hp w) \<and>
    gcms w' = gcms w \<and> readers w' = readers w \<and> modl w' = modl w \<and> libs w' = libs w"
proof -
  obtain w' where p: "program ms w = (Ret (), w')" "frame (released UNIV) w w'"
    using program_safe [OF assms(4,1,2,3) frame_refl] by blast
  then show ?thesis using frame_wf [OF p(2) assms(1)] frame_obs [OF p(2)] by (auto simp: frame_def)
qed

theorem programs_are_safe_witness:
  "\<exists>w'. program [call_of (Login 5 1 [49, 50]), call_of (FindObjectsInit 5 (map Some [])), call_of (FindObjectsFinal 5),
       call_of (EncryptInit 5 (Some \<lparr>mechanism = CKM_AES_ECB, Parameter = [], params = None\<rparr>) 9), call_of (Encrypt 5 [1]),
       call_of Finalize] toy_world = (Ret (), w') \<and> wf w' \<and> mem (hp w') = mem toy_heap"
proof -
  let ?m = "Some \<lparr>mechanism = CKM_AES_ECB, Parameter = [], params = None\<rparr>"
  have f: "fits64 [49, 50 :: byte]" "fits64 [1 :: byte]" "tmpl_ok []" "readers toy_world = 0" "hp toy_world = toy_heap"
    by (simp_all add: fits64_def tmpl_ok_def cAttributesFits_def toy_world_def)
  have m: "mech_sees ?m (Some (CKM_AES_ECB, PNone)) toy_world" by (simp add: mech_sees_def fits64_def raw_view_def)
  have "session_call toy_world (call_of (Login 5 1 [49, 50]))" "session_call toy_world (call_of Finalize)"
    by (rule session_call.intros f)+
  moreover have "object_call toy_world (call_of (FindObjectsInit 5 (map Some [])))" "object_call toy_world (call_of (FindObjectsFinal 5))"
    by (rule object_call.intros f)+
  moreover have "crypt_call toy_world (call_of (EncryptInit 5 ?m 9))" "crypt_call toy_world (call_of (Encrypt 5 [1]))"
    by (rule crypt_call.intros f m)+
  ultimately have "list_all (ctx_call toy_world) [call_of (Login 5 1 [49, 50]), call_of (FindObjectsInit 5 (map Some [])),
      call_of (FindObjectsFinal 5), call_of (EncryptInit 5 ?m 9), call_of (Encrypt 5 [1]), call_of Finalize]"
    by (simp only: list.pred_inject ctx_call_def simp_thms)
  from programs_are_safe [OF toy_wf toy_no_oom toy_counts this] show ?thesis unfolding f(5) by blast
qed

section \<open>Sessions\<close>

text \<open>C12: After \<open>Close\<close>, every method that names an object or a key of the session, or makes one, returns the error
  for a closed session: no call is made, so a handle the token may have reused is never touched.\<close>

theorem closed_session_refuses:
  assumes "unlocked s i p" and "ps_closed p"
  shows "Session_CreateObject i t s = (Ret (Inl err_closed), s) \<and>
    Session_GenerateKey i m t s = (Ret (Inl err_closed), s) \<and>
    Session_GenerateKeyPair i m t u s = (Ret (Inl err_closed), s) \<and>
    Object_Attribute (new_object i h) a s = (Ret (Inl err_closed), s) \<and>
    Object_Attributes (new_object i h) as s = (Ret (Inl err_closed), s) \<and>
    Object_SetAttribute (new_object i h) a v s = (Ret (Inl err_closed), s) \<and>
    Object_Copy (new_object i h) t s = (Ret (Inl err_closed), s) \<and>
    Object_Destroy (new_object i h) s = (Ret (Inl err_closed), s) \<and>
    SecretKey_Encrypt (new_object i h) m b s = (Ret (Inl err_closed), s) \<and>
    SecretKey_Decrypt (new_object i h) m b s = (Ret (Inl err_closed), s) \<and>
    SecretKey_Wrap (new_object i h) m ob s = (Ret (Inl err_closed), s) \<and>
    SecretKey_Unwrap (new_object i h) m b t s = (Ret (Inl err_closed), s) \<and>
    PublicKey_Encrypt (new_object i h) m b s = (Ret (Inl err_closed), s) \<and>
    PublicKey_Verify (new_object i h) m b c s = (Ret (Inl err_closed), s) \<and>
    PublicKey_VerifyStateless (new_object i h) m b c s = (Ret (Inl err_closed), s) \<and>
    PublicKey_Encapsulate (new_object i h) m t s = (Ret (Inl err_closed), s) \<and>
    PrivateKey_Sign (new_object i h) m b s = (Ret (Inl err_closed), s) \<and>
    PrivateKey_Decrypt (new_object i h) m b s = (Ret (Inl err_closed), s) \<and>
    PrivateKey_Derive (new_object i h) m t s = (Ret (Inl err_closed), s) \<and>
    PrivateKey_Decapsulate (new_object i h) m b t s = (Ret (Inl err_closed), s)"
proof -
  have "po_session (new_object i h) = i" by (simp add: new_object_def)
  then have u: "unlocked s (po_session (new_object i h)) p" using assms(1) by simp
  show ?thesis
    by (intro conjI createObject.closed generateKey.closed generateKeyPair.closed attribute.closed attributes.closed
        setAttribute.closed copy.closed destroy.closed secretEncrypt.closed secretDecrypt.closed wrap.closed unwrap.closed
        publicEncrypt.closed verify.closed verifyStateless.closed encapsulate.closed sign.closed privateDecrypt.closed
        derive.closed decapsulate.closed) (rule u assms)+
qed

theorem closed_session_refuses_witness:
  "SecretKey_Encrypt (new_object 0 9) None [1] closed_p11 = (Ret (Inl err_closed), closed_p11)"
  using closed_session_refuses [OF toy_unlocked(2), of "[]" None "[]" 9 0 "[]" None "[1]" "new_object 0 1" "[]"] by simp

text \<open>C26: The first \<open>Close\<close> of a session asks the module once to close its handle and marks the session closed whatever
  the module answers; every later \<open>Close\<close> returns nil without a call.\<close>

theorem Session_Close_once:
  fixes s :: "'m p11"
  assumes "unlocked s i p" and "\<not> ps_closed p" and "wf (p11_ctx s)" and "\<not> oom (p11_ctx s)" and "modl (p11_ctx s) = Some md"
  shows "\<exists>x t. Session_Close i s = (Ret x, t) \<and> frame (released {}) (p11_ctx s) (p11_ctx t) \<and>
    (x, nview (p11_ctx t)) \<in> abs_then err_only md (Sess C_CloseSession) [SULong (ps_handle p)] (nview (p11_ctx s)) \<and>
    sessions t = (sessions s)(i \<mapsto> p\<lparr>ps_closed := True\<rparr>) \<and> Session_Close i t = (Ret (Inr ()), t)"
proof -
  obtain x w where c: "Session_Close i s = (Ret x, s\<lparr>p11_ctx := w, sessions := (sessions s)(i \<mapsto> p\<lparr>ps_closed := True\<rparr>)\<rparr>)"
    "frame (released {}) (p11_ctx s) w"
    "(x, nview w) \<in> abs_ctx (modl (p11_ctx s)) (\<lambda>md. abs_then err_only md (Sess C_CloseSession) [SULong (ps_handle p)]) (nview (p11_ctx s))"
    using Session_Close_open [OF assms(1-4)] by blast
  let ?t = "s\<lparr>p11_ctx := w, sessions := (sessions s)(i \<mapsto> p\<lparr>ps_closed := True\<rparr>)\<rparr>"
  have "unlocked ?t i (p\<lparr>ps_closed := True\<rparr>)" using assms(1) by (simp add: unlocked_def)
  from Session_Close_closed [OF this] have "Session_Close i ?t = (Ret (Inr ()), ?t)" by simp
  moreover have "(x, nview w) \<in> abs_then err_only md (Sess C_CloseSession) [SULong (ps_handle p)] (nview (p11_ctx s))"
    using c(3) assms(5) by (simp add: abs_ctx_def)
  ultimately show ?thesis using c(1,2) by (intro exI [of _ x] exI [of _ ?t]) simp
qed

theorem Session_Close_once_witness:
  "\<exists>x t. Session_Close 0 toy_p11 = (Ret x, t) \<and> Session_Close 0 t = (Ret (Inr ()), t)"
proof -
  have w: "wf (p11_ctx toy_p11)" "\<not> oom (p11_ctx toy_p11)" "modl (p11_ctx toy_p11) = Some toy_module"
    using toy_wf toy_no_oom toy_loaded by simp_all
  from Session_Close_once [OF toy_unlocked(1) _ w] show ?thesis by auto
qed

section \<open>Sharing a session\<close>

text \<open>C3: However the scheduler switches between goroutines that use one session, at the mutex or between the calls a method
  makes, the result is that of running whole methods one after the other, in the order in which they let the mutex go: no
  call of another method falls between \<open>EncryptInit\<close> and \<open>Encrypt\<close>, or into a search.  Each goroutine's methods take
  effect in the order of its program.\<close>

theorem shared_session_serializes:
  fixes s :: "'m p11"
  assumes "runs i n (initial s progs) c" and "\<forall>g < n. \<forall>(f, b) \<in> set (progs g). p11_method i f b"
    and "\<forall>g < n. outside (threads c g)"
  shows "in_order (map snd (finished c)) s = (Ret (), shared c) \<and>
    (\<forall>g < n. done_by g c @ map fst (remaining (threads c g)) = map fst (progs g))"
proof -
  from runs_serial [OF assms(1,2)] assms(3) have "in_order (map snd (finished c)) s = (Ret (), shared c)"
    unfolding serial_inv_def ends_at_def by fastforce
  moreover have "done_by g c @ map fst (remaining (threads c g)) = map fst (progs g)" if "g < n" for g
    using runs_program [OF assms(1), of g] assms(3) that by (cases "threads c g") auto
  ultimately show ?thesis by blast
qed

definition logout_body :: "nat p11 body" where
  "logout_body = one 0 (\<lambda>h. Logout h)"

definition one_logout :: "nat \<Rightarrow> ((nat p11, unit) go \<times> nat p11 body) list" where
  "one_logout g = (if g = 1 then [(call_of (Session_Logout 0), logout_body)] else [])"

lemma one_logout_method: "\<forall>g < 2. \<forall>(f, b) \<in> set (one_logout g). p11_method 0 f b"
proof -
  have "p11_method 0 (call_of (Session_Logout 0)) logout_body"
    unfolding p11_method_def logout_body_def by (rule disjI1) (rule session_method.intros)
  then show ?thesis by (simp add: one_logout_def)
qed

lemma logout_runs: "\<exists>t. seq_run 0 logout_body toy_p11 = (Ret (), t)"
proof -
  obtain x w where "Logout 5 toy_world = (Ret x, w)"
    using refines_no_oom [OF Logout_refines [of "{}" "Some toy_module" 5] toy_wf toy_loaded toy_no_oom] by blast
  then have "Session_Logout 0 toy_p11 = (Ret x, toy_p11\<lparr>p11_ctx := w\<rparr>)"
    using with_mu_lift [OF toy_unlocked(1), where m = "\<lambda>h. Logout h"] by (simp add: Session_Logout_def)
  then show ?thesis unfolding logout_body_def seq_one [symmetric] Session_Logout_def [symmetric] by (simp add: go_run)
qed

theorem shared_session_serializes_witness:
  "\<exists>c t. runs 0 2 (initial toy_p11 one_logout) c \<and> in_order [call_of (Session_Logout 0)] toy_p11 = (Ret (), t) \<and> shared c = t"
proof -
  let ?f = "call_of (Session_Logout 0) :: (nat p11, unit) go"
  obtain t where t: "seq_run 0 logout_body toy_p11 = (Ret (), t)" using logout_runs by blast
  let ?c = "initial toy_p11 one_logout"
  let ?d = "?c\<lparr>shared := t, threads := (threads ?c)(1 := Todo []), finished := finished ?c @ [(1, ?f)]\<rparr>"
  have r: "runs 0 2 ?c ?d" by (rule runs_alone) (simp_all add: initial_def one_logout_def t)
  have o: "\<forall>g < 2. outside (threads ?d g)" by (simp add: initial_def)
  from shared_session_serializes [OF r one_logout_method o] have "in_order [?f] toy_p11 = (Ret (), shared ?d)"
    by (simp add: initial_def)
  then show ?thesis using r by blast
qed

text \<open>C4: Goroutines that share a session do not block each other for ever: while a method is left to run, some goroutine can go on,
  unless the one that has the mutex is in a call of the module that does not return.\<close>

theorem shared_session_progress:
  fixes s :: "'m p11"
  assumes "runs i n (initial s progs) c" and "\<forall>g < n. \<forall>(f, b) \<in> set (progs g). p11_method i f b"
    and "unlocked s i p" and "g < n" and "threads c g \<noteq> Todo []"
  shows "(\<exists>h < n. \<exists>d. cstep i h c d) \<or>
    (\<exists>h < n. \<exists>f a ms. threads c h = Inside f (Step a) ms \<and> (\<forall>b t. a (shared c) \<noteq> (Ret b, t)))"
proof (rule runs_progress [OF assms(1,2) _ assms(4,5)])
  show "mutex i s = Some False" using assms(3) by (simp add: unlocked_def mutex_def)
qed

theorem shared_session_progress_witness: "\<exists>h < 2. \<exists>d. cstep 0 h (initial toy_p11 one_logout) d"
proof -
  have b: "(1 :: nat) < 2" "threads (initial toy_p11 one_logout) 1 \<noteq> Todo []" by (simp_all add: initial_def one_logout_def)
  from shared_session_progress [OF runs_refl one_logout_method toy_unlocked(1) b] show ?thesis
    by (auto simp: initial_def)
qed

section \<open>Keys\<close>

text \<open>C19: \<open>SecretKey.Encrypt\<close> on an open session is \<open>EncryptInit\<close> with the key's handle and then, if that succeeds,
  \<open>Encrypt\<close>: the module sees the mechanism, the key and the data as they were given, the caller gets its answer or its
  error, and nothing of the session changes, whose mutex is free again.  While somebody else has the mutex the method does
  nothing but wait.\<close>

theorem SecretKey_Encrypt_contract:
  fixes s :: "'m p11"
  assumes "unlocked s i p" and "\<not> ps_closed p" and "wf (p11_ctx s)" and "\<not> oom (p11_ctx s)" and "modl (p11_ctx s) = Some md"
    and "mech_sees m V (p11_ctx s)" and "fits64 data"
  shows "(\<exists>x w. SecretKey_Encrypt (new_object i key) m data s = (Ret x, s\<lparr>p11_ctx := w\<rparr>) \<and>
    mem (hp w) = mem (hp (p11_ctx s)) \<and> readers w = readers (p11_ctx s) \<and>
    (x, nview w) \<in> abs_try
      (abs_mech (policy (p11_ctx s)) m V (\<lambda>v. abs_then err_only md (Enc C_EncryptInit) [SULong (ps_handle p), SMech v, SULong key]))
      (\<lambda>_. abs_outOp (abs_out md (Enc C_Encrypt) [SULong (ps_handle p), data_view data])) (nview (p11_ctx s))) \<and>
    (let t = s\<lparr>sessions := (sessions s)(i \<mapsto> p\<lparr>ps_mu := True\<rparr>)\<rparr>
     in SecretKey_Encrypt (new_object i key) m data t = (Fault ''deadlock'', t))"
proof (intro conjI)
  let ?P = "\<lambda>w. modl w = Some md \<and> mech_pre UNIV (policy (p11_ctx s)) m V w"
  have ob: "po_session (new_object i key) = i" "po_handle (new_object i key) = key" by (simp_all add: new_object_def)
  show "let t = s\<lparr>sessions := (sessions s)(i \<mapsto> p\<lparr>ps_mu := True\<rparr>)\<rparr>
     in SecretKey_Encrypt (new_object i key) m data t = (Fault ''deadlock'', t)"
    by (simp add: Let_def SecretKey_Encrypt_def ob with_open_def with_mu_def mu_Lock_def go_run)
  have "stable ?P" by (intro stable_intros)
  from init_then_refines [OF this EncryptInit_refines refines_pre [OF Encrypt_refines [OF assms(7), of UNIV "Some md" "ps_handle p"]]]
  have r: "refines (released UNIV) ?P (init_then (EncryptInit (ps_handle p) m key) (Encrypt (ps_handle p) data))
    (abs_try (abs_ctx (Some md) (\<lambda>md. abs_mech (policy (p11_ctx s)) m V
        (\<lambda>v. abs_then err_only md (Enc C_EncryptInit) [SULong (ps_handle p), SMech v, SULong key])))
      (\<lambda>_. abs_ctx (Some md) (\<lambda>md. abs_outOp (abs_out md (Enc C_Encrypt) [SULong (ps_handle p), data_view data]))))"
    by simp
  have "?P (p11_ctx s)" using assms(5,6) by (simp add: mech_pre_def)
  with secretEncrypt.contract [where k = "new_object i key", unfolded ob, OF assms(1,2) r assms(3) _ assms(4)]
  show "\<exists>x w. SecretKey_Encrypt (new_object i key) m data s = (Ret x, s\<lparr>p11_ctx := w\<rparr>) \<and>
    mem (hp w) = mem (hp (p11_ctx s)) \<and> readers w = readers (p11_ctx s) \<and>
    (x, nview w) \<in> abs_try
      (abs_mech (policy (p11_ctx s)) m V (\<lambda>v. abs_then err_only md (Enc C_EncryptInit) [SULong (ps_handle p), SMech v, SULong key]))
      (\<lambda>_. abs_outOp (abs_out md (Enc C_Encrypt) [SULong (ps_handle p), data_view data])) (nview (p11_ctx s))"
    using frame_mem by (fastforce simp: abs_ctx_def)
qed

theorem SecretKey_Encrypt_contract_witness:
  "\<exists>x w. SecretKey_Encrypt (new_object 0 9) (Some \<lparr>mechanism = CKM_AES_ECB, Parameter = [], params = None\<rparr>) [1, 2] toy_p11 =
     (Ret x, toy_p11\<lparr>p11_ctx := w\<rparr>) \<and> mem (hp w) = mem toy_heap"
proof -
  let ?m = "Some \<lparr>mechanism = CKM_AES_ECB, Parameter = [], params = None\<rparr>"
  have w: "wf (p11_ctx toy_p11)" "\<not> oom (p11_ctx toy_p11)" "modl (p11_ctx toy_p11) = Some toy_module"
    using toy_wf toy_no_oom toy_loaded by simp_all
  have m: "mech_sees ?m (Some (CKM_AES_ECB, PNone)) (p11_ctx toy_p11)" by (simp add: mech_sees_def fits64_def raw_view_def)
  have f: "fits64 [1, 2 :: byte]" by (simp add: fits64_def)
  have h: "hp (p11_ctx toy_p11) = toy_heap" by (simp add: toy_world_def)
  from SecretKey_Encrypt_contract [OF toy_unlocked(1) _ w m f, of 9] show ?thesis unfolding h by auto
qed

text \<open>C23: A template for a private or secret key always names \<open>CKA_SENSITIVE\<close>, \<open>CKA_EXTRACTABLE\<close> and \<open>CKA_PRIVATE\<close>: what the
  caller said about one of them stands as it is, and the ones it did not mention are added as true, false and true.  Adding
  the defaults twice adds nothing, and a public template is left alone.\<close>

theorem secure_defaults:
  "entries t (withSecureDefaults tmpl True) =
    (if t \<in> {CKA_SENSITIVE, CKA_EXTRACTABLE, CKA_PRIVATE} \<and> entries t tmpl = [] then [bool_attr t (t \<noteq> CKA_EXTRACTABLE)]
     else entries t tmpl) \<and>
   withSecureDefaults (withSecureDefaults tmpl prv) prv = withSecureDefaults tmpl prv \<and>
   withSecureDefaults tmpl False = tmpl"
  using default_entries [of t tmpl] defaults_idem [of tmpl prv]
  by (simp add: secure_types_def default_value_def withSecureDefaults_def [of _ False])

section \<open>Searching\<close>

lemma search_body_more:
  assumes b: "search_body fuel i h t s = (Ret x, s')" and "fuel \<le> fuel'"
  shows "search_body fuel' i h t s = (Ret x, s')"
proof -
  obtain r v where f: "FindObjectsInit h t (p11_ctx s) = (r, v)" by fastforce
  obtain q u where l: "find_loop fuel i h [] (s\<lparr>p11_ctx := v\<rparr>) = (q, u)" by fastforce
  show ?thesis
  proof (cases "\<exists>y. q = Ret y")
    case True
    then have "find_loop fuel' i h [] (s\<lparr>p11_ctx := v\<rparr>) = (q, u)" using find_loop_more [OF _ assms(2)] l by blast
    then show ?thesis using b f l by (simp add: search_body_def go_run split: outcome.splits sum.splits)
  next
    case False
    then show ?thesis using b f l by (auto simp: search_body_def go_run split: outcome.splits sum.splits)
  qed
qed

text \<open>C10: \<open>FindObjects\<close> returns when the module's search runs dry, that is when every nonempty batch uses something up: from
  some number of batches on, more fuel changes nothing.  It returns the handles of the batches in their order, as objects of
  the session, or the error of the first call that failed, and finishes the search it started.\<close>

theorem Session_FindObjects_terminates:
  fixes s :: "'m p11"
  assumes "unlocked s i p" and "wf (p11_ctx s)" and "modl (p11_ctx s) = Some md" and "\<not> oom (p11_ctx s)"
    and "honest_count md (Obj C_FindObjects)" and "searching md (ps_handle p) m" and "tmpl_ok t"
  shows "\<exists>n hs err w. (\<forall>fuel \<ge> n. Session_FindObjects fuel i (map Some t) s = (Ret (map (new_object i) hs, err), s\<lparr>p11_ctx := w\<rparr>)) \<and>
    frame (released {}) (p11_ctx s) w \<and> abs_search md (ps_handle p) t (nview (p11_ctx s)) hs err (nview w)"
proof -
  obtain n hs err w where b: "search_body n i (ps_handle p) (map Some t) s = (Ret (map (new_object i) hs, err), s\<lparr>p11_ctx := w\<rparr>)"
    "frame (released {}) (p11_ctx s) w" "abs_search md (ps_handle p) t (nview (p11_ctx s)) hs err (nview w)"
    using search_body_run [OF assms(2-7)] by blast
  have "\<forall>fuel \<ge> n. Session_FindObjects fuel i (map Some t) s = (Ret (map (new_object i) hs, err), s\<lparr>p11_ctx := w\<rparr>)"
    using Session_FindObjects_run [OF assms(1) search_body_more [OF b(1)]] by blast
  then show ?thesis using b(2,3) by blast
qed

lemma finder_searching:
  "searching \<lparr>mblk = Ptr 0, dl = 7, fns = Some finder, fns32 = None, fnsBase = Some finder\<rparr> h (\<lambda>n. n)"
  unfolding searching_def
  by (auto simp: abs_find_def abs_arr_def abs_bind_def abs_ret_def abs_ck_def abs_call_def served_def CK_FNS_def finder_def
      Let_def toError_def reply0_def unat_of_nat min_def split: option.splits if_splits)

definition finder_p11 :: "nat p11" where
  "finder_p11 = toy_p11\<lparr>p11_ctx := loaded_world finder 40\<rparr>"

theorem Session_FindObjects_terminates_witness:
  "\<exists>n hs err w. Session_FindObjects n 0 (map Some []) finder_p11 =
     (Ret (map (new_object 0) hs, err), finder_p11\<lparr>p11_ctx := w\<rparr>)"
proof -
  have u: "unlocked finder_p11 0 \<lparr>ps_handle = 5, ps_mu = False, ps_closed = False\<rparr>"
    using toy_unlocked(1) by (simp add: unlocked_def finder_p11_def)
  have c: "p11_ctx finder_p11 = loaded_world finder 40" by (simp add: finder_p11_def)
  have t: "tmpl_ok []" by (simp add: tmpl_ok_def cAttributesFits_def)
  from Session_FindObjects_terminates [OF u, unfolded c, OF loaded_wf [OF finder_conforming] loaded_simps(1) loaded_no_oom
      finder_honest finder_searching t] show ?thesis by blast
qed

section \<open>Modules\<close>

text \<open>C16: Opening a module is all or nothing, for any path and whatever the linker finds there.  It succeeds only for an
  absolute path to a library that loads and whose \<open>C_Initialize\<close>, called once with the locking flag, succeeds; then the module
  is ready with nothing running in it.  Otherwise it returns the error of \<open>New\<close> without a call, or the error of
  \<open>C_Initialize\<close>, after which the library is unloaded again and its block freed: there is no module, and the C heap and the
  mapped libraries are those from before.\<close>

theorem OpenModule_all_or_nothing:
  fixes s :: "'m p11"
  assumes "idle (p11_ctx s)" and "modl (p11_ctx s) = None" and "linker_ok ld" and "lib_of ld path \<inter> libs (p11_ctx s) = {}"
  shows "\<exists>x t. OpenModule ld path s = (Ret x, t) \<and>
    (if IsAbs path \<and> (\<exists>L. usable ld path L)
     then \<exists>L. usable ld path L \<and> (x, nview (p11_ctx t)) \<in>
        abs_then err_only (loaded_as L (Suc (brk (hp (p11_ctx s))))) (Life C_Initialize) [SULong CKF_OS_LOCKING_OK] (nview (p11_ctx s)) \<and>
        (x = Inr () \<longrightarrow> modl (p11_ctx t) = Some (loaded_as L (Suc (brk (hp (p11_ctx s))))) \<and> idle (p11_ctx t))
     else (\<exists>e. x = Inl e \<and> fst (New ld path (p11_ctx s)) = Ret (Inl e)) \<and> nview (p11_ctx t) = nview (p11_ctx s)) \<and>
    (\<forall>e. x = Inl e \<longrightarrow> modl (p11_ctx t) = None \<and> mem (hp (p11_ctx t)) = mem (hp (p11_ctx s)) \<and>
      libs (p11_ctx t) = libs (p11_ctx s))"
proof (cases "IsAbs path \<and> (\<exists>L. usable ld path L)")
  case True
  then obtain L where L: "IsAbs path" "usable ld path L" by blast
  then have n: "lib_dl L \<notin> libs (p11_ctx s)" using assms(4) by (simp add: lib_of_def usable_def)
  obtain x t where e: "OpenModule ld path s = (Ret x, t)" using OpenModule_run [OF assms(1) L assms(3) n] by (metis prod.collapse)
  show ?thesis using OpenModule_run [OF assms(1) L assms(3) n] True L(2) unfolding e
    by (intro exI [of _ x] exI [of _ t]) (cases x; auto)
next
  case False
  have w: "wf (p11_ctx s)" "\<not> oom (p11_ctx s)" using assms(1) by (simp_all add: idle_def)
  obtain e v where e: "New ld path (p11_ctx s) = (Ret (Inl e), v)" "mem (hp v) = mem (hp (p11_ctx s))" "libs v = libs (p11_ctx s)"
    "modl v = modl (p11_ctx s)" "nview v = nview (p11_ctx s)"
  proof (cases "IsAbs path")
    case True
    then show thesis using New_fails [OF w, of ld path] False assms(4) that by (metis Diff_triv inf_commute subset_antisym)
  qed (use New_relative that in blast)
  show ?thesis using OpenModule_load_fails [OF e(1)] e assms(2) False by auto
qed

lemma toy_idle: "idle (toy_world\<lparr>modl := None\<rparr>)" "idle toy_world"
  using unloaded_wf toy_wf toy_no_oom by (simp_all add: idle_def toy_world_def)

theorem OpenModule_all_or_nothing_witness:
  "\<exists>x t. OpenModule (\<lambda>path. Inr toy_library) ''/lib/p11.so'' (toy_p11\<lparr>p11_ctx := toy_world\<lparr>modl := None\<rparr>\<rparr>) = (Ret x, t) \<and>
     (\<forall>e. x = Inl e \<longrightarrow> mem (hp (p11_ctx t)) = mem toy_heap)"
proof -
  let ?s = "toy_p11\<lparr>p11_ctx := toy_world\<lparr>modl := None\<rparr>\<rparr>" and ?ld = "\<lambda>path :: string. Inr toy_library"
  have s: "idle (p11_ctx ?s)" "modl (p11_ctx ?s) = None" "lib_of ?ld ''/lib/p11.so'' \<inter> libs (p11_ctx ?s) = {}" "hp (p11_ctx ?s) = toy_heap"
    using toy_idle(1) by (simp_all add: toy_library_def toy_world_def lib_of_def)
  from OpenModule_all_or_nothing [OF s(1,2) toy_usable(2) s(3)] show ?thesis unfolding s(4) by blast
qed

text \<open>C15: The first \<open>Close\<close> of a module finalises it, unloads the library and frees its block; it reports the error of
  \<open>C_Finalize\<close> but unloads in any case.  Every later \<open>Close\<close> returns the same error and does nothing.\<close>

theorem Module_Close_once:
  fixes s :: "'m p11"
  assumes "\<not> closeOnce s" and "idle (p11_ctx s)" and "modl (p11_ctx s) = Some md"
  shows "\<exists>x t. Module_Close s = (Ret (err_of x), t) \<and>
    (x, nview (p11_ctx t)) \<in> abs_then err_only md (Life C_Finalize) [] (nview (p11_ctx s)) \<and>
    modl (p11_ctx t) = None \<and> libs (p11_ctx t) = libs (p11_ctx s) - {dl md} \<and> wf (p11_ctx t) \<and>
    (\<exists>a. mblk md = Ptr a \<and> mem (hp (p11_ctx t)) = (mem (hp (p11_ctx s)))(a := None)) \<and>
    Module_Close t = (Ret (err_of x), t)"
proof -
  obtain x u a where c: "Module_Close s = (Ret (err_of x), s\<lparr>p11_ctx := u, closeOnce := True, closeErr := err_of x\<rparr>)"
    "(x, nview u) \<in> abs_then err_only md (Life C_Finalize) [] (nview (p11_ctx s))" "wf u" "modl u = None"
    "libs u = libs (p11_ctx s) - {dl md}" "mblk md = Ptr a" "mem (hp u) = (mem (hp (p11_ctx s)))(a := None)"
    using Module_Close_first [OF assms] by blast
  let ?t = "s\<lparr>p11_ctx := u, closeOnce := True, closeErr := err_of x\<rparr>"
  have "Module_Close ?t = (Ret (err_of x), ?t)" using Module_Close_again [of ?t] by simp
  then show ?thesis using c by (intro exI [of _ x] exI [of _ ?t]) simp
qed

theorem Module_Close_once_witness:
  "\<exists>e t. Module_Close toy_p11 = (Ret e, t) \<and> modl (p11_ctx t) = None \<and> libs (p11_ctx t) = {} \<and> Module_Close t = (Ret e, t)"
proof -
  have s: "\<not> closeOnce toy_p11" "idle (p11_ctx toy_p11)" "modl (p11_ctx toy_p11) = Some toy_module"
    using toy_idle(2) toy_loaded by (simp_all add: toy_p11_def)
  have "libs (p11_ctx toy_p11) - {dl toy_module} = {}" by (simp add: toy_world_def toy_module_def)
  with Module_Close_once [OF s] show ?thesis by auto
qed

end
