(* ===== verification/Codec_Properties.thy ===== *)
theory Codec_Properties
  imports ULong
begin

text \<open>
  The properties of the small codecs of \<^verbatim>\<open>cryptoki/\<close>: \<open>CK_ULONG\<close> values as bytes on the platforms the binding
  supports, attributes built from Go values, and the text of error and attribute names.
\<close>

text \<open>C34: A \<open>CK_ULONG\<close> that is encoded decodes to itself, on every width and byte order; exactly the values that do not fit the
  platform's width are refused, by a panic, never truncated.\<close>

theorem ULong_round_trip:
  assumes "ULongSize pf = 4 \<or> ULongSize pf = 8"
  shows "(\<forall>b. ULongToBytes pf v = Ret b \<longrightarrow> length b = ULongSize pf \<and> BytesToULong pf b = v) \<and>
    ((\<exists>b. ULongToBytes pf v = Ret b) \<longleftrightarrow> unat v < 256 ^ ULongSize pf) \<and>
    ((\<exists>e. ULongToBytes pf v = Panic e) \<longleftrightarrow> 256 ^ ULongSize pf \<le> unat v)"
proof (cases "unat v < 256 ^ ULongSize pf")
  case True
  then show ?thesis using ckULong_fits [OF True] BytesToULong_ckULong [OF assms, of v _ "[]"]
    by (auto simp: ULongToBytes_def)
next
  case False
  then show ?thesis using ckULong_wide [of pf v] by (simp add: ULongToBytes_def)
qed

lemma le_bytes_4: "le_bytes 4 v = [of_nat v, of_nat (v div 256), of_nat (v div 256 div 256), of_nat (v div 256 div 256 div 256)]"
proof -
  have "(4 :: nat) = Suc (Suc (Suc (Suc 0)))" by simp
  then show ?thesis by (simp only: le_bytes.simps)
qed

theorem ULong_round_trip_witness:
  "BytesToULong llp64 [1, 2, 0, 0] = 513 \<and> (\<exists>e. ULongToBytes llp64 (2 ^ 32) = Panic e)"
proof -
  have w: "ULongSize llp64 = 4 \<or> ULongSize llp64 = 8" by (simp add: llp64_def)
  have b: "ULongToBytes llp64 513 = Ret [1, 2, 0, 0]"
    by (simp add: ULongToBytes_def ckULong_def llp64_def native_bytes_def le_bytes_4)
  have "256 ^ ULongSize llp64 \<le> unat (2 ^ 32 :: uint)" by (simp add: llp64_def)
  then show ?thesis using ULong_round_trip [OF w, of 513] ULong_round_trip [OF w, of "2 ^ 32"] b by blast
qed

text \<open>What a short value from a token decodes to depends on the byte order of the platform: it is extended with zeros as a
  number only where the least significant byte comes first; elsewhere it is shifted up.\<close>

theorem short_value_depends_on_endianness:
  assumes "length b \<le> 8"
  shows "BytesToULong lp64 b = of_nat (le_value b) \<and>
    BytesToULong lp64be b = of_nat (256 ^ (8 - length b) * le_value (rev b))"
proof -
  have z: "le_value (replicate k 0 @ c) = 256 ^ k * le_value c" for k and c :: "byte list"
    by (induction k) simp_all
  have "BytesToULong lp64 b = of_nat (le_value (take 8 b))"
    using BytesToULong_le [of lp64 b] by (simp add: lp64_def)
  moreover have "BytesToULong lp64be b = of_nat (256 ^ (8 - length b) * le_value (rev b))"
    using assms z [of "8 - length b" "rev b"] by (simp add: BytesToULong_def native_value_def lp64be_def Let_def)
  ultimately show ?thesis using assms by simp
qed

theorem short_value_depends_on_endianness_witness:
  "BytesToULong lp64 [1] = 1 \<and> BytesToULong lp64be [1] = 72057594037927936"
  using short_value_depends_on_endianness [of "[1]"] by simp

text \<open>C39: An attribute for a Go integer is built exactly when the integer is a value of the platform's \<open>CK_ULONG\<close>, and then holds its
  encoding; negative integers and those too wide panic.\<close>

theorem NewAttribute_int:
  assumes "ULongSize pf = 4 \<or> ULongSize pf = 8" and "i < 2 ^ 63"
  shows "((\<exists>a. NewAttribute pf t (VInt i) = Ret a) \<longleftrightarrow> 0 \<le> i \<and> nat i < 256 ^ ULongSize pf) \<and>
    (\<forall>a. NewAttribute pf t (VInt i) = Ret a \<longrightarrow> Type a = t \<and> map_option (BytesToULong pf) (Value a) = Some (of_int i)) \<and>
    ((\<exists>e. NewAttribute pf t (VInt i) = Panic e) \<longleftrightarrow> i < 0 \<or> 256 ^ ULongSize pf \<le> nat i)"
proof (cases "i < 0")
  case False
  then have u: "unat (of_int i :: uint) = nat i" using assms(2) by (simp add: unat_eq_nat_uint uint_word_of_int)
  show ?thesis
  proof (cases "nat i < 256 ^ ULongSize pf")
    case True
    then have c: "ckULong pf (of_int i) = Ret (native_bytes pf (nat i))" using ckULong_fits [of "of_int i" pf] u by simp
    then show ?thesis using False True BytesToULong_ckULong [OF assms(1) c, of "[]"]
      by (simp add: map_outcome_def attr_def)
  next
    case wide: False
    then have c: "ckULong pf (of_int i) = Panic ''cryptoki: value overflows CK_ULONG on this platform''"
      using ckULong_wide [of pf "of_int i"] u by simp
    then show ?thesis using False wide by (simp add: map_outcome_def)
  qed
qed simp

theorem NewAttribute_int_witness:
  "(\<exists>e. NewAttribute llp64 CKA_CLASS (VInt 4294967296) = Panic e) \<and> (\<exists>a. NewAttribute llp64 CKA_CLASS (VInt 4294967295) = Ret a)"
proof -
  have w: "ULongSize llp64 = 4 \<or> ULongSize llp64 = 8" by (simp add: llp64_def)
  have "(\<exists>e. NewAttribute llp64 CKA_CLASS (VInt 4294967296) = Panic e) \<longleftrightarrow> (4294967296 :: int) < 0 \<or> 256 ^ ULongSize llp64 \<le> nat 4294967296"
    using NewAttribute_int [OF w, of 4294967296] by simp
  moreover have "(\<exists>a. NewAttribute llp64 CKA_CLASS (VInt 4294967295) = Ret a) \<longleftrightarrow> (0 :: int) \<le> 4294967295 \<and> nat 4294967295 < 256 ^ ULongSize llp64"
    using NewAttribute_int [OF w, of 4294967295] by simp
  ultimately show ?thesis by (simp add: llp64_def)
qed

text \<open>The text of an error identifies its return value, whether the value has a name in the generated table or is written in
  hexadecimal; likewise the name of an attribute type.\<close>

theorem Error_string_injective: "Error_string e = Error_string e' \<longleftrightarrow> e = e'"
  by (simp add: Error_string_eq named_or_hex_inject [OF ckrNames_table])

theorem AttributeName_injective: "AttributeName t = AttributeName u \<longleftrightarrow> t = u"
  by (simp add: AttributeName_eq named_or_hex_inject [OF ckaNames_table])

text \<open>No two values render alike: the text of an error identifies its return value, and the name of an attribute type the
  type, whether they have a name in the generated tables or are written in hexadecimal.\<close>

theorem names_identify:
  "(Error_string e = Error_string e' \<longleftrightarrow> e = e') \<and> (AttributeName t = AttributeName u \<longleftrightarrow> t = u)"
  using Error_string_injective AttributeName_injective by blast

end
