(* ===== verification/Genconst.thy ===== *)
theory Genconst
  imports Go_Prelude "HOL-Library.Char_ord"
begin

text \<open>
  \<^verbatim>\<open>cmd/genconst/main.go\<close>, the generator behind the constant and name tables of the binding.  It reads
  the \<open>#define\<close> lines of the PKCS \#11 header, turns each C value into a Go expression, refuses anything
  that is not a constant expression, and prints three Go files.  The regular expressions are written out as
  scanners: each is anchored or bounded by word boundaries, so a line can match in one way only.  The
  input of \<open>parse\<close> is the list of the file's lines, which theory \<open>Genconst_Main\<close> reads from the file; \<open>go_format\<close>, the library
  function \<open>format.Source\<close>, is a parameter.  Text is ASCII.
\<close>

section \<open>Characters and strings\<close>

abbreviation code :: "char \<Rightarrow> nat" where "code c \<equiv> of_char c"

definition is_digit :: "char \<Rightarrow> bool" where "is_digit c \<longleftrightarrow> 48 \<le> code c \<and> code c \<le> 57"
definition is_upper :: "char \<Rightarrow> bool" where "is_upper c \<longleftrightarrow> 65 \<le> code c \<and> code c \<le> 90"
definition is_lower :: "char \<Rightarrow> bool" where "is_lower c \<longleftrightarrow> 97 \<le> code c \<and> code c \<le> 122"
definition is_word :: "char \<Rightarrow> bool" where "is_word c \<longleftrightarrow> is_digit c \<or> is_upper c \<or> is_lower c \<or> c = CHR ''_''"

definition is_hex :: "char \<Rightarrow> bool" where
  "is_hex c \<longleftrightarrow> is_digit c \<or> 65 \<le> code c \<and> code c \<le> 70 \<or> 97 \<le> code c \<and> code c \<le> 102"

text \<open>White space of the regular expressions (\<open>\\s\<close>) and of the \<open>strings\<close> package.\<close>

definition re_space :: "char \<Rightarrow> bool" where "re_space c \<longleftrightarrow> code c \<in> {9, 10, 12, 13, 32}"
definition is_space :: "char \<Rightarrow> bool" where "is_space c \<longleftrightarrow> code c \<in> {9, 10, 11, 12, 13, 32}"

definition TrimRight :: "(char \<Rightarrow> bool) \<Rightarrow> string \<Rightarrow> string" where
  "TrimRight p s = rev (dropWhile p (rev s))"

definition TrimSpace :: "string \<Rightarrow> string" where
  "TrimSpace s = TrimRight is_space (dropWhile is_space s)"

definition HasPrefix :: "string \<Rightarrow> string \<Rightarrow> bool" where
  "HasPrefix s p \<longleftrightarrow> take (length p) s = p"

definition HasSuffix :: "string \<Rightarrow> string \<Rightarrow> bool" where
  "HasSuffix s p \<longleftrightarrow> HasPrefix (rev s) (rev p)"

definition TrimSuffix :: "string \<Rightarrow> string \<Rightarrow> string" where
  "TrimSuffix s p = (if HasSuffix s p then take (length s - length p) s else s)"

fun Contains :: "string \<Rightarrow> string \<Rightarrow> bool" where
  "Contains [] p \<longleftrightarrow> p = []"
| "Contains (c # s) p \<longleftrightarrow> HasPrefix (c # s) p \<or> Contains s p"

function Fields :: "string \<Rightarrow> string list" where
  "Fields s = (let t = dropWhile is_space s in
     if t = [] then [] else takeWhile (\<lambda>c. \<not> is_space c) t # Fields (dropWhile (\<lambda>c. \<not> is_space c) t))"
  by auto
termination
proof (relation "measure length", goal_cases)
  case (2 s t)
  then obtain c u where t: "t = c # u" using list.exhaust by blast
  then have "\<not> is_space c" using 2(1) by (metis hd_dropWhile list.sel(1) list.distinct(1))
  then have "length (dropWhile (\<lambda>c. \<not> is_space c) t) < length t" unfolding t by (simp add: le_imp_less_Suc length_dropWhile_le)
  moreover have "length t \<le> length s" using 2(1) by (simp add: length_dropWhile_le)
  ultimately show ?case by simp
qed simp

declare Fields.simps [simp del]

fun Join :: "string list \<Rightarrow> string \<Rightarrow> string" where
  "Join [] sep = []"
| "Join [x] sep = x"
| "Join (x # y # xs) sep = x @ sep @ Join (y # xs) sep"

text \<open>\<open>strings.Split\<close> at a single character; there is always at least one part.\<close>

fun Split :: "string \<Rightarrow> char \<Rightarrow> string list" where
  "Split [] c = [[]]"
| "Split (x # xs) c = (if x = c then [] # Split xs c
     else (case Split xs c of [] \<Rightarrow> [[x]] | p # ps \<Rightarrow> (x # p) # ps))"

definition ReplaceBar :: "string \<Rightarrow> string" where
  "ReplaceBar s = concat (map (\<lambda>c. if c = CHR ''|'' then '' | '' else [c]) s)"

section \<open>Matching a define\<close>

record cdefine =
  d_name :: string
  d_value :: string
  d_comment :: string

text \<open>
  \<open>defineRE\<close>.  The name is a whole word; the value runs to the first slash, which has to start a comment, less
  trailing space.  Where nothing but space follows the name, the value is the last space if there are two.
\<close>

definition match_value :: "string \<Rightarrow> string \<Rightarrow> string \<Rightarrow> (string \<times> string \<times> string) option" where
  "match_value name sp r = (let val = takeWhile (\<lambda>c. c \<noteq> CHR ''/'') r; rest = dropWhile (\<lambda>c. c \<noteq> CHR ''/'') r in
     if rest \<noteq> [] \<and> \<not> HasPrefix rest ''/*'' then None
     else if val \<noteq> [] then Some (name, TrimRight re_space val, drop 2 rest)
     else if length sp \<ge> 2 then Some (name, [last sp], drop 2 rest)
     else None)"

definition match_define :: "string \<Rightarrow> (string \<times> string \<times> string) option" where
  "match_define line = (if \<not> HasPrefix line ''#define'' then None else
     let r = drop 7 line; r2 = dropWhile re_space r; name = takeWhile is_word r2; r3 = dropWhile is_word r2;
         sp = takeWhile re_space r3 in
     if takeWhile re_space r = [] \<or> \<not> HasPrefix r2 ''CK'' \<or> sp = [] then None
     else match_value name sp (dropWhile re_space r3))"

section \<open>Translating a value\<close>

text \<open>\<open>intSuffixRE\<close> matches whole words made of a number and a nonempty C suffix.\<close>

definition is_suffix :: "char \<Rightarrow> bool" where
  "is_suffix c \<longleftrightarrow> c \<in> {CHR ''u'', CHR ''U'', CHR ''l'', CHR ''L''}"

definition split_suffix :: "(char \<Rightarrow> bool) \<Rightarrow> string \<Rightarrow> string option" where
  "split_suffix p w = (let n = takeWhile p w; s = dropWhile p w in
     if n \<noteq> [] \<and> s \<noteq> [] \<and> list_all is_suffix s then Some n else None)"

fun strip_suffix :: "string \<Rightarrow> string" where
  "strip_suffix (z # x # w) = (if z = CHR ''0'' \<and> (x = CHR ''x'' \<or> x = CHR ''X'')
     then (case split_suffix is_hex w of Some n \<Rightarrow> z # x # n | None \<Rightarrow> z # x # w)
     else (case split_suffix is_digit (z # x # w) of Some n \<Rightarrow> n | None \<Rightarrow> z # x # w))"
| "strip_suffix w = w"

function map_words :: "(string \<Rightarrow> string) \<Rightarrow> string \<Rightarrow> string" where
  "map_words f [] = []"
| "map_words f (c # s) = (if is_word c then f (c # takeWhile is_word s) @ map_words f (dropWhile is_word s)
     else c # map_words f s)"
  by pat_completeness auto
termination by (relation "measure (\<lambda>(f, s). length s)") (simp_all add: le_imp_less_Suc length_dropWhile_le)

definition intSuffixRE :: "string \<Rightarrow> string" where
  "intSuffixRE s = map_words strip_suffix s"

definition collapse :: "string \<Rightarrow> string" where
  "collapse v = concat (Fields (intSuffixRE v))"

definition translate :: "string \<Rightarrow> string \<Rightarrow> string" where
  "translate name raw = (let v = TrimSpace raw in
     if name = ''CK_TRUE'' then ''true''
     else if name = ''CK_FALSE'' then ''false''
     else if collapse v = ''(~0)'' then ''^uint(0)''
     else let v = intSuffixRE v in
       if HasPrefix v ''('' \<and> Contains v ''|'' then Join (Fields (ReplaceBar v)) '' '' else v)"

section \<open>Validating it\<close>

datatype gen_error =
    Empty_value string
  | Bad_characters string string
  | Comment_introducer string string
  | Function_call string string
  | Cannot_evaluate string string
  | In_define string gen_error

definition valueRE_char :: "char \<Rightarrow> bool" where
  "valueRE_char c \<longleftrightarrow> is_word c \<or> c \<in> set ''()|&^~+*/<> -'' \<or> code c = 9"

fun callRE :: "string \<Rightarrow> bool" where
  "callRE [] \<longleftrightarrow> False"
| "callRE (c # s) \<longleftrightarrow> is_word c \<and> HasPrefix (dropWhile re_space s) ''('' \<or> callRE s"

definition validateValue :: "string \<Rightarrow> string \<Rightarrow> gen_error + unit" where
  "validateValue name v =
     (if v = [] then Inl (Empty_value name)
      else if \<not> list_all valueRE_char v then Inl (Bad_characters name v)
      else if Contains v ''//'' \<or> Contains v ''/*'' then Inl (Comment_introducer name v)
      else if v \<noteq> ''^uint(0)'' \<and> callRE v then Inl (Function_call name v)
      else Inr ())"

definition cleanComment :: "string \<Rightarrow> string" where
  "cleanComment c = TrimSpace (TrimSpace (TrimSuffix (TrimSpace c) ''*/''))"

fun parse :: "string list \<Rightarrow> gen_error + cdefine list" where
  "parse [] = Inr []"
| "parse (line # ls) = (case match_define line of
      None \<Rightarrow> parse ls
    | Some (name, raw, comment) \<Rightarrow> (let val = translate name raw in
        case validateValue name val of
          Inl e \<Rightarrow> Inl (In_define name e)
        | Inr _ \<Rightarrow> (case parse ls of
            Inl e \<Rightarrow> Inl e
          | Inr ds \<Rightarrow> Inr (\<lparr>d_name = name, d_value = val, d_comment = cleanComment comment\<rparr> # ds))))"

section \<open>Printing the files\<close>

definition NL :: string where "NL = [char_of (10 :: nat)]"
definition TAB :: string where "TAB = [char_of (9 :: nat)]"
definition DQ :: string where "DQ = [char_of (34 :: nat)]"

text \<open>\<open>prefix\<close>: a macro name up to its first underscore.\<close>

definition prefix :: "string \<Rightarrow> string" where
  "prefix name = takeWhile (\<lambda>c. c \<noteq> CHR ''_'') name"

definition preamble :: "string \<Rightarrow> string \<Rightarrow> string" where
  "preamble pkg header =
     ''// SPDX-FileCopyrightText: Copyright (c) 2026 The Eclipse Foundation and pkcs11-go Authors'' @ NL @
     ''// SPDX-License-Identifier: MIT'' @ NL @ NL @
     ''// Code generated by '' @ DQ @ ''go run ./cmd/genconst'' @ DQ @ ''; DO NOT EDIT.'' @ NL @
     ''// Source: '' @ header @ '' (OASIS PKCS #11 v3.2). See the repository-root NOTICE.md.'' @ NL @ NL @
     ''package '' @ pkg @ NL @ NL"

definition const_line :: "cdefine \<Rightarrow> string" where
  "const_line d = TAB @ d_name d @ '' = '' @ d_value d @
     (if d_comment d \<noteq> [] then '' // '' @ d_comment d else []) @ NL"

fun const_lines :: "string \<Rightarrow> cdefine list \<Rightarrow> string" where
  "const_lines prev [] = []"
| "const_lines prev (d # ds) = (let p = prefix (d_name d) in
     (if p \<noteq> prev \<and> prev \<noteq> [] then NL else []) @ const_line d @ const_lines p ds)"

definition render_text :: "string \<Rightarrow> string \<Rightarrow> cdefine list \<Rightarrow> string" where
  "render_text pkg header ds = preamble pkg header @ ''const ('' @ NL @ const_lines [] ds @ '')'' @ NL"

definition render :: "(string \<Rightarrow> string + string) \<Rightarrow> string \<Rightarrow> string \<Rightarrow> cdefine list \<Rightarrow> string + string" where
  "render go_format pkg header ds = go_format (render_text pkg header ds)"

text \<open>\<open>%q\<close> of a macro name puts it between double quotes.\<close>

definition entry_line :: "string \<Rightarrow> string" where
  "entry_line name = TAB @ name @ '': '' @ DQ @ name @ DQ @ '','' @ NL"

definition table_text :: "string \<Rightarrow> string list \<Rightarrow> string" where
  "table_text opening names = opening @ concat (map entry_line names) @ ''}'' @ NL"

definition is_CKR :: "cdefine \<Rightarrow> bool" where "is_CKR d \<longleftrightarrow> HasPrefix (d_name d) ''CKR_''"
definition is_CKA :: "cdefine \<Rightarrow> bool" where "is_CKA d \<longleftrightarrow> HasPrefix (d_name d) ''CKA_''"

definition renderErrors :: "(string \<Rightarrow> string + string) \<Rightarrow> string \<Rightarrow> string \<Rightarrow> cdefine list \<Rightarrow> (string + string) \<times> nat" where
  "renderErrors go_format pkg header ds = (let names = map d_name (filter is_CKR ds) in
     (go_format (preamble pkg header @
        table_text (''// ckrNames maps a Cryptoki CK_RV return value to its CKR_ symbol.'' @ NL @
          ''var ckrNames = map[Error]string{'' @ NL) names), length names))"

section \<open>Evaluating the values\<close>

text \<open>\<open>strconv.ParseUint(s, 0, 64)\<close> of the Go library.\<close>

definition lower_char :: "char \<Rightarrow> char" where
  "lower_char c = (if is_upper c then char_of (code c + 32) else c)"

definition digit_value :: "char \<Rightarrow> int option" where
  "digit_value c = (if is_digit c then Some (of_char c - 48)
     else if is_lower (lower_char c) then Some (of_char (lower_char c) - 87) else None)"

fun underscore_scan :: "bool \<Rightarrow> char \<Rightarrow> string \<Rightarrow> bool" where
  "underscore_scan hex i [] \<longleftrightarrow> i \<noteq> CHR ''_''"
| "underscore_scan hex i (c # s) =
     (if is_digit c \<or> hex \<and> is_hex c then underscore_scan hex CHR ''0'' s
      else if c = CHR ''_'' then (if i \<noteq> CHR ''0'' then False else underscore_scan hex CHR ''_'' s)
      else if i = CHR ''_'' then False
      else underscore_scan hex CHR ''!'' s)"

definition base_prefix :: "string \<Rightarrow> int option" where
  "base_prefix s = (case s of
      z # x # r \<Rightarrow> if z \<noteq> CHR ''0'' then None else if lower_char x = CHR ''b'' then Some 2
        else if lower_char x = CHR ''o'' then Some 8 else if lower_char x = CHR ''x'' then Some 16 else None
    | _ \<Rightarrow> None)"

definition underscoreOK :: "string \<Rightarrow> bool" where
  "underscoreOK s = (let t = (if HasPrefix s ''-'' \<or> HasPrefix s ''+'' then tl s else s) in
     case base_prefix t of
       Some b \<Rightarrow> underscore_scan (b = 16) CHR ''0'' (drop 2 t)
     | None \<Rightarrow> underscore_scan False CHR ''^'' t)"

fun parse_digits :: "int \<Rightarrow> int \<Rightarrow> string \<Rightarrow> int option" where
  "parse_digits base n [] = Some n"
| "parse_digits base n (c # s) = (if c = CHR ''_'' then parse_digits base n s else
     case digit_value c of
       None \<Rightarrow> None
     | Some d \<Rightarrow> if d \<ge> base \<or> n * base + d \<ge> 2 ^ 64 then None else parse_digits base (n * base + d) s)"

definition ParseUint :: "string \<Rightarrow> uint option" where
  "ParseUint s = (if s = [] then None else
     let r = (case base_prefix s of
           Some b \<Rightarrow> if length s \<ge> 3 then parse_digits b 0 (drop 2 s) else parse_digits 8 0 (drop 1 s)
         | None \<Rightarrow> if HasPrefix s ''0'' then parse_digits 8 0 (drop 1 s) else parse_digits 10 0 s) in
     case r of
       None \<Rightarrow> None
     | Some n \<Rightarrow> if CHR ''_'' \<in> set s \<and> \<not> underscoreOK s then None else Some (of_int n))"

unbundle bit_operations_syntax

fun eval_terms :: "(string \<Rightarrow> uint option) \<Rightarrow> uint \<Rightarrow> string list \<Rightarrow> uint option" where
  "eval_terms known acc [] = Some acc"
| "eval_terms known acc (t # ts) = (let term = TrimSpace t in case ParseUint term of
      Some v \<Rightarrow> eval_terms known (acc OR v) ts
    | None \<Rightarrow> (case known term of
        None \<Rightarrow> None
      | Some v \<Rightarrow> eval_terms known (acc OR v) ts))"

definition evalExpr :: "string \<Rightarrow> (string \<Rightarrow> uint option) \<Rightarrow> uint option" where
  "evalExpr expr known = (let e = TrimSpace expr;
       e = (if HasPrefix e ''('' \<and> HasSuffix e '')'' then butlast (tl e) else e) in
     eval_terms known 0 (Split e CHR ''|''))"

fun evaluate_from :: "(string \<Rightarrow> uint option) \<Rightarrow> cdefine list \<Rightarrow> gen_error + (string \<Rightarrow> uint option)" where
  "evaluate_from known [] = Inr known"
| "evaluate_from known (d # ds) = (case evalExpr (d_value d) known of
      Some v \<Rightarrow> evaluate_from (known(d_name d \<mapsto> v)) ds
    | None \<Rightarrow> if is_CKA d then Inl (Cannot_evaluate (d_name d) (d_value d)) else evaluate_from known ds)"

definition evaluate :: "cdefine list \<Rightarrow> gen_error + (string \<Rightarrow> uint option)" where
  "evaluate ds = evaluate_from Map.empty ds"

definition isIdentifier :: "string \<Rightarrow> bool" where
  "isIdentifier v = (case TrimSpace v of
      [] \<Rightarrow> False
    | c # s \<Rightarrow> (is_upper c \<or> is_lower c \<or> c = CHR ''_'') \<and> list_all is_word s)"

text \<open>One name per value, with the values in the order they are first defined.\<close>

fun attribute_names :: "(string \<Rightarrow> uint option) \<Rightarrow> (uint \<Rightarrow> string option) \<Rightarrow> uint list \<Rightarrow> cdefine list \<Rightarrow>
    (uint \<Rightarrow> string option) \<times> uint list" where
  "attribute_names vals names order [] = (names, order)"
| "attribute_names vals names order (d # ds) =
     (if \<not> is_CKA d then attribute_names vals names order ds
      else let v = (case vals (d_name d) of Some v \<Rightarrow> v | None \<Rightarrow> 0) in
        if names v = None then attribute_names vals (names(v \<mapsto> d_name d)) (order @ [v]) ds
        else if isIdentifier (d_value d) then attribute_names vals names order ds
        else attribute_names vals (names(v \<mapsto> d_name d)) order ds)"

definition renderAttributes ::
  "(string \<Rightarrow> string + string) \<Rightarrow> string \<Rightarrow> string \<Rightarrow> cdefine list \<Rightarrow> gen_error + (string + string) \<times> nat" where
  "renderAttributes go_format pkg header ds = (case evaluate ds of
      Inl e \<Rightarrow> Inl e
    | Inr vals \<Rightarrow> (case attribute_names vals Map.empty [] ds of (names, order) \<Rightarrow>
        Inr (go_format (preamble pkg header @
          table_text (''// ckaNames maps a CK_ATTRIBUTE_TYPE to the CKA_ symbol AttributeName reports'' @ NL @
            ''// for it. A value the header gives two names maps to the current one.'' @ NL @
            ''var ckaNames = map[uint]string{'' @ NL) (map (\<lambda>v. case names v of Some n \<Rightarrow> n | None \<Rightarrow> []) order)),
        length order)))"

end
