(* ===== verification/Genconst_Laws.thy ===== *)
theory Genconst_Laws
  imports Genconst Errors
begin

text \<open>
  What the generator guarantees: a define it accepts has the shape of a constant expression, so what it
  prints for it is one line with nothing but that expression and a comment; values are evaluated to the
  bitwise-or of their terms; every attribute value gets one name, the one the comment of \<open>renderAttributes\<close>
  describes.
\<close>

section \<open>Accepted defines\<close>

definition good_value :: "string \<Rightarrow> bool" where
  "good_value v \<longleftrightarrow> v \<noteq> [] \<and> list_all valueRE_char v \<and> \<not> Contains v ''//'' \<and> \<not> Contains v ''/*'' \<and>
     (v = ''^uint(0)'' \<or> \<not> callRE v)"

definition good_define :: "cdefine \<Rightarrow> bool" where
  "good_define d \<longleftrightarrow> HasPrefix (d_name d) ''CK'' \<and> list_all is_word (d_name d) \<and> good_value (d_value d)"

lemma validateValue_ok: "validateValue name v = Inr u \<longleftrightarrow> good_value v"
  by (auto simp: validateValue_def good_value_def)

lemma HasPrefix_CK: "HasPrefix s ''CK'' \<longleftrightarrow> (\<exists>t. s = CHR ''C'' # CHR ''K'' # t)"
proof (cases s)
  case (Cons a s')
  then show ?thesis by (cases s') (auto simp: HasPrefix_def)
qed (simp add: HasPrefix_def)

lemma match_value_name: "match_value name sp r = Some (n, v, c) \<Longrightarrow> n = name"
  by (auto simp: match_value_def Let_def split: if_splits)

lemma word_CK: "is_word (CHR ''C'')" "is_word (CHR ''K'')"
  by (simp_all add: is_word_def is_upper_def)

lemma match_define_name:
  assumes "match_define line = Some (name, v, c)"
  shows "HasPrefix name ''CK'' \<and> list_all is_word name"
proof -
  let ?r2 = "dropWhile re_space (drop 7 line)"
  have n: "name = takeWhile is_word ?r2" and p: "HasPrefix ?r2 ''CK''"
    using assms match_value_name by (auto simp: match_define_def Let_def split: if_splits)
  then show ?thesis using word_CK by (auto simp: HasPrefix_CK list_all_iff dest: set_takeWhileD)
qed

lemma parse_good:
  "parse ls = Inr ds \<Longrightarrow> d \<in> set ds \<Longrightarrow> good_define d"
proof (induction ls arbitrary: ds)
  case Nil
  then show ?case by simp
next
  case (Cons line ls)
  show ?case
  proof (cases "match_define line")
    case None
    then show ?thesis using Cons by simp
  next
    case (Some m)
    obtain name raw c where m: "m = (name, raw, c)" by (cases m)
    note nm = match_define_name [OF Some [unfolded m]]
    show ?thesis
    proof (cases "validateValue name (translate name raw)")
      case (Inl e)
      then show ?thesis using Cons.prems Some m by simp
    next
      case (Inr u)
      then obtain ds' where ds': "parse ls = Inr ds'"
        "ds = \<lparr>d_name = name, d_value = translate name raw, d_comment = cleanComment c\<rparr> # ds'"
        using Cons.prems(1) Some m by (auto simp: Let_def split: sum.splits)
      then show ?thesis using Cons.IH Cons.prems(2) nm Inr by (auto simp: good_define_def validateValue_ok)
    qed
  qed
qed

text \<open>Comments hold no more than the line they come from.\<close>

lemma set_TrimRight: "set (TrimRight p s) \<subseteq> set s"
  unfolding TrimRight_def using set_dropWhileD by fastforce

lemma set_TrimSpace: "set (TrimSpace s) \<subseteq> set s"
  unfolding TrimSpace_def using set_TrimRight set_dropWhileD by fastforce

lemma set_TrimSuffix: "set (TrimSuffix s p) \<subseteq> set s"
  by (auto simp: TrimSuffix_def dest: in_set_takeD)

lemma set_cleanComment: "set (cleanComment c) \<subseteq> set c"
  unfolding cleanComment_def using set_TrimSpace set_TrimSuffix by blast

lemma match_define_comment:
  assumes "match_define line = Some (name, v, c)"
  shows "set c \<subseteq> set line"
proof -
  have "set (drop 2 (dropWhile (\<lambda>c. c \<noteq> CHR ''/'') r)) \<subseteq> set r" for r
    using set_drop_subset set_dropWhileD by (metis subset_eq)
  moreover have "set (dropWhile re_space (dropWhile is_word (dropWhile re_space (drop 7 line)))) \<subseteq> set line"
    using set_dropWhileD set_drop_subset by (metis subset_eq)
  moreover have "\<exists>r. c = drop 2 (dropWhile (\<lambda>c. c \<noteq> CHR ''/'') r) \<and>
      r = dropWhile re_space (dropWhile is_word (dropWhile re_space (drop 7 line)))"
    using assms by (auto simp: match_define_def match_value_def Let_def split: if_splits)
  ultimately show ?thesis by blast
qed

lemma parse_comment:
  "parse ls = Inr ds \<Longrightarrow> d \<in> set ds \<Longrightarrow> set (d_comment d) \<subseteq> (\<Union>l \<in> set ls. set l)"
proof (induction ls arbitrary: ds)
  case (Cons line ls)
  show ?case
  proof (cases "match_define line")
    case (Some m)
    obtain name raw c where m: "m = (name, raw, c)" by (cases m)
    then obtain ds' where ds': "parse ls = Inr ds'"
      "ds = \<lparr>d_name = name, d_value = translate name raw, d_comment = cleanComment c\<rparr> # ds'"
      using Cons.prems(1) Some m by (auto simp: Let_def split: sum.splits)
    have "set (cleanComment c) \<subseteq> set line"
      using set_cleanComment match_define_comment [OF Some [unfolded m]] by blast
    then show ?thesis using Cons.IH [OF ds'(1)] Cons.prems(2) ds'(2) by auto
  qed (use Cons in auto)
qed simp

definition newline :: char where "newline = char_of (10 :: nat)"

lemma valueRE_newline: "\<not> valueRE_char newline" "\<not> is_word newline"
  by (simp_all add: valueRE_char_def newline_def is_word_def is_digit_def is_upper_def is_lower_def of_char_of take_bit_nat_def
    char_of_def)

text \<open>
  The code part of a printed constant: the name, an equals sign and the value, all from the constant grammar.
\<close>

definition code_char :: "char \<Rightarrow> bool" where
  "code_char c \<longleftrightarrow> valueRE_char c \<or> c = CHR ''=''"

lemma tab_ok: "valueRE_char (char_of (9 :: nat))"
  by (simp add: valueRE_char_def of_char_of take_bit_nat_def)

lemma const_line_parts:
  assumes "good_define d" and "newline \<notin> set (d_comment d)"
  shows "\<exists>expr rest. const_line d = expr @ rest @ [newline] \<and> list_all code_char expr \<and>
    expr = TAB @ d_name d @ '' = '' @ d_value d \<and> (rest = [] \<or> (\<exists>c. rest = '' // '' @ c)) \<and> newline \<notin> set (expr @ rest)"
proof -
  have nm: "list_all valueRE_char (d_name d)" using assms(1) by (auto simp: good_define_def list_all_iff valueRE_char_def)
  have vl: "list_all valueRE_char (d_value d)" using assms(1) by (simp add: good_define_def good_value_def)
  have sp: "valueRE_char (CHR '' '')" by (simp add: valueRE_char_def)
  let ?e = "TAB @ d_name d @ '' = '' @ d_value d"
  have e: "list_all code_char ?e"
    using nm vl sp tab_ok by (auto simp: list_all_iff code_char_def TAB_def)
  have "\<not> code_char newline" using valueRE_newline by (simp add: code_char_def newline_def char_of_def)
  then have ne: "newline \<notin> set ?e" using e by (auto simp: list_all_iff)
  have sl: "newline \<notin> set '' // ''" by (simp add: newline_def char_of_def)
  show ?thesis
  proof (cases "d_comment d = []")
    case True
    then show ?thesis using e ne by (intro exI [of _ ?e] exI [of _ "[]"]) (simp add: const_line_def NL_def newline_def)
  next
    case False
    then show ?thesis using e ne sl assms(2)
      by (intro exI [of _ ?e] exI [of _ "'' // '' @ d_comment d"]) (auto simp: const_line_def NL_def newline_def)
  qed
qed

section \<open>Values\<close>

definition term_value :: "(string \<Rightarrow> uint option) \<Rightarrow> string \<Rightarrow> uint option" where
  "term_value known t = (case ParseUint (TrimSpace t) of Some v \<Rightarrow> Some v | None \<Rightarrow> known (TrimSpace t))"

lemma eval_terms_eq:
  "eval_terms known a ts = map_option (\<lambda>vs. fold (OR) vs a) (those (map (term_value known) ts))"
proof (induction ts arbitrary: a)
  case (Cons t ts)
  then show ?case
    by (auto simp: Let_def term_value_def or.commute option.map_comp o_def split: option.splits)
qed simp

text \<open>A hexadecimal literal, as the header writes them, reads back as the number it denotes.\<close>

lemma code_digit_char: "d < 16 \<Longrightarrow> (of_char (digit_char d) :: nat) = (if d < 10 then 48 + d else 55 + d)"
  by (simp add: digit_char_def of_char_of take_bit_nat_def)

lemma code_lower_digit:
  "10 \<le> d \<Longrightarrow> d < 16 \<Longrightarrow> (of_char (lower_char (digit_char d)) :: nat) = 87 + d"
  by (simp add: lower_char_def is_upper_def code_digit_char of_char_of take_bit_nat_def)

lemma int_of_char: "(of_char c :: int) = int (of_char c)"
  by (simp add: of_nat_of_char)

lemma digit_char_value:
  assumes "d < 16"
  shows "digit_value (digit_char d) = Some (int d)" "digit_char d \<noteq> CHR ''_''"
proof -
  show "digit_value (digit_char d) = Some (int d)"
    using assms code_digit_char [OF assms] code_lower_digit [of d]
    by (cases "d < 10") (simp_all add: digit_value_def is_digit_def is_lower_def int_of_char)
  have "(of_char (digit_char d) :: nat) \<noteq> of_char (CHR ''_'')" using code_digit_char [OF assms] assms by simp
  then show "digit_char d \<noteq> CHR ''_''" by metis
qed

lemma foldl_digits_mono: "(a :: nat) \<le> foldl (\<lambda>a d. 16 * a + d) a ds"
proof (induction ds arbitrary: a)
  case (Cons d ds)
  have "a \<le> 16 * a + d" by simp
  also have "\<dots> \<le> foldl (\<lambda>a d. 16 * a + d) (16 * a + d) ds" by (rule Cons.IH)
  finally show ?case by simp
qed simp

lemma parse_digits_hex:
  assumes "\<forall>d \<in> set ds. d < 16" and "foldl (\<lambda>a d. 16 * a + d) a ds < 2 ^ 64"
  shows "parse_digits 16 (int a) (map digit_char ds) = Some (int (foldl (\<lambda>a d. 16 * a + d) a ds))"
  using assms
proof (induction ds arbitrary: a)
  case (Cons d ds)
  have d: "d < 16" using Cons.prems(1) by simp
  have "16 * a + d \<le> foldl (\<lambda>a d. 16 * a + d) (16 * a + d) ds" by (rule foldl_digits_mono)
  then have lt: "16 * a + d < 2 ^ 64" using Cons.prems(2) by simp
  then have "int (16 * a + d) < int (2 ^ 64)" by (simp only: of_nat_less_iff)
  then have b: "\<not> int a * 16 + int d \<ge> 2 ^ 64" by simp
  have n: "int a * 16 + int d = int (16 * a + d)" by simp
  have "parse_digits 16 (int (16 * a + d)) (map digit_char ds) = Some (int (foldl (\<lambda>a d. 16 * a + d) (16 * a + d) ds))"
    by (rule Cons.IH) (use Cons.prems in simp_all)
  then show ?case using b d unfolding n [symmetric]
    by (simp add: digit_char_value [OF d])
qed simp

text \<open>Words are neither trimmed nor split.\<close>

lemma TrimSpace_word:
  assumes "list_all is_word s"
  shows "TrimSpace s = s"
proof -
  have ns: "\<not> is_space c" if "is_word c" for c
    using that by (auto simp: is_space_def is_word_def is_digit_def is_upper_def is_lower_def)
  have d: "dropWhile is_space t = t" if "list_all is_word t" for t using that ns by (cases t) auto
  have "list_all is_word (rev s)" using assms by simp
  from d [OF this] d [OF assms] show ?thesis by (simp add: TrimSpace_def TrimRight_def)
qed

lemma Split_word: "list_all is_word s \<Longrightarrow> Split s (CHR ''|'') = [s]"
  by (induction s) (auto simp: is_word_def is_digit_def is_upper_def is_lower_def)

definition hex_literal :: "nat \<Rightarrow> string" where
  "hex_literal n = ''0x'' @ map digit_char (digits_of 16 n)"

lemma digits_of_nonempty: "digits_of b n \<noteq> []"
  by (subst digits_of.simps) simp

lemma ParseUint_hex:
  assumes "n < 2 ^ 64"
  shows "ParseUint (hex_literal n) = Some (of_nat n)"
proof -
  let ?ds = "digits_of 16 n"
  have b: "\<forall>d \<in> set ?ds. d < 16" using digits_of_bound [of 16] by simp
  have v: "foldl (\<lambda>a d. 16 * a + d) 0 ?ds = n" using undigits_digits_of [of 16 n] by simp
  have p: "parse_digits 16 0 (map digit_char ?ds) = Some (int n)"
    using parse_digits_hex [OF b, of 0] v assms by simp
  have u: "CHR ''_'' \<notin> set (hex_literal n)" using b digit_char_value(2) by (force simp: hex_literal_def)
  have x: "lower_char (CHR ''x'') = CHR ''x''" by code_simp
  have "length (hex_literal n) \<ge> 3" using digits_of_nonempty [of 16 n] by (cases ?ds) (simp_all add: hex_literal_def)
  then show ?thesis using p u x by (simp add: ParseUint_def hex_literal_def base_prefix_def)
qed

text \<open>A C suffix is dropped from a literal, and nothing else of it.\<close>

lemma takeWhile_all: "list_all p xs \<Longrightarrow> ys = [] \<or> \<not> p (hd ys) \<Longrightarrow> takeWhile p (xs @ ys) = xs \<and> dropWhile p (xs @ ys) = ys"
proof (induction xs)
  case Nil
  then show ?case by (cases ys) auto
qed simp

lemma suffix_not_hex: "is_suffix c \<Longrightarrow> \<not> is_hex c \<and> is_word c"
  by (auto simp: is_suffix_def is_hex_def is_digit_def is_word_def is_upper_def is_lower_def)

lemma hex_word: "is_hex c \<Longrightarrow> is_word c"
  by (auto simp: is_hex_def is_word_def is_upper_def is_lower_def)

lemma intSuffixRE_word:
  assumes "list_all is_word w" and "w \<noteq> []"
  shows "intSuffixRE w = strip_suffix w"
proof -
  obtain c t where w: "w = c # t" using assms(2) by (cases w) auto
  have t: "takeWhile is_word t = t" "dropWhile is_word t = []" and c: "is_word c" using assms(1) w by (simp_all add: list_all_iff)
  show ?thesis unfolding intSuffixRE_def w map_words.simps t if_P [OF c] by simp
qed

lemma intSuffixRE_hex:
  assumes "list_all is_hex h" and "h \<noteq> []" and "list_all is_suffix s" and "s \<noteq> []"
  shows "intSuffixRE (''0x'' @ h @ s) = ''0x'' @ h"
proof -
  have "list_all is_word (''0x'' @ h @ s)"
    using assms(1,3) suffix_not_hex hex_word by (auto simp: list_all_iff is_word_def is_digit_def is_lower_def)
  moreover have "takeWhile is_hex (h @ s) = h \<and> dropWhile is_hex (h @ s) = s"
    by (rule takeWhile_all [OF assms(1)]) (use assms(3) suffix_not_hex in \<open>cases s; simp\<close>)
  ultimately show ?thesis using assms(2-4) by (simp add: intSuffixRE_word split_suffix_def Let_def)
qed

section \<open>One name per attribute value\<close>

definition attr_value :: "(string \<Rightarrow> uint option) \<Rightarrow> cdefine \<Rightarrow> uint" where
  "attr_value vals d = (case vals (d_name d) of Some v \<Rightarrow> v | None \<Rightarrow> 0)"

text \<open>The attributes of the value \<open>v\<close>, in the order of the header, and the one that names it: the first,
  unless a later one that is not an alias replaces it.\<close>

definition attrs_of :: "(string \<Rightarrow> uint option) \<Rightarrow> uint \<Rightarrow> cdefine list \<Rightarrow> cdefine list" where
  "attrs_of vals v ds = filter (\<lambda>d. is_CKA d \<and> attr_value vals d = v) ds"

definition current :: "cdefine \<Rightarrow> cdefine list \<Rightarrow> cdefine" where
  "current d ds = (let new = filter (\<lambda>d. \<not> isIdentifier (d_value d)) ds in if new = [] then d else last new)"

lemma current_simps [simp]: "current d [] = d" "current d (x # xs) = current (if isIdentifier (d_value x) then d else x) xs"
  by (simp_all add: current_def)

lemma attrs_of_simps [simp]: "attrs_of vals v [] = []"
  "attrs_of vals v (d # ds) = (if is_CKA d \<and> attr_value vals d = v then d # attrs_of vals v ds else attrs_of vals v ds)"
  by (simp_all add: attrs_of_def)

lemma attribute_names_seen:
  assumes "names v = Some (d_name d)"
  shows "fst (attribute_names vals names order ds) v = Some (d_name (current d (attrs_of vals v ds)))"
  using assms
proof (induction ds arbitrary: names order d)
  case (Cons x ds)
  let ?u = "attr_value vals x"
  show ?case
  proof (cases "is_CKA x \<and> ?u = v")
    case True
    then have "attribute_names vals names order (x # ds) = attribute_names vals
        (if isIdentifier (d_value x) then names else names(v \<mapsto> d_name x)) order ds"
      using Cons.prems by (auto simp: attr_value_def Let_def)
    then show ?thesis using True Cons.prems by (simp add: Cons.IH)
  next
    case False
    define names' where "names' = (if \<not> is_CKA x \<or> names ?u \<noteq> None \<and> isIdentifier (d_value x) then names else names(?u \<mapsto> d_name x))"
    define order' where "order' = (if is_CKA x \<and> names ?u = None then order @ [?u] else order)"
    have "attribute_names vals names order (x # ds) = attribute_names vals names' order' ds"
      by (auto simp: attr_value_def [symmetric] Let_def names'_def order'_def)
    moreover have "names' v = Some (d_name d)" using False Cons.prems by (auto simp: names'_def)
    ultimately show ?thesis using False Cons.IH [of names' d order'] by auto
  qed
qed simp

lemma attribute_names_new:
  "names v = None \<Longrightarrow>
     fst (attribute_names vals names order ds) v = (case attrs_of vals v ds of [] \<Rightarrow> None | d # r \<Rightarrow> Some (d_name (current d r)))"
proof (induction ds arbitrary: names order)
  case (Cons x ds)
  show ?case
  proof (cases "is_CKA x \<and> attr_value vals x = v")
    case True
    then show ?thesis using Cons.prems attribute_names_seen [of "names(v \<mapsto> d_name x)" v x]
      by (simp add: attr_value_def [symmetric] Let_def)
  next
    case False
    then show ?thesis using Cons.IH Cons.prems by (auto simp: attr_value_def Let_def)
  qed
qed simp

text \<open>The keys are printed once each, and they are the values of the attributes.\<close>

lemma attribute_names_order:
  assumes "distinct order" and "\<forall>v. names v \<noteq> None \<longleftrightarrow> v \<in> set order"
  shows "distinct (snd (attribute_names vals names order ds)) \<and>
    set (snd (attribute_names vals names order ds)) = set order \<union> attr_value vals ` set (filter is_CKA ds)"
  using assms
proof (induction ds arbitrary: names order)
  case (Cons x ds)
  let ?v = "attr_value vals x"
  show ?case
  proof (cases "is_CKA x \<and> names ?v = None")
    case True
    then have "distinct (order @ [?v])" "\<forall>v. (names(?v \<mapsto> d_name x)) v \<noteq> None \<longleftrightarrow> v \<in> set (order @ [?v])"
      using Cons.prems by (simp_all) (metis option.distinct(1))
    from Cons.IH [OF this] show ?thesis using True by (simp add: attr_value_def [symmetric] Let_def del: fun_upd_apply)
  next
    case False
    show ?thesis
    proof (cases "is_CKA x")
      case True
      then have k: "names ?v \<noteq> None" "?v \<in> set order" using False Cons.prems(2) by auto
      let ?n = "if isIdentifier (d_value x) then names else names(?v \<mapsto> d_name x)"
      have "\<forall>v. ?n v \<noteq> None \<longleftrightarrow> v \<in> set order" using Cons.prems(2) k by auto
      from Cons.IH [OF Cons.prems(1) this] have "distinct (snd (attribute_names vals ?n order ds)) \<and>
        set (snd (attribute_names vals ?n order ds)) = set order \<union> attr_value vals ` set (filter is_CKA ds)" .
      moreover have "attribute_names vals names order (x # ds) = attribute_names vals ?n order ds"
        using True k by (auto simp: attr_value_def [symmetric] Let_def)
      ultimately show ?thesis using True k by auto
    qed (use Cons in simp)
  qed
qed simp

end
