(* ===== verification/Genconst_Main.thy ===== *)
theory Genconst_Main
  imports Genconst_Laws
begin

text \<open>
  The program around the generator (\<open>main\<close> and the reading half of \<open>parse\<close> in \<^verbatim>\<open>cmd/genconst/main.go\<close>): its flags, the lines
  \<open>bufio.Scanner\<close> delivers, and the three files it writes one after the other.  Opening and reading a file, writing one and
  \<open>format.Source\<close> are parameters; the files of the system are a map from paths to contents, and the log is the list of
  the lines printed.
\<close>

section \<open>Flags\<close>

record options =
  o_header :: string
  o_out :: string
  o_err :: string
  o_attr :: string
  o_pkg :: string

definition default_options :: options where
  "default_options = \<lparr>o_header = ''internal/headers/pkcs11t.h'', o_out = ''cryptoki/zconst.go'', o_err = ''cryptoki/zerror.go'',
     o_attr = ''cryptoki/zattr.go'', o_pkg = ''cryptoki''\<rparr>"

definition set_flag :: "string \<Rightarrow> string \<Rightarrow> options \<Rightarrow> options option" where
  "set_flag name v opt =
     (if name = ''header'' then Some (opt\<lparr>o_header := v\<rparr>)
      else if name = ''out'' then Some (opt\<lparr>o_out := v\<rparr>)
      else if name = ''errout'' then Some (opt\<lparr>o_err := v\<rparr>)
      else if name = ''attrout'' then Some (opt\<lparr>o_attr := v\<rparr>)
      else if name = ''pkg'' then Some (opt\<lparr>o_pkg := v\<rparr>)
      else None)"

datatype usage = Bad_syntax string | Undefined_flag string | Missing_argument string | Help_requested

text \<open>
  \<open>flag.Parse\<close> for flags that take a string: one or two dashes, the value after an equals sign or as the next argument.
  The first argument that is no flag ends them, and so does \<^verbatim>\<open>--\<close>.
\<close>

definition flag_text :: "string \<Rightarrow> string option" where
  "flag_text s = (case s of
      d # c # r \<Rightarrow> if d \<noteq> CHR ''-'' then None else if c \<noteq> CHR ''-'' then Some (c # r) else if r = [] then None else Some r
    | _ \<Rightarrow> None)"

definition split_flag :: "string \<Rightarrow> string \<times> string option" where
  "split_flag t = (let name = take 1 t @ takeWhile (\<lambda>c. c \<noteq> CHR ''='') (drop 1 t); rest = drop (length name) t in
     (name, if rest = [] then None else Some (tl rest)))"

fun parse_flags :: "string list \<Rightarrow> options \<Rightarrow> usage + options" where
  "parse_flags [] opt = Inr opt"
| "parse_flags (s # args) opt = (case flag_text s of
      None \<Rightarrow> Inr opt
    | Some t \<Rightarrow> if hd t = CHR ''-'' \<or> hd t = CHR ''='' then Inl (Bad_syntax s)
      else (case split_flag t of (name, val) \<Rightarrow>
        if set_flag name [] opt = None then Inl (if name = ''help'' \<or> name = ''h'' then Help_requested else Undefined_flag name)
        else (case val of
            Some v \<Rightarrow> parse_flags args (the (set_flag name v opt))
          | None \<Rightarrow> (case args of
              [] \<Rightarrow> Inl (Missing_argument name)
            | v # args' \<Rightarrow> parse_flags args' (the (set_flag name v opt))))))"

lemma set_flag_simps [simp]:
  "set_flag ''header'' v opt = Some (opt\<lparr>o_header := v\<rparr>)" "set_flag ''out'' v opt = Some (opt\<lparr>o_out := v\<rparr>)"
  "set_flag ''errout'' v opt = Some (opt\<lparr>o_err := v\<rparr>)" "set_flag ''attrout'' v opt = Some (opt\<lparr>o_attr := v\<rparr>)"
  "set_flag ''pkg'' v opt = Some (opt\<lparr>o_pkg := v\<rparr>)"
  by (simp_all add: set_flag_def)

section \<open>The lines of the header\<close>

text \<open>
  The scanner splits at newlines, delivers a last line that has none unless it is empty, and drops one carriage return at
  the end of a line.  A line that, with its newline, does not fit the buffer of a mebibyte ends the scan with an error;
  the lines before it have been delivered.  An error of the file system is seen after what was read.
\<close>

definition raw_lines :: "string \<Rightarrow> string list" where
  "raw_lines text = (let ls = Split text newline in if last ls = [] then butlast ls else ls)"

definition dropCR :: "string \<Rightarrow> string" where
  "dropCR l = (if l \<noteq> [] \<and> code (last l) = 13 then butlast l else l)"

definition fits :: "string \<Rightarrow> bool" where
  "fits l \<longleftrightarrow> length l < 2 ^ 20"

definition scan_lines :: "string \<Rightarrow> string list" where
  "scan_lines text = map dropCR (takeWhile fits (raw_lines text))"

datatype header_error = Open_failed string | Define_rejected gen_error | Token_too_long | Read_failed string

definition scan_err :: "string \<Rightarrow> string option \<Rightarrow> header_error option" where
  "scan_err text rerr = (if list_all fits (raw_lines text) then map_option Read_failed rerr else Some Token_too_long)"

type_synonym files = "string \<Rightarrow> string option"

text \<open>Opening and reading a file gives an error, or the bytes up to its end or to an error.\<close>

type_synonym reader = "string \<Rightarrow> files \<Rightarrow> string + string \<times> string option"
type_synonym writer = "string \<Rightarrow> string \<Rightarrow> files \<Rightarrow> string option \<times> files"

definition parse_file :: "reader \<Rightarrow> string \<Rightarrow> files \<Rightarrow> header_error + cdefine list" where
  "parse_file rd path fs = (case rd path fs of
      Inl e \<Rightarrow> Inl (Open_failed e)
    | Inr (text, rerr) \<Rightarrow> (case parse (scan_lines text) of
        Inl e \<Rightarrow> Inl (Define_rejected e)
      | Inr ds \<Rightarrow> (case scan_err text rerr of None \<Rightarrow> Inr ds | Some e \<Rightarrow> Inl e)))"

section \<open>Writing the three files\<close>

datatype failure = Header_failed header_error | Rendering string "gen_error + string" | Writing string string

datatype exit = Finished | Fatal failure | Usage usage

text \<open>One file: a failed rendering or write ends the program, otherwise the log gets a line and the program goes on.\<close>

definition emit :: "writer \<Rightarrow> string \<Rightarrow> string \<Rightarrow> (gen_error + string) + string \<times> nat \<Rightarrow>
    (files \<times> string list \<Rightarrow> exit \<times> files \<times> string list) \<Rightarrow> files \<times> string list \<Rightarrow> exit \<times> files \<times> string list" where
  "emit wr path what r k st = (case r of
      Inl e \<Rightarrow> (Fatal (Rendering path e), st)
    | Inr (src, n) \<Rightarrow> (case wr path src (fst st) of
        (Some e, fs) \<Rightarrow> (Fatal (Writing path e), fs, snd st)
      | (None, fs) \<Rightarrow> k (fs, snd st @ [''genconst: wrote '' @ fmt_d n @ what @ path])))"

definition constants_file :: "(string \<Rightarrow> string + string) \<Rightarrow> options \<Rightarrow> cdefine list \<Rightarrow> (gen_error + string) + string \<times> nat" where
  "constants_file go_format opt ds = (case render go_format (o_pkg opt) (o_header opt) ds of
      Inl e \<Rightarrow> Inl (Inr e) | Inr src \<Rightarrow> Inr (src, length ds))"

definition errors_file :: "(string \<Rightarrow> string + string) \<Rightarrow> options \<Rightarrow> cdefine list \<Rightarrow> (gen_error + string) + string \<times> nat" where
  "errors_file go_format opt ds = (case renderErrors go_format (o_pkg opt) (o_header opt) ds of
      (Inl e, n) \<Rightarrow> Inl (Inr e) | (Inr src, n) \<Rightarrow> Inr (src, n))"

definition attributes_file :: "(string \<Rightarrow> string + string) \<Rightarrow> options \<Rightarrow> cdefine list \<Rightarrow> (gen_error + string) + string \<times> nat" where
  "attributes_file go_format opt ds = (case renderAttributes go_format (o_pkg opt) (o_header opt) ds of
      Inl e \<Rightarrow> Inl (Inl e) | Inr (Inl e, n) \<Rightarrow> Inl (Inr e) | Inr (Inr src, n) \<Rightarrow> Inr (src, n))"

definition genconst :: "(string \<Rightarrow> string + string) \<Rightarrow> reader \<Rightarrow> writer \<Rightarrow> string list \<Rightarrow> files \<Rightarrow> exit \<times> files \<times> string list" where
  "genconst go_format rd wr args fs = (case parse_flags args default_options of
      Inl u \<Rightarrow> (Usage u, fs, [])
    | Inr opt \<Rightarrow> (case parse_file rd (o_header opt) fs of
        Inl e \<Rightarrow> (Fatal (Header_failed e), fs, [])
      | Inr ds \<Rightarrow>
          emit wr (o_out opt) '' constants to '' (constants_file go_format opt ds)
            (emit wr (o_err opt) '' CKR names to '' (errors_file go_format opt ds)
              (emit wr (o_attr opt) '' CKA names to '' (attributes_file go_format opt ds)
                (\<lambda>st. (Finished, st)))) (fs, [])))"

section \<open>What it does to the files\<close>

text \<open>\<open>os.WriteFile\<close> touches no other path, and leaves the data in the file if it succeeds.\<close>

definition writes :: "writer \<Rightarrow> bool" where
  "writes wr \<longleftrightarrow> (\<forall>p d fs. (\<forall>q. q \<noteq> p \<longrightarrow> snd (wr p d fs) q = fs q) \<and> (fst (wr p d fs) = None \<longrightarrow> snd (wr p d fs) p = Some d))"

lemma writes_done: "writes wr \<Longrightarrow> wr p d fs = (None, fs') \<Longrightarrow> fs' = fs(p \<mapsto> d)"
  unfolding writes_def by (rule ext) (metis fst_conv snd_conv fun_upd_apply)

lemma writes_other: "writes wr \<Longrightarrow> wr p d fs = (e, fs') \<Longrightarrow> q \<noteq> p \<Longrightarrow> fs' q = fs q"
  unfolding writes_def by (metis snd_conv)

lemma emit_finished:
  assumes "writes wr" and "emit wr path what r k (fs, l) = (Finished, fs', l')"
  shows "\<exists>src n. r = Inr (src, n) \<and>
    k (fs(path \<mapsto> src), l @ [''genconst: wrote '' @ fmt_d n @ what @ path]) = (Finished, fs', l')"
  using assms(2) writes_done [OF assms(1)] by (auto simp: emit_def split: sum.splits prod.splits option.splits)

lemma emit_other:
  assumes "writes wr" and "emit wr path what r k (fs, l) = (x, fs', l')" and "q \<noteq> path"
    and "\<And>g m. k (g, m) = (x, fs', l') \<Longrightarrow> fs' q = g q"
  shows "fs' q = fs q"
  using assms(2,4) writes_other [OF assms(1) _ assms(3)]
  by (auto simp: emit_def split: sum.splits prod.splits option.splits)

lemma parse_file_ok:
  assumes "parse_file rd path fs = Inr ds"
  shows "\<exists>text. rd path fs = Inr (text, None) \<and> list_all fits (raw_lines text) \<and> parse (map dropCR (raw_lines text)) = Inr ds"
proof -
  obtain b rerr where t: "rd path fs = Inr (b, rerr)" "parse (scan_lines b) = Inr ds" "scan_err b rerr = None"
    using assms by (auto simp: parse_file_def split: sum.splits option.splits)
  then have "list_all fits (raw_lines b)" "rerr = None" by (auto simp: scan_err_def split: if_splits)
  moreover from this have "scan_lines b = map dropCR (raw_lines b)"
    by (simp add: scan_lines_def list_all_iff takeWhile_eq_all_conv [THEN iffD2])
  ultimately show ?thesis using t by auto
qed

text \<open>The lines are the file: put together again, with a newline after each, they are the text.\<close>

lemma Split_join: "concat (map (\<lambda>l. l @ [c]) (butlast (Split s c))) @ last (Split s c) = s \<and> Split s c \<noteq> []"
  by (induction s) (auto split: list.splits)

lemma join_lines: "concat (map (\<lambda>l. l @ [c]) (butlast ls)) @ last ls @ [c] = concat (map (\<lambda>l. l @ [c]) ls)" if "ls \<noteq> []"
  using that by (induction ls) auto

lemma raw_lines_text: "concat (map (\<lambda>l. l @ [newline]) (raw_lines s)) \<in> {s, s @ [newline]}"
proof -
  let ?ls = "Split s newline" and ?j = "\<lambda>ls. concat (map (\<lambda>l. l @ [newline]) ls)"
  have s: "?j (butlast ?ls) @ last ?ls = s" and n: "?ls \<noteq> []" using Split_join by blast+
  show ?thesis
  proof (cases "last ?ls = []")
    case True
    then show ?thesis using s by (simp add: raw_lines_def)
  next
    case False
    have "?j ?ls = (?j (butlast ?ls) @ last ?ls) @ [newline]" using join_lines [OF n, of newline] by simp
    then show ?thesis using s False by (simp add: raw_lines_def)
  qed
qed

end
