(* ===== verification/Genconst_Properties.thy ===== *)
theory Genconst_Properties
  imports Genconst_Main
begin

text \<open>
  The properties of the generator \<^verbatim>\<open>cmd/genconst\<close>: what a header can put into the generated files, what the
  constants are worth, and which name an attribute value gets.
\<close>

text \<open>C35: Whatever the header contains, a define the generator accepts is printed as one line: a tab, a macro name starting with CK,
  an equals sign and a value made of the characters of constant expressions, without a comment introducer and (but for
  the all-ones word) without a word directly before a parenthesis; after it comes nothing or a comment.  So a tampered header cannot
  end the line, open a string, a block or a comment, or call a function by its name.  Whether the value parses as an expression
  is left to \<open>go/format\<close> and the Go compiler.\<close>

theorem generated_lines_are_constants:
  assumes "parse ls = Inr ds" and "\<forall>l \<in> set ls. newline \<notin> set l" and "d \<in> set ds"
  shows "\<exists>rest. const_line d = TAB @ d_name d @ '' = '' @ d_value d @ rest @ [newline] \<and>
    HasPrefix (d_name d) ''CK'' \<and> list_all is_word (d_name d) \<and> d_value d \<noteq> [] \<and> list_all valueRE_char (d_value d) \<and>
    \<not> Contains (d_value d) ''//'' \<and> \<not> Contains (d_value d) ''/*'' \<and> (d_value d = ''^uint(0)'' \<or> \<not> callRE (d_value d)) \<and>
    newline \<notin> set (d_name d @ d_value d @ rest) \<and> (rest = [] \<or> (\<exists>c. rest = '' // '' @ c))"
proof -
  have g: "good_define d" by (rule parse_good [OF assms(1,3)])
  have "newline \<notin> set (d_comment d)" using parse_comment [OF assms(1,3)] assms(2) by blast
  from const_line_parts [OF g this] obtain rest where "const_line d = (TAB @ d_name d @ '' = '' @ d_value d) @ rest @ [newline]"
    "rest = [] \<or> (\<exists>c. rest = '' // '' @ c)" "newline \<notin> set ((TAB @ d_name d @ '' = '' @ d_value d) @ rest)" by blast
  then show ?thesis using g by (intro exI [of _ rest]) (auto simp: good_define_def good_value_def)
qed

theorem generated_lines_are_constants_witness:
  "\<exists>d rest. parse [''#define CKR_OK 0UL/*a*/'', ''int x;''] = Inr [d] \<and>
     const_line d = TAB @ ''CKR_OK'' @ '' = '' @ ''0'' @ rest @ [newline]"
proof -
  let ?d = "\<lparr>d_name = ''CKR_OK'', d_value = ''0'', d_comment = ''a''\<rparr>"
  have p: "parse [''#define CKR_OK 0UL/*a*/'', ''int x;''] = Inr [?d]" by code_simp
  have n: "\<forall>l \<in> set [''#define CKR_OK 0UL/*a*/'', ''int x;'']. newline \<notin> set l"
    by (simp add: newline_def char_of_def)
  have "?d \<in> set [?d]" by simp
  from generated_lines_are_constants [OF p n this] obtain rest where
    "const_line ?d = TAB @ d_name ?d @ '' = '' @ d_value ?d @ rest @ [newline]" by blast
  then have "const_line ?d = TAB @ ''CKR_OK'' @ '' = '' @ ''0'' @ rest @ [newline]" by (simp only: cdefine.simps)
  with p show ?thesis by blast
qed

text \<open>The limits of these checks: a call of a parenthesised name and an unbalanced parenthesis pass.\<close>

theorem parse_accepts_calls:
  "parse [''#define CKM_X (foo)(1)''] = Inr [\<lparr>d_name = ''CKM_X'', d_value = ''(foo)(1)'', d_comment = []\<rparr>]"
  "parse [''#define CKM_X 1)''] = Inr [\<lparr>d_name = ''CKM_X'', d_value = ''1)'', d_comment = []\<rparr>]"
  by code_simp+







section \<open>The program\<close>

text \<open>A file system that does what it is asked to do.\<close>

definition toy_read :: reader where
  "toy_read p fs = (case fs p of None \<Rightarrow> Inl ''no such file'' | Some d \<Rightarrow> Inr (d, None))"

definition toy_write :: writer where
  "toy_write p d fs = (None, fs(p \<mapsto> d))"



text \<open>C38: When the program finishes, it has read the whole header and every line of it was taken in, whole: all three files come from
  the same list of defines, they hold the formatted texts of that list, and no other file has changed.  However it ends, no
  file but these three changes.\<close>

theorem generator_outcome:
  assumes "writes wr" and "parse_flags args default_options = Inr opt" and "genconst go_format rd wr args fs = (ex, fs', log)"
  shows "(\<forall>p. p \<notin> {o_out opt, o_err opt, o_attr opt} \<longrightarrow> fs' p = fs p) \<and>
    (ex = Finished \<longrightarrow> (\<exists>s ds src esrc asrc n m. rd (o_header opt) fs = Inr (s, None) \<and> list_all fits (raw_lines s) \<and>
      parse (map dropCR (raw_lines s)) = Inr ds \<and> render go_format (o_pkg opt) (o_header opt) ds = Inr src \<and>
      renderErrors go_format (o_pkg opt) (o_header opt) ds = (Inr esrc, n) \<and>
      renderAttributes go_format (o_pkg opt) (o_header opt) ds = Inr (Inr asrc, m) \<and>
      fs' = fs(o_out opt \<mapsto> src, o_err opt \<mapsto> esrc, o_attr opt \<mapsto> asrc)))"
proof (intro conjI allI impI)
  fix p assume "p \<notin> {o_out opt, o_err opt, o_attr opt}"
  then show "fs' p = fs p" using assms(2,3)
    by (auto simp: genconst_def split: sum.splits elim!: emit_other [OF assms(1)])
next
  assume "ex = Finished"
  then have g: "genconst go_format rd wr args fs = (Finished, fs', log)" using assms(3) by simp
  then obtain ds where ds: "parse_file rd (o_header opt) fs = Inr ds" using assms(2) by (auto simp: genconst_def split: sum.splits)
  obtain src n1 esrc n asrc m where o: "constants_file go_format opt ds = Inr (src, n1)" "errors_file go_format opt ds = Inr (esrc, n)"
    "attributes_file go_format opt ds = Inr (asrc, m)" "fs' = fs(o_out opt \<mapsto> src, o_err opt \<mapsto> esrc, o_attr opt \<mapsto> asrc)"
    using g assms(2) ds by (auto simp: genconst_def dest!: emit_finished [OF assms(1)])
  have "render go_format (o_pkg opt) (o_header opt) ds = Inr src" using o(1) by (auto simp: constants_file_def split: sum.splits)
  moreover have "renderErrors go_format (o_pkg opt) (o_header opt) ds = (Inr esrc, n)"
    using o(2) by (auto simp: errors_file_def split: sum.splits prod.splits)
  moreover have "renderAttributes go_format (o_pkg opt) (o_header opt) ds = Inr (Inr asrc, m)"
    using o(3) by (auto simp: attributes_file_def split: sum.splits prod.splits)
  ultimately show "\<exists>s ds src esrc asrc n m. rd (o_header opt) fs = Inr (s, None) \<and> list_all fits (raw_lines s) \<and>
      parse (map dropCR (raw_lines s)) = Inr ds \<and> render go_format (o_pkg opt) (o_header opt) ds = Inr src \<and>
      renderErrors go_format (o_pkg opt) (o_header opt) ds = (Inr esrc, n) \<and>
      renderAttributes go_format (o_pkg opt) (o_header opt) ds = Inr (Inr asrc, m) \<and>
      fs' = fs(o_out opt \<mapsto> src, o_err opt \<mapsto> esrc, o_attr opt \<mapsto> asrc)"
    using parse_file_ok [OF ds] o(4) by blast
qed

theorem generator_outcome_witness:
  "\<exists>fs' log ds src. genconst Inr toy_read toy_write [''--out=z'', ''-header'', ''h''] [''h'' \<mapsto> ''#define CKR_OK 0''] = (Finished, fs', log) \<and>
     parse [''#define CKR_OK 0''] = Inr ds \<and> render Inr ''cryptoki'' ''h'' ds = Inr src \<and> fs' ''z'' = Some src"
proof -
  let ?args = "[''--out=z'', ''-header'', ''h'']" and ?l = "''#define CKR_OK 0''" and ?d = "\<lparr>d_name = ''CKR_OK'', d_value = ''0'', d_comment = []\<rparr>"
  let ?fs = "[''h'' \<mapsto> ?l] :: files" and ?opt = "default_options\<lparr>o_out := ''z'', o_header := ''h''\<rparr>"
  have w: "writes toy_write" by (simp add: writes_def toy_write_def)
  have f: "parse_flags ?args default_options = Inr ?opt" by code_simp
  have o: "o_header ?opt = ''h''" "o_pkg ?opt = ''cryptoki''" "o_out ?opt = ''z''" "o_err ?opt = ''cryptoki/zerror.go''"
    "o_attr ?opt = ''cryptoki/zattr.go''" by (simp_all add: default_options_def)
  have l: "raw_lines ?l = [?l]" "dropCR ?l = ?l" "parse [?l] = Inr [?d]" by code_simp+
  moreover have "fits ?l" by (simp add: fits_def)
  ultimately have p: "parse_file toy_read (o_header ?opt) ?fs = Inr [?d]"
    by (simp add: o(1) parse_file_def toy_read_def scan_lines_def scan_err_def del: parse.simps)
  have "ParseUint ''0'' = Some 0" "TrimSpace ''0'' = ''0''" "Split ''0'' (CHR ''|'') = [''0'']" "\<not> HasPrefix ''0'' ''(''" "\<not> is_CKA ?d"
    by code_simp+
  then have "evaluate [?d] = Inr [''CKR_OK'' \<mapsto> 0]" "\<not> is_CKA ?d" by (simp_all add: evaluate_def evalExpr_def Let_def)
  then have a: "\<exists>asrc. attributes_file Inr ?opt [?d] = Inr (asrc, 0)" by (simp add: attributes_file_def renderAttributes_def)
  have c: "constants_file Inr ?opt [?d] = Inr (render_text (o_pkg ?opt) (o_header ?opt) [?d], 1)" by (simp add: constants_file_def render_def)
  have e: "\<exists>esrc n. errors_file Inr ?opt [?d] = Inr (esrc, n)" by (simp add: errors_file_def renderErrors_def Let_def)
  obtain asrc esrc n where r: "attributes_file Inr ?opt [?d] = Inr (asrc, 0)" "errors_file Inr ?opt [?d] = Inr (esrc, n)"
    using a e by blast
  have "\<exists>fs' log. genconst Inr toy_read toy_write ?args ?fs = (Finished, fs', log)"
    unfolding genconst_def f sum.case p c r emit_def toy_write_def by simp
  then obtain fs' log where g: "genconst Inr toy_read toy_write ?args ?fs = (Finished, fs', log)" by blast
  from generator_outcome [OF w f g] obtain s ds src esrc asrc where r: "toy_read (o_header ?opt) ?fs = Inr (s, None)"
    "parse (map dropCR (raw_lines s)) = Inr ds" "render Inr (o_pkg ?opt) (o_header ?opt) ds = Inr src"
    "fs' = ?fs(o_out ?opt \<mapsto> src, o_err ?opt \<mapsto> esrc, o_attr ?opt \<mapsto> asrc)" by blast
  have "s = ?l" using r(1) by (simp add: o(1) toy_read_def)
  then show ?thesis using g r l(1,2) unfolding o by (simp del: parse.simps)
qed

section \<open>Values\<close>

lemma hex_digit_char: "d < 16 \<Longrightarrow> is_hex (digit_char d)"
  using code_digit_char [of d] by (auto simp: is_hex_def is_digit_def split: if_splits)

lemma hex_literal_parts:
  "\<exists>h. hex_literal n = ''0x'' @ h \<and> list_all is_hex h \<and> h \<noteq> [] \<and> list_all is_word (''0x'' @ h)"
proof -
  have h: "list_all is_hex (map digit_char (digits_of 16 n))"
    using digits_of_bound [of 16 _ n] hex_digit_char by (auto simp: list_all_iff)
  then have "list_all is_word (map digit_char (digits_of 16 n))" using hex_word by (auto simp: list_all_iff)
  moreover have "is_word (CHR ''0'')" "is_word (CHR ''x'')" by code_simp+
  ultimately show ?thesis using h digits_of_nonempty [of 16 n] by (simp add: hex_literal_def)
qed

text \<open>A hexadecimal constant of the header, with any C suffix, is worth the number it denotes: its translation drops the suffix and
  evaluates to that number.\<close>

theorem header_literal_value:
  assumes "n < 2 ^ 64" and "list_all is_suffix s" and "name \<noteq> ''CK_TRUE''" and "name \<noteq> ''CK_FALSE''"
  shows "translate name (hex_literal n @ s) = hex_literal n \<and> evalExpr (translate name (hex_literal n @ s)) known = Some (of_nat n)"
proof -
  obtain h where h: "hex_literal n = ''0x'' @ h" "list_all is_hex h" "h \<noteq> []" "list_all is_word (''0x'' @ h)"
    using hex_literal_parts by blast
  have ws: "list_all is_word s" using assms(2) suffix_not_hex by (auto simp: list_all_iff)
  then have "list_all is_word (hex_literal n @ s)" using h(1,4) by simp
  then have trim: "TrimSpace (hex_literal n @ s) = hex_literal n @ s" by (rule TrimSpace_word)
  have int: "intSuffixRE (hex_literal n @ s) = hex_literal n"
  proof (cases "s = []")
    case True
    have "takeWhile is_hex h = h" "dropWhile is_hex h = []" using h(2) by (simp_all add: list_all_iff)
    then have "strip_suffix (''0x'' @ h) = ''0x'' @ h" by (simp add: split_suffix_def)
    then show ?thesis using intSuffixRE_word [OF h(4)] h(1) True by simp
  next
    case False
    then show ?thesis using intSuffixRE_hex [OF h(2,3) assms(2)] h(1) by simp
  qed
  have "\<not> is_space (CHR ''0'')" by code_simp
  then have "\<exists>t. concat (Fields (hex_literal n)) = CHR ''0'' # t" unfolding h(1) by (subst Fields.simps) simp
  then have "collapse (hex_literal n @ s) \<noteq> ''(~0)''" using int by (auto simp: collapse_def)
  then have t: "translate name (hex_literal n @ s) = hex_literal n"
    using assms(3,4) trim int h(1) by (simp add: translate_def Let_def HasPrefix_def)
  have w: "list_all is_word (hex_literal n)" using h(1,4) by simp
  have "evalExpr (hex_literal n) known = Some (of_nat n)"
    using TrimSpace_word [OF w] Split_word [OF w] ParseUint_hex [OF assms(1)] h(1)
    by (simp add: evalExpr_def Let_def HasPrefix_def)
  then show ?thesis using t by simp
qed

theorem header_literal_value_witness: "evalExpr (translate ''CKR_DEVICE_ERROR'' ''0x30UL'') Map.empty = Some 48"
proof -
  have "hex_literal 48 = ''0x30''" by code_simp
  moreover have "list_all is_suffix ''UL''" by code_simp
  ultimately show ?thesis using header_literal_value [of 48 "''UL''" "''CKR_DEVICE_ERROR''" Map.empty] by simp metis
qed

lemma evaluate_from_total:
  "evaluate_from known ds = Inr vals \<Longrightarrow> dom known \<subseteq> dom vals \<and> (\<forall>d \<in> set ds. is_CKA d \<longrightarrow> d_name d \<in> dom vals)"
proof (induction ds arbitrary: known)
  case (Cons d ds)
  show ?case
  proof (cases "evalExpr (d_value d) known")
    case (Some v)
    then have "evaluate_from (known(d_name d \<mapsto> v)) ds = Inr vals" using Cons.prems by (simp del: fun_upd_apply)
    from Cons.IH [OF this] show ?thesis by (auto simp del: fun_upd_apply simp: dom_fun_upd)
  next
    case None
    then show ?thesis using Cons.IH [of known] Cons.prems by (auto split: if_splits)
  qed
qed simp

text \<open>C36: Each attribute value gets exactly one name, and the one the header makes current: the first define of the value, unless a later
  one that is not an alias of another macro replaces it; no attribute of the header is dropped, and no value is printed twice.\<close>

theorem attribute_table:
  assumes "evaluate ds = Inr vals" and "attribute_names vals Map.empty [] ds = (names, order)"
  shows "distinct order \<and> set order = attr_value vals ` set (filter is_CKA ds) \<and>
    (\<forall>d \<in> set ds. is_CKA d \<longrightarrow> vals (d_name d) \<noteq> None) \<and>
    (\<forall>v. names v = (case attrs_of vals v ds of [] \<Rightarrow> None | d # r \<Rightarrow> Some (d_name (current d r))))"
proof -
  have o: "distinct order \<and> set order = set [] \<union> attr_value vals ` set (filter is_CKA ds)"
    using attribute_names_order [of "[]" Map.empty vals ds] assms(2) by simp
  have n: "names v = (case attrs_of vals v ds of [] \<Rightarrow> None | d # r \<Rightarrow> Some (d_name (current d r)))" for v
    using attribute_names_new [of Map.empty v vals "[]" ds] assms(2) by simp
  have "\<forall>d \<in> set ds. is_CKA d \<longrightarrow> d_name d \<in> dom vals"
    using evaluate_from_total [of Map.empty ds vals] assms(1) by (simp add: evaluate_def)
  then show ?thesis using o n by (auto simp: domIff)
qed

theorem attribute_table_witness:
  "\<exists>vals names order. evaluate [\<lparr>d_name = ''CKA_ECDSA_PARAMS'', d_value = ''0x180'', d_comment = []\<rparr>,
      \<lparr>d_name = ''CKA_EC_PARAMS'', d_value = ''0x180'', d_comment = []\<rparr>] = Inr vals \<and> names 384 = Some ''CKA_EC_PARAMS'' \<and> distinct order \<and>
    attribute_names vals Map.empty [] [\<lparr>d_name = ''CKA_ECDSA_PARAMS'', d_value = ''0x180'', d_comment = []\<rparr>,
      \<lparr>d_name = ''CKA_EC_PARAMS'', d_value = ''0x180'', d_comment = []\<rparr>] = (names, order)"
proof -
  let ?a = "\<lparr>d_name = ''CKA_ECDSA_PARAMS'', d_value = ''0x180'', d_comment = []\<rparr>"
    and ?b = "\<lparr>d_name = ''CKA_EC_PARAMS'', d_value = ''0x180'', d_comment = []\<rparr>"
  have e: "\<exists>vals. evaluate [?a, ?b] = Inr vals \<and> attrs_of vals 384 [?a, ?b] = [?a, ?b]"
  proof -
    have v: "evalExpr ''0x180'' known = Some 384" for known :: "string \<Rightarrow> uint option"
    proof -
      have p: "ParseUint ''0x180'' = Some 384" by code_simp
      have "TrimSpace ''0x180'' = ''0x180''" "Split ''0x180'' (CHR ''|'') = [''0x180'']" "\<not> HasPrefix ''0x180'' ''(''"
        by code_simp+
      then show ?thesis using p by (simp add: evalExpr_def Let_def)
    qed
    have "is_CKA ?a" "is_CKA ?b" by code_simp+
    then show ?thesis using v by (simp add: evaluate_def attr_value_def)
  qed
  then obtain vals where v: "evaluate [?a, ?b] = Inr vals" "attrs_of vals 384 [?a, ?b] = [?a, ?b]" by blast
  obtain names order where n: "attribute_names vals Map.empty [] [?a, ?b] = (names, order)" by fastforce
  have "\<not> isIdentifier ''0x180''" by code_simp
  then have "current ?a [?b] = ?b" by simp
  then show ?thesis using attribute_table [OF v(1) n] v n by auto
qed

end
