(* ===== verification/Locking.thy ===== *)
theory Locking
  imports Go_Prelude
begin

text \<open>
  The life cycle of a \<open>Ctx\<close> under concurrency (\<^verbatim>\<open>cryptoki/binding.go\<close>, \<^verbatim>\<open>lifecycle.go\<close>, \<open>WaitForSlotEvent\<close> of
  \<^verbatim>\<open>slot.go\<close>).  Goroutines interleave at the operations of the \<open>sync.RWMutex\<close> \<open>mu\<close> and the \<open>sync.WaitGroup\<close>
  \<open>waiters\<close>, and on entering and leaving the library.  Every method follows one of four patterns: a call
  under the read lock (\<open>grab\<close> \<dots> \<open>release\<close>), a wait that trades the read lock for a count in \<open>waiters\<close>,
  a call under the write lock (\<open>Initialize\<close>, \<open>Finalize\<close>), and \<open>Destroy\<close>.  The theorems say that no goroutine
  is ever inside a library that has been unloaded, that the exclusive calls are exclusive, and that the
  locking never leaves everybody stuck.
\<close>

section \<open>States and steps\<close>

datatype shared_method = RCall | RWait
datatype exclusive_method = XCall | XDestroy

text \<open>Where a goroutine is in its method.\<close>

datatype pc =
    Idle
  | RHeld shared_method \<comment> \<open>after \<open>mu.RLock()\<close>\<close>
  | InCall \<comment> \<open>in the library, read lock held\<close>
  | RDone \<comment> \<open>before \<open>mu.RUnlock()\<close>\<close>
  | WAdded \<comment> \<open>after \<open>waiters.Add(1)\<close>, read lock held\<close>
  | InWait \<comment> \<open>in the library, no lock held\<close>
  | WReturned \<comment> \<open>before \<open>waiters.Done()\<close>\<close>
  | XHeld exclusive_method \<comment> \<open>after \<open>mu.Lock()\<close>\<close>
  | InExcl \<comment> \<open>in the library, write lock held\<close>
  | Joining \<comment> \<open>in \<open>waiters.Wait()\<close>\<close>
  | Unloading \<comment> \<open>before \<open>ck_unload\<close>\<close>
  | Unloaded \<comment> \<open>before \<open>c.module = nil\<close>\<close>
  | XDone \<comment> \<open>before \<open>mu.Unlock()\<close>\<close>

record lstate =
  pcs :: "nat \<Rightarrow> pc"
  rcount :: nat
  wheld :: bool
  nwait :: nat
  present :: bool \<comment> \<open>\<open>c.module \<noteq> nil\<close>\<close>
  loaded :: bool \<comment> \<open>the library is mapped\<close>

definition goto :: "nat \<Rightarrow> pc \<Rightarrow> lstate \<Rightarrow> lstate" where
  "goto g p s = s\<lparr>pcs := (pcs s)(g := p)\<rparr>"

text \<open>One step of the goroutine \<open>g\<close>; a lock or a wait that cannot proceed has no step.\<close>

inductive lstep :: "nat \<Rightarrow> lstate \<Rightarrow> lstate \<Rightarrow> bool" for g where
  rlock: "pcs s g = Idle \<Longrightarrow> \<not> wheld s \<Longrightarrow> lstep g s (goto g (RHeld m) (s\<lparr>rcount := rcount s + 1\<rparr>))"
| r_closed: "pcs s g = RHeld m \<Longrightarrow> \<not> present s \<Longrightarrow> lstep g s (goto g RDone s)"
| r_call: "pcs s g = RHeld RCall \<Longrightarrow> present s \<Longrightarrow> lstep g s (goto g InCall s)"
| r_return: "pcs s g = InCall \<Longrightarrow> lstep g s (goto g RDone s)"
| r_unlock: "pcs s g = RDone \<Longrightarrow> lstep g s (goto g Idle (s\<lparr>rcount := rcount s - 1\<rparr>))"
| w_add: "pcs s g = RHeld RWait \<Longrightarrow> present s \<Longrightarrow> lstep g s (goto g WAdded (s\<lparr>nwait := nwait s + 1\<rparr>))"
| w_unlock: "pcs s g = WAdded \<Longrightarrow> lstep g s (goto g InWait (s\<lparr>rcount := rcount s - 1\<rparr>))"
| w_return: "pcs s g = InWait \<Longrightarrow> lstep g s (goto g WReturned s)"
| w_done: "pcs s g = WReturned \<Longrightarrow> lstep g s (goto g Idle (s\<lparr>nwait := nwait s - 1\<rparr>))"
| xlock: "pcs s g = Idle \<Longrightarrow> \<not> wheld s \<Longrightarrow> rcount s = 0 \<Longrightarrow> lstep g s (goto g (XHeld x) (s\<lparr>wheld := True\<rparr>))"
| x_closed: "pcs s g = XHeld x \<Longrightarrow> \<not> present s \<Longrightarrow> lstep g s (goto g XDone s)"
| x_call: "pcs s g = XHeld XCall \<Longrightarrow> present s \<Longrightarrow> lstep g s (goto g InExcl s)"
| x_return: "pcs s g = InExcl \<Longrightarrow> lstep g s (goto g XDone s)"
| d_wait: "pcs s g = XHeld XDestroy \<Longrightarrow> present s \<Longrightarrow> lstep g s (goto g Joining s)"
| d_join: "pcs s g = Joining \<Longrightarrow> nwait s = 0 \<Longrightarrow> lstep g s (goto g Unloading s)"
| d_unload: "pcs s g = Unloading \<Longrightarrow> lstep g s (goto g Unloaded (s\<lparr>loaded := False\<rparr>))"
| d_clear: "pcs s g = Unloaded \<Longrightarrow> lstep g s (goto g XDone (s\<lparr>present := False\<rparr>))"
| x_unlock: "pcs s g = XDone \<Longrightarrow> lstep g s (goto g Idle (s\<lparr>wheld := False\<rparr>))"

definition start :: lstate where
  "start = \<lparr>pcs = (\<lambda>g. Idle), rcount = 0, wheld = False, nwait = 0, present = True, loaded = True\<rparr>"

text \<open>The states \<open>n\<close> goroutines sharing a loaded \<open>Ctx\<close> can reach.\<close>

inductive reach :: "nat \<Rightarrow> lstate \<Rightarrow> bool" for n where
  reach_start: "reach n start"
| reach_step: "reach n s \<Longrightarrow> g < n \<Longrightarrow> lstep g s s' \<Longrightarrow> reach n s'"

primrec reading :: "pc \<Rightarrow> bool" where
  "reading Idle = False" | "reading (RHeld m) = True" | "reading InCall = True" | "reading RDone = True"
| "reading WAdded = True" | "reading InWait = False" | "reading WReturned = False" | "reading (XHeld x) = False"
| "reading InExcl = False" | "reading Joining = False" | "reading Unloading = False" | "reading Unloaded = False"
| "reading XDone = False"

primrec writing :: "pc \<Rightarrow> bool" where
  "writing Idle = False" | "writing (RHeld m) = False" | "writing InCall = False" | "writing RDone = False"
| "writing WAdded = False" | "writing InWait = False" | "writing WReturned = False" | "writing (XHeld x) = True"
| "writing InExcl = True" | "writing Joining = True" | "writing Unloading = True" | "writing Unloaded = True"
| "writing XDone = True"

definition waiting :: "pc \<Rightarrow> bool" where
  "waiting p \<longleftrightarrow> p = WAdded \<or> p = InWait \<or> p = WReturned"

definition in_library :: "pc \<Rightarrow> bool" where
  "in_library p \<longleftrightarrow> p = InCall \<or> p = InWait \<or> p = InExcl"

section \<open>Counting goroutines\<close>

definition cnt :: "nat \<Rightarrow> (pc \<Rightarrow> bool) \<Rightarrow> (nat \<Rightarrow> pc) \<Rightarrow> nat" where
  "cnt n P f = card {h. h < n \<and> P (f h)}"

lemma cnt_upd:
  assumes "g < n"
  shows "cnt n P (f(g := p)) + of_bool (P (f g)) = cnt n P f + of_bool (P p)"
proof -
  let ?R = "{h. h < n \<and> h \<noteq> g \<and> P (f h)}"
  have fin: "finite ?R" by simp
  have "{h. h < n \<and> P (f h)} = (if P (f g) then insert g ?R else ?R)" using assms by auto
  then have a: "cnt n P f = card ?R + of_bool (P (f g))" using fin by (simp add: cnt_def)
  have "{h. h < n \<and> P ((f(g := p)) h)} = (if P p then insert g ?R else ?R)" using assms by auto
  then have b: "cnt n P (f(g := p)) = card ?R + of_bool (P p)" using fin unfolding cnt_def by simp
  show ?thesis unfolding a b by simp
qed

lemma cnt_pos: "h < n \<Longrightarrow> P (f h) \<Longrightarrow> 0 < cnt n P f"
  unfolding cnt_def by (subst card_gt_0_iff) auto

lemma cnt_unique:
  assumes "cnt n P f \<le> 1" and "g < n" "P (f g)" and "h < n" "P (f h)"
  shows "g = h"
proof -
  have "card {k. k < n \<and> P (f k)} \<le> Suc 0" using assms(1) by (simp add: cnt_def)
  then show ?thesis using assms(2-5) by (simp add: card_le_Suc0_iff_eq)
qed

section \<open>The invariant\<close>

definition locks_ok :: "nat \<Rightarrow> lstate \<Rightarrow> bool" where
  "locks_ok n s \<longleftrightarrow> rcount s = cnt n reading (pcs s) \<and> cnt n writing (pcs s) = of_bool (wheld s) \<and>
     (wheld s \<longrightarrow> rcount s = 0) \<and> nwait s = cnt n waiting (pcs s)"

definition needs_library :: "pc \<Rightarrow> bool" where
  "needs_library p \<longleftrightarrow> in_library p \<or> p = WAdded \<or> p = Joining \<or> p = Unloading"

definition module_inv :: "nat \<Rightarrow> lstate \<Rightarrow> bool" where
  "module_inv n s \<longleftrightarrow> (\<forall>g < n. needs_library (pcs s g) \<longrightarrow> present s \<and> loaded s) \<and>
     (\<forall>g < n. pcs s g = Unloading \<longrightarrow> nwait s = 0) \<and> (\<forall>g < n. pcs s g = Unloaded \<longrightarrow> \<not> loaded s) \<and>
     (present s \<longrightarrow> loaded s \<or> (\<exists>g < n. pcs s g = Unloaded))"

lemma goto_simps [simp]: "pcs (goto g p s) = (pcs s)(g := p)" "rcount (goto g p s) = rcount s" "wheld (goto g p s) = wheld s"
  "nwait (goto g p s) = nwait s" "present (goto g p s) = present s" "loaded (goto g p s) = loaded s"
  by (simp_all add: goto_def)

lemma locks_ok_start: "locks_ok n start"
  by (simp add: locks_ok_def start_def cnt_def waiting_def)

lemma cnt_goto:
  assumes "g < n"
  shows "cnt n P ((pcs s)(g := p)) = cnt n P (pcs s) + of_bool (P p) - of_bool (P (pcs s g))"
  using cnt_upd [OF assms, of P "pcs s" p] by simp

text \<open>A lock or a count that a goroutine holds is accounted for.\<close>

lemma held_counts:
  assumes "locks_ok n s" and "g < n"
  shows "reading (pcs s g) \<Longrightarrow> 0 < rcount s \<and> \<not> wheld s" "writing (pcs s g) \<Longrightarrow> wheld s \<and> rcount s = 0"
    "waiting (pcs s g) \<Longrightarrow> 0 < nwait s"
proof -
  show "reading (pcs s g) \<Longrightarrow> 0 < rcount s \<and> \<not> wheld s"
    using assms cnt_pos [OF assms(2), of reading "pcs s"] by (auto simp: locks_ok_def)
  show "writing (pcs s g) \<Longrightarrow> wheld s \<and> rcount s = 0"
    using assms cnt_pos [OF assms(2), of writing "pcs s"] by (auto simp: locks_ok_def)
  show "waiting (pcs s g) \<Longrightarrow> 0 < nwait s"
    using assms cnt_pos [OF assms(2), of waiting "pcs s"] by (auto simp: locks_ok_def)
qed

lemma locks_ok_step:
  assumes "lstep g s s'" and "g < n" and "locks_ok n s"
  shows "locks_ok n s'"
  using assms(1) held_counts [OF assms(3,2)] assms(3)
  by (cases rule: lstep.cases) (auto simp: locks_ok_def waiting_def cnt_goto [OF assms(2)])

text \<open>The write lock has one holder, and shuts out the readers.\<close>

lemma writer_unique: "locks_ok n s \<Longrightarrow> g < n \<Longrightarrow> h < n \<Longrightarrow> writing (pcs s g) \<Longrightarrow> writing (pcs s h) \<Longrightarrow> g = h"
  by (rule cnt_unique [of n writing "pcs s"]) (auto simp: locks_ok_def)

lemma writer_no_reader: "locks_ok n s \<Longrightarrow> g < n \<Longrightarrow> h < n \<Longrightarrow> writing (pcs s g) \<Longrightarrow> \<not> reading (pcs s h)"
  using held_counts(1) [of n s h] held_counts(2) [of n s g] by auto

lemma needs_holder: "needs_library p \<longleftrightarrow> p = InCall \<or> p = WAdded \<or> p = InWait \<or> p = InExcl \<or> p = Joining \<or> p = Unloading"
  by (auto simp: needs_library_def in_library_def)

text \<open>At \<open>ck_unload\<close> nobody else needs the library: readers are shut out, waiters have been joined.\<close>

lemma unloading_alone:
  assumes l: "locks_ok n s" and m: "module_inv n s" and g: "g < n" "pcs s g = Unloading" and h: "h < n" "needs_library (pcs s h)"
  shows "h = g"
proof (rule ccontr)
  assume ne: "h \<noteq> g"
  have w: "writing (pcs s g)" using g(2) by simp
  have z: "nwait s = 0" using m g by (auto simp: module_inv_def)
  have "\<not> reading (pcs s h)" by (rule writer_no_reader [OF l g(1) h(1) w])
  moreover have "\<not> writing (pcs s h)" using writer_unique [OF l g(1) h(1) w] ne by blast
  moreover have "\<not> waiting (pcs s h)" using held_counts(3) [OF l h(1)] z by auto
  ultimately show False using h(2) by (cases "pcs s h") (auto simp: needs_holder waiting_def)
qed

lemma module_inv_start: "module_inv n start"
  by (simp add: module_inv_def start_def needs_holder)

lemma present_loaded:
  assumes l: "locks_ok n s" and m: "module_inv n s" and g: "g < n" "reading (pcs s g) \<or> writing (pcs s g) \<and> pcs s g \<noteq> Unloaded"
    and p: "present s"
  shows "loaded s"
proof (rule ccontr)
  assume "\<not> loaded s"
  then obtain h where h: "h < n" "pcs s h = Unloaded" using m p by (auto simp: module_inv_def)
  have "writing (pcs s h)" using h(2) by simp
  then show False using writer_no_reader [OF l h(1) g(1)] writer_unique [OF l h(1) g(1)] g(2) h(2) by auto
qed

text \<open>A step that neither unloads nor counts a new waiter.\<close>

lemma module_inv_goto:
  assumes m: "module_inv n s" and u: "pcs s g \<noteq> Unloaded" and p: "p \<noteq> Unloaded" "p = Unloading \<longrightarrow> nwait t = 0"
    and q: "needs_library p \<longrightarrow> present s \<and> loaded s" and t: "present t = present s" "loaded t = loaded s"
    "pcs t = (pcs s)(g := p)" "nwait t \<le> nwait s"
  shows "module_inv n t"
proof -
  have "\<exists>h < n. pcs t h = Unloaded" if ex: "\<exists>h < n. pcs s h = Unloaded"
  proof -
    obtain h where h: "h < n" "pcs s h = Unloaded" using ex by blast
    then have "h \<noteq> g" using u by auto
    then show ?thesis using h t(3) by auto
  qed
  then have "present t \<longrightarrow> loaded t \<or> (\<exists>h < n. pcs t h = Unloaded)" using m t(1,2) unfolding module_inv_def by blast
  moreover have "\<forall>h < n. needs_library (pcs t h) \<longrightarrow> present t \<and> loaded t" using m q t(1-3) by (simp add: module_inv_def)
  moreover have "\<forall>h < n. pcs t h = Unloading \<longrightarrow> nwait t = 0" using m p(2) t(3,4) by (auto simp: module_inv_def)
  moreover have "\<forall>h < n. pcs t h = Unloaded \<longrightarrow> \<not> loaded t" using m p(1) t(2,3) by (simp add: module_inv_def)
  ultimately show ?thesis unfolding module_inv_def by blast
qed

lemma module_inv_step:
  assumes st: "lstep g s s'" and g: "g < n" and l: "locks_ok n s" and m: "module_inv n s"
  shows "module_inv n s'"
proof -
  note pl = present_loaded [OF l m g]
  have wz: "nwait s = 0" if "h < n" "pcs s h = Unloading" for h using m that by (auto simp: module_inv_def)
  have lz: "\<not> loaded s" if "h < n" "pcs s h = Unloaded" for h using m that by (auto simp: module_inv_def)
  have nl: "present s \<and> loaded s" if "h < n" "needs_library (pcs s h)" for h using m that by (auto simp: module_inv_def)
  note keep = module_inv_goto [OF m]
  from st show ?thesis
  proof (cases rule: lstep.cases)
    case w_add
    have "pcs s h \<noteq> Unloading" if "h < n" for h using writer_no_reader [OF l that g] w_add(2) by auto
    then show ?thesis using w_add m pl by (auto simp: module_inv_def needs_holder)
  next
    case d_unload
    have "\<not> needs_library (pcs s h)" if "h < n" "h \<noteq> g" for h using unloading_alone [OF l m g d_unload(2)] that by blast
    then show ?thesis using d_unload m g by (auto simp: module_inv_def needs_holder)
  next
    case d_clear
    then have "\<not> loaded s" using lz [OF g] by blast
    then have "\<not> needs_library (pcs s h)" if "h < n" for h using nl [OF that] by blast
    moreover have "pcs s h \<noteq> Unloaded" if "h < n" "h \<noteq> g" for h
      using writer_unique [OF l that(1) g] that(2) d_clear(2) by auto
    ultimately show ?thesis using d_clear m by (auto simp: module_inv_def needs_holder)
  qed (rule keep [of g], use pl nl [OF g] in \<open>auto simp: needs_holder\<close>)+
qed

lemma reach_inv: "reach n s \<Longrightarrow> locks_ok n s \<and> module_inv n s"
proof (induction rule: reach.induct)
  case reach_start
  then show ?case using locks_ok_start module_inv_start by blast
next
  case (reach_step s g s')
  then show ?case using locks_ok_step module_inv_step by blast
qed

section \<open>Consequences\<close>

lemma in_library_loaded: "reach n s \<Longrightarrow> g < n \<Longrightarrow> in_library (pcs s g) \<Longrightarrow> loaded s"
  using reach_inv [of n s] by (auto simp: module_inv_def needs_library_def)

lemma in_excl_alone:
  assumes "reach n s" and "g < n" and "h < n" and "pcs s g = InExcl" and "h \<noteq> g"
  shows "pcs s h \<noteq> InCall \<and> pcs s h \<noteq> InExcl"
proof -
  have l: "locks_ok n s" using reach_inv [OF assms(1)] by simp
  have w: "writing (pcs s g)" using assms(4) by simp
  show ?thesis using writer_no_reader [OF l assms(2,3) w] writer_unique [OF l assms(2,3) w] assms(5) by auto
qed

text \<open>Once the module pointer is cleared it stays so, and the library with it.\<close>

lemma closed_for_good:
  assumes "lstep g s s'"
  shows "(\<not> present s \<longrightarrow> \<not> present s') \<and> (\<not> loaded s \<longrightarrow> \<not> loaded s')"
  using assms by (cases rule: lstep.cases) simp_all

text \<open>Nobody is stuck for ever: if no goroutine can move, none is inside a method.\<close>

lemma pc_step:
  assumes "pcs s g \<noteq> Idle" and "\<not> (pcs s g = Joining \<and> 0 < nwait s)"
  shows "\<exists>s'. lstep g s s'"
proof (cases "pcs s g")
  case (RHeld m)
  then show ?thesis by (cases "present s"; cases m) (blast intro: lstep.intros)+
next
  case (XHeld x)
  then show ?thesis by (cases "present s"; cases x) (blast intro: lstep.intros)+
next
  case Joining
  then show ?thesis using assms(2) by (auto intro: d_join)
qed (use assms(1) in \<open>blast intro: lstep.intros\<close>)+

lemma waiter_exists:
  assumes "locks_ok n s" and "0 < nwait s"
  shows "\<exists>h < n. waiting (pcs s h)"
proof -
  have "0 < card {h. h < n \<and> waiting (pcs s h)}" using assms by (simp add: locks_ok_def cnt_def)
  then show ?thesis by (auto simp: card_gt_0_iff)
qed

section \<open>Every schedule drains\<close>

text \<open>How many steps a goroutine is from the end of its method, at most.\<close>

primrec rank :: "pc \<Rightarrow> nat" where
  "rank Idle = 0" | "rank (RHeld m) = 4" | "rank InCall = 2" | "rank RDone = 1" | "rank WAdded = 3" | "rank InWait = 2"
| "rank WReturned = 1" | "rank (XHeld x) = 5" | "rank InExcl = 2" | "rank Joining = 4" | "rank Unloading = 3"
| "rank Unloaded = 2" | "rank XDone = 1"

definition work :: "nat \<Rightarrow> lstate \<Rightarrow> nat" where
  "work n s = (\<Sum>h < n. rank (pcs s h))"

lemma work_upd:
  assumes "g < n" and "pcs t = (pcs s)(g := p)" and "rank p < rank (pcs s g)"
  shows "work n t < work n s"
  unfolding work_def
proof (rule sum_strict_mono_ex1)
  show "\<forall>h \<in> {..<n}. rank (pcs t h) \<le> rank (pcs s h)" using assms(2,3) by auto
  show "\<exists>h \<in> {..<n}. rank (pcs t h) < rank (pcs s h)" using assms by auto
qed simp

lemma step_works:
  assumes "lstep g s t" and "g < n" and "pcs s g \<noteq> Idle"
  shows "work n t < work n s"
  using assms(1)
  by (cases rule: lstep.cases) (use assms(2,3) in \<open>auto intro!: work_upd [of g n _ s]\<close>)

lemma busy_can_step:
  assumes "reach n s" and "g < n" and "pcs s g \<noteq> Idle"
  shows "\<exists>h < n. pcs s h \<noteq> Idle \<and> (\<exists>t. lstep h s t)"
proof (cases "pcs s g = Joining \<and> 0 < nwait s")
  case True
  have l: "locks_ok n s" using reach_inv [OF assms(1)] by simp
  obtain h where h: "h < n" "waiting (pcs s h)" using waiter_exists [OF l conjunct2 [OF True]] by blast
  then have "pcs s h \<noteq> Idle \<and> pcs s h \<noteq> Joining" by (auto simp: waiting_def)
  then show ?thesis using pc_step h(1) by blast
next
  case False
  then show ?thesis using pc_step assms(2,3) by blast
qed

text \<open>\<open>drains n k s\<close>: if no goroutine starts another method, every schedule ends within \<open>k\<close> steps with all of them idle.\<close>

inductive drains :: "nat \<Rightarrow> nat \<Rightarrow> lstate \<Rightarrow> bool" for n where
  drained: "\<forall>g < n. pcs s g = Idle \<Longrightarrow> drains n k s"
| draining: "\<exists>h < n. pcs s h \<noteq> Idle \<and> (\<exists>t. lstep h s t) \<Longrightarrow>
    \<forall>h t. h < n \<longrightarrow> pcs s h \<noteq> Idle \<longrightarrow> lstep h s t \<longrightarrow> drains n k t \<Longrightarrow> drains n (Suc k) s"

lemma drains_work:
  assumes "reach n s" and "work n s \<le> k"
  shows "drains n k s"
  using assms
proof (induction k arbitrary: s)
  case 0
  have "rank (pcs s g) = 0" if "g < n" for g using 0(2) that by (simp add: work_def)
  then have "pcs s g = Idle" if "g < n" for g using that by (cases "pcs s g") fastforce+
  then show ?case by (blast intro: drained)
next
  case (Suc k)
  show ?case
  proof (cases "\<forall>g < n. pcs s g = Idle")
    case True
    then show ?thesis by (rule drained)
  next
    case False
    then obtain g where g: "g < n" "pcs s g \<noteq> Idle" by blast
    show ?thesis
    proof (rule draining)
      show "\<exists>h < n. pcs s h \<noteq> Idle \<and> (\<exists>t. lstep h s t)" by (rule busy_can_step [OF Suc.prems(1) g])
      show "\<forall>h t. h < n \<longrightarrow> pcs s h \<noteq> Idle \<longrightarrow> lstep h s t \<longrightarrow> drains n k t"
      proof (intro allI impI)
        fix h t assume h: "h < n" "pcs s h \<noteq> Idle" "lstep h s t"
        have "work n t \<le> k" using step_works [OF h(3,1,2)] Suc.prems(2) by simp
        then show "drains n k t" by (rule Suc.IH [OF reach_step [OF Suc.prems(1) h(1,3)]])
      qed
    qed
  qed
qed

lemma work_bound: "work n s \<le> 5 * n"
proof -
  have "rank p \<le> 5" for p by (cases p) simp_all
  then have "work n s \<le> (\<Sum>h < n. 5)" unfolding work_def by (intro sum_mono) simp
  then show ?thesis by simp
qed

end
