(* ===== verification/Locking_Properties.thy ===== *)
theory Locking_Properties
  imports Locking
begin

text \<open>
  The properties of the locking discipline of a \<open>Ctx\<close> shared by any number of goroutines (\<^verbatim>\<open>cryptoki/binding.go\<close>,
  \<^verbatim>\<open>slot.go\<close>), in every interleaving of their steps.
\<close>

text \<open>A run of two goroutines: the first is parked in \<open>WaitForSlotEvent\<close>, the second waits for it in \<open>Destroy\<close>.\<close>

definition waiting_state :: lstate where
  "waiting_state = goto 0 InWait ((goto 0 WAdded ((goto 0 (RHeld RWait) (start\<lparr>rcount := 1\<rparr>))\<lparr>nwait := 1\<rparr>))\<lparr>rcount := 0\<rparr>)"

definition destroying_state :: lstate where
  "destroying_state = goto 1 Joining (goto 1 (XHeld XDestroy) (waiting_state\<lparr>wheld := True\<rparr>))"

lemma reach_waiting: "reach 2 waiting_state"
proof -
  have "reach 2 (goto 0 (RHeld RWait) (start\<lparr>rcount := rcount start + 1\<rparr>))"
    by (rule reach_step [OF reach_start, of 0], simp, rule rlock) (simp_all add: start_def)
  then have 1: "reach 2 (goto 0 (RHeld RWait) (start\<lparr>rcount := 1\<rparr>))" (is "reach 2 ?a") by (simp add: start_def)
  have "reach 2 (goto 0 WAdded (?a\<lparr>nwait := nwait ?a + 1\<rparr>))"
    by (rule reach_step [OF 1, of 0], simp, rule w_add) (simp_all add: start_def)
  then have 2: "reach 2 (goto 0 WAdded (?a\<lparr>nwait := 1\<rparr>))" (is "reach 2 ?b") by (simp add: start_def)
  have "reach 2 (goto 0 InWait (?b\<lparr>rcount := rcount ?b - 1\<rparr>))"
    by (rule reach_step [OF 2, of 0], simp, rule w_unlock) (simp_all add: start_def)
  then show ?thesis by (simp add: waiting_state_def)
qed

lemma reach_destroying: "reach 2 destroying_state"
proof -
  have w: "pcs waiting_state 1 = Idle" "\<not> wheld waiting_state" "rcount waiting_state = 0" "present waiting_state"
    by (simp_all add: waiting_state_def start_def)
  have 1: "reach 2 (goto 1 (XHeld XDestroy) (waiting_state\<lparr>wheld := True\<rparr>))"
    by (rule reach_step [OF reach_waiting, of 1], simp, rule xlock) (use w in simp_all)
  show ?thesis unfolding destroying_state_def
    by (rule reach_step [OF 1, of 1], simp, rule d_wait) (use w in simp_all)
qed

text \<open>No goroutine is ever inside a library that has been unloaded: whatever the interleaving of calls, slot-event waits,
  \<open>Initialize\<close>, \<open>Finalize\<close> and \<open>Destroy\<close>, while one goroutine runs in the library it is mapped.\<close>

theorem library_mapped_while_in_use:
  assumes "reach n s" and "g < n" and "in_library (pcs s g)"
  shows "loaded s"
  using in_library_loaded [OF assms] .

theorem library_mapped_while_in_use_witness: "loaded destroying_state"
proof -
  have "in_library (pcs destroying_state 0)"
    by (simp add: destroying_state_def waiting_state_def in_library_def)
  then show ?thesis using library_mapped_while_in_use [OF reach_destroying, of 0] by simp
qed

text \<open>\<open>Initialize\<close> and \<open>Finalize\<close> are exclusive: while one of them is in the library no ordinary call is, and no other exclusive call;
  only slot-event waits, which \<open>Finalize\<close> has to be able to wake, may be.\<close>

theorem exclusive_calls_exclude:
  assumes "reach n s" and "g < n" and "h < n" and "pcs s g = InExcl" and "h \<noteq> g"
  shows "pcs s h \<noteq> InCall \<and> pcs s h \<noteq> InExcl"
  using in_excl_alone [OF assms] .

definition finalizing_state :: lstate where
  "finalizing_state = goto 1 InExcl (goto 1 (XHeld XCall) (waiting_state\<lparr>wheld := True\<rparr>))"

theorem exclusive_calls_exclude_witness: "pcs finalizing_state 0 \<noteq> InCall \<and> pcs finalizing_state 0 \<noteq> InExcl"
proof -
  have w: "pcs waiting_state 1 = Idle" "\<not> wheld waiting_state" "rcount waiting_state = 0" "present waiting_state"
    by (simp_all add: waiting_state_def start_def)
  have 1: "reach 2 (goto 1 (XHeld XCall) (waiting_state\<lparr>wheld := True\<rparr>))"
    by (rule reach_step [OF reach_waiting, of 1], simp, rule xlock) (use w in simp_all)
  have "reach 2 finalizing_state" unfolding finalizing_state_def
    by (rule reach_step [OF 1, of 1], simp, rule x_call) (use w in simp_all)
  moreover have "pcs finalizing_state 1 = InExcl" by (simp add: finalizing_state_def)
  ultimately show ?thesis using exclusive_calls_exclude [of 2 finalizing_state 1 0] by simp
qed

text \<open>The locking never leaves anybody stuck: as long as the library returns from every call and no new method is started, every
  schedule of the goroutines ends, after at most five steps each, with all of them out of their methods; in particular
  \<open>Destroy\<close> returns once the waits it joins have returned.\<close>

theorem every_schedule_drains:
  assumes "reach n s"
  shows "drains n (5 * n) s"
  by (rule drains_work [OF assms work_bound])

theorem every_schedule_drains_witness: "drains 2 10 destroying_state"
  using every_schedule_drains [OF reach_destroying] by simp

end
