(* ===== verification/Concurrent.thy ===== *)
theory Concurrent
  imports Programs Locking
begin

text \<open>
  Goroutines that run the methods of one \<open>Ctx\<close> at the same time.  \<open>Locking\<close> looks at the lock, the waiter count and
  the module pointer only; here every goroutine runs the code of its methods on the state of the program, the C heap
  and the native module included.  A method is cut where another goroutine can see it: at each operation of \<open>mu\<close> and
  \<open>waiters\<close>, and where it enters and leaves its own work, which is one step (its C blocks are its own, and the module
  serialises the calls it gets).  Run in a row, the steps are the method; interleaved in any order, they refine
  \<open>Locking\<close>, so no goroutine ever works in a library that is gone.  A slot-event wait may stay parked in the module; what a
  program of goroutines comes to then is the last section.
\<close>

section \<open>Methods\<close>

text \<open>How a method uses the lock, and what it does in between: \<open>Calling b\<close> is \<open>grab\<close>, \<open>b\<close>, \<open>release\<close>.\<close>

datatype 'm meth =
    Calling "'m ckModule \<Rightarrow> ('m world, goerror + unit) go"
  | Waiting uint
  | Initializing uint
  | Finalizing
  | Destroying

primrec code_of :: "'m meth \<Rightarrow> ('m world, unit) go" where
  "code_of (Calling b) = call_of (with_ctx b)"
| "code_of (Waiting flags) = call_of (WaitForSlotEvent flags)"
| "code_of (Initializing flags) = call_of (InitializeWithFlags flags)"
| "code_of Finalizing = call_of Finalize"
| "code_of Destroying = Destroy"

primrec lock_use :: "'m meth \<Rightarrow> shared_method + exclusive_method" where
  "lock_use (Calling b) = Inl RCall"
| "lock_use (Waiting flags) = Inl RWait"
| "lock_use (Initializing flags) = Inr XCall"
| "lock_use Finalizing = Inr XCall"
| "lock_use Destroying = Inr XDestroy"

primrec own_work :: "'m meth \<Rightarrow> 'm ckModule \<Rightarrow> ('m world, unit) go" where
  "own_work (Calling b) m = call_of (b m)"
| "own_work (Waiting flags) m = call_of (ck_then handle m (Slot C_WaitForSlotEvent) [AULong flags])"
| "own_work (Initializing flags) m = call_of (ck_then err_only m (Life C_Initialize) [AULong flags])"
| "own_work Finalizing m = call_of (ck_then err_only m (Life C_Finalize) [])"
| "own_work Destroying m = ck_unload m"

section \<open>Steps\<close>

text \<open>Work in a library that is no longer mapped is a fault.\<close>

definition in_module :: "'m ckModule option \<Rightarrow> ('m ckModule \<Rightarrow> ('m world, unit) go) \<Rightarrow> ('m world, unit) go" where
  "in_module k b = (\<lambda>w. case k of None \<Rightarrow> (Fault ''no module'', w)
     | Some m \<Rightarrow> if dl m \<in> libs w then b m w else (Fault ''call into an unloaded library'', w))"

text \<open>One step of the method \<open>me\<close> at \<open>p\<close>, where \<open>k\<close> is the module pointer it has read; \<open>Idle\<close> is before and after it.\<close>

fun ctx_step :: "'m meth \<Rightarrow> pc \<Rightarrow> 'm ckModule option \<Rightarrow> ('m world, pc \<times> 'm ckModule option) go" where
  "ctx_step me Idle k = (case lock_use me of
      Inl r \<Rightarrow> go_bind RLock (\<lambda>_. go_ret (RHeld r, None))
    | Inr x \<Rightarrow> go_bind Lock (\<lambda>_. go_ret (XHeld x, None)))"
| "ctx_step me (RHeld r) k = go_bind (go_gets modl) (\<lambda>m. case m of
      None \<Rightarrow> go_ret (RDone, None)
    | Some m \<Rightarrow> (case r of
        RCall \<Rightarrow> go_ret (InCall, Some m)
      | RWait \<Rightarrow> go_bind waiters_Add (\<lambda>_. go_ret (WAdded, Some m))))"
| "ctx_step me InCall k = go_bind (in_module k (own_work me)) (\<lambda>_. go_ret (RDone, k))"
| "ctx_step me RDone k = go_bind RUnlock (\<lambda>_. go_ret (Idle, None))"
| "ctx_step me WAdded k = go_bind RUnlock (\<lambda>_. go_ret (InWait, k))"
| "ctx_step me InWait k = go_bind (in_module k (own_work me)) (\<lambda>_. go_ret (WReturned, k))"
| "ctx_step me WReturned k = go_bind waiters_Done (\<lambda>_. go_ret (Idle, None))"
| "ctx_step me (XHeld x) k = go_bind (go_gets modl) (\<lambda>m. case m of
      None \<Rightarrow> go_ret (XDone, None)
    | Some m \<Rightarrow> (case x of XCall \<Rightarrow> go_ret (InExcl, Some m) | XDestroy \<Rightarrow> go_ret (Joining, Some m)))"
| "ctx_step me InExcl k = go_bind (in_module k (own_work me)) (\<lambda>_. go_ret (XDone, k))"
| "ctx_step me Joining k = go_bind waiters_Wait (\<lambda>_. go_ret (Unloading, k))"
| "ctx_step me Unloading k = go_bind (in_module k (own_work me)) (\<lambda>_. go_ret (Unloaded, k))"
| "ctx_step me Unloaded k = go_bind (go_modify (\<lambda>w. w\<lparr>modl := None\<rparr>)) (\<lambda>_. go_ret (XDone, k))"
| "ctx_step me XDone k = go_bind Unlock (\<lambda>_. go_ret (Idle, None))"

text \<open>The steps in a row, until the method has returned.\<close>

fun steps_in_a_row :: "nat \<Rightarrow> 'm meth \<Rightarrow> pc \<Rightarrow> 'm ckModule option \<Rightarrow> ('m world, unit) go" where
  "steps_in_a_row 0 me p k = go_fault ''out of steps''"
| "steps_in_a_row (Suc n) me p k = go_bind (ctx_step me p k) (\<lambda>(p', k').
     if p' = Idle then go_ret () else steps_in_a_row n me p' k')"

section \<open>The steps are the method\<close>

lemma in_module_run [go_run]:
  "in_module (Some m) b w = (if dl m \<in> libs w then b m w else (Fault ''call into an unloaded library'', w))"
  "in_module None b w = (Fault ''no module'', w)"
  by (simp_all add: in_module_def)

lemmas lock_ops = RLock_def RUnlock_def Lock_def Unlock_def waiters_Add_def waiters_Done_def waiters_Wait_def

lemma row_Suc: "steps_in_a_row (Suc n) me p k w = (case ctx_step me p k w of
    (Ret (p', k'), w') \<Rightarrow> (if p' = Idle then (Ret (), w') else steps_in_a_row n me p' k' w')
  | (Panic e, w') \<Rightarrow> (Panic e, w') | (Crash e, w') \<Rightarrow> (Crash e, w') | (Fault e, w') \<Rightarrow> (Fault e, w'))"
  by (simp add: go_run split: outcome.splits prod.splits)

lemmas row_run = row_Suc [of "Suc n" for n] row_Suc [of 0]

lemmas method_defs = with_ctx_def grab_def WaitForSlotEvent_def InitializeWithFlags_def Finalize_def Destroy_def with_lock_def

text \<open>Where the method returns, its steps end in the same state, and where the steps end the method returns.\<close>

lemma steps_are_method:
  assumes "\<And>m. modl w = Some m \<Longrightarrow> dl m \<in> libs w"
  shows "steps_in_a_row 6 me Idle None w = (Ret (), w') \<longleftrightarrow> code_of me w = (Ret (), w')"
proof -
  have six: "(6 :: nat) = Suc (Suc (Suc (Suc (Suc (Suc 0)))))" by simp
  show ?thesis
  proof (cases "modl w")
    case None
    then show ?thesis unfolding six
      by (cases me) (auto simp: row_Suc go_run lock_ops method_defs simp del: steps_in_a_row.simps)
  next
    case (Some m)
    then have l: "dl m \<in> libs w" using assms(1) by blast
    show ?thesis
    proof (cases me)
      case (Calling b)
      obtain q v where b: "b m (w\<lparr>readers := Suc (readers w)\<rparr>) = (q, v)" by (cases "b m (w\<lparr>readers := Suc (readers w)\<rparr>)")
      show ?thesis unfolding six Calling using Some l b
        by (cases q) (auto simp: row_Suc go_run lock_ops method_defs simp del: steps_in_a_row.simps)
    next
      case (Waiting f)
      let ?b = "ck_then handle m (Slot C_WaitForSlotEvent) [AULong f]"
      obtain q v where b: "?b (w\<lparr>waiters := Suc (waiters w)\<rparr>) = (q, v)" by (cases "?b (w\<lparr>waiters := Suc (waiters w)\<rparr>)")
      have e: "w\<lparr>readers := readers w, waiters := Suc (waiters w)\<rparr> = w\<lparr>waiters := Suc (waiters w)\<rparr>" by (cases w) simp
      show ?thesis unfolding six Waiting using Some l b e
        by (cases q) (auto simp: row_Suc go_run lock_ops method_defs simp del: steps_in_a_row.simps)
    next
      case (Initializing f)
      let ?b = "ck_then err_only m (Life C_Initialize) [AULong f]"
      obtain q v where b: "?b (w\<lparr>writer := True\<rparr>) = (q, v)" by (cases "?b (w\<lparr>writer := True\<rparr>)")
      show ?thesis unfolding six Initializing using Some l b
        by (cases q) (auto simp: row_Suc go_run lock_ops method_defs simp del: steps_in_a_row.simps)
    next
      case Finalizing
      let ?b = "ck_then err_only m (Life C_Finalize) []"
      obtain q v where b: "?b (w\<lparr>writer := True\<rparr>) = (q, v)" by (cases "?b (w\<lparr>writer := True\<rparr>)")
      show ?thesis unfolding six Finalizing using Some l b
        by (cases q) (auto simp: row_Suc go_run lock_ops method_defs simp del: steps_in_a_row.simps)
    next
      case Destroying
      obtain q v where b: "ck_unload m (w\<lparr>writer := True\<rparr>) = (q, v)" by (cases "ck_unload m (w\<lparr>writer := True\<rparr>)")
      show ?thesis unfolding six Destroying using Some l b
        by (cases q) (auto simp: row_Suc go_run lock_ops method_defs simp del: steps_in_a_row.simps)
    qed
  qed
qed

text \<open>
  How the lock is while a method that is not \<open>Calling\<close> is in the library: a wait is counted and has given up its own
  read lock; the others hold the write lock, and \<open>Destroy\<close> unloads when no wait is left.
\<close>

fun lock_during :: "'m meth \<Rightarrow> 'm world \<Rightarrow> nat \<times> bool \<times> nat" where
  "lock_during (Calling b) w = (readers w + 1, False, waiters w)"
| "lock_during (Waiting f) w = (readers w, False, waiters w + 1)"
| "lock_during Destroying w = (0, True, 0)"
| "lock_during me w = (0, True, waiters w)"

lemma ck_then_at_calls:
  "ck_then q m f as w = (Ret x, w') \<Longrightarrow> at_calls w' \<in> {at_calls w, at_calls w @ [(readers w, writer w, waiters w)]}"
  by (auto simp: ck_then_def ck_run native_call_def Let_def go_run split: sum.splits option.splits prod.splits outcome.splits)

lemma method_at_calls:
  assumes "code_of me w = (Ret (), w')" and "\<forall>b. me \<noteq> Calling b"
  shows "at_calls w' \<in> {at_calls w, at_calls w @ [lock_during me w]}"
proof (cases me)
  case (Waiting f)
  then show ?thesis using assms(1)
    by (auto simp: method_defs lock_ops go_run split: option.splits prod.splits outcome.splits if_splits dest: ck_then_at_calls)
next
  case (Initializing f)
  then show ?thesis using assms(1)
    by (auto simp: method_defs lock_ops go_run split: option.splits prod.splits outcome.splits if_splits dest: ck_then_at_calls)
next
  case Finalizing
  then show ?thesis using assms(1)
    by (auto simp: method_defs lock_ops go_run split: option.splits prod.splits outcome.splits if_splits dest: ck_then_at_calls)
next
  case Destroying
  then show ?thesis using assms(1)
    by (auto simp: method_defs lock_ops ck_unload_def ck_close_def heap_op_def go_run split: option.splits prod.splits outcome.splits if_splits)
qed (use assms(2) in simp)

section \<open>Every method has one of these shapes\<close>

definition forget :: "('m ckModule \<Rightarrow> ('m world, goerror + 'a) go) \<Rightarrow> 'm ckModule \<Rightarrow> ('m world, goerror + unit) go" where
  "forget b m = go_bind (b m) (\<lambda>r. go_ret (map_sum id (\<lambda>_. ()) r))"

lemma forget_code: "code_of (Calling (forget b)) = call_of (with_ctx b)"
proof (rule ext)
  fix w
  show "code_of (Calling (forget b)) w = call_of (with_ctx b) w"
    by (simp add: forget_def with_ctx_def go_run split: outcome.splits prod.splits sum.splits)
qed

definition shaped :: "('m world, unit) go \<Rightarrow> bool" where
  "shaped m \<longleftrightarrow> m = go_ret () \<or> (\<exists>me. code_of me = m)"

lemma shaped_ctx: "shaped (call_of (with_ctx b))"
  unfolding shaped_def using forget_code by blast

lemma shaped_ret: "shaped (call_of (go_ret x))"
  by (simp add: shaped_def)

lemma shaped_if: "(c \<Longrightarrow> shaped (call_of m)) \<Longrightarrow> (\<not> c \<Longrightarrow> shaped (call_of n)) \<Longrightarrow> shaped (call_of (if c then m else n))"
  by simp

lemma shaped_code: "shaped (code_of me)"
  by (auto simp: shaped_def)

lemmas shaped_excl = shaped_code [of "Initializing f" for f, simplified] shaped_code [of Finalizing, simplified]
  shaped_code [of "Waiting f" for f, simplified]

lemma SupportsV32_shaped: "shaped (call_of SupportsV32)"
proof -
  have "call_of SupportsV32 w = code_of (Calling (\<lambda>m. go_ret (Inr ()))) w" for w :: "'m world"
    by (cases "modl w") (auto simp: SupportsV32_def with_ctx_def grab_def lock_ops go_run)
  then have "call_of SupportsV32 = (code_of (Calling (\<lambda>m. go_ret (Inr ()))) :: ('m world, unit) go)" by (rule ext)
  then show ?thesis using shaped_code by metis
qed

lemmas shape_rules = shaped_ctx shaped_ret shaped_excl SupportsV32_shaped shaped_if

lemma session_call_shaped: "session_call w m \<Longrightarrow> shaped m"
  by (induction rule: session_call.induct)
    (unfold OpenSession_def CloseSession_def CloseAllSessions_def GetSessionInfo_def Login_def Logout_def
      GetOperationState_def SetOperationState_def SeedRandom_def GenerateRandom_def Initialize_def GetInfo_def,
      (rule shape_rules)+)

lemma slot_call_shaped: "slot_call w m \<Longrightarrow> shaped m"
  by (induction rule: slot_call.induct)
    (unfold GetSlotList_def GetSlotInfo_def GetTokenInfo_def GetMechanismList_def GetMechanismInfo_def InitToken_def
      InitPIN_def SetPIN_def, (rule shape_rules)+)

lemma object_call_shaped: "object_call w m \<Longrightarrow> shaped m"
  by (induction rule: object_call.induct)
    (unfold CreateObject_def CopyObject_def DestroyObject_def GetObjectSize_def GetAttributeValue_def
      SetAttributeValue_def FindObjectsInit_def FindObjects_def FindObjectsFinal_def, (rule shape_rules)+)

lemma crypt_call_shaped: "crypt_call w m \<Longrightarrow> shaped m"
  by (induction rule: crypt_call.induct)
    (unfold EncryptInit_def Encrypt_def EncryptUpdate_def EncryptFinal_def DecryptInit_def Decrypt_def DecryptUpdate_def
      DecryptFinal_def DigestInit_def Digest_def DigestUpdate_def DigestKey_def DigestFinal_def DigestEncryptUpdate_def
      DecryptDigestUpdate_def SignEncryptUpdate_def DecryptVerifyUpdate_def, (rule shape_rules)+)

lemma sign_call_shaped: "sign_call w m \<Longrightarrow> shaped m"
  by (induction rule: sign_call.induct)
    (unfold SignInit_def Sign_def SignUpdate_def SignFinal_def VerifyInit_def Verify_def VerifyUpdate_def VerifyFinal_def
      VerifySignatureInit_def VerifySignature_def VerifySignatureUpdate_def VerifySignatureFinal_def, (rule shape_rules)+)

lemma key_call_shaped: "key_call w m \<Longrightarrow> shaped m"
  by (induction rule: key_call.induct)
    (unfold GenerateKey_def GenerateKeyPair_def WrapKey_def UnwrapKey_def DeriveKey_def EncapsulateKey_def
      DecapsulateKey_def GetSessionValidationFlags_def WrapKeyAuthenticated_def UnwrapKeyAuthenticated_def,
      (rule shape_rules)+)

lemma ctx_call_shaped: "ctx_call w m \<Longrightarrow> shaped m"
  unfolding ctx_call_def
  by (elim disjE) (simp_all add: session_call_shaped slot_call_shaped object_call_shaped crypt_call_shaped
      sign_call_shaped key_call_shaped)

section \<open>The lock fields\<close>

text \<open>\<open>relocked r k w\<close>: the state \<open>w\<close>, with \<open>r\<close> readers, no writer and \<open>k\<close> waiters.\<close>

definition relocked :: "nat \<Rightarrow> nat \<Rightarrow> 'm world \<Rightarrow> 'm world" where
  "relocked r k w = w\<lparr>readers := r, writer := False, waiters := k\<rparr>"

lemma relocked_simps [simp]: "hp (relocked r k w) = hp w" "nat_st (relocked r k w) = nat_st w" "modl (relocked r k w) = modl w"
  "libs (relocked r k w) = libs w" "readers (relocked r k w) = r" "writer (relocked r k w) = False" "waiters (relocked r k w) = k"
  "at_calls (relocked r k w) = at_calls w" "policy (relocked r k w) = policy w" "gcms (relocked r k w) = gcms w" "calls (relocked r k w) = calls w"
  "relocked r k (relocked r' k' w) = relocked r k w"
  by (simp_all add: relocked_def)

lemma relocked_locks [simp]: "relocked r k (w\<lparr>readers := n\<rparr>) = relocked r k w" "relocked r k (w\<lparr>writer := b\<rparr>) = relocked r k w"
  "relocked r k (w\<lparr>waiters := n\<rparr>) = relocked r k w"
  by (simp_all add: relocked_def)

lemma relocked_frame: "frame S (relocked r k u) (relocked r k v) \<longleftrightarrow> frame S (relocked 0 0 u) (relocked 0 0 v)"
  by (simp add: frame_def ext_def)

lemma relocked_wf: "wf w \<Longrightarrow> wf (relocked r k w)"
  by (simp add: wf_def)

lemma relocked_oom: "oom (relocked r k w) = oom w"
  by (simp add: oom_def)

lemma relocked_counts: "counts_honestly (relocked r k w) = counts_honestly w"
  by (simp add: counts_honestly_def)

text \<open>What a method asks of its arguments does not depend on who else holds the lock, but for the exclusive ones.\<close>

lemma mech_sees_relock [simp]: "mech_sees m V (relocked r k w) = mech_sees m V w"
proof -
  have "gcm_sees i v (relocked r k w) = gcm_sees i v w" for i v by (simp add: gcm_sees_def)
  then show ?thesis by (simp add: mech_sees_def split: option.split MechanismParams.split)
qed

lemma session_call_relock:
  "session_call w m \<Longrightarrow> (\<forall>r k. session_call (relocked r k w) m) \<or> (\<exists>f. m = call_of (InitializeWithFlags f)) \<or> m = call_of Finalize"
  by (induction rule: session_call.induct) (auto intro: session_call.intros simp: Initialize_def)

lemma slot_call_relock: "slot_call w m \<Longrightarrow> slot_call (relocked r k w) m"
  by (induction rule: slot_call.induct) (rule slot_call.intros; simp)+

lemma object_call_relock: "object_call w m \<Longrightarrow> object_call (relocked r k w) m"
  by (induction rule: object_call.induct) (rule object_call.intros; simp)+

lemma crypt_call_relock: "crypt_call w m \<Longrightarrow> crypt_call (relocked r k w) m"
  by (induction rule: crypt_call.induct) (rule crypt_call.intros; simp)+

lemma sign_call_relock: "sign_call w m \<Longrightarrow> sign_call (relocked r k w) m"
  by (induction rule: sign_call.induct) (rule sign_call.intros; simp)+

lemma key_call_relock: "key_call w m \<Longrightarrow> key_call (relocked r k w) m"
  by (induction rule: key_call.induct) (rule key_call.intros; simp)+

lemma ctx_call_relock:
  "ctx_call w m \<Longrightarrow> (\<forall>r k. ctx_call (relocked r k w) m) \<or> (\<exists>f. m = call_of (InitializeWithFlags f)) \<or> m = call_of Finalize"
  unfolding ctx_call_def using session_call_relock [of w m]
  by (elim disjE) (simp_all add: slot_call_relock object_call_relock crypt_call_relock sign_call_relock key_call_relock, blast)

text \<open>\<open>runnable w me\<close>: the arguments of the method are fit for the state \<open>w\<close>.\<close>

definition runnable :: "'m world \<Rightarrow> 'm meth \<Rightarrow> bool" where
  "runnable w me \<longleftrightarrow> (\<forall>b. me = Calling b \<longrightarrow> (\<forall>r k. ctx_call (relocked r k w) (code_of me)))"

lemma ctx_call_runnable:
  assumes "ctx_call w m"
  shows "m = go_ret () \<or> (\<exists>me. code_of me = m \<and> runnable w me)"
proof -
  have i: "\<exists>me. code_of me = call_of (InitializeWithFlags f) \<and> runnable w me" for f
    by (rule exI [of _ "Initializing f"]) (simp add: runnable_def)
  have f: "\<exists>me. code_of me = call_of Finalize \<and> runnable w me"
    by (rule exI [of _ Finalizing]) (simp add: runnable_def)
  have "\<exists>me. code_of me = m \<and> runnable w me" if "m \<noteq> go_ret ()" "\<forall>r k. ctx_call (relocked r k w) m"
    using ctx_call_shaped [OF assms] that unfolding shaped_def runnable_def by metis
  then show ?thesis using ctx_call_relock [OF assms] i f by blast
qed

section \<open>Goroutines\<close>

text \<open>
  A configuration: the state of the program, and for each goroutine where it is in its method, the module pointer
  it has read, and the methods it has yet to run, the current one first.
\<close>

record 'm gconf =
  gworld :: "'m world"
  ctl :: "nat \<Rightarrow> pc"
  got :: "nat \<Rightarrow> 'm ckModule option"
  todo :: "nat \<Rightarrow> 'm meth list"

definition after_step :: "nat \<Rightarrow> pc \<Rightarrow> 'm ckModule option \<Rightarrow> 'm world \<Rightarrow> 'm gconf \<Rightarrow> 'm gconf" where
  "after_step g p k w c = c\<lparr>gworld := w, ctl := (ctl c)(g := p), got := (got c)(g := k),
     todo := (todo c)(g := if p = Idle then tl (todo c g) else todo c g)\<rparr>"

text \<open>A lock that is taken, or a wait that is not over, gives no step.\<close>

inductive run_step :: "nat \<Rightarrow> 'm gconf \<Rightarrow> 'm gconf \<Rightarrow> bool" for g where
  run_stepI: "todo c g = me # ms \<Longrightarrow> ctx_step me (ctl c g) (got c g) (gworld c) = (Ret (p, k), w) \<Longrightarrow>
     run_step g c (after_step g p k w c)"

definition conf_start :: "'m world \<Rightarrow> (nat \<Rightarrow> 'm meth list) \<Rightarrow> 'm gconf" where
  "conf_start w ms = \<lparr>gworld = w, ctl = (\<lambda>g. Idle), got = (\<lambda>g. None), todo = ms\<rparr>"

inductive conf_reach :: "nat \<Rightarrow> 'm gconf \<Rightarrow> 'm gconf \<Rightarrow> bool" for n c0 where
  conf_refl: "conf_reach n c0 c0"
| conf_step: "conf_reach n c0 c \<Longrightarrow> g < n \<Longrightarrow> run_step g c c' \<Longrightarrow> conf_reach n c0 c'"

inductive_cases run_stepE: "run_step g c c'"

lemma after_step_simps [simp]: "gworld (after_step g p k w c) = w" "ctl (after_step g p k w c) = (ctl c)(g := p)"
  "got (after_step g p k w c) = (got c)(g := k)"
  "todo (after_step g p k w c) = (todo c)(g := if p = Idle then tl (todo c g) else todo c g)"
  by (simp_all add: after_step_def)

section \<open>What the lock sees of a configuration\<close>

definition lock_view :: "'m ckModule \<Rightarrow> 'm gconf \<Rightarrow> lstate" where
  "lock_view md c = \<lparr>pcs = ctl c, rcount = readers (gworld c), wheld = writer (gworld c), nwait = waiters (gworld c),
     present = (modl (gworld c) \<noteq> None), loaded = (dl md \<in> libs (gworld c))\<rparr>"

lemma lock_view_simps [simp]: "pcs (lock_view md c) = ctl c" "rcount (lock_view md c) = readers (gworld c)"
  "wheld (lock_view md c) = writer (gworld c)" "nwait (lock_view md c) = waiters (gworld c)"
  "present (lock_view md c) = (modl (gworld c) \<noteq> None)" "loaded (lock_view md c) = (dl md \<in> libs (gworld c))"
  by (simp_all add: lock_view_def)

lemma lock_view_eqI:
  "pcs s = (ctl c)(g := p) \<Longrightarrow> rcount s = readers w \<Longrightarrow> wheld s = writer w \<Longrightarrow> nwait s = waiters w \<Longrightarrow>
     present s = (modl w \<noteq> None) \<Longrightarrow> loaded s = (dl md \<in> libs w) \<Longrightarrow> lock_view md (after_step g p k w c) = s"
  by (simp add: lock_view_def)

text \<open>The places of a method on its way through \<open>ctx_step\<close>.\<close>

fun at_pc :: "'m meth \<Rightarrow> pc \<Rightarrow> bool" where
  "at_pc me Idle \<longleftrightarrow> True"
| "at_pc me (RHeld r) \<longleftrightarrow> lock_use me = Inl r"
| "at_pc me InCall \<longleftrightarrow> lock_use me = Inl RCall"
| "at_pc me RDone \<longleftrightarrow> isl (lock_use me)"
| "at_pc me (XHeld x) \<longleftrightarrow> lock_use me = Inr x"
| "at_pc me InExcl \<longleftrightarrow> lock_use me = Inr XCall"
| "at_pc me XDone \<longleftrightarrow> \<not> isl (lock_use me)"
| "at_pc me p \<longleftrightarrow> (if waiting p then lock_use me = Inl RWait else lock_use me = Inr XDestroy)"

text \<open>While the library is mapped the state is a frame of the first one, but for the lock; afterwards the module's block is gone too.\<close>

definition lib_state :: "'m world \<Rightarrow> 'm ckModule \<Rightarrow> 'm world \<Rightarrow> bool" where
  "lib_state w0 md w \<longleftrightarrow> (if dl md \<in> libs w then frame (released UNIV) (relocked 0 0 w0) (relocked 0 0 w)
     else \<forall>a. mblk md = Ptr a \<longrightarrow> mem (hp w) = (mem (hp w0))(a := None))"

lemma lib_state_locks [simp]: "lib_state w0 md (w\<lparr>readers := n\<rparr>) = lib_state w0 md w"
  "lib_state w0 md (w\<lparr>writer := b\<rparr>) = lib_state w0 md w" "lib_state w0 md (w\<lparr>waiters := n\<rparr>) = lib_state w0 md w"
  by (simp_all add: lib_state_def)

lemma lib_state_frame: "lib_state w0 md w \<Longrightarrow> dl md \<in> libs w \<Longrightarrow> frame (released UNIV) (relocked 0 0 w0) (relocked 0 0 w)"
  by (simp add: lib_state_def)

text \<open>
  The invariant: the lock is as \<open>Locking\<close> says; the rest of the state is as \<open>lib_state\<close> says; whoever needs the module has the pointer to it.
\<close>

definition conf_inv :: "nat \<Rightarrow> 'm world \<Rightarrow> 'm ckModule \<Rightarrow> 'm gconf \<Rightarrow> bool" where
  "conf_inv n w0 md c \<longleftrightarrow> reach n (lock_view md c) \<and> modl (gworld c) \<in> {None, Some md} \<and>
     lib_state w0 md (gworld c) \<and>
     (\<forall>g < n. (needs_library (ctl c g) \<longrightarrow> got c g = Some md) \<and>
       (\<forall>me \<in> set (todo c g). runnable w0 me) \<and>
       (ctl c g \<noteq> Idle \<longrightarrow> (\<exists>me ms. todo c g = me # ms \<and> at_pc me (ctl c g))))"

section \<open>The work of a method in between\<close>

text \<open>A call without output memory touches nothing but the module, whoever holds the lock.\<close>

lemma ck_then_plain:
  assumes w0: "wf w0" "modl w0 = Some md" and as: "list_all input_arg as" and vs: "sees as vs w"
  shows "\<exists>x ms cs ls. ck_then q md f as w = (Ret x, w\<lparr>nat_st := ms, calls := cs, at_calls := ls\<rparr>)"
proof (cases "served md f")
  case (Inl r)
  have "\<exists>ms cs ls. w = w\<lparr>nat_st := ms, calls := cs, at_calls := ls\<rparr>"
    by (intro exI [of _ "nat_st w"] exI [of _ "calls w"] exI [of _ "at_calls w"]) simp
  then show ?thesis using Inl by (simp add: ck_then_def ck_run go_run)
next
  case (Inr N)
  have N: "conforming N" by (rule served_conforming [OF w0 Inr])
  have v: "those (map (view_arg (hp w)) as) = Some vs" using vs by (simp add: sees_def)
  obtain r ms where "native_call N f as w = (Ret r, w\<lparr>nat_st := ms, calls := calls w @ [Call f vs],
      at_calls := at_calls w @ [(readers w, writer w, waiters w)]\<rparr>)"
    using native_call_pure [OF N v input_args(1-3) [OF as]] by blast
  then show ?thesis using Inr by (auto simp: ck_then_def ck_run go_run)
qed

text \<open>The body of a method under the read lock, next to other readers: what the method does alone, it does here.\<close>

lemma with_ctx_body:
  assumes "call_of (with_ctx b) w = (Ret (), w')" and "\<not> writer w" and "modl w = Some md"
  shows "\<exists>x v. b md (w\<lparr>readers := readers w + 1\<rparr>) = (Ret x, v) \<and> 0 < readers v \<and> w' = v\<lparr>readers := readers v - 1\<rparr>"
proof -
  obtain q v where b: "b md (w\<lparr>readers := readers w + 1\<rparr>) = (q, v)" by (cases "b md (w\<lparr>readers := readers w + 1\<rparr>)")
  show ?thesis using assms b
    by (cases q) (simp_all add: with_ctx_def grab_def lock_ops go_run split: if_splits)
qed

text \<open>No refused allocation, and honest counts.\<close>

definition supplied :: "'m world \<Rightarrow> bool" where
  "supplied w \<longleftrightarrow> \<not> oom w \<and> counts_honestly w"

lemma suppliedD: "supplied w \<Longrightarrow> \<not> oom w" "supplied w \<Longrightarrow> counts_honestly w"
  by (simp_all add: supplied_def)

lemma own_work_Calling:
  assumes w0: "wf w0" "supplied w0" and r: "runnable w0 (Calling b)"
    and f: "frame (released UNIV) (relocked 0 0 w0) (relocked 0 0 w)" and l: "0 < readers w" "\<not> writer w" and md: "modl w = Some md"
  shows "\<exists>v. own_work (Calling b) md w = (Ret (), v) \<and> frame (released UNIV) w v"
proof -
  let ?r = "readers w - 1" let ?k = "waiters w"
  let ?u = "relocked ?r ?k w" let ?start = "relocked ?r ?k w0"
  have fr: "frame (released UNIV) ?start ?u" by (rule iffD2 [OF relocked_frame f])
  have u: "wf ?u" by (rule frame_wf [OF fr relocked_wf [OF w0(1)]])
  have "ctx_call ?start (code_of (Calling b))" using r unfolding runnable_def by blast
  then have "safe ?start (code_of (Calling b))" by (rule ctx_call_safe) (simp_all add: relocked_oom relocked_counts suppliedD [OF w0(2)])
  moreover have "\<not> oom ?u" using suppliedD(1) [OF w0(2)] frame_oom [OF fr] by (simp add: relocked_oom)
  ultimately obtain u' where u': "call_of (with_ctx b) ?u = (Ret (), u')" "frame (released UNIV) ?u u'"
    unfolding safe_def code_of.simps using refines_no_oom u fr by (metis (full_types) old.unit.exhaust)
  have w: "?u\<lparr>readers := readers ?u + 1\<rparr> = w" using l by (cases w) (simp add: relocked_def)
  obtain x v where v: "b md w = (Ret x, v)" "0 < readers v" "u' = v\<lparr>readers := readers v - 1\<rparr>"
    using with_ctx_body [OF u'(1), of md] md unfolding w by auto
  have "frame (released UNIV) w v" using u'(2) v(2) l unfolding v(3) by (simp add: frame_def ext_def) linarith
  then show ?thesis using v(1) by (simp add: go_run)
qed

definition same_locks :: "'m world \<Rightarrow> 'm world \<Rightarrow> bool" where
  "same_locks w v \<longleftrightarrow> readers v = readers w \<and> writer v = writer w \<and> waiters v = waiters w \<and> modl v = modl w"

lemma plain_work_ok:
  assumes w0: "wf w0" "modl w0 = Some md" and f: "frame (released UNIV) (relocked 0 0 w0) (relocked 0 0 w)"
    and as: "list_all input_arg as" "sees as vs w"
  shows "\<exists>v. call_of (ck_then q md fn as) w = (Ret (), v) \<and> frame (released UNIV) (relocked 0 0 w0) (relocked 0 0 v) \<and>
    same_locks w v \<and> libs v = libs w"
proof -
  obtain x ms cs ls where "ck_then q md fn as w = (Ret x, w\<lparr>nat_st := ms, calls := cs, at_calls := ls\<rparr>)" (is "_ = (_, ?v)")
    using ck_then_plain [OF w0 as] by blast
  moreover have "frame (released UNIV) (relocked 0 0 w0) (relocked 0 0 ?v)" using f by (simp add: frame_def ext_def)
  ultimately show ?thesis by (simp add: go_run same_locks_def)
qed

text \<open>Every method's own work ends, keeps the frame and leaves the lock to the steps around it.\<close>

lemma own_work_ok:
  assumes w0: "wf w0" "supplied w0" "modl w0 = Some md" and r: "runnable w0 me" "lock_use me \<noteq> Inr XDestroy"
    and f: "frame (released UNIV) (relocked 0 0 w0) (relocked 0 0 w)" and md: "modl w = Some md"
    and l: "lock_use me = Inl RCall \<Longrightarrow> 0 < readers w \<and> \<not> writer w"
  shows "\<exists>v. own_work me md w = (Ret (), v) \<and> frame (released UNIV) (relocked 0 0 w0) (relocked 0 0 v) \<and> same_locks w v \<and> libs v = libs w"
proof (cases me)
  case (Calling b)
  obtain v where v: "own_work me md w = (Ret (), v)" "frame (released UNIV) w v"
    using own_work_Calling [OF w0(1,2) r(1) [unfolded Calling] f _ _ md] l Calling by auto
  have "frame (released UNIV) (relocked 0 0 w) (relocked 0 0 v)" using v(2) by (simp add: frame_def ext_def)
  moreover have "same_locks w v \<and> libs v = libs w" using v(2) by (simp add: same_locks_def frame_def ext_def)
  ultimately show ?thesis using v(1) frame_trans [OF f] by blast
next
  case (Waiting x)
  then show ?thesis using plain_work_ok [OF w0(1,3) f, of "[AULong x]" "[SULong x]"] by simp
next
  case (Initializing x)
  then show ?thesis using plain_work_ok [OF w0(1,3) f, of "[AULong x]" "[SULong x]"] by simp
next
  case Finalizing
  then show ?thesis using plain_work_ok [OF w0(1,3) f, of "[]" "[]"] by simp
qed (use r(2) in simp)

lemma ck_unload_ok:
  assumes w0: "wf w0" "modl w0 = Some md" and f: "frame (released UNIV) (relocked 0 0 w0) (relocked 0 0 w)"
  shows "\<exists>v. ck_unload md w = (Ret (), v) \<and> same_locks w v \<and> libs v = libs w - {dl md} \<and> lib_state w0 md v"
proof -
  obtain a b where a: "mblk md = Ptr a" "mem (hp w0) a = Some b" using w0 unfolding wf_def by blast
  have "mem (hp w) a = Some b" using f a(2) by (simp add: frame_def)
  then show ?thesis using a(1) f by (simp add: ck_unload_def ck_close_def go_run heap_op_def same_locks_def lib_state_def frame_def)
qed

section \<open>One step of one goroutine\<close>

text \<open>What a step leads to, seen from the invariant.\<close>

definition good_step :: "nat \<Rightarrow> 'm world \<Rightarrow> 'm ckModule \<Rightarrow> 'm meth \<Rightarrow> 'm gconf \<Rightarrow> pc \<Rightarrow> 'm ckModule option \<Rightarrow> 'm world \<Rightarrow> bool" where
  "good_step g w0 md me c p k w \<longleftrightarrow> lstep g (lock_view md c) (lock_view md (after_step g p k w c)) \<and> at_pc me p \<and>
     (needs_library p \<longrightarrow> k = Some md) \<and> modl w \<in> {None, Some md} \<and>
     lib_state w0 md w"

definition steps_well :: "nat \<Rightarrow> 'm world \<Rightarrow> 'm ckModule \<Rightarrow> 'm meth \<Rightarrow> 'm gconf \<Rightarrow> bool" where
  "steps_well g w0 md me c \<longleftrightarrow> (\<exists>p k w. ctx_step me (ctl c g) (got c g) (gworld c) = (Ret (p, k), w) \<and> good_step g w0 md me c p k w)"

lemma steps_wellI:
  assumes "ctx_step me (ctl c g) (got c g) (gworld c) = (Ret (p, k), w)" and "lstep g (lock_view md c) (goto g p s)"
    and "at_pc me p" and "needs_library p \<Longrightarrow> k = Some md" and "modl w \<in> {None, Some md}"
    and "lib_state w0 md w"
    and "pcs s = ctl c" "rcount s = readers w" "wheld s = writer w" "nwait s = waiters w" "present s = (modl w \<noteq> None)"
    "loaded s = (dl md \<in> libs w)"
  shows "steps_well g w0 md me c"
proof -
  have "lock_view md (after_step g p k w c) = goto g p s" using assms(7-) by (intro lock_view_eqI) simp_all
  then have "good_step g w0 md me c p k w" using assms(2-6) by (simp add: good_step_def)
  then show ?thesis using assms(1) unfolding steps_well_def by blast
qed

lemma invD:
  assumes "conf_inv n w0 md c"
  shows "modl (gworld c) \<in> {None, Some md}" "lib_state w0 md (gworld c)"
    "locks_ok n (lock_view md c)" "module_inv n (lock_view md c)"
    "g < n \<Longrightarrow> needs_library (ctl c g) \<Longrightarrow> got c g = Some md \<and> modl (gworld c) = Some md \<and> dl md \<in> libs (gworld c)"
    "g < n \<Longrightarrow> todo c g = me # ms \<Longrightarrow> runnable w0 me \<and> at_pc me (ctl c g)"
proof -
  have r: "locks_ok n (lock_view md c)" "module_inv n (lock_view md c)" using assms reach_inv unfolding conf_inv_def by blast+
  then show "locks_ok n (lock_view md c)" "module_inv n (lock_view md c)" by simp_all
  show "modl (gworld c) \<in> {None, Some md}" using assms by (simp add: conf_inv_def)
  then show "got c g = Some md \<and> modl (gworld c) = Some md \<and> dl md \<in> libs (gworld c)" if "g < n" "needs_library (ctl c g)"
    using assms r(2) that by (auto simp: conf_inv_def module_inv_def)
  show "runnable w0 me \<and> at_pc me (ctl c g)" if "g < n" "todo c g = me # ms"
    using assms that by (cases "ctl c g = Idle") (auto simp: conf_inv_def)
qed (use assms in \<open>simp add: conf_inv_def\<close>)

text \<open>The steps in the library.\<close>

lemma work_step:
  assumes w0: "wf w0" "supplied w0" "modl w0 = Some md" and i: "conf_inv n w0 md c" and g: "g < n" "todo c g = me # ms"
    and p: "ctl c g = InCall \<or> ctl c g = InWait \<or> ctl c g = InExcl"
    and q: "ctx_step me (ctl c g) (got c g) = go_bind (in_module (got c g) (own_work me)) (\<lambda>_. go_ret (q, got c g))"
      "at_pc me q" "lstep g (lock_view md c) (goto g q (lock_view md c))"
  shows "steps_well g w0 md me c"
proof -
  let ?w = "gworld c"
  have nl: "needs_library (ctl c g)" using p by (auto simp: needs_holder)
  note lib = invD(5) [OF i g(1) nl] and f = lib_state_frame [OF invD(2) [OF i]] and r = invD(6) [OF i g]
  have u: "lock_use me \<noteq> Inr XDestroy" using r p by (auto simp: waiting_def)
  have lk: "0 < readers ?w \<and> \<not> writer ?w" if "lock_use me = Inl RCall"
    using r p that held_counts(1) [OF invD(3) [OF i] g(1)] by (auto simp: waiting_def)
  obtain v where v: "own_work me md ?w = (Ret (), v)" "frame (released UNIV) (relocked 0 0 w0) (relocked 0 0 v)"
    "same_locks ?w v" "libs v = libs ?w" using own_work_ok [OF w0 _ u] r f lib lk by blast
  show ?thesis
  proof (rule steps_wellI [OF _ q(3,2)])
    show "ctx_step me (ctl c g) (got c g) ?w = (Ret (q, Some md), v)" unfolding q(1) using lib v(1) by (simp add: go_run)
  qed (use v lib in \<open>simp_all add: same_locks_def lib_state_def\<close>)
qed

definition blocked :: "'m gconf \<Rightarrow> nat \<Rightarrow> 'm meth \<Rightarrow> bool" where
  "blocked c g me \<longleftrightarrow> ctx_step me (ctl c g) (got c g) (gworld c) = (Fault ''deadlock'', gworld c) \<and>
     (ctl c g = Idle \<and> (writer (gworld c) \<or> 0 < readers (gworld c)) \<or> ctl c g = Joining \<and> 0 < waiters (gworld c))"

lemma idle_step:
  assumes i: "conf_inv n w0 md c" and p: "ctl c g = Idle"
  shows "steps_well g w0 md me c \<or> blocked c g me"
proof (cases "lock_use me")
  case (Inl r)
  show ?thesis
  proof (cases "writer (gworld c)")
    case False
    have "steps_well g w0 md me c"
      by (rule steps_wellI [OF _ rlock [of "lock_view md c" g r], where w = "gworld c\<lparr>readers := readers (gworld c) + 1\<rparr>"])
        (use invD(1,2) [OF i] p Inl False in \<open>simp_all add: go_run lock_ops needs_holder\<close>)
    then show ?thesis ..
  qed (use p Inl in \<open>simp add: blocked_def go_run lock_ops\<close>)
next
  case (Inr x)
  show ?thesis
  proof (cases "writer (gworld c) \<or> 0 < readers (gworld c)")
    case False
    have "steps_well g w0 md me c"
      by (rule steps_wellI [OF _ xlock [of "lock_view md c" g x], where w = "gworld c\<lparr>writer := True\<rparr>"])
        (use invD(1,2) [OF i] p Inr False in \<open>simp_all add: go_run lock_ops needs_holder\<close>)
    then show ?thesis ..
  qed (use p Inr in \<open>auto simp: blocked_def go_run lock_ops\<close>)
qed

lemma shared_step:
  assumes w0: "wf w0" "supplied w0" "modl w0 = Some md" and i: "conf_inv n w0 md c" and g: "g < n" "todo c g = me # ms"
    and p: "reading (ctl c g) \<or> waiting (ctl c g)"
  shows "steps_well g w0 md me c"
proof -
  let ?w = "gworld c" let ?s = "lock_view md c"
  note m = invD(1,2) [OF i] and r = invD(6) [OF i g] and h = held_counts [OF invD(3) [OF i] g(1), simplified]
  note lib = invD(5) [OF i g(1)] and work = work_step [OF w0 i g]
  show ?thesis
  proof (cases "ctl c g")
    case (RHeld q)
    show ?thesis
    proof (cases "modl ?w")
      case None
      show ?thesis
        by (rule steps_wellI [OF _ r_closed [of ?s g q], where w = ?w])
          (use m r RHeld None in \<open>simp_all add: go_run needs_holder\<close>)
    next
      case (Some m')
      then have mm: "m' = md" using m(1) by simp
      show ?thesis
      proof (cases q)
        case RCall
        show ?thesis
          by (rule steps_wellI [OF _ r_call [of ?s g], where w = ?w and k = "Some md"])
            (use m r RHeld RCall Some mm in \<open>simp_all add: go_run\<close>)
      next
        case RWait
        show ?thesis
          by (rule steps_wellI [OF _ w_add [of ?s g], where w = "?w\<lparr>waiters := waiters ?w + 1\<rparr>" and k = "Some md"])
            (use m r RHeld RWait Some mm in \<open>simp_all add: go_run lock_ops waiting_def\<close>)
      qed
    qed
  next
    case InCall
    show ?thesis by (rule work [where q = RDone]) (use InCall r in \<open>simp_all add: r_return\<close>)
  next
    case RDone
    show ?thesis
      by (rule steps_wellI [OF _ r_unlock [of ?s g], where w = "?w\<lparr>readers := readers ?w - 1\<rparr>"])
        (use m r RDone h in \<open>simp_all add: go_run lock_ops needs_holder\<close>)
  next
    case WAdded
    show ?thesis
      by (rule steps_wellI [OF _ w_unlock [of ?s g], where w = "?w\<lparr>readers := readers ?w - 1\<rparr>" and k = "Some md"])
        (use m r WAdded h lib in \<open>simp_all add: go_run lock_ops needs_holder waiting_def\<close>)
  next
    case InWait
    show ?thesis by (rule work [where q = WReturned]) (use InWait r in \<open>simp_all add: w_return waiting_def\<close>)
  next
    case WReturned
    show ?thesis
      by (rule steps_wellI [OF _ w_done [of ?s g], where w = "?w\<lparr>waiters := waiters ?w - 1\<rparr>"])
        (use m r WReturned h in \<open>simp_all add: go_run lock_ops needs_holder waiting_def\<close>)
  qed (use p in \<open>simp_all add: waiting_def\<close>)
qed

lemma exclusive_step:
  assumes w0: "wf w0" "supplied w0" "modl w0 = Some md" and i: "conf_inv n w0 md c" and g: "g < n" "todo c g = me # ms"
    and p: "writing (ctl c g)"
  shows "steps_well g w0 md me c \<or> blocked c g me"
proof -
  let ?w = "gworld c" let ?s = "lock_view md c"
  note m = invD(1,2) [OF i] and r = invD(6) [OF i g] and h = held_counts [OF invD(3) [OF i] g(1), simplified]
  note lib = invD(5) [OF i g(1)] and work = work_step [OF w0 i g]
  show ?thesis
  proof (cases "ctl c g")
    case (XHeld x)
    have "steps_well g w0 md me c"
    proof (cases "modl ?w")
      case None
      show ?thesis
        by (rule steps_wellI [OF _ x_closed [of ?s g x], where w = ?w])
          (use m r XHeld None in \<open>simp_all add: go_run needs_holder\<close>)
    next
      case (Some m')
      then have mm: "m' = md" using m(1) by simp
      show ?thesis
      proof (cases x)
        case XCall
        show ?thesis
          by (rule steps_wellI [OF _ x_call [of ?s g], where w = ?w and k = "Some md"])
            (use m r XHeld XCall Some mm in \<open>simp_all add: go_run\<close>)
      next
        case XDestroy
        show ?thesis
          by (rule steps_wellI [OF _ d_wait [of ?s g], where w = ?w and k = "Some md"])
            (use m r XHeld XDestroy Some mm in \<open>simp_all add: go_run waiting_def\<close>)
      qed
    qed
    then show ?thesis ..
  next
    case InExcl
    have "steps_well g w0 md me c" by (rule work [where q = XDone]) (use InExcl r in \<open>simp_all add: x_return\<close>)
    then show ?thesis ..
  next
    case Joining
    show ?thesis
    proof (cases "0 < waiters ?w")
      case False
      have "steps_well g w0 md me c"
        by (rule steps_wellI [OF _ d_join [of ?s g], where w = ?w and k = "Some md"])
          (use m r Joining False lib in \<open>simp_all add: go_run lock_ops needs_holder waiting_def\<close>)
      then show ?thesis ..
    qed (use Joining in \<open>simp add: blocked_def go_run lock_ops\<close>)
  next
    case Unloading
    then have l: "got c g = Some md" "modl ?w = Some md" "dl md \<in> libs ?w" using lib by (simp_all add: needs_holder)
    have me: "me = Destroying" using r Unloading by (cases me) (simp_all add: waiting_def)
    obtain v where v: "ck_unload md ?w = (Ret (), v)" "same_locks ?w v" "libs v = libs ?w - {dl md}" "lib_state w0 md v"
      using ck_unload_ok [OF w0(1,3) lib_state_frame [OF m(2) l(3)]] by blast
    have "steps_well g w0 md me c"
      by (rule steps_wellI [OF _ d_unload [of ?s g], where w = v and k = "Some md"])
        (use m r Unloading l v me in \<open>simp_all add: go_run same_locks_def waiting_def needs_holder\<close>)
    then show ?thesis ..
  next
    case Unloaded
    have "dl md \<notin> libs ?w" using invD(4) [OF i] g(1) Unloaded by (simp add: module_inv_def)
    then have "steps_well g w0 md me c"
      by (intro steps_wellI [OF _ d_clear [of ?s g], where w = "?w\<lparr>modl := None\<rparr>"])
        (use m r Unloaded in \<open>simp_all add: go_run waiting_def needs_holder lib_state_def\<close>)
    then show ?thesis ..
  next
    case XDone
    have "steps_well g w0 md me c"
      by (rule steps_wellI [OF _ x_unlock [of ?s g], where w = "?w\<lparr>writer := False\<rparr>"])
        (use m r XDone h in \<open>simp_all add: go_run lock_ops needs_holder\<close>)
    then show ?thesis ..
  qed (use p in simp_all)
qed

section \<open>Every configuration\<close>

lemma any_step:
  assumes w0: "wf w0" "supplied w0" "modl w0 = Some md" and i: "conf_inv n w0 md c" and g: "g < n" "todo c g = me # ms"
  shows "steps_well g w0 md me c \<or> blocked c g me"
proof (cases "reading (ctl c g) \<or> waiting (ctl c g)")
  case True
  then show ?thesis using shared_step [OF w0 i g] by blast
next
  case False
  then have "ctl c g = Idle \<or> writing (ctl c g)" by (cases "ctl c g") (simp_all add: waiting_def)
  then show ?thesis using idle_step [OF i] exclusive_step [OF w0 i g] by blast
qed

lemma run_step_good:
  assumes w0: "wf w0" "supplied w0" "modl w0 = Some md" and i: "conf_inv n w0 md c" and g: "g < n" and st: "run_step g c c'"
  obtains me ms p k w where "todo c g = me # ms" "c' = after_step g p k w c" "good_step g w0 md me c p k w"
proof -
  obtain me ms p k w where s: "todo c g = me # ms" "ctx_step me (ctl c g) (got c g) (gworld c) = (Ret (p, k), w)"
    and c': "c' = after_step g p k w c" using st by (elim run_stepE)
  have "good_step g w0 md me c p k w"
    using any_step [OF w0 i g s(1)] s(2) by (auto simp: steps_well_def blocked_def)
  then show thesis using that s(1) c' by blast
qed

lemma run_step_lstep:
  assumes "wf w0" "supplied w0" "modl w0 = Some md" and "conf_inv n w0 md c" and "g < n" and "run_step g c c'"
  shows "lstep g (lock_view md c) (lock_view md c')"
  by (rule run_step_good [OF assms]) (simp add: good_step_def)

lemma conf_inv_step:
  assumes w0: "wf w0" "supplied w0" "modl w0 = Some md" and i: "conf_inv n w0 md c" and g: "g < n" and st: "run_step g c c'"
  shows "conf_inv n w0 md c'"
proof -
  obtain me ms p k w where s: "todo c g = me # ms" and c': "c' = after_step g p k w c" and good: "good_step g w0 md me c p k w"
    by (rule run_step_good [OF w0 i g st])
  from good have q: "lstep g (lock_view md c) (lock_view md c')" "at_pc me p" "needs_library p \<longrightarrow> k = Some md" "modl w \<in> {None, Some md}"
    "lib_state w0 md w" unfolding good_step_def c' by simp_all
  have "reach n (lock_view md c)" using i by (simp add: conf_inv_def)
  then have "reach n (lock_view md c')" using reach_step g q(1) by blast
  moreover have "(needs_library (ctl c' h) \<longrightarrow> got c' h = Some md) \<and> (\<forall>me \<in> set (todo c' h). runnable w0 me) \<and>
      (ctl c' h \<noteq> Idle \<longrightarrow> (\<exists>me ms. todo c' h = me # ms \<and> at_pc me (ctl c' h)))" if "h < n" for h
    using i that s q(2,3) unfolding c' conf_inv_def by (cases "h = g") simp_all
  ultimately show ?thesis using q(4,5) unfolding conf_inv_def c' by simp
qed

lemma conf_inv_start:
  assumes "modl w0 = Some md" "dl md \<in> libs w0" "readers w0 = 0" "waiters w0 = 0" "\<not> writer w0"
    and "\<And>g. g < n \<Longrightarrow> \<forall>me \<in> set (ms g). runnable w0 me"
  shows "conf_inv n w0 md (conf_start w0 ms)"
proof -
  have "lock_view md (conf_start w0 ms) = start" using assms by (simp add: lock_view_def start_def conf_start_def)
  then have "reach n (lock_view md (conf_start w0 ms))" using reach_start by simp
  then show ?thesis using assms by (simp add: conf_inv_def conf_start_def needs_holder lib_state_def)
qed

text \<open>What a program of goroutines starts from.\<close>

definition ready :: "nat \<Rightarrow> 'm world \<Rightarrow> (nat \<Rightarrow> 'm meth list) \<Rightarrow> bool" where
  "ready n w ms \<longleftrightarrow> wf w \<and> \<not> oom w \<and> counts_honestly w \<and> modl w \<noteq> None \<and> readers w = 0 \<and> waiters w = 0 \<and>
     (\<forall>g < n. \<forall>me \<in> set (ms g). runnable w me)"

lemma conf_inv_reach:
  assumes r: "ready n w0 ms" and md: "modl w0 = Some md" and c: "conf_reach n (conf_start w0 ms) c"
  shows "conf_inv n w0 md c"
proof -
  have w0: "wf w0" "supplied w0" using r by (simp_all add: ready_def supplied_def)
  have l: "dl md \<in> libs w0" "\<not> writer w0" using w0(1) md by (auto simp: wf_def module_ok_def)
  have s: "conf_inv n w0 md (conf_start w0 ms)"
    by (rule conf_inv_start [OF md l(1) _ _ l(2)]) (use r in \<open>simp_all add: ready_def\<close>)
  from c show ?thesis
  proof (induction rule: conf_reach.induct)
    case (conf_step c g c')
    show ?case by (rule conf_inv_step [OF w0 md conf_step.IH conf_step.hyps(2,3)])
  qed (rule s)
qed

lemma steps_or_blocked:
  assumes r: "ready n w0 ms" and md: "modl w0 = Some md" and c: "conf_reach n (conf_start w0 ms) c" and g: "g < n" "todo c g = me # me'"
  shows "(\<exists>c'. run_step g c c') \<or> blocked c g me"
proof -
  have w0: "wf w0" "supplied w0" using r by (simp_all add: ready_def supplied_def)
  show ?thesis using any_step [OF w0 md conf_inv_reach [OF r md c] g] run_stepI [OF g(2)] unfolding steps_well_def by blast
qed

section \<open>What a program of goroutines comes to\<close>

definition steps_left :: "'m gconf \<Rightarrow> nat \<Rightarrow> nat" where
  "steps_left c g = (if ctl c g = Idle then 6 * length (todo c g) else rank (ctl c g) + 6 * length (tl (todo c g)))"

text \<open>
  A slot-event wait need not return: \<open>parks flags s\<close> says of the module's states \<open>s\<close> which hold a wait with these flags up.  A
  goroutine parked there makes no step, until another call has brought the module to a state that lets it go.
\<close>

definition parked :: "(uint \<Rightarrow> 'm \<Rightarrow> bool) \<Rightarrow> 'm gconf \<Rightarrow> nat \<Rightarrow> bool" where
  "parked parks c g \<longleftrightarrow> ctl c g = InWait \<and> (\<exists>f ms. todo c g = Waiting f # ms \<and> parks f (nat_st (gworld c)))"

definition live_step :: "(uint \<Rightarrow> 'm \<Rightarrow> bool) \<Rightarrow> nat \<Rightarrow> 'm gconf \<Rightarrow> 'm gconf \<Rightarrow> bool" where
  "live_step parks g c c' \<longleftrightarrow> run_step g c c' \<and> \<not> parked parks c g"

text \<open>\<open>settles n parks Q k c\<close>: every schedule comes, within \<open>k\<close> steps, to a configuration of \<open>Q\<close> where nobody has a step.\<close>

inductive settles :: "nat \<Rightarrow> (uint \<Rightarrow> 'm \<Rightarrow> bool) \<Rightarrow> ('m gconf \<Rightarrow> bool) \<Rightarrow> nat \<Rightarrow> 'm gconf \<Rightarrow> bool" for n parks Q where
  settled: "\<forall>g c'. g < n \<longrightarrow> \<not> live_step parks g c c' \<Longrightarrow> Q c \<Longrightarrow> settles n parks Q k c"
| settling: "\<exists>g < n. \<exists>c'. live_step parks g c c' \<Longrightarrow> \<forall>g c'. g < n \<longrightarrow> live_step parks g c c' \<longrightarrow> settles n parks Q k c' \<Longrightarrow>
    settles n parks Q (Suc k) c"

text \<open>
  What may keep goroutines from their end: waits the module has parked, a \<open>Destroy\<close> that joins them, and the goroutines
  this \<open>Destroy\<close> keeps from the lock.
\<close>

definition joining :: "'m gconf \<Rightarrow> nat \<Rightarrow> bool" where
  "joining c g \<longleftrightarrow> ctl c g = Joining \<and> (\<exists>ms. todo c g = Destroying # ms)"

definition held_up :: "nat \<Rightarrow> (uint \<Rightarrow> 'm \<Rightarrow> bool) \<Rightarrow> 'm gconf \<Rightarrow> bool" where
  "held_up n parks c \<longleftrightarrow> (\<exists>g < n. parked parks c g) \<and>
     (\<forall>g < n. todo c g \<noteq> [] \<longrightarrow> parked parks c g \<or> joining c g \<or> ctl c g = Idle \<and> (\<exists>h < n. joining c h))"

lemma lstep_rank: "lstep g s t \<Longrightarrow> pcs s g \<noteq> Idle \<Longrightarrow> rank (pcs t g) < rank (pcs s g)"
  by (cases rule: lstep.cases) auto

lemma lstep_idle: "lstep g s t \<Longrightarrow> pcs s g = Idle \<Longrightarrow> pcs t g \<noteq> Idle \<and> rank (pcs t g) < 6"
  by (cases rule: lstep.cases) auto

lemma run_step_less:
  assumes w0: "wf w0" "supplied w0" "modl w0 = Some md" and i: "conf_inv n w0 md c" and g: "g < n" and st: "run_step g c c'"
  shows "(\<Sum>h < n. steps_left c' h) < (\<Sum>h < n. steps_left c h)"
proof -
  obtain me ms p k w where s: "todo c g = me # ms" and c': "c' = after_step g p k w c" and good: "good_step g w0 md me c p k w"
    by (rule run_step_good [OF w0 i g st])
  from good have l: "lstep g (lock_view md c) (lock_view md c')" unfolding good_step_def c' by simp
  have "steps_left c' g < steps_left c g"
    using lstep_rank [OF l] lstep_idle [OF l] s unfolding c' steps_left_def by (auto split: if_splits)
  moreover have "steps_left c' h = steps_left c h" if "h \<noteq> g" for h using that by (simp add: c' steps_left_def)
  ultimately have "steps_left c' h \<le> steps_left c h" for h by (cases "h = g") simp_all
  moreover note \<open>steps_left c' g < steps_left c g\<close>
  ultimately show ?thesis using g by (intro sum_strict_mono_ex1) auto
qed

text \<open>Afterwards nobody holds the lock, and the C heap is as before, without the module's block if it was destroyed.\<close>

definition tidy :: "'m world \<Rightarrow> 'm world \<Rightarrow> bool" where
  "tidy w0 w \<longleftrightarrow> readers w = 0 \<and> \<not> writer w \<and> waiters w = 0 \<and>
     (case modl w of Some m \<Rightarrow> frame (released UNIV) w0 w
      | None \<Rightarrow> (\<forall>m a. modl w0 = Some m \<longrightarrow> mblk m = Ptr a \<longrightarrow> dl m \<notin> libs w \<and> mem (hp w) = (mem (hp w0))(a := None)))"

lemma end_tidy:
  assumes r: "ready n w0 ms" and md: "modl w0 = Some md" and c: "conf_reach n (conf_start w0 ms) c" and e: "\<forall>g < n. todo c g = []"
  shows "tidy w0 (gworld c)"
proof -
  note i = conf_inv_reach [OF r md c]
  have idle: "\<forall>g < n. ctl c g = Idle" using i e unfolding conf_inv_def by fastforce
  then have z: "cnt n reading (ctl c) = 0" "cnt n writing (ctl c) = 0" "cnt n waiting (ctl c) = 0" by (auto simp: cnt_def waiting_def)
  then have l: "readers (gworld c) = 0" "\<not> writer (gworld c)" "waiters (gworld c) = 0"
    using invD(3) [OF i] by (auto simp: locks_ok_def)
  have w0: "relocked 0 0 w0 = w0" "relocked 0 0 (gworld c) = gworld c" using r l by (simp_all add: relocked_def ready_def wf_def)
  show ?thesis
  proof (cases "modl (gworld c)")
    case None
    have "dl md \<notin> libs (gworld c)"
    proof
      assume "dl md \<in> libs (gworld c)"
      then have "frame (released UNIV) w0 (gworld c)" using lib_state_frame [OF invD(2) [OF i]] w0 by simp
      then show False using None md by (simp add: frame_def ext_def)
    qed
    then show ?thesis using None l md invD(2) [OF i] by (simp add: tidy_def lib_state_def)
  next
    case (Some m)
    have "dl md \<in> libs (gworld c)" using invD(4) [OF i] idle Some by (auto simp: module_inv_def)
    then show ?thesis using Some l lib_state_frame [OF invD(2) [OF i]] w0 by (simp add: tidy_def)
  qed
qed

definition outcome :: "nat \<Rightarrow> (uint \<Rightarrow> 'm \<Rightarrow> bool) \<Rightarrow> 'm world \<Rightarrow> 'm gconf \<Rightarrow> bool" where
  "outcome n parks w0 c \<longleftrightarrow> (\<forall>g < n. todo c g = []) \<and> tidy w0 (gworld c) \<or> held_up n parks c"

text \<open>Where nobody has a step, a goroutine in the middle of a method is parked or joins those who are.\<close>

lemma no_step_busy:
  assumes r: "ready n w0 ms" and md: "modl w0 = Some md" and c: "conf_reach n (conf_start w0 ms) c"
    and st: "\<forall>g c'. g < n \<longrightarrow> \<not> live_step parks g c c'" and g: "g < n" "ctl c g \<noteq> Idle"
  shows "parked parks c g \<or> ctl c g = Joining \<and> 0 < waiters (gworld c)"
proof -
  obtain me ms' where me: "todo c g = me # ms'" using conf_inv_reach [OF r md c] g unfolding conf_inv_def by blast
  consider c' where "run_step g c c'" | "blocked c g me" using steps_or_blocked [OF r md c g(1) me] by blast
  then show ?thesis
  proof cases
    case 1
    then show ?thesis using st g(1) by (auto simp: live_step_def)
  next
    case 2
    then show ?thesis using g(2) by (auto simp: blocked_def)
  qed
qed

lemma cnt_member: "0 < cnt n P f \<Longrightarrow> \<exists>g < n. P (f g)"
  by (auto simp: cnt_def card_gt_0_iff)

lemma no_step_outcome:
  assumes r: "ready n w0 ms" and md: "modl w0 = Some md" and c: "conf_reach n (conf_start w0 ms) c"
    and st: "\<forall>g c'. g < n \<longrightarrow> \<not> live_step parks g c c'"
  shows "outcome n parks w0 c"
proof -
  note busy = no_step_busy [OF assms] and l = invD(3) [OF conf_inv_reach [OF r md c], unfolded locks_ok_def, simplified]
  have joins: "joining c g" if "g < n" "ctl c g = Joining" for g
  proof -
    from that have g: "g < n" "ctl c g \<noteq> Idle" by simp_all
    then obtain me ms' where "todo c g = me # ms'" "at_pc me (ctl c g)"
      using conf_inv_reach [OF r md c] g unfolding conf_inv_def by blast
    then show ?thesis using that by (cases me) (simp_all add: joining_def waiting_def)
  qed
  have joined: "\<exists>h < n. parked parks c h" if "g < n" "ctl c g = Joining" for g
  proof (cases "parked parks c g")
    case False
    then have "0 < cnt n waiting (ctl c)" using busy [of g] that l by simp
    then obtain h where h: "h < n" "waiting (ctl c h)" using cnt_member by blast
    then have "ctl c h \<noteq> Idle" "ctl c h \<noteq> Joining" by (auto simp: waiting_def)
    then show ?thesis using busy [of h] h(1) by blast
  qed (use that in blast)
  have idle: "\<exists>h < n. joining c h" if g: "g < n" "ctl c g = Idle" "todo c g \<noteq> []" for g
  proof -
    obtain me ms' where me: "todo c g = me # ms'" using g(3) by (cases "todo c g") auto
    have "\<not> parked parks c g" using g(2) by (simp add: parked_def)
    then have "blocked c g me" using steps_or_blocked [OF r md c g(1) me] st g(1) by (auto simp: live_step_def)
    then have "writer (gworld c) \<or> 0 < readers (gworld c)" using g(2) by (auto simp: blocked_def)
    then have "0 < cnt n writing (ctl c) \<or> 0 < cnt n reading (ctl c)" using l by auto
    then obtain h where h: "h < n" "writing (ctl c h) \<or> reading (ctl c h)" using cnt_member by blast
    then have "ctl c h \<noteq> Idle" "\<not> parked parks c h" by (auto simp: parked_def)
    then show ?thesis using busy [of h] joins [of h] h(1) by blast
  qed
  show ?thesis
  proof (cases "\<forall>g < n. todo c g = []")
    case True
    then show ?thesis using end_tidy [OF r md c] by (simp add: outcome_def)
  next
    case False
    have each: "parked parks c g \<or> joining c g \<or> ctl c g = Idle \<and> (\<exists>h < n. joining c h)" if "g < n" "todo c g \<noteq> []" for g
      using busy [OF that(1)] joins [OF that(1)] idle [OF that(1) _ that(2)] by blast
    then have "\<exists>h < n. parked parks c h" using False joined joining_def by blast
    then show ?thesis using each by (simp add: outcome_def held_up_def)
  qed
qed

lemma settles_bound:
  assumes r: "ready n w0 ms" and md: "modl w0 = Some md" and c: "conf_reach n (conf_start w0 ms) c" and k: "(\<Sum>h < n. steps_left c h) \<le> k"
  shows "settles n parks (outcome n parks w0) k c"
  using c k
proof (induction k arbitrary: c rule: nat_less_induct)
  case (1 k)
  have w0: "wf w0" "supplied w0" using r by (simp_all add: ready_def supplied_def)
  note less = run_step_less [OF w0 md conf_inv_reach [OF r md 1(2)]]
  show ?case
  proof (cases "\<exists>g < n. \<exists>c'. live_step parks g c c'")
    case False
    then show ?thesis using no_step_outcome [OF r md 1(2)] by (intro settled) blast+
  next
    case True
    then obtain g c' where "g < n" "run_step g c c'" by (auto simp: live_step_def)
    then obtain j where j: "k = Suc j" using less 1(3) by (cases k) fastforce+
    have "settles n parks (outcome n parks w0) j c'" if g: "g < n" "live_step parks g c c'" for g c'
    proof -
      have st: "run_step g c c'" using g(2) by (simp add: live_step_def)
      have "(\<Sum>h < n. steps_left c' h) \<le> j" using less [OF g(1) st] 1(3) j by simp
      then show ?thesis using 1(1) conf_step [OF 1(2) g(1) st] j by blast
    qed
    then show ?thesis unfolding j using True by (intro settling) blast+
  qed
qed

end
