(* ===== verification/Concurrent_Properties.thy ===== *)
theory Concurrent_Properties
  imports Concurrent Examples
begin

text \<open>
  The properties of goroutines that run the methods of one \<open>Ctx\<close> at the same time, on the C heap and the native module,
  in every interleaving of their steps (\<^verbatim>\<open>cryptoki/binding.go\<close>, \<^verbatim>\<open>lifecycle.go\<close>, \<^verbatim>\<open>slot.go\<close>).
\<close>

section \<open>An example\<close>

text \<open>One goroutine waits for a slot event and logs out; the other finalises the module and destroys the \<open>Ctx\<close>.\<close>

abbreviation logging_out :: "nat meth" where
  "logging_out \<equiv> Calling (\<lambda>md. ck_then err_only md (Sess C_Logout) [AULong 5])"

definition toy_methods :: "nat \<Rightarrow> nat meth list" where
  "toy_methods g = (if g = 0 then [Waiting 0, logging_out] else [Finalizing, Destroying])"

lemma logout_code: "code_of logging_out = call_of (Logout 5)"
  by (simp add: Logout_def)

lemma toy_ready: "ready 2 toy_world toy_methods"
proof -
  have "ctx_call w (code_of logging_out)" for w
    unfolding logout_code ctx_call_def by (rule disjI1) (rule session_call.intros)
  then have "runnable toy_world logging_out" by (simp only: runnable_def) blast
  moreover have "runnable toy_world me" if "me \<in> {Waiting 0, Finalizing, Destroying}" for me
    using that by (auto simp: runnable_def)
  ultimately show ?thesis using toy_wf toy_no_oom toy_counts by (simp add: ready_def toy_methods_def toy_world_def)
qed

lemma toy_modl: "modl toy_world = Some toy_module"
  by (simp add: toy_world_def)

text \<open>The first goroutine in the library, waiting, when the second has taken the write lock.\<close>

lemma toy_wait_step:
  assumes "todo c g = Waiting 0 # ms"
  shows "ctl c g = Idle \<Longrightarrow> \<not> writer (gworld c) \<Longrightarrow>
      run_step g c (after_step g (RHeld RWait) None ((gworld c)\<lparr>readers := readers (gworld c) + 1\<rparr>) c)"
    "ctl c g = RHeld RWait \<Longrightarrow> modl (gworld c) = Some m \<Longrightarrow>
      run_step g c (after_step g WAdded (Some m) ((gworld c)\<lparr>waiters := waiters (gworld c) + 1\<rparr>) c)"
    "ctl c g = WAdded \<Longrightarrow> 0 < readers (gworld c) \<Longrightarrow>
      run_step g c (after_step g InWait (got c g) ((gworld c)\<lparr>readers := readers (gworld c) - 1\<rparr>) c)"
  by (rule run_stepI [OF assms]; simp add: go_run lock_ops)+

definition toy_inside :: "nat gconf" where
  "toy_inside = (let c0 = conf_start toy_world toy_methods;
     c1 = after_step 0 (RHeld RWait) None ((gworld c0)\<lparr>readers := readers (gworld c0) + 1\<rparr>) c0;
     c2 = after_step 0 WAdded (Some toy_module) ((gworld c1)\<lparr>waiters := waiters (gworld c1) + 1\<rparr>) c1
   in after_step 0 InWait (got c2 0) ((gworld c2)\<lparr>readers := readers (gworld c2) - 1\<rparr>) c2)"

lemma toy_reach: "conf_reach 2 (conf_start toy_world toy_methods) toy_inside"
proof -
  let ?c0 = "conf_start toy_world toy_methods"
  let ?c1 = "after_step 0 (RHeld RWait) None ((gworld ?c0)\<lparr>readers := readers (gworld ?c0) + 1\<rparr>) ?c0"
  let ?c2 = "after_step 0 WAdded (Some toy_module) ((gworld ?c1)\<lparr>waiters := waiters (gworld ?c1) + 1\<rparr>) ?c1"
  let ?c3 = "after_step 0 InWait (got ?c2 0) ((gworld ?c2)\<lparr>readers := readers (gworld ?c2) - 1\<rparr>) ?c2"
  note d = conf_start_def toy_methods_def toy_world_def
  have "run_step 0 ?c0 ?c1" by (rule toy_wait_step [where ms = "[logging_out]"]) (simp_all add: d)
  moreover have "run_step 0 ?c1 ?c2" by (rule toy_wait_step [where ms = "[logging_out]"]) (simp_all add: d)
  moreover have "run_step 0 ?c2 ?c3" by (rule toy_wait_step [where ms = "[logging_out]"]) (simp_all add: d)
  ultimately have "conf_reach 2 ?c0 ?c3" by (meson conf_refl conf_step zero_less_numeral)
  then show ?thesis unfolding toy_inside_def Let_def .
qed

section \<open>Properties\<close>

text \<open>C33: The cut of the methods is faithful.  In every state whose loaded module is mapped, whoever holds the lock, the steps
  of a method run in a row return exactly when the method does, and in the same state, which records how the lock was at each
  call into the library and at each \<open>dlclose\<close>: so the steps take and leave the lock where the method does, \<open>Destroy\<close> included.  A
  slot-event wait calls the library counted as a waiter and without a read lock of its own, \<open>Initialize\<close> and \<open>Finalize\<close> under
  the write lock, and \<open>Destroy\<close> unloads under the write lock with no waiter left.  Every method called with fit arguments
  returns before it takes the lock or is one of these shapes.\<close>

theorem methods_are_their_steps:
  assumes "\<forall>md. modl v = Some md \<longrightarrow> dl md \<in> libs v"
  shows "(steps_in_a_row 6 me Idle None v = (Ret (), v') \<longleftrightarrow> code_of me v = (Ret (), v')) \<and>
    (code_of me v = (Ret (), v') \<and> (\<forall>b. me \<noteq> Calling b) \<longrightarrow> at_calls v' \<in> {at_calls v, at_calls v @ [lock_during me v]}) \<and>
    (wf v \<and> \<not> oom v \<and> counts_honestly v \<and> ctx_call v m \<longrightarrow>
      m = go_ret () \<or> (\<exists>me' w'. runnable v me' \<and> code_of me' = m \<and> m v = (Ret (), w')))"
proof (intro conjI impI)
  show "steps_in_a_row 6 me Idle None v = (Ret (), v') \<longleftrightarrow> code_of me v = (Ret (), v')"
    by (rule steps_are_method) (use assms in blast)
  show "at_calls v' \<in> {at_calls v, at_calls v @ [lock_during me v]}" if "code_of me v = (Ret (), v') \<and> (\<forall>b. me \<noteq> Calling b)"
    using method_at_calls that by blast
  assume a: "wf v \<and> \<not> oom v \<and> counts_honestly v \<and> ctx_call v m"
  then obtain w' where w': "m v = (Ret (), w')"
    using program_safe [of v "[m]" v] by (auto simp: go_run split: prod.splits outcome.splits)
  then show "m = go_ret () \<or> (\<exists>me' w'. runnable v me' \<and> code_of me' = m \<and> m v = (Ret (), w'))"
    using ctx_call_runnable a by blast
qed

definition toy_waiting :: "nat meth" where
  "toy_waiting = Waiting 0"

theorem methods_are_their_steps_witness:
  "\<exists>v'. code_of toy_waiting toy_world = (Ret (), v') \<and> steps_in_a_row 6 toy_waiting Idle None toy_world = (Ret (), v') \<and>
    at_calls v' = [(0, False, 1)]"
proof -
  obtain v' where v: "code_of toy_waiting toy_world = (Ret (), v')" "at_calls v' \<noteq> at_calls toy_world"
    by (simp add: toy_waiting_def WaitForSlotEvent_def lock_ops grab_def go_run toy_world_def ck_then_def ck_run served_def
        toy_module_def CK_FNS_def native_call_def store_reply_def toy_def reply0_def handle_def)
  have "\<forall>md. modl toy_world = Some md \<longrightarrow> dl md \<in> libs toy_world" by (simp add: toy_world_def toy_module_def)
  from methods_are_their_steps [OF this, of toy_waiting v'] v show ?thesis by (auto simp: toy_waiting_def toy_world_def)
qed

text \<open>C24: The lock discipline of \<open>Locking\<close> is what the code does: whatever goroutines run on the \<open>Ctx\<close>, each of their
  steps is a step of the abstract lock, so every state they reach shows the lock a reachable state.\<close>

theorem interleavings_refine_locking:
  assumes "ready n w0 ms" and "modl w0 = Some md" and "conf_reach n (conf_start w0 ms) c" and "g < n" and "run_step g c c'"
  shows "reach n (lock_view md c) \<and> lstep g (lock_view md c) (lock_view md c')"
proof -
  have "wf w0" "supplied w0" using assms(1) by (simp_all add: ready_def supplied_def)
  then show ?thesis using run_step_lstep [OF _ _ assms(2) conf_inv_reach [OF assms(1-3)] assms(4,5)]
    conf_inv_reach [OF assms(1-3)] by (simp add: conf_inv_def)
qed

theorem interleavings_refine_locking_witness: "\<exists>c'. lstep 0 (lock_view toy_module (conf_start toy_world toy_methods)) (lock_view toy_module c')"
proof -
  have t: "todo (conf_start toy_world toy_methods) 0 = Waiting 0 # [logging_out]" "ctl (conf_start toy_world toy_methods) 0 = Idle"
    "\<not> writer (gworld (conf_start toy_world toy_methods))" by (simp_all add: conf_start_def toy_methods_def toy_world_def)
  from interleavings_refine_locking [OF toy_ready toy_modl conf_refl _ toy_wait_step(1) [OF t]] show ?thesis by auto
qed

text \<open>C5: No goroutine ever fails: at every moment of every interleaving, the next step of each goroutine either succeeds or
  waits for a lock somebody holds or, in \<open>Destroy\<close>, for a parked slot-event wait.  It neither panics nor faults; in
  particular, whoever is in the library has the pointer to its module, and the library is mapped.\<close>

theorem no_goroutine_fails:
  assumes "ready n w0 ms" and "modl w0 = Some md" and "conf_reach n (conf_start w0 ms) c" and "g < n" and "todo c g = me # rest"
  shows "((\<exists>c'. run_step g c c') \<or> blocked c g me) \<and>
    (\<not> in_library (ctl c g) \<or> got c g = Some md \<and> dl md \<in> libs (gworld c))"
  using steps_or_blocked [OF assms] invD(5) [OF conf_inv_reach [OF assms(1-3)] assms(4)] by (auto simp: needs_library_def)

theorem no_goroutine_fails_witness: "((\<exists>c'. run_step 0 toy_inside c') \<or> blocked toy_inside 0 (Waiting 0)) \<and> 7 \<in> libs (gworld toy_inside)"
proof -
  have "todo toy_inside 0 = Waiting 0 # [logging_out]" "in_library (ctl toy_inside 0)"
    by (simp_all add: toy_inside_def Let_def conf_start_def toy_methods_def in_library_def)
  then show ?thesis using no_goroutine_fails [OF toy_ready toy_modl toy_reach, of 0 "Waiting 0"] by (simp add: toy_module_def)
qed

text \<open>C14: What every program of goroutines comes to.  Goroutines run any lists of methods on one \<open>Ctx\<close>, \<open>Initialize\<close>, \<open>Finalize\<close>,
  slot-event waits and \<open>Destroy\<close> among them.  Given that the module returns from every call but the slot-event waits, which it
  keeps parked in whichever of its states it pleases (\<open>parks\<close>), every schedule settles within six steps a method: either all
  methods have returned, nobody holds the lock or is counted as a waiter, and the C heap is as it was, or without the module's
  block and the library unmapped if the \<open>Ctx\<close> was destroyed; or some wait is parked, and each goroutine that has not finished is
  parked itself, or is a \<open>Destroy\<close> that joins the waits, or is kept from the lock by such a \<open>Destroy\<close>.  So a parked wait
  holds up nothing but \<open>Destroy\<close>: as long as no \<open>Destroy\<close> has been called, \<open>Finalize\<close> and all other methods run past it.\<close>

theorem goroutines_settle:
  assumes "ready n w0 ms"
  shows "settles n parks (outcome n parks w0) (\<Sum>g < n. 6 * length (ms g)) (conf_start w0 ms)"
proof -
  obtain md where md: "modl w0 = Some md" using assms by (auto simp: ready_def)
  show ?thesis by (rule settles_bound [OF assms md conf_refl]) (simp add: steps_left_def conf_start_def)
qed

text \<open>A module that parks every wait until another call has been made.\<close>

theorem goroutines_settle_witness: "settles 2 (\<lambda>f s. s = 0) (outcome 2 (\<lambda>f s. s = 0) toy_world) 24 (conf_start toy_world toy_methods)"
  using goroutines_settle [OF toy_ready] by (simp add: toy_methods_def lessThan_Suc numeral_2_eq_2)

end
