(* ===== verification/Pinning.thy ===== *)
theory Pinning
  imports Shim
begin

text \<open>
  \<open>Mlock\<close> and \<open>Munlock\<close> (\<^verbatim>\<open>cryptoki/binding.go\<close>) over \<open>ck_mlock\<close> and \<open>ck_munlock\<close> (\<^verbatim>\<open>cryptoki/shim.c\<close>).  They touch
  neither the module nor the C heap, so they run on a state of their own: that of the operating system, whose calls
  \<open>mlock\<close> and \<open>munlock\<close> are parameters.  What the manual pages of Linux promise of them is \<open>pins\<close> and \<open>unpins\<close>
  below (on Windows the two C functions do nothing and report success).
\<close>

section \<open>The two calls\<close>

text \<open>A system call takes an address and a length and gives back a C \<open>int\<close>; a slice is its address and its bytes.\<close>

type_synonym 'o oscall = "64 word \<Rightarrow> 64 word \<Rightarrow> 'o \<Rightarrow> 32 word \<times> 'o"

record go_slice =
  base :: "64 word"
  content :: "byte list"

definition ck_mlock :: "'o oscall \<Rightarrow> 'o oscall" where
  "ck_mlock mlock p n st = (if p = 0 \<or> n = 0 then (0, st) else mlock p n st)"

definition ck_munlock :: "'o oscall \<Rightarrow> 'o oscall" where
  "ck_munlock munlock p n st = (if p = 0 \<or> n = 0 then (0, st) else munlock p n st)"

text \<open>\<open>%d\<close> of a C \<open>int\<close>.\<close>

definition fmt_int :: "32 word \<Rightarrow> string" where
  "fmt_int rc = (if sint rc < 0 then ''-'' @ fmt_d (nat (- sint rc)) else fmt_d (nat (sint rc)))"

definition errno_error :: "string \<Rightarrow> 32 word \<Rightarrow> goerror" where
  "errno_error what rc = Errf (''cryptoki: '' @ what @ '': errno '' @ fmt_int rc) []"

definition Mlock :: "'o oscall \<Rightarrow> go_slice \<Rightarrow> 'o \<Rightarrow> goerror option \<times> 'o" where
  "Mlock mlock b st = (if content b = [] then (None, st) else
     case ck_mlock mlock (base b) (of_nat (length (content b))) st of
       (rc, st') \<Rightarrow> if rc \<noteq> 0 then (Some (errno_error ''mlock'' rc), st') else (None, st'))"

definition Munlock :: "'o oscall \<Rightarrow> go_slice \<Rightarrow> 'o \<Rightarrow> goerror option \<times> 'o" where
  "Munlock munlock b st = (if content b = [] then (None, st) else
     case ck_munlock munlock (base b) (of_nat (length (content b))) st of
       (rc, st') \<Rightarrow> if rc \<noteq> 0 then (Some (errno_error ''munlock'' rc), st') else (None, st'))"

section \<open>What the system promises\<close>

text \<open>
  Memory is pinned page by page: a call concerns every page that holds a byte of the range, and pins do not nest.  A
  failed call returns -1 and leaves the number of the error in \<open>errno\<close>; which pages it had come to is left open
  for \<open>munlock\<close>, while \<open>mlock\<close> only ever adds pins.
\<close>

definition page_of :: "nat \<Rightarrow> nat" where "page_of a = a div 4096"

definition pages :: "64 word \<Rightarrow> nat \<Rightarrow> nat set" where
  "pages p n = {page_of (unat p + i) | i. i < n}"

lemma pages_range: "pages p n \<subseteq> {page_of (unat p) .. page_of (unat p + n - 1)}"
  by (auto simp: pages_def page_of_def intro!: div_le_mono)

definition pins :: "('o \<Rightarrow> nat set) \<Rightarrow> 'o oscall \<Rightarrow> bool" where
  "pins locked mlock \<longleftrightarrow> (\<forall>p n st. locked st \<subseteq> locked (snd (mlock p n st)) \<and>
     (fst (mlock p n st) = 0 \<and> pages p (unat n) \<subseteq> locked (snd (mlock p n st)) \<or> fst (mlock p n st) = - 1))"

definition unpins :: "('o \<Rightarrow> nat set) \<Rightarrow> 'o oscall \<Rightarrow> bool" where
  "unpins locked munlock \<longleftrightarrow> (\<forall>p n st. locked st - pages p (unat n) \<subseteq> locked (snd (munlock p n st)) \<and>
     (fst (munlock p n st) = 0 \<or> fst (munlock p n st) = - 1))"

definition slice_pages :: "go_slice \<Rightarrow> nat set" where
  "slice_pages b = pages (base b) (length (content b))"

text \<open>A slice Go can have: it lies in the address space, and not at its very start.\<close>

definition slice_ok :: "go_slice \<Rightarrow> bool" where
  "slice_ok b \<longleftrightarrow> base b \<noteq> 0 \<and> unat (base b) + length (content b) \<le> 2 ^ 64"

lemma slice_length:
  assumes "slice_ok b" and "content b \<noteq> []"
  shows "unat (of_nat (length (content b)) :: 64 word) = length (content b)" "(of_nat (length (content b)) :: 64 word) \<noteq> 0"
proof -
  have "unat (base b) > 0" using assms(1) by (simp add: slice_ok_def unat_gt_0)
  then have "length (content b) < 2 ^ 64" using assms(1) by (simp add: slice_ok_def)
  then show u: "unat (of_nat (length (content b)) :: 64 word) = length (content b)"
    by (simp add: unat_of_nat)
  show "(of_nat (length (content b)) :: 64 word) \<noteq> 0" using u assms(2) by (metis length_0_conv unat_0)
qed

lemma fmt_int_minus: "fmt_int (- 1) = ''-1''"
  by code_simp

text \<open>\<open>Mlock\<close> pins the pages of the slice or reports an error, which names -1 for the error whatever went wrong.\<close>

lemma Mlock_outcome:
  assumes "pins locked mlock" and "slice_ok b"
  shows "locked st \<subseteq> locked (snd (Mlock mlock b st)) \<and>
    (fst (Mlock mlock b st) = None \<and> slice_pages b \<subseteq> locked (snd (Mlock mlock b st)) \<or>
     fst (Mlock mlock b st) = Some (Errf ''cryptoki: mlock: errno -1'' []))"
proof (cases "content b = []")
  case True
  then show ?thesis by (simp add: Mlock_def slice_pages_def pages_def)
next
  case False
  let ?n = "of_nat (length (content b)) :: 64 word"
  note n = slice_length [OF assms(2) False]
  have m: "locked st \<subseteq> locked (snd (mlock (base b) ?n st)) \<and>
    (fst (mlock (base b) ?n st) = 0 \<and> slice_pages b \<subseteq> locked (snd (mlock (base b) ?n st)) \<or> fst (mlock (base b) ?n st) = - 1)"
    using assms(1) n(1) unfolding pins_def slice_pages_def by metis
  have k: "ck_mlock mlock (base b) ?n st = mlock (base b) ?n st" using assms(2) n(2) by (simp add: ck_mlock_def slice_ok_def)
  have e: "errno_error ''mlock'' (- 1) = Errf ''cryptoki: mlock: errno -1'' []" by (simp add: errno_error_def fmt_int_minus)
  show ?thesis using m k e False by (auto simp: Mlock_def split: prod.splits)
qed

lemma Munlock_outcome:
  assumes "unpins locked munlock" and "slice_ok b"
  shows "locked st - slice_pages b \<subseteq> locked (snd (Munlock munlock b st))"
proof (cases "content b = []")
  case False
  let ?n = "of_nat (length (content b)) :: 64 word"
  note n = slice_length [OF assms(2) False]
  have "locked st - slice_pages b \<subseteq> locked (snd (munlock (base b) ?n st))"
    using assms(1) n(1) unfolding unpins_def slice_pages_def by metis
  then show ?thesis using assms(2) n(2) False by (auto simp: Munlock_def ck_munlock_def slice_ok_def split: prod.splits)
qed (simp add: Munlock_def)

section \<open>Programs that pin and release\<close>

datatype pin = Pin go_slice | Unpin go_slice

fun pin_slice :: "pin \<Rightarrow> go_slice" where
  "pin_slice (Pin b) = b"
| "pin_slice (Unpin b) = b"

fun lets_go :: "nat set \<Rightarrow> pin \<Rightarrow> bool" where
  "lets_go S (Pin b) \<longleftrightarrow> False"
| "lets_go S (Unpin b) \<longleftrightarrow> slice_pages b \<inter> S \<noteq> {}"

fun pin_step :: "'o oscall \<Rightarrow> 'o oscall \<Rightarrow> pin \<Rightarrow> 'o \<Rightarrow> 'o" where
  "pin_step mlock munlock (Pin b) st = snd (Mlock mlock b st)"
| "pin_step mlock munlock (Unpin b) st = snd (Munlock munlock b st)"

lemma pin_step_keeps:
  assumes "pins locked mlock" and "unpins locked munlock" and "slice_ok (pin_slice c)" and "\<not> lets_go S c" and "S \<subseteq> locked st"
  shows "S \<subseteq> locked (pin_step mlock munlock c st)"
proof (cases c)
  case (Pin b)
  then show ?thesis using Mlock_outcome [OF assms(1), of b st] assms(3,5) by auto
next
  case (Unpin b)
  then show ?thesis using Munlock_outcome [OF assms(2), of b st] assms(3-5) by auto
qed

lemma pin_steps_keep:
  assumes "pins locked mlock" and "unpins locked munlock"
  shows "\<forall>c \<in> set cs. slice_ok (pin_slice c) \<and> \<not> lets_go S c \<Longrightarrow> S \<subseteq> locked st \<Longrightarrow>
    S \<subseteq> locked (fold (pin_step mlock munlock) cs st)"
  by (induction cs arbitrary: st) (auto intro!: pin_step_keeps [OF assms, THEN subsetD])

text \<open>C28: A slice \<open>Mlock\<close> reported as pinned stays in memory through any further \<open>Mlock\<close> and \<open>Munlock\<close> calls, successful or not,
  until one lets_go a slice that shares a page with it.\<close>

theorem Mlock_pins:
  assumes "pins locked mlock" and "unpins locked munlock" and "slice_ok b" and "fst (Mlock mlock b st) = None"
    and "\<forall>c \<in> set cs. slice_ok (pin_slice c) \<and> \<not> lets_go (slice_pages b) c"
  shows "slice_pages b \<subseteq> locked (fold (pin_step mlock munlock) cs (snd (Mlock mlock b st)))"
proof (rule pin_steps_keep [OF assms(1,2,5)])
  show "slice_pages b \<subseteq> locked (snd (Mlock mlock b st))" using Mlock_outcome [OF assms(1,3), of st] assms(4) by auto
qed

text \<open>A system that keeps the set of pinned pages.\<close>

definition toy_mlock :: "nat set oscall" where "toy_mlock p n st = (0, st \<union> pages p (unat n))"
definition toy_munlock :: "nat set oscall" where "toy_munlock p n st = (0, st - pages p (unat n))"

theorem Mlock_pins_witness:
  "slice_pages \<lparr>base = 8190, content = [1, 2, 3]\<rparr> \<subseteq>
     fold (pin_step toy_mlock toy_munlock) [Unpin \<lparr>base = 12288, content = [7]\<rparr>]
       (snd (Mlock toy_mlock \<lparr>base = 8190, content = [1, 2, 3]\<rparr> {}))"
proof -
  let ?b = "\<lparr>base = 8190, content = [1, 2, 3 :: byte]\<rparr>" and ?c = "\<lparr>base = 12288, content = [7 :: byte]\<rparr>"
  have p: "pins (\<lambda>s. s) toy_mlock" "unpins (\<lambda>s. s) toy_munlock" by (auto simp: pins_def unpins_def toy_mlock_def toy_munlock_def)
  have o: "slice_ok ?b" "slice_ok ?c" by (simp_all add: slice_ok_def)
  have m: "fst (Mlock toy_mlock ?b {}) = None" by (simp add: Mlock_def ck_mlock_def toy_mlock_def)
  have "slice_pages ?b \<subseteq> {1 .. 2}" "slice_pages ?c \<subseteq> {3 .. 3}"
    using pages_range [of "base ?b" "Suc (Suc (Suc 0))"] pages_range [of "base ?c" 1] by (simp_all add: slice_pages_def page_of_def)
  then have "slice_pages ?b \<inter> slice_pages ?c = {}" by fastforce
  then have "\<not> lets_go (slice_pages ?b) (Unpin ?c)" by auto
  then show ?thesis using Mlock_pins [OF p o(1) m, of "[Unpin ?c]"] o(2) by simp
qed

end
