(* ===== verification/Genconst_Tables.thy ===== *)
theory Genconst_Tables
  imports Genconst_Main Types
begin

text \<open>
  The two name tables of the repository, \<^verbatim>\<open>cryptoki/zerror.go\<close> and \<^verbatim>\<open>cryptoki/zattr.go\<close>, against the generator: run on the
  constants of \<^verbatim>\<open>cryptoki/zconst.go\<close> that name return values and attributes, it prints exactly these tables.
\<close>

section \<open>The constants\<close>

text \<open>
  The lines of \<^verbatim>\<open>zconst.go\<close> for the attributes and the return values, and for the flag some of them use, with name, value
  and comment.  An alias and a deprecated name stand on their own between the groups.
\<close>

type_synonym row = "string \<times> string \<times> string"

definition row_flag :: row where
  "row_flag = (''CKF_ARRAY_ATTRIBUTE'', ''0x40000000'', [])"

definition rows_before :: "row list" where
  "rows_before = [
   (''CKA_CLASS'', ''0x00000000'', []), (''CKA_TOKEN'', ''0x00000001'', []), (''CKA_PRIVATE'', ''0x00000002'', []),
   (''CKA_LABEL'', ''0x00000003'', []), (''CKA_UNIQUE_ID'', ''0x00000004'', []), (''CKA_APPLICATION'', ''0x00000010'', []),
   (''CKA_VALUE'', ''0x00000011'', []), (''CKA_OBJECT_ID'', ''0x00000012'', []), (''CKA_CERTIFICATE_TYPE'', ''0x00000080'', []),
   (''CKA_ISSUER'', ''0x00000081'', []), (''CKA_SERIAL_NUMBER'', ''0x00000082'', []), (''CKA_AC_ISSUER'', ''0x00000083'', []),
   (''CKA_OWNER'', ''0x00000084'', []), (''CKA_ATTR_TYPES'', ''0x00000085'', []), (''CKA_TRUSTED'', ''0x00000086'', []),
   (''CKA_CERTIFICATE_CATEGORY'', ''0x00000087'', []), (''CKA_JAVA_MIDP_SECURITY_DOMAIN'', ''0x00000088'', []), (''CKA_URL'', ''0x00000089'', []),
   (''CKA_HASH_OF_SUBJECT_PUBLIC_KEY'', ''0x0000008a'', []), (''CKA_HASH_OF_ISSUER_PUBLIC_KEY'', ''0x0000008b'', []),
   (''CKA_NAME_HASH_ALGORITHM'', ''0x0000008c'', []), (''CKA_CHECK_VALUE'', ''0x00000090'', []), (''CKA_KEY_TYPE'', ''0x00000100'', []),
   (''CKA_SUBJECT'', ''0x00000101'', []), (''CKA_ID'', ''0x00000102'', []), (''CKA_SENSITIVE'', ''0x00000103'', []),
   (''CKA_ENCRYPT'', ''0x00000104'', []), (''CKA_DECRYPT'', ''0x00000105'', []), (''CKA_WRAP'', ''0x00000106'', []),
   (''CKA_UNWRAP'', ''0x00000107'', []), (''CKA_SIGN'', ''0x00000108'', []), (''CKA_SIGN_RECOVER'', ''0x00000109'', []),
   (''CKA_VERIFY'', ''0x0000010a'', []), (''CKA_VERIFY_RECOVER'', ''0x0000010b'', []), (''CKA_DERIVE'', ''0x0000010c'', []),
   (''CKA_START_DATE'', ''0x00000110'', []), (''CKA_END_DATE'', ''0x00000111'', []), (''CKA_MODULUS'', ''0x00000120'', []),
   (''CKA_MODULUS_BITS'', ''0x00000121'', []), (''CKA_PUBLIC_EXPONENT'', ''0x00000122'', []), (''CKA_PRIVATE_EXPONENT'', ''0x00000123'', []),
   (''CKA_PRIME_1'', ''0x00000124'', []), (''CKA_PRIME_2'', ''0x00000125'', []), (''CKA_EXPONENT_1'', ''0x00000126'', []),
   (''CKA_EXPONENT_2'', ''0x00000127'', []), (''CKA_COEFFICIENT'', ''0x00000128'', []), (''CKA_PUBLIC_KEY_INFO'', ''0x00000129'', []),
   (''CKA_PRIME'', ''0x00000130'', []), (''CKA_SUBPRIME'', ''0x00000131'', []), (''CKA_BASE'', ''0x00000132'', []),
   (''CKA_PRIME_BITS'', ''0x00000133'', []), (''CKA_SUBPRIME_BITS'', ''0x00000134'', [])]"

definition row_alias :: row where
  "row_alias = (''CKA_SUB_PRIME_BITS'', ''CKA_SUBPRIME_BITS'', [])"

definition rows_middle :: "row list" where
  "rows_middle = [
   (''CKA_VALUE_BITS'', ''0x00000160'', []), (''CKA_VALUE_LEN'', ''0x00000161'', []), (''CKA_EXTRACTABLE'', ''0x00000162'', []),
   (''CKA_LOCAL'', ''0x00000163'', []), (''CKA_NEVER_EXTRACTABLE'', ''0x00000164'', []), (''CKA_ALWAYS_SENSITIVE'', ''0x00000165'', []),
   (''CKA_KEY_GEN_MECHANISM'', ''0x00000166'', []), (''CKA_MODIFIABLE'', ''0x00000170'', []), (''CKA_COPYABLE'', ''0x00000171'', []),
   (''CKA_DESTROYABLE'', ''0x00000172'', [])]"

definition row_deprecated :: row where
  "row_deprecated = (''CKA_ECDSA_PARAMS'', ''0x00000180'', ''Deprecated'')"

definition rows_after :: "row list" where
  "rows_after = [
   (''CKA_EC_PARAMS'', ''0x00000180'', []), (''CKA_EC_POINT'', ''0x00000181'', []), (''CKA_SECONDARY_AUTH'', ''0x00000200'', ''Deprecated''),
   (''CKA_AUTH_PIN_FLAGS'', ''0x00000201'', ''Deprecated''), (''CKA_ALWAYS_AUTHENTICATE'', ''0x00000202'', []),
   (''CKA_WRAP_WITH_TRUSTED'', ''0x00000210'', []), (''CKA_WRAP_TEMPLATE'', ''(CKF_ARRAY_ATTRIBUTE | 0x00000211)'', []),
   (''CKA_UNWRAP_TEMPLATE'', ''(CKF_ARRAY_ATTRIBUTE | 0x00000212)'', []), (''CKA_DERIVE_TEMPLATE'', ''(CKF_ARRAY_ATTRIBUTE | 0x00000213)'', []),
   (''CKA_OTP_FORMAT'', ''0x00000220'', []), (''CKA_OTP_LENGTH'', ''0x00000221'', []), (''CKA_OTP_TIME_INTERVAL'', ''0x00000222'', []),
   (''CKA_OTP_USER_FRIENDLY_MODE'', ''0x00000223'', []), (''CKA_OTP_CHALLENGE_REQUIREMENT'', ''0x00000224'', []),
   (''CKA_OTP_TIME_REQUIREMENT'', ''0x00000225'', []), (''CKA_OTP_COUNTER_REQUIREMENT'', ''0x00000226'', []),
   (''CKA_OTP_PIN_REQUIREMENT'', ''0x00000227'', []), (''CKA_OTP_COUNTER'', ''0x0000022e'', []), (''CKA_OTP_TIME'', ''0x0000022f'', []),
   (''CKA_OTP_USER_IDENTIFIER'', ''0x0000022a'', []), (''CKA_OTP_SERVICE_IDENTIFIER'', ''0x0000022b'', []),
   (''CKA_OTP_SERVICE_LOGO'', ''0x0000022c'', []), (''CKA_OTP_SERVICE_LOGO_TYPE'', ''0x0000022d'', []),
   (''CKA_GOSTR3410_PARAMS'', ''0x00000250'', []), (''CKA_GOSTR3411_PARAMS'', ''0x00000251'', []), (''CKA_GOST28147_PARAMS'', ''0x00000252'', []),
   (''CKA_HW_FEATURE_TYPE'', ''0x00000300'', []), (''CKA_RESET_ON_INIT'', ''0x00000301'', []), (''CKA_HAS_RESET'', ''0x00000302'', []),
   (''CKA_PIXEL_X'', ''0x00000400'', []), (''CKA_PIXEL_Y'', ''0x00000401'', []), (''CKA_RESOLUTION'', ''0x00000402'', []),
   (''CKA_CHAR_ROWS'', ''0x00000403'', []), (''CKA_CHAR_COLUMNS'', ''0x00000404'', []), (''CKA_COLOR'', ''0x00000405'', []),
   (''CKA_BITS_PER_PIXEL'', ''0x00000406'', []), (''CKA_CHAR_SETS'', ''0x00000480'', []), (''CKA_ENCODING_METHODS'', ''0x00000481'', []),
   (''CKA_MIME_TYPES'', ''0x00000482'', []), (''CKA_MECHANISM_TYPE'', ''0x00000500'', []), (''CKA_REQUIRED_CMS_ATTRIBUTES'', ''0x00000501'', []),
   (''CKA_DEFAULT_CMS_ATTRIBUTES'', ''0x00000502'', []), (''CKA_SUPPORTED_CMS_ATTRIBUTES'', ''0x00000503'', []),
   (''CKA_ALLOWED_MECHANISMS'', ''(CKF_ARRAY_ATTRIBUTE | 0x00000600)'', []), (''CKA_PROFILE_ID'', ''0x00000601'', []),
   (''CKA_X2RATCHET_BAG'', ''0x00000602'', []), (''CKA_X2RATCHET_BAGSIZE'', ''0x00000603'', []), (''CKA_X2RATCHET_BOBS1STMSG'', ''0x00000604'', []),
   (''CKA_X2RATCHET_CKR'', ''0x00000605'', []), (''CKA_X2RATCHET_CKS'', ''0x00000606'', []), (''CKA_X2RATCHET_DHP'', ''0x00000607'', []),
   (''CKA_X2RATCHET_DHR'', ''0x00000608'', []), (''CKA_X2RATCHET_DHS'', ''0x00000609'', []), (''CKA_X2RATCHET_HKR'', ''0x0000060a'', []),
   (''CKA_X2RATCHET_HKS'', ''0x0000060b'', []), (''CKA_X2RATCHET_ISALICE'', ''0x0000060c'', []), (''CKA_X2RATCHET_NHKR'', ''0x0000060d'', []),
   (''CKA_X2RATCHET_NHKS'', ''0x0000060e'', []), (''CKA_X2RATCHET_NR'', ''0x0000060f'', []), (''CKA_X2RATCHET_NS'', ''0x00000610'', []),
   (''CKA_X2RATCHET_PNS'', ''0x00000611'', []), (''CKA_X2RATCHET_RK'', ''0x00000612'', []), (''CKA_HSS_LEVELS'', ''0x00000617'', []),
   (''CKA_HSS_LMS_TYPE'', ''0x00000618'', []), (''CKA_HSS_LMOTS_TYPE'', ''0x00000619'', []), (''CKA_HSS_LMS_TYPES'', ''0x0000061a'', []),
   (''CKA_HSS_LMOTS_TYPES'', ''0x0000061b'', []), (''CKA_HSS_KEYS_REMAINING'', ''0x0000061c'', []), (''CKA_PARAMETER_SET'', ''0x0000061d'', []),
   (''CKA_OBJECT_VALIDATION_FLAGS'', ''0x0000061e'', []), (''CKA_VALIDATION_TYPE'', ''0x0000061f'', []),
   (''CKA_VALIDATION_VERSION'', ''0x00000620'', []), (''CKA_VALIDATION_LEVEL'', ''0x00000621'', []),
   (''CKA_VALIDATION_MODULE_ID'', ''0x00000622'', []), (''CKA_VALIDATION_FLAG'', ''0x00000623'', []),
   (''CKA_VALIDATION_AUTHORITY_TYPE'', ''0x00000624'', []), (''CKA_VALIDATION_COUNTRY'', ''0x00000625'', []),
   (''CKA_VALIDATION_CERTIFICATE_IDENTIFIER'', ''0x00000626'', []), (''CKA_VALIDATION_CERTIFICATE_URI'', ''0x00000627'', []),
   (''CKA_VALIDATION_VENDOR_URI'', ''0x00000628'', []), (''CKA_VALIDATION_PROFILE'', ''0x00000629'', []),
   (''CKA_ENCAPSULATE_TEMPLATE'', ''0x0000062a'', []), (''CKA_DECAPSULATE_TEMPLATE'', ''0x0000062b'', []),
   (''CKA_TRUST_SERVER_AUTH'', ''0x0000062c'', []), (''CKA_TRUST_CLIENT_AUTH'', ''0x0000062d'', []),
   (''CKA_TRUST_CODE_SIGNING'', ''0x0000062e'', []), (''CKA_TRUST_EMAIL_PROTECTION'', ''0x0000062f'', []),
   (''CKA_TRUST_IPSEC_IKE'', ''0x00000630'', []), (''CKA_TRUST_TIME_STAMPING'', ''0x00000631'', []),
   (''CKA_TRUST_OCSP_SIGNING'', ''0x00000632'', []), (''CKA_ENCAPSULATE'', ''0x00000633'', []), (''CKA_DECAPSULATE'', ''0x00000634'', []),
   (''CKA_HASH_OF_CERTIFICATE'', ''0x00000635'', []), (''CKA_PUBLIC_CRC64_VALUE'', ''0x00000636'', []), (''CKA_SEED'', ''0x00000637'', []),
   (''CKA_VENDOR_DEFINED'', ''0x80000000'', [])]"

definition rows_errors :: "row list" where
  "rows_errors = [
   (''CKR_OK'', ''0x00000000'', []), (''CKR_CANCEL'', ''0x00000001'', []), (''CKR_HOST_MEMORY'', ''0x00000002'', []),
   (''CKR_SLOT_ID_INVALID'', ''0x00000003'', []), (''CKR_GENERAL_ERROR'', ''0x00000005'', []), (''CKR_FUNCTION_FAILED'', ''0x00000006'', []),
   (''CKR_ARGUMENTS_BAD'', ''0x00000007'', []), (''CKR_NO_EVENT'', ''0x00000008'', []), (''CKR_NEED_TO_CREATE_THREADS'', ''0x00000009'', []),
   (''CKR_CANT_LOCK'', ''0x0000000A'', []), (''CKR_ATTRIBUTE_READ_ONLY'', ''0x00000010'', []), (''CKR_ATTRIBUTE_SENSITIVE'', ''0x00000011'', []),
   (''CKR_ATTRIBUTE_TYPE_INVALID'', ''0x00000012'', []), (''CKR_ATTRIBUTE_VALUE_INVALID'', ''0x00000013'', []),
   (''CKR_ACTION_PROHIBITED'', ''0x0000001B'', []), (''CKR_DATA_INVALID'', ''0x00000020'', []), (''CKR_DATA_LEN_RANGE'', ''0x00000021'', []),
   (''CKR_DEVICE_ERROR'', ''0x00000030'', []), (''CKR_DEVICE_MEMORY'', ''0x00000031'', []), (''CKR_DEVICE_REMOVED'', ''0x00000032'', []),
   (''CKR_ENCRYPTED_DATA_INVALID'', ''0x00000040'', []), (''CKR_ENCRYPTED_DATA_LEN_RANGE'', ''0x00000041'', []),
   (''CKR_AEAD_DECRYPT_FAILED'', ''0x00000042'', []), (''CKR_FUNCTION_CANCELED'', ''0x00000050'', []),
   (''CKR_FUNCTION_NOT_PARALLEL'', ''0x00000051'', []), (''CKR_FUNCTION_NOT_SUPPORTED'', ''0x00000054'', []),
   (''CKR_KEY_HANDLE_INVALID'', ''0x00000060'', []), (''CKR_KEY_SIZE_RANGE'', ''0x00000062'', []),
   (''CKR_KEY_TYPE_INCONSISTENT'', ''0x00000063'', []), (''CKR_KEY_NOT_NEEDED'', ''0x00000064'', []), (''CKR_KEY_CHANGED'', ''0x00000065'', []),
   (''CKR_KEY_NEEDED'', ''0x00000066'', []), (''CKR_KEY_INDIGESTIBLE'', ''0x00000067'', []),
   (''CKR_KEY_FUNCTION_NOT_PERMITTED'', ''0x00000068'', []), (''CKR_KEY_NOT_WRAPPABLE'', ''0x00000069'', []),
   (''CKR_KEY_UNEXTRACTABLE'', ''0x0000006A'', []), (''CKR_MECHANISM_INVALID'', ''0x00000070'', []),
   (''CKR_MECHANISM_PARAM_INVALID'', ''0x00000071'', []), (''CKR_OBJECT_HANDLE_INVALID'', ''0x00000082'', []),
   (''CKR_OPERATION_ACTIVE'', ''0x00000090'', []), (''CKR_OPERATION_NOT_INITIALIZED'', ''0x00000091'', []),
   (''CKR_PIN_INCORRECT'', ''0x000000A0'', []), (''CKR_PIN_INVALID'', ''0x000000A1'', []), (''CKR_PIN_LEN_RANGE'', ''0x000000A2'', []),
   (''CKR_PIN_EXPIRED'', ''0x000000A3'', []), (''CKR_PIN_LOCKED'', ''0x000000A4'', []), (''CKR_SESSION_CLOSED'', ''0x000000B0'', []),
   (''CKR_SESSION_COUNT'', ''0x000000B1'', []), (''CKR_SESSION_HANDLE_INVALID'', ''0x000000B3'', []),
   (''CKR_SESSION_PARALLEL_NOT_SUPPORTED'', ''0x000000B4'', []), (''CKR_SESSION_READ_ONLY'', ''0x000000B5'', []),
   (''CKR_SESSION_EXISTS'', ''0x000000B6'', []), (''CKR_SESSION_READ_ONLY_EXISTS'', ''0x000000B7'', []),
   (''CKR_SESSION_READ_WRITE_SO_EXISTS'', ''0x000000B8'', []), (''CKR_SIGNATURE_INVALID'', ''0x000000C0'', []),
   (''CKR_SIGNATURE_LEN_RANGE'', ''0x000000C1'', []), (''CKR_TEMPLATE_INCOMPLETE'', ''0x000000D0'', []),
   (''CKR_TEMPLATE_INCONSISTENT'', ''0x000000D1'', []), (''CKR_TOKEN_NOT_PRESENT'', ''0x000000E0'', []),
   (''CKR_TOKEN_NOT_RECOGNIZED'', ''0x000000E1'', []), (''CKR_TOKEN_WRITE_PROTECTED'', ''0x000000E2'', []),
   (''CKR_UNWRAPPING_KEY_HANDLE_INVALID'', ''0x000000F0'', []), (''CKR_UNWRAPPING_KEY_SIZE_RANGE'', ''0x000000F1'', []),
   (''CKR_UNWRAPPING_KEY_TYPE_INCONSISTENT'', ''0x000000F2'', []), (''CKR_USER_ALREADY_LOGGED_IN'', ''0x00000100'', []),
   (''CKR_USER_NOT_LOGGED_IN'', ''0x00000101'', []), (''CKR_USER_PIN_NOT_INITIALIZED'', ''0x00000102'', []),
   (''CKR_USER_TYPE_INVALID'', ''0x00000103'', []), (''CKR_USER_ANOTHER_ALREADY_LOGGED_IN'', ''0x00000104'', []),
   (''CKR_USER_TOO_MANY_TYPES'', ''0x00000105'', []), (''CKR_WRAPPED_KEY_INVALID'', ''0x00000110'', []),
   (''CKR_WRAPPED_KEY_LEN_RANGE'', ''0x00000112'', []), (''CKR_WRAPPING_KEY_HANDLE_INVALID'', ''0x00000113'', []),
   (''CKR_WRAPPING_KEY_SIZE_RANGE'', ''0x00000114'', []), (''CKR_WRAPPING_KEY_TYPE_INCONSISTENT'', ''0x00000115'', []),
   (''CKR_RANDOM_SEED_NOT_SUPPORTED'', ''0x00000120'', []), (''CKR_RANDOM_NO_RNG'', ''0x00000121'', []),
   (''CKR_DOMAIN_PARAMS_INVALID'', ''0x00000130'', []), (''CKR_CURVE_NOT_SUPPORTED'', ''0x00000140'', []),
   (''CKR_BUFFER_TOO_SMALL'', ''0x00000150'', []), (''CKR_SAVED_STATE_INVALID'', ''0x00000160'', []),
   (''CKR_INFORMATION_SENSITIVE'', ''0x00000170'', []), (''CKR_STATE_UNSAVEABLE'', ''0x00000180'', []),
   (''CKR_CRYPTOKI_NOT_INITIALIZED'', ''0x00000190'', []), (''CKR_CRYPTOKI_ALREADY_INITIALIZED'', ''0x00000191'', []),
   (''CKR_MUTEX_BAD'', ''0x000001A0'', []), (''CKR_MUTEX_NOT_LOCKED'', ''0x000001A1'', []), (''CKR_NEW_PIN_MODE'', ''0x000001B0'', []),
   (''CKR_NEXT_OTP'', ''0x000001B1'', []), (''CKR_EXCEEDED_MAX_ITERATIONS'', ''0x000001B5'', []),
   (''CKR_FIPS_SELF_TEST_FAILED'', ''0x000001B6'', []), (''CKR_LIBRARY_LOAD_FAILED'', ''0x000001B7'', []),
   (''CKR_PIN_TOO_WEAK'', ''0x000001B8'', []), (''CKR_PUBLIC_KEY_INVALID'', ''0x000001B9'', []), (''CKR_FUNCTION_REJECTED'', ''0x00000200'', []),
   (''CKR_TOKEN_RESOURCE_EXCEEDED'', ''0x00000201'', []), (''CKR_OPERATION_CANCEL_FAILED'', ''0x00000202'', []),
   (''CKR_KEY_EXHAUSTED'', ''0x00000203'', []), (''CKR_PENDING'', ''0x00000204'', []), (''CKR_SESSION_ASYNC_NOT_SUPPORTED'', ''0x00000205'', []),
   (''CKR_SEED_RANDOM_REQUIRED'', ''0x00000206'', []), (''CKR_OPERATION_NOT_VALIDATED'', ''0x00000207'', []),
   (''CKR_TOKEN_NOT_INITIALIZED'', ''0x00000208'', []), (''CKR_PARAMETER_SET_NOT_SUPPORTED'', ''0x00000209'', []),
   (''CKR_VENDOR_DEFINED'', ''0x80000000'', [])]"

definition define_of :: "row \<Rightarrow> cdefine" where
  "define_of r = (case r of (name, val, comment) \<Rightarrow> \<lparr>d_name = name, d_value = val, d_comment = comment\<rparr>)"

definition table_rows :: "row list" where
  "table_rows = row_flag # rows_before @ row_alias # rows_middle @ row_deprecated # rows_after @ rows_errors"

definition table_defines :: "cdefine list" where
  "table_defines = map define_of table_rows"

section \<open>Their values\<close>

lemma lower_hex:
  "lower_char (CHR ''A'') = CHR ''a''" "lower_char (CHR ''B'') = CHR ''b''" "lower_char (CHR ''C'') = CHR ''c''"
  "lower_char (CHR ''D'') = CHR ''d''" "lower_char (CHR ''E'') = CHR ''e''" "lower_char (CHR ''F'') = CHR ''f''"
  by code_simp+

lemma hex_chars:
  "digit_value (CHR ''0'') = Some 0" "digit_value (CHR ''1'') = Some 1" "digit_value (CHR ''2'') = Some 2" "digit_value (CHR ''3'') = Some 3"
  "digit_value (CHR ''4'') = Some 4" "digit_value (CHR ''5'') = Some 5" "digit_value (CHR ''6'') = Some 6" "digit_value (CHR ''7'') = Some 7"
  "digit_value (CHR ''8'') = Some 8" "digit_value (CHR ''9'') = Some 9" "digit_value (CHR ''a'') = Some 10" "digit_value (CHR ''b'') = Some 11"
  "digit_value (CHR ''c'') = Some 12" "digit_value (CHR ''d'') = Some 13" "digit_value (CHR ''e'') = Some 14" "digit_value (CHR ''f'') = Some 15"
  "digit_value (CHR ''A'') = Some 10" "digit_value (CHR ''B'') = Some 11" "digit_value (CHR ''C'') = Some 12" "digit_value (CHR ''D'') = Some 13"
  "digit_value (CHR ''E'') = Some 14" "digit_value (CHR ''F'') = Some 15"
  by (simp_all add: digit_value_def lower_hex) (simp_all add: is_digit_def lower_char_def is_upper_def is_lower_def)

lemma hex_char_class:
  "is_hex (CHR ''0'')" "is_hex (CHR ''1'')" "is_hex (CHR ''2'')" "is_hex (CHR ''3'')" "is_hex (CHR ''4'')" "is_hex (CHR ''5'')"
  "is_hex (CHR ''6'')" "is_hex (CHR ''7'')" "is_hex (CHR ''8'')" "is_hex (CHR ''9'')" "is_hex (CHR ''a'')" "is_hex (CHR ''b'')"
  "is_hex (CHR ''c'')" "is_hex (CHR ''d'')" "is_hex (CHR ''e'')" "is_hex (CHR ''f'')" "is_hex (CHR ''A'')" "is_hex (CHR ''B'')"
  "is_hex (CHR ''C'')" "is_hex (CHR ''D'')" "is_hex (CHR ''E'')" "is_hex (CHR ''F'')"
  by (simp_all add: is_hex_def is_digit_def)

lemma eval_hex:
  assumes "list_all is_hex h" and "h \<noteq> []" and "parse_digits 16 0 h = Some n"
  shows "evalExpr (CHR ''0'' # CHR ''x'' # h) k = Some (of_int n)"
proof -
  let ?s = "CHR ''0'' # CHR ''x'' # h"
  have x: "is_word (CHR ''0'')" "is_word (CHR ''x'')" "lower_char (CHR ''x'') = CHR ''x''" by code_simp+
  then have w: "list_all is_word ?s" using assms(1) hex_word by (auto simp: list_all_iff)
  have "\<not> is_hex (CHR ''_'')" by code_simp
  then have "CHR ''_'' \<notin> set ?s" using assms(1) by (auto simp: list_all_iff)
  moreover have "length ?s \<ge> 3" using assms(2) by (cases h) simp_all
  ultimately have "ParseUint ?s = Some (of_int n)" using assms(3) x(3) by (simp add: ParseUint_def base_prefix_def)
  then show ?thesis using TrimSpace_word [OF w] Split_word [OF w] by (simp add: evalExpr_def Let_def HasPrefix_def)
qed

text \<open>A row gives an entry of a table: it has the entry's name, and its value is the entry's constant whenever \<open>P\<close> holds of the values before it.\<close>

definition row_gives :: "((string \<Rightarrow> uint option) \<Rightarrow> bool) \<Rightarrow> row \<Rightarrow> uint \<times> string \<Rightarrow> bool" where
  "row_gives P r e \<longleftrightarrow> fst r = snd e \<and> (\<forall>k. P k \<longrightarrow> evalExpr (fst (snd r)) k = Some (fst e))"

unbundle bit_operations_syntax

definition flag_known :: "(string \<Rightarrow> uint option) \<Rightarrow> bool" where
  "flag_known k \<longleftrightarrow> k ''CKF_ARRAY_ATTRIBUTE'' = Some CKF_ARRAY_ATTRIBUTE"

lemma rows_before_give: "list_all2 (row_gives (\<lambda>k. True)) rows_before (take 52 ckaNames)"
  by (simp add: rows_before_def ckaNames_def row_gives_def ck_consts eval_hex hex_chars hex_char_class)

lemma rows_errors_give: "list_all2 (row_gives (\<lambda>k. True)) rows_errors ckrNames"
  by (simp add: rows_errors_def ckrNames_def row_gives_def ck_consts eval_hex hex_chars hex_char_class)

lemma eval_flag:
  assumes "flag_known k" and "TrimSpace e = e" and "HasPrefix e ''(''" and "HasSuffix e '')''"
    and "Split (butlast (tl e)) (CHR ''|'') = [''CKF_ARRAY_ATTRIBUTE '', t]" and "ParseUint (TrimSpace t) = Some v"
  shows "evalExpr e k = Some (CKF_ARRAY_ATTRIBUTE OR v)"
proof -
  have "TrimSpace ''CKF_ARRAY_ATTRIBUTE '' = ''CKF_ARRAY_ATTRIBUTE''" "ParseUint ''CKF_ARRAY_ATTRIBUTE'' = None" by code_simp+
  then show ?thesis using assms by (simp add: evalExpr_def flag_known_def)
qed

lemma flag_rows:
  assumes "flag_known k"
  shows "evalExpr ''(CKF_ARRAY_ATTRIBUTE | 0x00000211)'' k = Some CKA_WRAP_TEMPLATE"
    and "evalExpr ''(CKF_ARRAY_ATTRIBUTE | 0x00000212)'' k = Some CKA_UNWRAP_TEMPLATE"
    and "evalExpr ''(CKF_ARRAY_ATTRIBUTE | 0x00000213)'' k = Some CKA_DERIVE_TEMPLATE"
    and "evalExpr ''(CKF_ARRAY_ATTRIBUTE | 0x00000600)'' k = Some CKA_ALLOWED_MECHANISMS"
proof -
  have "evalExpr ''(CKF_ARRAY_ATTRIBUTE | 0x00000211)'' k = Some (CKF_ARRAY_ATTRIBUTE OR 0x211)"
    by (rule eval_flag [OF assms, where t = "'' 0x00000211''"]; code_simp)
  moreover have "evalExpr ''(CKF_ARRAY_ATTRIBUTE | 0x00000212)'' k = Some (CKF_ARRAY_ATTRIBUTE OR 0x212)"
    by (rule eval_flag [OF assms, where t = "'' 0x00000212''"]; code_simp)
  moreover have "evalExpr ''(CKF_ARRAY_ATTRIBUTE | 0x00000213)'' k = Some (CKF_ARRAY_ATTRIBUTE OR 0x213)"
    by (rule eval_flag [OF assms, where t = "'' 0x00000213''"]; code_simp)
  moreover have "evalExpr ''(CKF_ARRAY_ATTRIBUTE | 0x00000600)'' k = Some (CKF_ARRAY_ATTRIBUTE OR 0x600)"
    by (rule eval_flag [OF assms, where t = "'' 0x00000600''"]; code_simp)
  ultimately show "evalExpr ''(CKF_ARRAY_ATTRIBUTE | 0x00000211)'' k = Some CKA_WRAP_TEMPLATE"
    "evalExpr ''(CKF_ARRAY_ATTRIBUTE | 0x00000212)'' k = Some CKA_UNWRAP_TEMPLATE"
    "evalExpr ''(CKF_ARRAY_ATTRIBUTE | 0x00000213)'' k = Some CKA_DERIVE_TEMPLATE"
    "evalExpr ''(CKF_ARRAY_ATTRIBUTE | 0x00000600)'' k = Some CKA_ALLOWED_MECHANISMS"
    by (simp_all add: ck_consts)
qed

lemma rows_middle_give: "list_all2 (row_gives (\<lambda>k. True)) rows_middle (take 10 (drop 52 ckaNames))"
  by (simp add: rows_middle_def ckaNames_def row_gives_def ck_consts eval_hex hex_chars hex_char_class)

lemma rows_after_give: "list_all2 (row_gives flag_known) rows_after (drop 62 ckaNames)"
  by (simp add: rows_after_def ckaNames_def row_gives_def flag_rows)
    (simp add: ck_consts eval_hex hex_chars hex_char_class)

lemma eval_alias: "evalExpr ''CKA_SUBPRIME_BITS'' k = k ''CKA_SUBPRIME_BITS''"
proof -
  have "TrimSpace ''CKA_SUBPRIME_BITS'' = ''CKA_SUBPRIME_BITS''" "ParseUint ''CKA_SUBPRIME_BITS'' = None"
    "Split ''CKA_SUBPRIME_BITS'' (CHR ''|'') = [''CKA_SUBPRIME_BITS'']" "\<not> HasPrefix ''CKA_SUBPRIME_BITS'' ''(''" by code_simp+
  then show ?thesis by (simp add: evalExpr_def split: option.split)
qed

section \<open>Evaluating them all\<close>

lemma define_of_simps [simp]: "d_name (define_of r) = fst r" "d_value (define_of r) = fst (snd r)"
  by (simp_all add: define_of_def split: prod.split)

abbreviation swaps :: "(uint \<times> string) list \<Rightarrow> (string \<times> uint) list" where
  "swaps es \<equiv> map prod.swap es"

lemma evaluate_rows:
  assumes "list_all2 (row_gives P) rs es" and "P k" and "\<And>k e v. P k \<Longrightarrow> e \<in> set es \<Longrightarrow> P (k(snd e \<mapsto> v))"
  shows "evaluate_from k (map define_of rs @ ds) = evaluate_from (k ++ map_of (rev (swaps es))) ds"
  using assms
proof (induction arbitrary: k rule: list_all2_induct)
  case (Cons r rs e es)
  have "fst r = snd e" "evalExpr (fst (snd r)) k = Some (fst e)" using Cons.hyps(1) Cons.prems(1) by (simp_all add: row_gives_def)
  then have "evaluate_from k (map define_of (r # rs) @ ds) = evaluate_from (k(snd e \<mapsto> fst e)) (map define_of rs @ ds)"
    by (simp del: fun_upd_apply)
  also have "\<dots> = evaluate_from (k(snd e \<mapsto> fst e) ++ map_of (rev (swaps es))) ds"
    by (rule Cons.IH) (use Cons.prems in simp_all)
  also have "k(snd e \<mapsto> fst e) ++ map_of (rev (swaps es)) = k ++ map_of (rev (swaps (e # es)))"
    by (cases e) (simp add: map_add_assoc)
  finally show ?case .
qed simp

lemma row_names: "list_all2 (row_gives P) rs es \<Longrightarrow> map fst rs = map snd es"
  by (induction rule: list_all2_induct) (simp_all add: row_gives_def)

lemma CKA_names: "list_all (\<lambda>e. take 4 (snd e) = ''CKA_'' \<and> snd e \<noteq> ''CKA_SUB_PRIME_BITS'' \<and> snd e \<noteq> ''CKA_ECDSA_PARAMS'') ckaNames"
  by (simp add: ckaNames_def)

lemma CKR_names: "list_all (\<lambda>e. take 4 (snd e) = ''CKR_'') ckrNames"
  by (simp add: ckrNames_def)

text \<open>The rows as a list of names with values, in the order of the file.\<close>

definition known_values :: "(string \<times> uint) list" where
  "known_values = (''CKF_ARRAY_ATTRIBUTE'', CKF_ARRAY_ATTRIBUTE) # swaps (take 52 ckaNames) @ (''CKA_SUB_PRIME_BITS'', CKA_SUBPRIME_BITS) #
     swaps (take 10 (drop 52 ckaNames)) @ (''CKA_ECDSA_PARAMS'', CKA_EC_PARAMS) # swaps (drop 62 ckaNames) @ swaps ckrNames"

lemma split_52_10: "xs = take 52 xs @ take 10 (drop 52 xs) @ drop 62 xs"
  using append_take_drop_id [of 10 "drop 52 xs"] append_take_drop_id [of 52 xs] by simp

lemma table_names_distinct: "distinct (map snd ckaNames)" "distinct (map snd ckrNames)"
  using ckaNames_table ckrNames_table by (simp_all add: name_table_def)

lemma distinct_groups:
  assumes "distinct (a @ b @ c)" and "distinct r" and "\<forall>x \<in> set (a @ b @ c). t x = p \<and> x \<noteq> s \<and> x \<noteq> e" and "\<forall>x \<in> set r. t x = q"
    and "p \<noteq> q" and "t f \<noteq> p" and "t f \<noteq> q" and "t s \<noteq> q" and "t e \<noteq> q" and "f \<noteq> s" and "f \<noteq> e" and "s \<noteq> e"
  shows "distinct (f # a @ s # b @ e # c @ r)"
proof -
  have 1: "f \<notin> set (a @ b @ c)" "s \<notin> set (a @ b @ c)" "e \<notin> set (a @ b @ c)" using assms(3,6) by blast+
  have 2: "f \<notin> set r" "s \<notin> set r" "e \<notin> set r" using assms(4,7-9) by blast+
  have 3: "set (a @ b @ c) \<inter> set r = {}" using assms(3-5) by fastforce
  show ?thesis using 1 2 3 assms(1,2,10-12) by auto
qed

lemma known_names_distinct: "distinct (map fst known_values)"
proof -
  let ?a = "map snd (take 52 ckaNames)" and ?b = "map snd (take 10 (drop 52 ckaNames))" and ?c = "map snd (drop 62 ckaNames)"
  have n: "map snd ckaNames = ?a @ ?b @ ?c" by (subst split_52_10 [of ckaNames]) simp
  have A: "\<forall>x \<in> set (?a @ ?b @ ?c). take 4 x = ''CKA_'' \<and> x \<noteq> ''CKA_SUB_PRIME_BITS'' \<and> x \<noteq> ''CKA_ECDSA_PARAMS''"
    using CKA_names unfolding n [symmetric] by (auto simp: list_all_iff)
  have R: "\<forall>x \<in> set (map snd ckrNames). take 4 x = ''CKR_''" using CKR_names by (auto simp: list_all_iff)
  have d: "distinct (?a @ ?b @ ?c)" using table_names_distinct(1) unfolding n .
  have "map fst known_values = ''CKF_ARRAY_ATTRIBUTE'' # ?a @ ''CKA_SUB_PRIME_BITS'' # ?b @ ''CKA_ECDSA_PARAMS'' # ?c @ map snd ckrNames"
    by (simp add: known_values_def comp_def)
  then show ?thesis by (simp only:) (rule distinct_groups [OF d table_names_distinct(2) A R]; simp)
qed

lemma evaluate_group:
  assumes "list_all2 (row_gives P) rs es" and "P (map_of (rev al))" and "\<And>k e v. P k \<Longrightarrow> e \<in> set es \<Longrightarrow> P (k(snd e \<mapsto> v))"
  shows "evaluate_from (map_of (rev al)) (map define_of rs @ ds) = evaluate_from (map_of (rev (al @ swaps es))) ds"
  using evaluate_rows [OF assms] by (simp add: map_add_def)

lemma evaluate_row:
  assumes "evalExpr (fst (snd r)) (map_of (rev al)) = Some v"
  shows "evaluate_from (map_of (rev al)) (define_of r # ds) = evaluate_from (map_of (rev (al @ [(fst r, v)]))) ds"
  using assms by (simp del: fun_upd_apply)

lemma map_of_rev_distinct: "distinct (map fst al) \<Longrightarrow> (n, v) \<in> set al \<Longrightarrow> map_of (rev al) n = Some v"
  by (rule map_of_is_SomeI) (simp_all add: rev_map [symmetric])

lemma no_flag: "e \<in> set ckaNames \<Longrightarrow> snd e \<noteq> ''CKF_ARRAY_ATTRIBUTE''"
proof -
  have "take 4 ''CKF_ARRAY_ATTRIBUTE'' \<noteq> ''CKA_''" by simp
  moreover assume "e \<in> set ckaNames"
  then have "take 4 (snd e) = ''CKA_''" using CKA_names by (auto simp: list_all_iff)
  ultimately show ?thesis by metis
qed

lemma evaluate_alias:
  assumes "distinct (map fst al)" and "(''CKA_SUBPRIME_BITS'', CKA_SUBPRIME_BITS) \<in> set al"
  shows "evaluate_from (map_of (rev al)) (define_of row_alias # ds) =
    evaluate_from (map_of (rev (al @ [(''CKA_SUB_PRIME_BITS'', CKA_SUBPRIME_BITS)]))) ds"
proof -
  have "evalExpr (fst (snd row_alias)) (map_of (rev al)) = Some CKA_SUBPRIME_BITS"
    using map_of_rev_distinct [OF assms] by (simp only: row_alias_def fst_conv snd_conv eval_alias)
  from evaluate_row [OF this, of ds] show ?thesis by (simp only: row_alias_def fst_conv)
qed

lemma evaluate_after:
  assumes "distinct (map fst al)" and "(''CKF_ARRAY_ATTRIBUTE'', CKF_ARRAY_ATTRIBUTE) \<in> set al"
  shows "evaluate_from (map_of (rev al)) (map define_of rows_after @ ds) = evaluate_from (map_of (rev (al @ swaps (drop 62 ckaNames)))) ds"
proof (rule evaluate_group [OF rows_after_give])
  show "flag_known (map_of (rev al))" unfolding flag_known_def by (rule map_of_rev_distinct [OF assms])
  show "flag_known (k(snd e \<mapsto> v))" if "flag_known k" "e \<in> set (drop 62 ckaNames)" for k e v
    using that no_flag [OF in_set_dropD [OF that(2)]] by (simp add: flag_known_def)
qed

lemma evaluate_table: "evaluate table_defines = Inr (map_of (rev known_values))"
proof -
  let ?f = "(''CKF_ARRAY_ATTRIBUTE'', CKF_ARRAY_ATTRIBUTE)" and ?s = "(''CKA_SUB_PRIME_BITS'', CKA_SUBPRIME_BITS)"
    and ?e = "(''CKA_ECDSA_PARAMS'', CKA_EC_PARAMS)"
  let ?a = "swaps (take 52 ckaNames)" and ?b = "swaps (take 10 (drop 52 ckaNames))" and ?c = "swaps (drop 62 ckaNames)"
  let ?R = "map define_of rows_errors" let ?C = "map define_of rows_after @ ?R" let ?B = "map define_of rows_middle @ define_of row_deprecated # ?C"
  have kv: "known_values = (?f # ?a) @ ?s # ?b @ ?e # ?c @ swaps ckrNames" by (simp add: known_values_def)
  have d: "distinct (map fst (?f # ?a))" using known_names_distinct unfolding kv map_append distinct_append by blast
  have d': "distinct (map fst (?f # ?a @ ?s # ?b @ [?e]))" using known_names_distinct unfolding kv by auto
  have "(CKA_SUBPRIME_BITS, ''CKA_SUBPRIME_BITS'') \<in> set (take 52 ckaNames)" by (simp add: ckaNames_def)
  then have sub: "(''CKA_SUBPRIME_BITS'', CKA_SUBPRIME_BITS) \<in> set (?f # ?a)" by force
  have dep: "evalExpr (fst (snd row_deprecated)) k = Some CKA_EC_PARAMS" for k
    by (simp add: row_deprecated_def eval_hex hex_chars hex_char_class ck_consts)
  have "evaluate table_defines = evaluate_from (map_of (rev [])) (define_of row_flag # map define_of rows_before @ define_of row_alias # ?B)"
    by (simp add: evaluate_def table_defines_def table_rows_def)
  also have "\<dots> = evaluate_from (map_of (rev [?f])) (map define_of rows_before @ define_of row_alias # ?B)"
    using evaluate_row [of row_flag "[]" CKF_ARRAY_ATTRIBUTE] by (simp add: row_flag_def eval_hex hex_chars hex_char_class ck_consts)
  also have "\<dots> = evaluate_from (map_of (rev (?f # ?a))) (define_of row_alias # ?B)"
    using evaluate_group [OF rows_before_give, of "[?f]"] by simp
  also have "\<dots> = evaluate_from (map_of (rev ((?f # ?a) @ [?s]))) ?B"
    by (rule evaluate_alias [OF d sub])
  also have "\<dots> = evaluate_from (map_of (rev (?f # ?a @ ?s # ?b))) (define_of row_deprecated # ?C)"
    using evaluate_group [OF rows_middle_give, of "(?f # ?a) @ [?s]" "define_of row_deprecated # ?C"] by simp
  also have "\<dots> = evaluate_from (map_of (rev (?f # ?a @ ?s # ?b @ [?e]))) ?C"
    using evaluate_row [OF dep, of "?f # ?a @ ?s # ?b" ?C] by (simp add: row_deprecated_def)
  also have "\<dots> = evaluate_from (map_of (rev ((?f # ?a @ ?s # ?b @ [?e]) @ ?c))) ?R"
    by (rule evaluate_after [OF d']) simp
  also have "\<dots> = Inr (map_of (rev known_values))"
    using evaluate_group [OF rows_errors_give, of "(?f # ?a @ ?s # ?b @ [?e]) @ ?c" "[]"] by (simp add: known_values_def)
  finally show ?thesis .
qed

lemma value_known:
  assumes "(n, v) \<in> set known_values"
  shows "map_of (rev known_values) n = Some v"
  using map_of_rev_distinct [OF known_names_distinct assms] .

lemma known_entries: "prod.swap ` set (ckaNames @ ckrNames) \<subseteq> set known_values"
proof -
  have "set ckaNames = set (take 52 ckaNames) \<union> set (take 10 (drop 52 ckaNames)) \<union> set (drop 62 ckaNames)"
    using arg_cong [OF split_52_10 [of ckaNames], of set] by (simp only: set_append Un_assoc)
  then show ?thesis by (simp add: known_values_def image_Un) blast
qed

section \<open>The names\<close>

text \<open>New values extend the table in order; it is kept as a list of entries.\<close>

lemma is_CK_take: "is_CKA d \<longleftrightarrow> take 4 (d_name d) = ''CKA_''" "is_CKR d \<longleftrightarrow> take 4 (d_name d) = ''CKR_''"
  by (simp_all add: is_CKA_def is_CKR_def HasPrefix_def eval_nat_numeral)

lemma map_of_snoc: "map_of al v = None \<Longrightarrow> map_of (al @ [(v, n)]) = (map_of al)(v \<mapsto> n)"
  by (intro ext) (auto simp: map_add_def split: option.split)

lemma names_fresh:
  assumes "list_all2 (row_gives P) rs es" and "distinct (map fst (al @ es))" and "\<forall>e \<in> set es. vals (snd e) = Some (fst e) \<and> take 4 (snd e) = ''CKA_''"
  shows "attribute_names vals (map_of al) (map fst al) (map define_of rs @ ds) =
    attribute_names vals (map_of (al @ es)) (map fst (al @ es)) ds"
  using assms
proof (induction arbitrary: al rule: list_all2_induct)
  case (Cons r rs e es)
  have r: "fst r = snd e" using Cons.hyps(1) by (simp add: row_gives_def)
  have new: "map_of al (fst e) = None" using Cons.prems(1) by (auto simp: map_of_eq_None_iff)
  have e: "vals (snd e) = Some (fst e)" "take 4 (snd e) = ''CKA_''" using Cons.prems(2) by simp_all
  have m: "(map_of al)(fst e \<mapsto> snd e) = map_of (al @ [e])"
    using map_of_snoc [OF new, of "snd e"] by simp
  have "attribute_names vals (map_of al) (map fst al) (map define_of (r # rs) @ ds) =
      attribute_names vals ((map_of al)(fst e \<mapsto> snd e)) (map fst al @ [fst e]) (map define_of rs @ ds)"
    using r new e by (simp add: is_CK_take Let_def del: fun_upd_apply)
  also have "\<dots> = attribute_names vals (map_of (al @ [e])) (map fst (al @ [e])) (map define_of rs @ ds)" by (simp add: m)
  also have "\<dots> = attribute_names vals (map_of ((al @ [e]) @ es)) (map fst ((al @ [e]) @ es)) ds"
    by (rule Cons.IH) (use Cons.prems in simp_all)
  finally show ?case by simp
qed simp

lemma names_skip:
  assumes "\<forall>r \<in> set rs. take 4 (fst r) \<noteq> ''CKA_''"
  shows "attribute_names vals names order (map define_of rs) = (names, order)"
  using assms by (induction rs) (simp_all add: is_CK_take)

lemma names_again:
  assumes "vals (fst r) = Some v" and "take 4 (fst r) = ''CKA_''" and "names v = Some n"
  shows "attribute_names vals names order (define_of r # ds) =
    attribute_names vals (if isIdentifier (fst (snd r)) then names else names(v \<mapsto> fst r)) order ds"
  using assms by (simp add: is_CK_take Let_def)

lemma names_replaced:
  assumes "map_of al v = None" and "vals (fst r) = Some v" and "take 4 (fst r) = ''CKA_''"
    and "vals (fst q) = Some v" and "take 4 (fst q) = ''CKA_''" and "\<not> isIdentifier (fst (snd q))"
  shows "attribute_names vals (map_of al) (map fst al) (define_of r # define_of q # ds) =
    attribute_names vals (map_of (al @ [(v, fst q)])) (map fst (al @ [(v, fst q)])) ds"
proof -
  have "attribute_names vals (map_of al) (map fst al) (define_of r # ds') =
      attribute_names vals ((map_of al)(v \<mapsto> fst r)) (map fst al @ [v]) ds'" for ds'
    using assms(1-3) by (simp add: is_CK_take Let_def del: fun_upd_apply)
  moreover have "((map_of al)(v \<mapsto> fst r)) v = Some (fst r)" by simp
  from names_again [where vals = vals and r = q and names = "(map_of al)(v \<mapsto> fst r)", OF assms(4,5) this]
  have "attribute_names vals ((map_of al)(v \<mapsto> fst r)) order (define_of q # ds) =
      attribute_names vals (map_of (al @ [(v, fst q)])) order ds" for order
    unfolding if_not_P [OF assms(6)] fun_upd_upd map_of_snoc [OF assms(1)] .
  ultimately show ?thesis by simp
qed

abbreviation known :: "string \<Rightarrow> uint option" where
  "known \<equiv> map_of (rev known_values)"

lemma known_CKA: "e \<in> set ckaNames \<Longrightarrow> known (snd e) = Some (fst e) \<and> take 4 (snd e) = ''CKA_''"
  using value_known [OF subsetD [OF known_entries, of "(snd e, fst e)"]] CKA_names by (cases e) (force simp: list_all_iff)

lemma names_alias:
  assumes "map_of al CKA_SUBPRIME_BITS = Some n"
  shows "attribute_names known (map_of al) order (define_of row_alias # ds) = attribute_names known (map_of al) order ds"
proof -
  have "(''CKA_SUB_PRIME_BITS'', CKA_SUBPRIME_BITS) \<in> set known_values" by (simp add: known_values_def)
  then have v: "known (fst row_alias) = Some CKA_SUBPRIME_BITS" unfolding row_alias_def fst_conv by (rule value_known)
  have "isIdentifier (fst (snd row_alias))" unfolding row_alias_def fst_conv snd_conv by code_simp
  moreover have "take 4 (fst row_alias) = ''CKA_''" by (simp add: row_alias_def)
  ultimately show ?thesis using names_again [where vals = known and r = row_alias and names = "map_of al", OF v _ assms] by simp
qed

lemma names_after:
  assumes "distinct (map fst (al @ drop 62 ckaNames))"
  shows "attribute_names known (map_of al) (map fst al) (define_of row_deprecated # map define_of rows_after @ ds) =
    attribute_names known (map_of (al @ drop 62 ckaNames)) (map fst (al @ drop 62 ckaNames)) ds"
proof -
  let ?q = "(''CKA_EC_PARAMS'', ''0x00000180'', []) :: row" and ?e = "(CKA_EC_PARAMS, ''CKA_EC_PARAMS'')"
  obtain rs where r: "rows_after = ?q # rs" by (simp add: rows_after_def)
  have "hd (drop 62 ckaNames) = ?e" "drop 62 ckaNames \<noteq> []" by (simp_all add: ckaNames_def)
  then obtain es where c: "drop 62 ckaNames = ?e # es" by (cases "drop 62 ckaNames") auto
  have g: "list_all2 (row_gives flag_known) rs es" using rows_after_give unfolding r c by simp
  have new: "map_of al CKA_EC_PARAMS = None" and d: "distinct (map fst ((al @ [?e]) @ es))"
    using assms unfolding c by (auto simp: map_of_eq_None_iff)
  have "(''CKA_ECDSA_PARAMS'', CKA_EC_PARAMS) \<in> set known_values" by (simp add: known_values_def)
  then have v: "known (fst row_deprecated) = Some CKA_EC_PARAMS" unfolding row_deprecated_def fst_conv by (rule value_known)
  have in_c: "e \<in> set ckaNames" if "e \<in> set (?e # es)" for e using in_set_dropD [of e 62 ckaNames] that unfolding c .
  have i: "\<not> isIdentifier (fst (snd ?q))" unfolding fst_conv snd_conv by code_simp
  have q: "known (fst ?q) = Some CKA_EC_PARAMS" "take 4 (fst ?q) = ''CKA_''" "take 4 (fst row_deprecated) = ''CKA_''"
    using known_CKA [OF in_c [of ?e]] by (simp_all add: row_deprecated_def)
  have "attribute_names known (map_of (al @ [?e])) (map fst (al @ [?e])) (map define_of rs @ ds) =
      attribute_names known (map_of ((al @ [?e]) @ es)) (map fst ((al @ [?e]) @ es)) ds"
    by (rule names_fresh [OF g d]) (use known_CKA in_c in simp)
  then show ?thesis using names_replaced [where vals = known and r = row_deprecated and q = ?q, OF new v q(3,1,2) i] unfolding r c by simp
qed

lemma names_table: "attribute_names known Map.empty [] table_defines = (map_of ckaNames, map fst ckaNames)"
proof -
  let ?a = "take 52 ckaNames" and ?b = "take 10 (drop 52 ckaNames)" and ?c = "drop 62 ckaNames"
  let ?R = "map define_of rows_errors" let ?C = "define_of row_deprecated # map define_of rows_after @ ?R"
  have k: "(?a @ ?b) @ ?c = ckaNames" using split_52_10 [of ckaNames] by simp
  have d: "distinct (map fst ((?a @ ?b) @ ?c))" using ckaNames_keys unfolding k .
  then have dab: "distinct (map fst (?a @ ?b))" unfolding map_append distinct_append by blast
  then have da: "distinct (map fst ?a)" unfolding map_append distinct_append by blast
  have kn: "\<forall>e \<in> set ?a. known (snd e) = Some (fst e) \<and> take 4 (snd e) = ''CKA_''"
    "\<forall>e \<in> set ?b. known (snd e) = Some (fst e) \<and> take 4 (snd e) = ''CKA_''"
    by (intro ballI known_CKA, erule in_set_takeD, intro ballI known_CKA, drule in_set_takeD, erule in_set_dropD)
  have s: "map_of ?a CKA_SUBPRIME_BITS = Some ''CKA_SUBPRIME_BITS''"
    by (rule map_of_is_SomeI [OF da]) (simp add: ckaNames_def)
  have "attribute_names known Map.empty [] table_defines =
      attribute_names known (map_of []) (map fst ([] :: (uint \<times> string) list)) (map define_of rows_before @ define_of row_alias # map define_of rows_middle @ ?C)"
    by (simp add: table_defines_def table_rows_def is_CK_take row_flag_def)
  also have "\<dots> = attribute_names known (map_of ([] @ ?a)) (map fst ([] @ ?a)) (define_of row_alias # map define_of rows_middle @ ?C)"
    by (rule names_fresh [OF rows_before_give]) (use da kn in simp_all)
  also have "\<dots> = attribute_names known (map_of ?a) (map fst ?a) (map define_of rows_middle @ ?C)"
    unfolding append_Nil by (rule names_alias [OF s])
  also have "\<dots> = attribute_names known (map_of (?a @ ?b)) (map fst (?a @ ?b)) ?C"
    by (rule names_fresh [OF rows_middle_give dab]) (rule kn(2))
  also have "\<dots> = attribute_names known (map_of ckaNames) (map fst ckaNames) ?R"
    using names_after [OF d] unfolding k .
  also have "\<dots> = (map_of ckaNames, map fst ckaNames)"
  proof (rule names_skip)
    have "\<forall>x \<in> set (map fst rows_errors). take 4 x \<noteq> ''CKA_''"
      using CKR_names unfolding row_names [OF rows_errors_give] by (auto simp: list_all_iff)
    then show "\<forall>r \<in> set rows_errors. take 4 (fst r) \<noteq> ''CKA_''" by simp
  qed
  finally show ?thesis .
qed

section \<open>The printed tables\<close>

lemma CKR_rows: "map d_name (filter is_CKR table_defines) = map snd ckrNames"
proof -
  have none: "filter is_CKR (map define_of rs) = []" if "map fst rs = map snd es" "set es \<subseteq> set ckaNames" for rs es
  proof -
    have "take 4 (snd e) \<noteq> ''CKR_''" if "e \<in> set ckaNames" for e
      using CKA_names that by (simp add: list_all_iff)
    then have "\<forall>x \<in> set (map fst rs). take 4 x \<noteq> ''CKR_''" unfolding that(1) using that(2) by auto
    then show ?thesis by (auto simp: filter_empty_conv is_CK_take)
  qed
  have "filter is_CKR (map define_of rows_before) = []" "filter is_CKR (map define_of rows_middle) = []"
    "filter is_CKR (map define_of rows_after) = []"
    by (rule none [OF row_names [OF rows_before_give]] none [OF row_names [OF rows_middle_give]] none [OF row_names [OF rows_after_give]];
      use set_take_subset set_drop_subset in fast)+
  moreover have "filter is_CKR [define_of row_flag] = []" "filter is_CKR [define_of row_alias] = []" "filter is_CKR [define_of row_deprecated] = []"
    by (simp_all add: row_flag_def row_alias_def row_deprecated_def is_CK_take)
  moreover have "filter is_CKR (map define_of rows_errors) = map define_of rows_errors"
  proof -
    have "\<forall>x \<in> set (map fst rows_errors). take 4 x = ''CKR_''"
      using CKR_names unfolding row_names [OF rows_errors_give] by (auto simp: list_all_iff)
    then show ?thesis by (simp add: filter_id_conv is_CK_take)
  qed
  moreover have "map d_name (map define_of rows_errors) = map snd ckrNames" using row_names [OF rows_errors_give] by (simp add: comp_def)
  ultimately show ?thesis by (simp add: table_defines_def table_rows_def split: if_splits)
qed

text \<open>C20: The committed name tables are what the generator makes of the committed constants: the constants evaluate to the values they
  have in the binding, the attribute table it prints lists the entries of \<^verbatim>\<open>zattr.go\<close> in their order, with the current name
  where two names share a value, and the error table those of \<^verbatim>\<open>zerror.go\<close>.\<close>

theorem tables_are_generated:
  "(\<exists>vals. evaluate table_defines = Inr vals \<and> list_all (\<lambda>(v, n). vals n = Some v) (ckaNames @ ckrNames)) \<and>
   renderAttributes go_format pkg header table_defines = Inr (go_format (preamble pkg header @
     table_text (''// ckaNames maps a CK_ATTRIBUTE_TYPE to the CKA_ symbol AttributeName reports'' @ NL @
       ''// for it. A value the header gives two names maps to the current one.'' @ NL @
       ''var ckaNames = map[uint]string{'' @ NL) (map snd ckaNames)), length ckaNames) \<and>
   renderErrors go_format pkg header table_defines = (go_format (preamble pkg header @
     table_text (''// ckrNames maps a Cryptoki CK_RV return value to its CKR_ symbol.'' @ NL @
       ''var ckrNames = map[Error]string{'' @ NL) (map snd ckrNames)), length ckrNames)"
proof (intro conjI)
  have "map_of (rev known_values) n = Some v" if "(v, n) \<in> set (ckaNames @ ckrNames)" for v n
    using value_known [OF subsetD [OF known_entries, of "(n, v)"]] that by force
  then show "\<exists>vals. evaluate table_defines = Inr vals \<and> list_all (\<lambda>(v, n). vals n = Some v) (ckaNames @ ckrNames)"
    using evaluate_table by (auto simp: list_all_iff)
  have "map (\<lambda>v. case map_of ckaNames v of Some n \<Rightarrow> n | None \<Rightarrow> []) (map fst ckaNames) = map snd ckaNames"
    using map_of_is_SomeI [OF ckaNames_keys] by (auto intro!: map_cong)
  then show "renderAttributes go_format pkg header table_defines = Inr (go_format (preamble pkg header @
     table_text (''// ckaNames maps a CK_ATTRIBUTE_TYPE to the CKA_ symbol AttributeName reports'' @ NL @
       ''// for it. A value the header gives two names maps to the current one.'' @ NL @
       ''var ckaNames = map[uint]string{'' @ NL) (map snd ckaNames)), length ckaNames)"
    by (simp only: renderAttributes_def evaluate_table names_table sum.case prod.case length_map)
  show "renderErrors go_format pkg header table_defines = (go_format (preamble pkg header @
     table_text (''// ckrNames maps a Cryptoki CK_RV return value to its CKR_ symbol.'' @ NL @
       ''var ckrNames = map[Error]string{'' @ NL) (map snd ckrNames)), length ckrNames)"
    by (simp only: renderErrors_def Let_def CKR_rows length_map)
qed

end
