(* ===== verification/Spec2Isabelle.thy ===== *)
theory Spec2Isabelle
  imports P11_Properties Codec_Properties Genconst_Properties Locking_Properties Concurrent_Properties Pinning Genconst_Tables
begin

text \<open>
  A model of \<^verbatim>\<open>pkcs11-go\<close>, the Go binding to PKCS \#11 modules, and proofs of what it promises.

  The program has three parts.  The package \<^verbatim>\<open>cryptoki/\<close> loads a module, a shared library written by a token's
  vendor, and gives each entry point of its function list as a method of a \<open>Ctx\<close>: it copies arguments into C
  memory, builds the C structures, makes the call under a lock, copies results back, scrubs and frees what it
  allocated.  The package \<^verbatim>\<open>p11/\<close> puts modules, slots, sessions, objects and keys with their own locks and default
  attributes on top of it.  The command \<^verbatim>\<open>cmd/genconst\<close> generates the constants and name tables of \<^verbatim>\<open>cryptoki/\<close>
  from the C header.

  \<^bold>\<open>The state.\<close>  A Go computation takes a state to an outcome and a state (\<open>go\<close> in \<open>Go_Prelude\<close>): it returns, panics,
  crashes as Go's runtime does when the C library has no memory left, or faults.  A fault stands for undefined
  behaviour (a C object used after it was freed or read past its end) and for a lock that is never released; a contract
  excludes it.  The state \<open>world\<close> (\<open>Native\<close>) holds the C heap of typed blocks (\<open>CHeap\<close>), the module's own state, the loaded
  module, the \<open>RWMutex\<close> and the \<open>WaitGroup\<close> of the \<open>Ctx\<close>, the installed policy, the \<open>GCMParams\<close> objects and, to state
  properties, the calls the module has seen, how the lock was at each of them, and the blocks given back to the allocator.

  \<^bold>\<open>The module.\<close>  The loaded library is not part of the program and is a parameter, \<open>native\<close>: any function from its state
  and a call, with the arguments as it finds them in memory, to a reply and a state.  The named hypothesis
  \<open>conforming\<close> says that it writes within the buffers it was given; nothing is assumed of return values and lengths, which is
  where the binding has to defend itself.  A conforming module writes no GCM nonce through \<open>pIv\<close> during a call (\<open>owrites\<close> is
  empty); these writes are steps of their own in \<open>Gcm_Life\<close>.  Where the code relies on more, that is a hypothesis by name
  (\<open>honest_count\<close> and, for the three methods that return lists, \<open>counts_honestly\<close>; \<open>searching\<close>, \<open>two_pass\<close>).  The dynamic linker is a parameter too (\<open>linker\<close>), and so are \<open>go/format\<close>, the
  reading and writing of files, and the system calls \<open>mlock\<close> and \<open>munlock\<close>.

  \<^bold>\<open>Theories, in the order of the imports.\<close>
  \<^item> \<open>Constants\<close>, \<open>Errors\<close>, \<open>Types\<close>: \<^verbatim>\<open>zconst.go\<close>, \<^verbatim>\<open>errors.go\<close>, \<^verbatim>\<open>zerror.go\<close>, \<^verbatim>\<open>zattr.go\<close>, \<^verbatim>\<open>types.go\<close>.
  \<^item> \<open>Native\<close>, \<open>Contract\<close>, \<open>Examples\<close>: calls and replies, the state, \<open>wf\<close>, what an operation may change (\<open>frame\<close>), and
    \<open>refines\<close>: an operation implements a protocol, a relation on the module's state and the calls it saw.  \<open>Examples\<close> has
    modules to instantiate theorems.
  \<^item> \<open>ULong\<close>: \<open>ckULong\<close>, \<open>BytesToULong\<close>, \<open>NewAttribute\<close> on every width and byte order of a \<open>CK_ULONG\<close>.
  \<^item> \<open>Marshal\<close>, \<open>Two_Pass\<close>: \<^verbatim>\<open>marshal.go\<close>, with the two-pass protocol \<open>outOp\<close> and what it gives for particular modules.
  \<^item> \<open>Policy\<close>, \<open>Params\<close>, \<open>Gcm_Life\<close>: \<^verbatim>\<open>policy.go\<close>, \<^verbatim>\<open>params.go\<close>, \<open>cMechanism\<close>; the life of a \<open>GCMParams\<close> as a state machine.
    The digests a mechanism involves are specified apart from the code's tables, as a relation on the named constants
    (\<open>involved\<close>), and \<open>consulted_involved\<close> shows that the code asks the policy about these and no others.
  \<^item> \<open>Shim\<close>, \<open>Ctx\<close>, \<open>Lifecycle\<close>: \<^verbatim>\<open>shim.c\<close>, with one definition for each of its forwarders and the list it requires,
    \<^verbatim>\<open>binding.go\<close>, \<^verbatim>\<open>lifecycle.go\<close>.
  \<^item> \<open>Rules\<close>, \<open>Buffers\<close>: the composition rules by which a method's contract is read off its body.
  \<^item> \<open>Crypto\<close>, \<open>Sessions\<close>, \<open>Slots\<close>, \<open>Objects\<close>, \<open>AttrValues\<close>, \<open>Keys\<close>: the methods of \<open>Ctx\<close>, one lemma \<open>X_refines\<close> for each.
  \<^item> \<open>P11\<close>, \<open>P11_Laws\<close>, \<open>P11_Search\<close>, \<open>P11_Module\<close>: the package \<^verbatim>\<open>p11/\<close>.  The locale \<open>open_method\<close> is the common shape of its
    methods and is interpreted on each of them.
  \<^item> \<open>Programs\<close>: any sequence of calls on a \<open>Ctx\<close>.  \<open>Serial\<close>, \<open>Interleaving\<close>: goroutines that share one session of \<^verbatim>\<open>p11/\<close>;
    a method is cut into its calls of the \<open>Ctx\<close> (\<open>body\<close>), and \<open>cstep\<close> runs any number of them in every interleaving.
  \<^item> \<open>Pinning\<close>: \<open>Mlock\<close> and \<open>Munlock\<close>.
  \<^item> \<open>Genconst\<close>, \<open>Genconst_Laws\<close>, \<open>Genconst_Main\<close>: the generator, from a line to a file, and the program around it.
    \<open>Genconst_Tables\<close> runs it on the constants of \<^verbatim>\<open>zconst.go\<close> and finds the tables of \<^verbatim>\<open>zattr.go\<close> and \<^verbatim>\<open>zerror.go\<close>.
  \<^item> \<open>Locking\<close>: any number of goroutines inside the methods of one \<open>Ctx\<close>, as a step relation on lock, wait group, module
    pointer and library.  \<open>Concurrent\<close>: goroutines that run the methods themselves on the whole state.  A method is cut
    (\<open>ctx_step\<close>) at each operation of \<open>mu\<close> and \<open>waiters\<close> and where it enters and leaves its own work; run in a row the steps are
    the method, with the lock as the method has it at every call of the library; in any interleaving they are steps of
    \<open>Locking\<close>.  A slot-event wait may stay parked in the module; every schedule settles, and a parked wait holds up
    nothing but \<open>Destroy\<close>.
  \<^item> \<open>Binding_Properties\<close>, \<open>P11_Properties\<close>, \<open>Codec_Properties\<close>, \<open>Genconst_Properties\<close>, \<open>Locking_Properties\<close>,
    \<open>Concurrent_Properties\<close>: the properties.

  \<^bold>\<open>What the lemmas show.\<close>  \<open>refines (released pub) P m f\<close>: from a state with \<open>wf\<close> and \<open>P\<close> the operation \<open>m\<close> never faults or
  panics; unless an allocation is refused it returns, its result and the calls it made are allowed by the protocol \<open>f\<close>, the C
  heap, the lock and the Go side are as before (\<open>frame\<close>), and each block it released held zeros, what \<open>malloc\<close> returned,
  addresses and lengths, or bytes in \<open>pub\<close>, the data the code frees without scrubbing (labels, ciphertexts,
  signatures).  With \<open>pub\<close> empty nothing of the caller's data is left in freed memory.

  \<^bold>\<open>Bounds and fuel.\<close>  \<open>outOp\<close> is structural in its eight retries.  \<open>find_loop\<close>, the search loop of \<open>Session.FindObjects\<close> that the
  code does not bound, takes fuel; with a module whose search runs dry some fuel is enough and more changes nothing.  \<open>make\<close>
  panics above \<open>2 ^ 45\<close> words, the address space of the platform.  Schedules of \<open>n\<close> goroutines end within \<open>5 n\<close> steps
  when no method is started (\<open>Locking\<close>), and settle within six steps for each method they have to run (\<open>Concurrent\<close>).  A
  header line of the generator has less than \<open>2 ^ 20\<close> characters, the limit of its scanner.

  \<^bold>\<open>Conventions.\<close>  A Go \<open>uint\<close> and a \<open>CK_ULONG\<close> are 64-bit words except in \<open>ULong\<close>; strings that reach the module are byte lists.
  \<open>C.malloc\<close> and \<open>C.CBytes\<close> never return nil under cgo, the process ends instead (\<open>Crash\<close>); \<open>C.calloc\<close> may.  A scalar the
  module returns into a Go variable is part of the reply.  Of a \<open>CK_ATTRIBUTE\<close> the module sets the length and the bytes of the
  value, not its type or address.  The mapped libraries are a set: \<open>dlopen\<close>'s reference counts have no counterpart, and opening a
  library assumes that it is not mapped yet.  There is one \<open>Ctx\<close> in a state.  Outside \<open>Locking\<close>,
  \<open>Concurrent\<close> and \<open>Interleaving\<close> one goroutine runs at a time, and a lock it would wait for is a fault.  In \<open>Interleaving\<close> a
  goroutine that would fault or wait has no step; in \<open>Concurrent\<close> too, with a theorem that only waiting has none.  There the work
  of a method between two lock operations, its C calls included, is one step: its C blocks are its own, and the module serialises
  the calls it gets (\<open>CKF_OS_LOCKING_OK\<close>).  \<open>Locking\<close> lets a reader pass a waiting writer, which
  \<open>sync.RWMutex\<close> does not: it has more interleavings than the program.  The nil checks of methods on a nil \<open>*Ctx\<close> have no
  counterpart, as the state always holds one.

  \<^bold>\<open>Not modelled.\<close>  The Windows branches of \<^verbatim>\<open>shim.c\<close>; exhaustion of the Go heap; characters outside ASCII in a header, the
  time stamps of the generator's log and the wording of its fatal errors; accessors that return a field; tests, mock
  modules, C headers, build files and documents.
\<close>

section \<open>The two-pass protocol, in full\<close>

text \<open>C40: Encrypting copies the data into C memory, runs the two-pass protocol on it whatever the module answers, and then scrubs
  and releases the copy and every output buffer; heap and lock end as they began.\<close>

theorem Encrypt_contract:
  fixes w :: "'m world"
  assumes "wf w" and "modl w = Some md" and "fits64 data" and "\<not> oom w"
  shows "\<exists>x w'. Encrypt sh data w = (Ret x, w') \<and> frame (released {}) w w' \<and>
    (x, nview w') \<in> abs_outOp (abs_out md (Enc C_Encrypt) [SULong sh, data_view data]) (nview w)"
  using refines_no_oom [OF Encrypt_refines [OF assms(3), of "{}" "Some md" sh] assms(1,2,4)]
  by (simp add: abs_ctx_def)

theorem Encrypt_contract_witness:
  "\<exists>w'. Encrypt 5 [9, 8] toy_world = (Ret (Inr [1, 2, 3]), w') \<and> frame (released {}) toy_world w'"
proof -
  have "fits64 [9, 8 :: byte]" by (simp add: fits64_def)
  from Encrypt_contract [OF toy_wf toy_loaded this toy_no_oom, of 5]
  obtain x w' where e: "Encrypt 5 [9, 8] toy_world = (Ret x, w')" "frame (released {}) toy_world w'" by blast
  have "fst (Encrypt 5 [9, 8] toy_world) = Ret (Inr [1, 2, 3])" by (simp add: Encrypt_def toy_run)
  then show ?thesis using e by simp
qed

end
